(* ===== verification/Prelude.thy ===== *)
theory Prelude
  imports
    Main
    "HOL-Library.Word"
    "HOL-Library.AList"
    "HOL-Library.List_Lexorder"
    "HOL-Library.Product_Lexorder"
    "HOL-Library.Multiset"
begin

text \<open>
  Shared ground of the development: the machine integers of the Rust source, big-endian
  byte encodings, the hash maps (association lists with distinct keys, so that every
  theorem covers every iteration order), the clock as a function of call sites, and the
  interface locales the components share: state machines with an invariant, prefix codecs,
  and maps bounded by evicting the oldest entry.
\<close>

unbundle bit_operations_syntax

named_theorems hm_simps \<open>lookup and key facts of the hash map operations\<close>
named_theorems byte_simps \<open>byte encodings\<close>

section \<open>Machine integers\<close>

type_synonym u8 = "8 word"
type_synonym u16 = "16 word"
type_synonym u32 = "32 word"
type_synonym u64 = "64 word"
type_synonym bytes = "u8 list"

definition saturating_sub :: "'a::len word \<Rightarrow> 'a word \<Rightarrow> 'a word" where
  "saturating_sub a b = (if b \<le> a then a - b else 0)"

definition abs_diff :: "'a::len word \<Rightarrow> 'a word \<Rightarrow> 'a word" where
  "abs_diff a b = (if a < b then b - a else a - b)"

lemma unat_saturating_sub [simp]: "unat (saturating_sub a b) = unat a - unat b"
  by (auto simp: saturating_sub_def unat_sub word_le_nat_alt)

lemma unat_abs_diff:
  "unat (abs_diff a b) = (if unat a < unat b then unat b - unat a else unat a - unat b)"
  by (auto simp: abs_diff_def unat_sub word_le_nat_alt word_less_nat_alt)

lemma abs_diff_commute: "abs_diff a b = abs_diff b a"
  by (auto simp: abs_diff_def)

section \<open>Big-endian bytes\<close>

text \<open>\<open>be_bytes k n\<close> is \<open>to_be_bytes\<close> of an unsigned integer of \<open>k\<close> bytes,
  \<open>be_value\<close> the number that \<open>from_be_bytes\<close> reads.\<close>

primrec be_bytes :: "nat \<Rightarrow> nat \<Rightarrow> bytes" where
  "be_bytes 0 n = []"
| "be_bytes (Suc k) n = be_bytes k (n div 256) @ [of_nat n]"

definition be_value :: "bytes \<Rightarrow> nat" where
  "be_value bs = foldl (\<lambda>acc b. acc * 256 + unat b) 0 bs"

definition u16_be :: "u16 \<Rightarrow> bytes" where "u16_be w = be_bytes 2 (unat w)"
definition u32_be :: "u32 \<Rightarrow> bytes" where "u32_be w = be_bytes 4 (unat w)"
definition u64_be :: "u64 \<Rightarrow> bytes" where "u64_be w = be_bytes 8 (unat w)"
definition u16_of_be :: "bytes \<Rightarrow> u16" where "u16_of_be bs = of_nat (be_value bs)"
definition u32_of_be :: "bytes \<Rightarrow> u32" where "u32_of_be bs = of_nat (be_value bs)"

lemma length_be_bytes [simp]: "length (be_bytes k n) = k"
  by (induction k arbitrary: n) auto

lemma length_u_be [simp]:
  "length (u16_be a) = 2" "length (u32_be b) = 4" "length (u64_be c) = 8"
  by (simp_all add: u16_be_def u32_be_def u64_be_def)

lemma be_value_snoc: "be_value (bs @ [b]) = be_value bs * 256 + unat b"
  by (simp add: be_value_def)

lemma unat_of_nat_u8: "unat (of_nat n :: u8) = n mod 256"
  by (simp add: unat_of_nat)

lemma be_value_be_bytes: "be_value (be_bytes k n) = n mod 256 ^ k"
proof (induction k arbitrary: n)
  case 0
  then show ?case by (simp add: be_value_def)
next
  case (Suc k)
  have "n div 256 mod 256 ^ k * 256 + n mod 256 = n mod 256 ^ Suc k"
    by (simp add: mod_mult2_eq algebra_simps)
  then show ?case by (simp add: be_value_snoc Suc unat_of_nat_u8)
qed

lemma unat_lt_pow: "unat (w :: 'a::len word) < 2 ^ LENGTH('a)"
  by (rule unsigned_less)

lemma u16_of_be_u16_be [simp, byte_simps]: "u16_of_be (u16_be w) = w"
proof -
  have "unat w mod 256 ^ 2 = unat w" using unat_lt_pow [of w] by simp
  then show ?thesis unfolding u16_of_be_def u16_be_def be_value_be_bytes by simp
qed

lemma u32_of_be_u32_be [simp, byte_simps]: "u32_of_be (u32_be w) = w"
proof -
  have "unat w mod 256 ^ 4 = unat w" using unat_lt_pow [of w] by simp
  then show ?thesis unfolding u32_of_be_def u32_be_def be_value_be_bytes by simp
qed

lemma be_bytes_inj: "be_bytes k m = be_bytes k n \<Longrightarrow> m mod 256 ^ k = n mod 256 ^ k"
  by (metis be_value_be_bytes)

lemma u64_be_inj [simp]: "u64_be a = u64_be b \<longleftrightarrow> a = b"
proof
  assume "u64_be a = u64_be b"
  then have "unat a mod 256 ^ 8 = unat b mod 256 ^ 8"
    unfolding u64_be_def by (rule be_bytes_inj)
  moreover have "unat a < 256 ^ 8" "unat b < 256 ^ 8"
    using unat_lt_pow [of a] unat_lt_pow [of b] by simp_all
  ultimately have "unat a = unat b" by (simp only: mod_less)
  then show "a = b" by (simp only: word_unat_eq_iff)
qed simp

text \<open>Big-endian encodings of one width compare byte by byte as the numbers do.\<close>

lemma append_less_same_length:
  fixes xs ys us vs :: "'a::linorder list"
  assumes "length xs = length ys"
  shows "xs @ us < ys @ vs \<longleftrightarrow> xs < ys \<or> xs = ys \<and> us < vs"
  using assms by (induction xs ys rule: list_induct2) auto

lemma div_mod_less_iff:
  "m div 256 < n div 256 \<or> m div 256 = n div 256 \<and> m mod 256 < n mod 256 \<longleftrightarrow> m < (n::nat)"
proof -
  have "m = m div 256 * 256 + m mod 256" "n = n div 256 * 256 + n mod 256"
    and "m mod 256 < 256" "n mod 256 < 256" by simp_all
  then show ?thesis by (cases "m div 256" "n div 256" rule: linorder_cases) linarith+
qed

lemma be_bytes_less:
  "m < 256 ^ k \<Longrightarrow> n < 256 ^ k \<Longrightarrow> be_bytes k m < be_bytes k n \<longleftrightarrow> m < n"
proof (induction k arbitrary: m n)
  case 0
  then show ?case by simp
next
  case (Suc k)
  have div: "m div 256 < 256 ^ k" "n div 256 < 256 ^ k"
    using Suc.prems by (simp_all add: less_mult_imp_div_less)
  have eq: "be_bytes k (m div 256) = be_bytes k (n div 256) \<longleftrightarrow> m div 256 = n div 256"
    using div be_bytes_inj [of k "m div 256" "n div 256"] by auto
  have low: "(of_nat m :: u8) < of_nat n \<longleftrightarrow> m mod 256 < n mod 256"
    by (simp add: word_less_nat_alt unat_of_nat_u8)
  have "be_bytes (Suc k) m < be_bytes (Suc k) n \<longleftrightarrow>
      m div 256 < n div 256 \<or> m div 256 = n div 256 \<and> m mod 256 < n mod 256"
    using Suc.IH [OF div] by (simp add: append_less_same_length eq low)
  also have "\<dots> \<longleftrightarrow> m < n" by (rule div_mod_less_iff)
  finally show ?case .
qed

text \<open>\<open>bytes.get(pos..pos + n)\<close>.\<close>

definition get_range :: "bytes \<Rightarrow> nat \<Rightarrow> nat \<Rightarrow> bytes option" where
  "get_range bs pos n = (if pos + n \<le> length bs then Some (take n (drop pos bs)) else None)"

lemma get_range_append [simp]:
  "get_range (pre @ bs @ rest) (length pre) (length bs) = Some bs"
  by (simp add: get_range_def)

lemma get_range_Some: "get_range bs pos n = Some x \<Longrightarrow>
    length x = n \<and> pos + n \<le> length bs \<and> drop pos bs = x @ drop (pos + n) bs"
  by (auto simp: get_range_def split: if_splits) (metis append_take_drop_id drop_drop add.commute)

lemma be_bytes_be_value: "be_bytes (length bs) (be_value bs) = bs"
proof (induction bs rule: rev_induct)
  case (snoc b bs)
  have "unat b < 256" using unat_lt_pow [of b] by simp
  then have digits: "(be_value bs * 256 + unat b) div 256 = be_value bs" "(be_value bs * 256 + unat b) mod 256 = unat b"
    by simp_all
  have "(of_nat (be_value bs * 256 + unat b) :: u8) = b"
    by (simp only: word_unat_eq_iff unat_of_nat_u8 digits(2))
  then show ?case using snoc digits by (simp add: be_value_snoc)
qed simp

lemma be_value_less: "be_value bs < 256 ^ length bs"
proof (induction bs rule: rev_induct)
  case (snoc b bs)
  have "unat b < 256" using unat_lt_pow [of b] by simp
  with snoc show ?case by (simp add: be_value_snoc)
qed (simp add: be_value_def)

section \<open>Hash maps\<close>

text \<open>
  A \<open>HashMap\<close> is an association list with distinct keys (\<open>hm_wf\<close>). Its order is one
  possible iteration order of the map, which Rust leaves open; theorems quantify over
  all lists, so they hold for each of them.
\<close>

type_synonym ('k, 'v) hash_map = "('k \<times> 'v) list"

definition hm_wf :: "('k, 'v) hash_map \<Rightarrow> bool" where
  "hm_wf m = distinct (map fst m)"

definition hm_get :: "('k, 'v) hash_map \<Rightarrow> 'k \<Rightarrow> 'v option" where
  "hm_get m k = map_of m k"

definition hm_contains_key :: "('k, 'v) hash_map \<Rightarrow> 'k \<Rightarrow> bool" where
  "hm_contains_key m k = (hm_get m k \<noteq> None)"

definition hm_insert :: "'k \<Rightarrow> 'v \<Rightarrow> ('k, 'v) hash_map \<Rightarrow> ('k, 'v) hash_map" where
  "hm_insert k v m = AList.update k v m"

definition hm_remove :: "'k \<Rightarrow> ('k, 'v) hash_map \<Rightarrow> ('k, 'v) hash_map" where
  "hm_remove k m = filter (\<lambda>e. fst e \<noteq> k) m"

definition hm_retain :: "('k \<Rightarrow> 'v \<Rightarrow> bool) \<Rightarrow> ('k, 'v) hash_map \<Rightarrow> ('k, 'v) hash_map" where
  "hm_retain P m = filter (\<lambda>e. P (fst e) (snd e)) m"

definition hm_map_values :: "('v \<Rightarrow> 'v) \<Rightarrow> ('k, 'v) hash_map \<Rightarrow> ('k, 'v) hash_map" where
  "hm_map_values f m = map (\<lambda>e. (fst e, f (snd e))) m"

definition hm_keys :: "('k, 'v) hash_map \<Rightarrow> 'k list" where
  "hm_keys m = map fst m"

definition hm_values :: "('k, 'v) hash_map \<Rightarrow> 'v list" where
  "hm_values m = map snd m"

lemma hm_get_empty [simp, hm_simps]: "hm_get [] k = None"
  by (simp add: hm_get_def)

lemma hm_get_insert [simp, hm_simps]:
  "hm_get (hm_insert k v m) k' = (if k' = k then Some v else hm_get m k')"
  by (simp add: hm_get_def hm_insert_def update_conv')

lemma hm_get_remove [simp, hm_simps]:
  "hm_get (hm_remove k m) k' = (if k' = k then None else hm_get m k')"
  by (induction m) (auto simp: hm_get_def hm_remove_def)

lemma hm_get_map_values [simp, hm_simps]:
  "hm_get (hm_map_values f m) k = map_option f (hm_get m k)"
  by (induction m) (auto simp: hm_get_def hm_map_values_def)

lemma hm_get_None_iff: "hm_get m k = None \<longleftrightarrow> k \<notin> fst ` set m"
  by (simp add: hm_get_def map_of_eq_None_iff)

lemma hm_get_SomeD: "hm_get m k = Some v \<Longrightarrow> (k, v) \<in> set m"
  by (simp add: hm_get_def map_of_SomeD)

lemma hm_get_eq_Some: "hm_wf m \<Longrightarrow> hm_get m k = Some v \<longleftrightarrow> (k, v) \<in> set m"
  by (simp add: hm_get_def hm_wf_def map_of_eq_Some_iff)

lemma hm_wf_empty [simp]: "hm_wf []"
  by (simp add: hm_wf_def)

lemma hm_wf_insert [simp, intro]: "hm_wf m \<Longrightarrow> hm_wf (hm_insert k v m)"
  by (simp add: hm_wf_def hm_insert_def distinct_update)

lemma hm_wf_remove [simp, intro]: "hm_wf m \<Longrightarrow> hm_wf (hm_remove k m)"
  by (simp add: hm_wf_def hm_remove_def distinct_map_filter)

lemma hm_wf_retain [simp, intro]: "hm_wf m \<Longrightarrow> hm_wf (hm_retain P m)"
  by (simp add: hm_wf_def hm_retain_def distinct_map_filter)

lemma hm_wf_map_values [simp]: "hm_wf (hm_map_values f m) = hm_wf m"
  by (simp add: hm_wf_def hm_map_values_def o_def)

lemma hm_get_retain [hm_simps]:
  assumes "hm_wf m"
  shows "hm_get (hm_retain P m) k =
    (case hm_get m k of None \<Rightarrow> None | Some v \<Rightarrow> if P k v then Some v else None)"
proof (cases "hm_get m k")
  case None
  then have "hm_get (hm_retain P m) k = None" by (auto simp: hm_get_None_iff hm_retain_def)
  with None show ?thesis by simp
next
  case (Some v)
  then have in_m: "(k, v) \<in> set m" by (rule hm_get_SomeD)
  show ?thesis
  proof (cases "P k v")
    case True
    with in_m have "(k, v) \<in> set (hm_retain P m)" by (simp add: hm_retain_def)
    with True Some hm_wf_retain [OF assms] show ?thesis by (simp add: hm_get_eq_Some)
  next
    case False
    have "(k, v') \<notin> set (hm_retain P m)" for v'
    proof
      assume "(k, v') \<in> set (hm_retain P m)"
      then have "(k, v') \<in> set m" "P k v'" by (auto simp: hm_retain_def)
      with assms Some False show False by (auto simp: hm_get_eq_Some [symmetric])
    qed
    then have "hm_get (hm_retain P m) k = None" by (auto simp: hm_get_None_iff)
    with False Some show ?thesis by simp
  qed
qed

lemma hm_get_retain_Some:
  assumes "hm_wf m"
  shows "hm_get (hm_retain P m) k = Some v \<longleftrightarrow> hm_get m k = Some v \<and> P k v"
  using assms by (auto simp: hm_get_retain split: option.splits if_splits)

lemma set_hm_remove: "set (hm_remove k m) = {e \<in> set m. fst e \<noteq> k}"
  by (auto simp: hm_remove_def)

lemma set_hm_retain: "set (hm_retain P m) = {e \<in> set m. P (fst e) (snd e)}"
  by (auto simp: hm_retain_def)

lemma length_hm_retain_le: "length (hm_retain P m) \<le> length m"
  by (simp add: hm_retain_def)

lemma length_hm_map_values [simp]: "length (hm_map_values f m) = length m"
  by (simp add: hm_map_values_def)

lemma hm_keys_insert:
  "hm_keys (hm_insert k v m) = (if k \<in> set (hm_keys m) then hm_keys m else hm_keys m @ [k])"
  by (simp add: hm_keys_def hm_insert_def update_keys)

lemma length_hm_insert:
  "length (hm_insert k v m) = (if hm_contains_key m k then length m else Suc (length m))"
proof -
  have "length (hm_insert k v m) = length (hm_keys (hm_insert k v m))"
    by (simp add: hm_keys_def)
  also have "\<dots> = (if k \<in> set (hm_keys m) then length m else Suc (length m))"
    by (simp add: hm_keys_insert) (simp add: hm_keys_def)
  finally show ?thesis
    by (simp add: hm_contains_key_def hm_get_None_iff hm_keys_def)
qed

lemma length_hm_remove_less: "hm_contains_key m k \<Longrightarrow> length (hm_remove k m) < length m"
proof -
  assume "hm_contains_key m k"
  then obtain e where "e \<in> set m" "fst e = k"
    by (auto simp: hm_contains_key_def dest: hm_get_SomeD)
  then show ?thesis unfolding hm_remove_def by (auto intro: length_filter_less)
qed

lemma hm_insert_fresh: "k \<notin> fst ` set m \<Longrightarrow> hm_insert k v m = m @ [(k, v)]"
  by (induction m) (auto simp: hm_insert_def)

lemma card_hm_where_insert_other:
  assumes "\<not> P k v"
  shows "card {d. \<exists>x. hm_get (hm_insert k v m) d = Some x \<and> P d x}
    \<le> card {d. \<exists>x. hm_get m d = Some x \<and> P d x}"
proof (rule card_mono)
  show "finite {d. \<exists>x. hm_get m d = Some x \<and> P d x}"
    by (rule finite_subset [of _ "fst ` set m"]) (force dest: hm_get_SomeD)+
qed (use assms in \<open>auto split: if_splits\<close>)

lemma finite_hm_where: "finite {d. \<exists>x. hm_get m d = Some x \<and> P d x}"
  by (rule finite_subset [of _ "fst ` set m"]) (force dest: hm_get_SomeD)+

subsection \<open>The least entry: \<open>iter().min_by_key\<close>\<close>

text \<open>\<open>min_by_key\<close> returns the first of several minimal entries.\<close>

fun hm_min_by_key :: "('v \<Rightarrow> 't::linorder) \<Rightarrow> ('k, 'v) hash_map \<Rightarrow> ('k \<times> 'v) option" where
  "hm_min_by_key f [] = None"
| "hm_min_by_key f (e # m) =
    (case hm_min_by_key f m of
      None \<Rightarrow> Some e
    | Some e' \<Rightarrow> if f (snd e) \<le> f (snd e') then Some e else Some e')"

lemma hm_min_by_key_None [simp]: "hm_min_by_key f m = None \<longleftrightarrow> m = []"
  by (cases m) (auto split: option.splits)

lemma hm_min_by_key_in: "hm_min_by_key f m = Some e \<Longrightarrow> e \<in> set m"
  by (induction m arbitrary: e) (auto split: option.splits if_splits)

lemma hm_min_by_key_least:
  "hm_min_by_key f m = Some e \<Longrightarrow> e' \<in> set m \<Longrightarrow> f (snd e) \<le> f (snd e')"
proof (induction m arbitrary: e e')
  case Nil
  from Nil.prems(2) show ?case by simp
next
  case (Cons x m)
  show ?case
  proof (cases "hm_min_by_key f m")
    case None
    then have "m = []" by simp
    with Cons.prems show ?thesis by auto
  next
    case (Some y)
    from Cons.prems(1) Some have "e = (if f (snd x) \<le> f (snd y) then x else y)"
      by (simp split: if_splits)
    then have "f (snd e) \<le> f (snd x)" "f (snd e) \<le> f (snd y)"
      by (auto split: if_splits)
    moreover have "e' \<in> set m \<Longrightarrow> f (snd y) \<le> f (snd e')"
      using Cons.IH Some by blast
    ultimately show ?thesis using Cons.prems(2) by (auto intro: order_trans)
  qed
qed

section \<open>The clock\<close>

text \<open>
  A \<open>TimeSource\<close> may answer every call of \<open>now_millis\<close> differently, and one
  operation of the store calls it several times. A clock is therefore a function from
  call sites to readings: a call site is the path of calls that leads to it, and
  \<open>call i time\<close> is the clock handed to the \<open>i\<close>-th call an operation makes. Distinct calls
  have distinct paths, so any sequence of readings is some clock; \<open>frozen t\<close> is the clock
  that stands still at \<open>t\<close>.
\<close>

type_synonym time_source = "nat list \<Rightarrow> u64"

definition now_millis :: "time_source \<Rightarrow> u64" where
  "now_millis time = time []"

definition call :: "nat \<Rightarrow> time_source \<Rightarrow> time_source" where
  "call i time = (\<lambda>path. time (i # path))"

definition frozen :: "u64 \<Rightarrow> time_source" where
  "frozen t = (\<lambda>path. t)"

text \<open>All readings of a clock lie in an interval.\<close>

definition clock_between :: "u64 \<Rightarrow> u64 \<Rightarrow> time_source \<Rightarrow> bool" where
  "clock_between lo hi time = (\<forall>path. lo \<le> time path \<and> time path \<le> hi)"

lemma call_frozen [simp]: "call i (frozen t) = frozen t"
  by (simp add: call_def frozen_def)

lemma now_frozen [simp]: "now_millis (frozen t) = t"
  by (simp add: now_millis_def frozen_def)

lemma clock_between_call [simp, intro]: "clock_between lo hi time \<Longrightarrow> clock_between lo hi (call i time)"
  by (simp add: clock_between_def call_def)

lemma clock_between_now:
  "clock_between lo hi time \<Longrightarrow> lo \<le> now_millis time"
  "clock_between lo hi time \<Longrightarrow> now_millis time \<le> hi"
  by (simp_all add: clock_between_def now_millis_def)

lemma clock_between_frozen [simp]: "clock_between lo hi (frozen t) \<longleftrightarrow> lo \<le> t \<and> t \<le> hi"
  by (simp add: clock_between_def frozen_def)

section \<open>Interfaces\<close>

text \<open>A component driven by events, with an invariant every event keeps.\<close>

locale state_machine =
  fixes step :: "'s \<Rightarrow> 'e \<Rightarrow> 's"
    and init :: 's
    and inv :: "'s \<Rightarrow> bool"
  assumes inv_init: "inv init"
    and inv_step: "inv s \<Longrightarrow> inv (step s e)"
begin

lemma inv_run: "inv s \<Longrightarrow> inv (foldl step s es)"
proof (induction es arbitrary: s)
  case Nil
  then show ?case by simp
next
  case (Cons e es)
  from Cons.IH [OF inv_step [OF Cons.prems]] show ?case by simp
qed

lemma inv_from_init: "inv (foldl step init es)"
  by (rule inv_run) (rule inv_init)

end

text \<open>A table that never holds more than \<open>cap\<close> entries, whatever is admitted to it.\<close>

locale bounded_table =
  fixes cap :: nat
    and admit :: "('k, 'v) hash_map \<Rightarrow> 'e \<Rightarrow> ('k, 'v) hash_map"
  assumes admit_wf: "hm_wf m \<Longrightarrow> hm_wf (admit m e)"
    and admit_bound: "hm_wf m \<Longrightarrow> length m \<le> cap \<Longrightarrow> length (admit m e) \<le> cap"

sublocale bounded_table \<subseteq> state_machine admit "[]" "\<lambda>m. hm_wf m \<and> length m \<le> cap"
  by unfold_locales (auto intro: admit_wf admit_bound)

text \<open>
  An encoding whose decoder consumes exactly what the encoder wrote, whatever follows.
\<close>

locale prefix_codec =
  fixes enc :: "'a \<Rightarrow> 'b list"
    and dec :: "'b list \<Rightarrow> ('a \<times> 'b list) option"
    and ok :: "'a \<Rightarrow> bool"
  assumes dec_enc: "ok a \<Longrightarrow> dec (enc a @ rest) = Some (a, rest)"
begin

lemma enc_append_inj:
  assumes "ok a" "ok b" "enc a @ xs = enc b @ ys"
  shows "a = b \<and> xs = ys"
proof -
  have "dec (enc b @ ys) = Some (a, xs)"
    using dec_enc [OF assms(1), of xs] unfolding assms(3) .
  with dec_enc [OF assms(2), of ys] show ?thesis by simp
qed

lemma enc_inj: "ok a \<Longrightarrow> ok b \<Longrightarrow> enc a = enc b \<Longrightarrow> a = b"
  using enc_append_inj [of a b "[]" "[]"] by simp

lemma concat_enc_inj:
  assumes "\<forall>a\<in>set as. ok a" "\<forall>b\<in>set bs. ok b" "length as = length bs"
    and "concat (map enc as) @ xs = concat (map enc bs) @ ys"
  shows "as = bs \<and> xs = ys"
  using assms(3,1,2,4)
proof (induction as bs rule: list_induct2)
  case Nil
  then show ?case by simp
next
  case (Cons a as b bs)
  then have "enc a @ (concat (map enc as) @ xs) = enc b @ (concat (map enc bs) @ ys)"
    by simp
  with Cons.prems have "a = b \<and> concat (map enc as) @ xs = concat (map enc bs) @ ys"
    by (intro enc_append_inj) auto
  with Cons show ?case by simp
qed

end

end
