(* ===== verification/Rust_String.thy ===== *)
theory Rust_String
  imports Prelude
begin

text \<open>
  The parts of Rust's \<open>String\<close> and formatting the source uses. A \<open>char\<close> is its Unicode
  scalar value, a \<open>String\<close> the list of its chars (\<open>valid_str\<close> is the type's invariant:
  no surrogates, nothing above U+10FFFF); its bytes are \<open>utf8\<close>. \<open>utf8_step\<close> is one step of the
  standard library's decoder: the scalar it reads, or the length of the invalid chunk.
\<close>

type_synonym rstring = "nat list"

definition scalar :: "nat \<Rightarrow> bool" where
  "scalar c \<longleftrightarrow> c < 0xD800 \<or> 0xE000 \<le> c \<and> c < 0x110000"

definition valid_str :: "rstring \<Rightarrow> bool" where
  "valid_str s = list_all scalar s"

text \<open>A string literal of the source.\<close>

definition lit :: "string \<Rightarrow> rstring" where
  "lit s = map of_char s"

lemma valid_str_simps [simp]:
  "valid_str []"
  "valid_str (c # s) \<longleftrightarrow> scalar c \<and> valid_str s"
  "valid_str (s @ t) \<longleftrightarrow> valid_str s \<and> valid_str t"
  by (simp_all add: valid_str_def)

lemma valid_str_lit [simp]: "valid_str (lit s)"
proof -
  have "scalar (of_char c)" for c
  proof -
    have "(of_char c :: nat) < 256" by (rule nat_of_char_less_256)
    then have "(of_char c :: nat) < 0xD800" by linarith
    then show ?thesis unfolding scalar_def ..
  qed
  then show ?thesis by (simp add: valid_str_def lit_def list_all_iff)
qed

section \<open>UTF-8\<close>

definition utf8_char :: "nat \<Rightarrow> bytes" where
  "utf8_char c =
    (if c < 0x80 then [of_nat c]
     else if c < 0x800 then [of_nat (0xC0 + c div 64), of_nat (0x80 + c mod 64)]
     else if c < 0x10000 then
       [of_nat (0xE0 + c div 4096), of_nat (0x80 + c div 64 mod 64), of_nat (0x80 + c mod 64)]
     else
       [of_nat (0xF0 + c div 262144), of_nat (0x80 + c div 4096 mod 64),
        of_nat (0x80 + c div 64 mod 64), of_nat (0x80 + c mod 64)])"

definition utf8 :: "rstring \<Rightarrow> bytes" where
  "utf8 s = concat (map utf8_char s)"

text \<open>The byte at an index, 0 past the end, as the decoder's \<open>safe_get\<close> reads it.\<close>

definition byte_at :: "bytes \<Rightarrow> nat \<Rightarrow> nat" where
  "byte_at bs i = (if i < length bs then unat (bs ! i) else 0)"

definition in_range :: "nat \<Rightarrow> nat \<Rightarrow> nat \<Rightarrow> bool" where
  "in_range lo hi b \<longleftrightarrow> lo \<le> b \<and> b \<le> hi"

text \<open>\<open>(Some c, n)\<close>: a scalar of \<open>n\<close> bytes; \<open>(None, n)\<close>: an invalid chunk of \<open>n\<close> bytes.\<close>

definition utf8_step :: "bytes \<Rightarrow> nat option \<times> nat" where
  "utf8_step bs =
    (let b0 = byte_at bs 0; b1 = byte_at bs 1; b2 = byte_at bs 2; b3 = byte_at bs 3;
         cont = in_range 0x80 0xBF
     in if b0 < 0x80 then (Some b0, 1)
        else if in_range 0xC2 0xDF b0 then
          (if \<not> cont b1 then (None, 1)
           else (Some ((b0 - 0xC0) * 64 + (b1 - 0x80)), 2))
        else if in_range 0xE0 0xEF b0 then
          (if \<not> in_range (if b0 = 0xE0 then 0xA0 else 0x80) (if b0 = 0xED then 0x9F else 0xBF) b1
           then (None, 1)
           else if \<not> cont b2 then (None, 2)
           else (Some ((b0 - 0xE0) * 4096 + (b1 - 0x80) * 64 + (b2 - 0x80)), 3))
        else if in_range 0xF0 0xF4 b0 then
          (if \<not> in_range (if b0 = 0xF0 then 0x90 else 0x80) (if b0 = 0xF4 then 0x8F else 0xBF) b1
           then (None, 1)
           else if \<not> cont b2 then (None, 2)
           else if \<not> cont b3 then (None, 3)
           else (Some ((b0 - 0xF0) * 262144 + (b1 - 0x80) * 4096 + (b2 - 0x80) * 64 + (b3 - 0x80)), 4))
        else (None, 1))"

lemma utf8_step_pos: "0 < snd (utf8_step bs)"
  by (auto simp: utf8_step_def Let_def)

lemma utf8_step_posD: "(x, n) = utf8_step bs \<Longrightarrow> 0 < n" "utf8_step bs = (x, n) \<Longrightarrow> 0 < n"
  using utf8_step_pos [of bs] by (metis snd_conv)+

text \<open>\<open>str::from_utf8\<close>: strict; \<open>String::from_utf8_lossy\<close>: U+FFFD for each invalid chunk.\<close>

function from_utf8 :: "bytes \<Rightarrow> rstring option" where
  "from_utf8 bs =
    (if bs = [] then Some []
     else case utf8_step bs of
       (None, n) \<Rightarrow> None
     | (Some c, n) \<Rightarrow> map_option (Cons c) (from_utf8 (drop n bs)))"
  by pat_completeness auto
termination
  by (relation "measure length") (auto dest!: utf8_step_posD)

function from_utf8_lossy :: "bytes \<Rightarrow> rstring" where
  "from_utf8_lossy bs =
    (if bs = [] then []
     else case utf8_step bs of
       (None, n) \<Rightarrow> 0xFFFD # from_utf8_lossy (drop n bs)
     | (Some c, n) \<Rightarrow> c # from_utf8_lossy (drop n bs))"
  by pat_completeness auto
termination
  by (relation "measure length") (auto dest!: utf8_step_posD)

declare from_utf8.simps [simp del] from_utf8_lossy.simps [simp del]


subsection \<open>Encoding then decoding\<close>

lemma byte_at_simps [simp]:
  "byte_at (b # bs) 0 = unat b"
  "byte_at (a # b # bs) 1 = unat b"
  "byte_at (a # b # bs) (Suc 0) = unat b"
  "byte_at (a # b # c # bs) 2 = unat c"
  "byte_at (a # b # c # d # bs) 3 = unat d"
  by (simp_all add: byte_at_def numeral_2_eq_2 numeral_3_eq_3)

lemma unat_u8_small: "n < 256 \<Longrightarrow> unat (of_nat n :: u8) = n"
  by (simp add: unat_of_nat_u8)

lemma utf8_step_1: "c < 0x80 \<Longrightarrow> utf8_step (of_nat c # rest) = (Some c, 1)"
  by (simp add: utf8_step_def Let_def unat_u8_small)

lemma utf8_step_2:
  assumes "2 \<le> q" "q < 32" "r < 64"
  shows "utf8_step (of_nat (0xC0 + q) # of_nat (0x80 + r) # rest) = (Some (q * 64 + r), 2)"
  using assms unfolding utf8_step_def Let_def by (simp add: unat_u8_small in_range_def del: of_nat_add)

lemma utf8_step_3:
  assumes "q < 16" "r < 64" "t < 64" "q = 0 \<longrightarrow> 32 \<le> r" "q = 13 \<longrightarrow> r < 32"
  shows "utf8_step (of_nat (0xE0 + q) # of_nat (0x80 + r) # of_nat (0x80 + t) # rest)
    = (Some (q * 4096 + r * 64 + t), 3)"
  using assms unfolding utf8_step_def Let_def
  by (auto simp add: unat_u8_small in_range_def simp del: of_nat_add)

lemma utf8_step_4:
  assumes "q < 5" "r < 64" "t < 64" "u < 64" "q = 0 \<longrightarrow> 16 \<le> r" "q = 4 \<longrightarrow> r < 16"
  shows "utf8_step (of_nat (0xF0 + q) # of_nat (0x80 + r) # of_nat (0x80 + t) # of_nat (0x80 + u) # rest)
    = (Some (q * 262144 + r * 4096 + t * 64 + u), 4)"
  using assms unfolding utf8_step_def Let_def
  by (auto simp add: unat_u8_small in_range_def simp del: of_nat_add)

lemma div_64_64: "c div 4096 = c div 64 div (64::nat)" "c div 262144 = c div 64 div 64 div (64::nat)"
  by (simp_all add: div_mult2_eq [symmetric])

lemma utf8_step_char:
  assumes "scalar c"
  shows "utf8_step (utf8_char c @ rest) = (Some c, length (utf8_char c))"
proof -
  consider (1) "c < 0x80" | (2) "0x80 \<le> c" "c < 0x800" | (3) "0x800 \<le> c" "c < 0x10000"
    | (4) "0x10000 \<le> c" "c < 0x110000"
    using assms unfolding scalar_def by linarith
  then show ?thesis
  proof cases
    case 1
    then show ?thesis by (simp add: utf8_char_def utf8_step_1)
  next
    case 2
    then have "2 \<le> c div 64" "c div 64 < 32" "c mod 64 < 64" by linarith+
    from utf8_step_2 [OF this, of rest] 2 show ?thesis
      by (simp add: utf8_char_def del: of_nat_add)
  next
    case 3
    define m where "m = c div 64"
    have c: "c = m * 64 + c mod 64" "m = m div 64 * 64 + m mod 64" "c div 4096 = m div 64"
      by (simp_all only: m_def div_mult_mod_eq div_64_64)
    have "m mod 64 < 64" "c mod 64 < 64" by simp_all
    then have "m mod 64 < 64" "c mod 64 < 64" "m div 64 < 16" "m div 64 = 0 \<longrightarrow> 32 \<le> m mod 64"
      "m div 64 = 13 \<longrightarrow> m mod 64 < 32" "m div 64 * 4096 + m mod 64 * 64 + c mod 64 = c"
      using c(1,2) 3 assms unfolding scalar_def by linarith+
    then have "c div 64 mod 64 < 64" "c mod 64 < 64" "c div 4096 < 16"
      "c div 4096 = 0 \<longrightarrow> 32 \<le> c div 64 mod 64" "c div 4096 = 13 \<longrightarrow> c div 64 mod 64 < 32"
      "c div 4096 * 4096 + c div 64 mod 64 * 64 + c mod 64 = c"
      by (simp_all only: c(3) m_def)
    from utf8_step_3 [OF this(3,1,2,4,5), of rest] this(6) show ?thesis
      using 3 by (simp only: utf8_char_def) simp
  next
    case 4
    define m where "m = c div 64"
    define n where "n = m div 64"
    have c: "c = m * 64 + c mod 64" "m = n * 64 + m mod 64" "n = n div 64 * 64 + n mod 64"
      "c div 4096 = n" "c div 262144 = n div 64"
      by (simp_all only: m_def n_def div_mult_mod_eq div_64_64)
    have "n mod 64 < 64" "m mod 64 < 64" "c mod 64 < 64" by simp_all
    then have "n mod 64 < 64" "m mod 64 < 64" "c mod 64 < 64" "n div 64 < 5"
      "n div 64 = 0 \<longrightarrow> 16 \<le> n mod 64" "n div 64 = 4 \<longrightarrow> n mod 64 < 16"
      "n div 64 * 262144 + n mod 64 * 4096 + m mod 64 * 64 + c mod 64 = c"
      using c(1,2,3) 4 by linarith+
    then have "c div 4096 mod 64 < 64" "c div 64 mod 64 < 64" "c mod 64 < 64" "c div 262144 < 5"
      "c div 262144 = 0 \<longrightarrow> 16 \<le> c div 4096 mod 64" "c div 262144 = 4 \<longrightarrow> c div 4096 mod 64 < 16"
      "c div 262144 * 262144 + c div 4096 mod 64 * 4096 + c div 64 mod 64 * 64 + c mod 64 = c"
      by (simp_all only: c(4,5) m_def)
    from utf8_step_4 [OF this(4,1,2,3,5,6), of rest] this(7) show ?thesis
      using 4 by (simp only: utf8_char_def) simp
  qed
qed

lemma utf8_char_nonempty [simp]: "utf8_char c \<noteq> []"
  by (simp add: utf8_char_def)

lemma utf8_simps [simp]:
  "utf8 [] = []" "utf8 (c # s) = utf8_char c @ utf8 s" "utf8 (s @ t) = utf8 s @ utf8 t"
  by (simp_all add: utf8_def)

lemma utf8_eq_Nil [simp]: "utf8 s = [] \<longleftrightarrow> s = []"
  by (cases s) auto

lemma from_utf8_utf8 [simp]: "valid_str s \<Longrightarrow> from_utf8 (utf8 s) = Some s"
proof (induction s)
  case Nil
  then show ?case by (simp add: from_utf8.simps)
next
  case (Cons c s)
  then have "utf8_step (utf8 (c # s)) = (Some c, length (utf8_char c))"
    by (simp add: utf8_step_char)
  with Cons show ?case by (simp add: from_utf8.simps [of "utf8_char c @ utf8 s"])
qed

lemma from_utf8_lossy_utf8 [simp]: "valid_str s \<Longrightarrow> from_utf8_lossy (utf8 s) = s"
proof (induction s)
  case Nil
  then show ?case by (simp add: from_utf8_lossy.simps)
next
  case (Cons c s)
  then have "utf8_step (utf8 (c # s)) = (Some c, length (utf8_char c))"
    by (simp add: utf8_step_char)
  with Cons show ?case by (simp add: from_utf8_lossy.simps [of "utf8_char c @ utf8 s"])
qed

lemma utf8_inj: "valid_str s \<Longrightarrow> valid_str t \<Longrightarrow> utf8 s = utf8 t \<longleftrightarrow> s = t"
  by (metis from_utf8_utf8 option.inject)


definition utf8_next :: "bytes \<Rightarrow> (nat \<times> bytes) option" where
  "utf8_next bs =
    (case utf8_step bs of (None, n) \<Rightarrow> None | (Some c, n) \<Rightarrow> Some (c, drop n bs))"

interpretation utf8_codec: prefix_codec utf8_char utf8_next scalar
  by unfold_locales (simp add: utf8_next_def utf8_step_char)

subsection \<open>Decoding then encoding\<close>

text \<open>What the strict decoder accepts is the encoding of a valid string: no overlong forms,
  no surrogates.\<close>

lemma byte_at_pos: "0 < byte_at bs i \<Longrightarrow> i < length bs \<and> bs ! i = of_nat (byte_at bs i)"
  by (auto simp: byte_at_def split: if_splits)

lemma byte_at_less: "byte_at bs i < 256"
  using unat_lt_pow [of "bs ! i"] by (simp add: byte_at_def)

lemma take_step_bytes:
  assumes "i < length bs"
  shows "take (Suc i) bs = take i bs @ [bs ! i]"
  using assms by (rule take_Suc_conv_app_nth)

lemma pack64: "v < 64 \<Longrightarrow> (x * 64 + v) div 64 = (x::nat)" "v < 64 \<Longrightarrow> (x * 64 + v) mod 64 = (v::nat)"
  by simp_all

lemma utf8_step_Some:
  assumes "bs \<noteq> []" "utf8_step bs = (Some c, n)"
  shows "scalar c \<and> n \<le> length bs \<and> take n bs = utf8_char c"
proof -
  define b0 b1 b2 b3 where b: "b0 = byte_at bs 0" "b1 = byte_at bs 1" "b2 = byte_at bs 2" "b3 = byte_at bs 3"
  note step = assms(2) [unfolded utf8_step_def Let_def, folded b]
  have b0: "0 < length bs" "bs ! 0 = of_nat b0" using assms(1) by (auto simp: b byte_at_def)
  have b1: "1 < length bs \<and> bs ! 1 = of_nat b1" if "0x80 \<le> b1" using that byte_at_pos [of bs 1] by (simp add: b)
  have b2: "2 < length bs \<and> bs ! 2 = of_nat b2" if "0x80 \<le> b2" using that byte_at_pos [of bs 2] by (simp add: b)
  have b3: "3 < length bs \<and> bs ! 3 = of_nat b3" if "0x80 \<le> b3" using that byte_at_pos [of bs 3] by (simp add: b)
  have t: "take 1 bs = [bs ! 0]" using b0 by (simp add: take_Suc_conv_app_nth)
  have t2: "take 2 bs = [bs ! 0, bs ! 1]" if "1 < length bs"
    using that t take_step_bytes [of 1 bs] by (simp add: numeral_2_eq_2)
  have t3: "take 3 bs = [bs ! 0, bs ! 1, bs ! 2]" if "2 < length bs"
    using that t2 take_step_bytes [of 2 bs] by (simp add: numeral_3_eq_3)
  have t4: "take 4 bs = [bs ! 0, bs ! 1, bs ! 2, bs ! 3]" if "3 < length bs"
    using that t3 take_step_bytes [of 3 bs] by simp
  consider (1) "b0 < 0x80" | (2) "in_range 0xC2 0xDF b0" | (3) "in_range 0xE0 0xEF b0"
    | (4) "in_range 0xF0 0xF4 b0"
    using step by (auto split: if_splits)
  then show ?thesis
  proof cases
    case 1
    with step have "c = b0" "n = 1" by simp_all
    with 1 b0 t show ?thesis by (simp add: utf8_char_def scalar_def Suc_le_eq)
  next
    case 2
    with step have r: "0x80 \<le> b1" "b1 \<le> 0xBF" "c = (b0 - 0xC0) * 64 + (b1 - 0x80)" "n = 2"
      by (auto simp: in_range_def split: if_splits)
    obtain q where q: "b0 = 0xC0 + q" "2 \<le> q" "q < 32"
      using 2 le_Suc_ex [of "0xC0" b0] unfolding in_range_def by auto
    obtain u where u: "b1 = 0x80 + u" "u < 64"
      using r le_Suc_ex [of "0x80" b1] by auto
    have c: "c = q * 64 + u" "c div 64 = q" "c mod 64 = u" using r(3) q u by simp_all
    have "0x80 \<le> c" "c < 0x800" using q u unfolding c(1) by simp_all
    then have "utf8_char c = [of_nat b0, of_nat b1]" "scalar c"
      using q u c(2,3) by (simp_all add: utf8_char_def scalar_def)
    with r(1,4) b0 b1 t2 show ?thesis by simp
  next
    case 3
    with step have r: "in_range (if b0 = 0xE0 then 0xA0 else 0x80) (if b0 = 0xED then 0x9F else 0xBF) b1"
      "0x80 \<le> b2" "b2 \<le> 0xBF" "c = (b0 - 0xE0) * 4096 + (b1 - 0x80) * 64 + (b2 - 0x80)" "n = 3"
      by (auto simp: in_range_def split: if_splits)
    then have b1': "0x80 \<le> b1" "b1 \<le> 0xBF" by (auto simp: in_range_def split: if_splits)
    obtain q where q: "b0 = 0xE0 + q" "q < 16"
      using 3 le_Suc_ex [of "0xE0" b0] unfolding in_range_def by auto
    obtain u where u: "b1 = 0x80 + u" "u < 64" using b1' le_Suc_ex [of "0x80" b1] by auto
    obtain v where v: "b2 = 0x80 + v" "v < 64" using r(2,3) le_Suc_ex [of "0x80" b2] by auto
    have lim: "q = 0 \<longrightarrow> 32 \<le> u" "q = 13 \<longrightarrow> u < 32"
      using r(1) q u by (auto simp: in_range_def split: if_splits)
    have m: "c = (q * 64 + u) * 64 + v" using r(4) q u v by simp
    then have c: "c div 64 = q * 64 + u" "c mod 64 = v" "c div 4096 = q"
      using u(2) v(2) by (simp_all only: m div_64_64 pack64)
    have "0x800 \<le> c" using lim v(2) unfolding m by (cases "q = 0") simp_all
    moreover have "c < 0x10000" using q(2) u(2) v(2) unfolding m by simp
    moreover have "scalar c"
    proof (cases "q \<le> 13")
      case True
      with lim u(2) have "q * 64 + u < 13 * 64 + 32" by (cases "q = 13") simp_all
      with v(2) have "c < 0xD800" unfolding m by simp
      then show ?thesis by (simp add: scalar_def)
    next
      case False
      then have "0xE000 \<le> c" unfolding m by simp
      with \<open>c < 0x10000\<close> show ?thesis by (simp add: scalar_def)
    qed
    ultimately
    have "utf8_char c = [of_nat b0, of_nat b1, of_nat b2]" "scalar c"
      using q u v c by (simp_all add: utf8_char_def)
    with r(2,5) b1' b0 b1 b2 t3 show ?thesis by simp
  next
    case 4
    with step have r: "in_range (if b0 = 0xF0 then 0x90 else 0x80) (if b0 = 0xF4 then 0x8F else 0xBF) b1"
      "0x80 \<le> b2" "b2 \<le> 0xBF" "0x80 \<le> b3" "b3 \<le> 0xBF"
      "c = (b0 - 0xF0) * 262144 + (b1 - 0x80) * 4096 + (b2 - 0x80) * 64 + (b3 - 0x80)" "n = 4"
      by (auto simp: in_range_def split: if_splits)
    then have b1': "0x80 \<le> b1" "b1 \<le> 0xBF" by (auto simp: in_range_def split: if_splits)
    obtain q where q: "b0 = 0xF0 + q" "q < 5"
      using 4 le_Suc_ex [of "0xF0" b0] unfolding in_range_def by auto
    obtain u where u: "b1 = 0x80 + u" "u < 64" using b1' le_Suc_ex [of "0x80" b1] by auto
    obtain v where v: "b2 = 0x80 + v" "v < 64" using r(2,3) le_Suc_ex [of "0x80" b2] by auto
    obtain w where w: "b3 = 0x80 + w" "w < 64" using r(4,5) le_Suc_ex [of "0x80" b3] by auto
    have lim: "q = 0 \<longrightarrow> 16 \<le> u" "q = 4 \<longrightarrow> u < 16"
      using r(1) q u by (auto simp: in_range_def split: if_splits)
    have m: "c = ((q * 64 + u) * 64 + v) * 64 + w" using r(6) q u v w by simp
    then have c: "c div 64 mod 64 = v" "c mod 64 = w" "c div 4096 mod 64 = u"
      "c div 262144 = q" using u(2) v(2) w(2) by (simp_all only: m div_64_64 pack64)
    have "0x10000 \<le> c" using lim unfolding m by (cases "q = 0") simp_all
    moreover have "c < 0x110000" using lim q(2) u(2) v(2) w(2) unfolding m by (cases "q = 4") simp_all
    ultimately have "0x10000 \<le> c" "scalar c" unfolding scalar_def by simp_all
    then have "utf8_char c = [of_nat b0, of_nat b1, of_nat b2, of_nat b3]" "scalar c"
      using q u v w c by (simp_all add: utf8_char_def)
    with r(2,4,7) b1' b0 b1 b2 b3 t4 show ?thesis by simp
  qed
qed

lemma from_utf8_Some: "from_utf8 bs = Some s \<Longrightarrow> valid_str s \<and> utf8 s = bs"
proof (induction bs arbitrary: s rule: from_utf8.induct)
  case (1 bs)
  show ?case
  proof (cases "bs = []")
    case True
    with 1(2) show ?thesis by (simp add: from_utf8.simps)
  next
    case False
    with 1(2) obtain c n s' where st: "utf8_step bs = (Some c, n)"
      and s': "from_utf8 (drop n bs) = Some s'" "s = c # s'"
      by (auto simp: from_utf8.simps [of bs] split: prod.splits option.splits)
    have "valid_str s' \<and> utf8 s' = drop n bs"
      using 1(1) [OF False st [symmetric] refl s'(1)] .
    moreover have "scalar c \<and> take n bs = utf8_char c" using utf8_step_Some [OF False st] by simp
    ultimately show ?thesis using s'(2) by (metis append_take_drop_id utf8_simps(2) valid_str_simps(2))
  qed
qed


subsection \<open>Byte order is scalar order\<close>

text \<open>\<open>String\<close> compares by its UTF-8 bytes; on valid strings this is the order of the scalars.\<close>

lemma of_nat_u8_less: "m < 256 \<Longrightarrow> n < 256 \<Longrightarrow> (of_nat m :: u8) < of_nat n \<longleftrightarrow> m < n"
  by (simp add: word_less_nat_alt unat_u8_small)

lemma of_nat_u8_eq: "m < 256 \<Longrightarrow> n < 256 \<Longrightarrow> (of_nat m :: u8) = of_nat n \<longleftrightarrow> m = n"
  by (simp add: word_unat_eq_iff unat_u8_small)

lemma less_base64: "(c::nat) < d \<longleftrightarrow> c div 64 < d div 64 \<or> c div 64 = d div 64 \<and> c mod 64 < d mod 64"
proof -
  have "c = c div 64 * 64 + c mod 64" "d = d div 64 * 64 + d mod 64"
    and "c mod 64 < 64" "d mod 64 < 64" by simp_all
  then show ?thesis by (cases "c div 64" "d div 64" rule: linorder_cases) linarith+
qed

lemma eq_base64: "(c::nat) = d \<longleftrightarrow> c div 64 = d div 64 \<and> c mod 64 = d mod 64"
  by (metis div_mult_mod_eq)

definition utf8_class :: "nat \<Rightarrow> nat" where
  "utf8_class c = (if c < 0x80 then 1 else if c < 0x800 then 2 else if c < 0x10000 then 3 else 4)"

lemma utf8_class_cases:
  assumes "scalar c"
  obtains
    "utf8_class c = 1" "c < 0x80" "utf8_char c = [of_nat c]"
  | "utf8_class c = 2" "2 \<le> c div 64" "c div 64 < 32"
    "utf8_char c = [of_nat (0xC0 + c div 64), of_nat (0x80 + c mod 64)]"
  | "utf8_class c = 3" "c div 64 div 64 < 16"
    "utf8_char c = [of_nat (0xE0 + c div 64 div 64), of_nat (0x80 + c div 64 mod 64), of_nat (0x80 + c mod 64)]"
  | "utf8_class c = 4" "c div 64 div 64 div 64 < 5"
    "utf8_char c = [of_nat (0xF0 + c div 64 div 64 div 64), of_nat (0x80 + c div 64 div 64 mod 64),
      of_nat (0x80 + c div 64 mod 64), of_nat (0x80 + c mod 64)]"
proof -
  have four: "c div 64 div 64 div 64 < 5" "c < 0x10000 \<Longrightarrow> c div 64 div 64 < 16"
    "\<not> c < 0x80 \<Longrightarrow> 2 \<le> c div 64" "c < 0x800 \<Longrightarrow> c div 64 < 32"
    using assms unfolding scalar_def div_64_64 [symmetric] by linarith+
  consider (1) "c < 0x80" | (2) "\<not> c < 0x80" "c < 0x800" | (3) "\<not> c < 0x800" "c < 0x10000"
    | (4) "\<not> c < 0x10000" by linarith
  then show thesis
  proof cases
    case 1
    with that(1) show thesis by (simp add: utf8_class_def utf8_char_def)
  next
    case 2
    with that(2) four show thesis by (simp add: utf8_class_def utf8_char_def)
  next
    case 3
    then have "\<not> c < 0x80" by linarith
    with 3 that(3) four(2) show thesis by (simp only: utf8_class_def utf8_char_def div_64_64 if_True if_False simp_thms)
  next
    case 4
    then have "\<not> c < 0x80" "\<not> c < 0x800" by linarith+
    with 4 that(4) four(1) show thesis by (simp only: utf8_class_def utf8_char_def div_64_64 if_True if_False simp_thms)
  qed
qed

lemma utf8_class_mono: "c < d \<Longrightarrow> utf8_class c \<le> utf8_class d"
  by (auto simp: utf8_class_def)

lemma head_byte_less:
  assumes "scalar c" "scalar d" "utf8_class c < utf8_class d"
  shows "hd (utf8_char c) < hd (utf8_char d)"
  by (rule utf8_class_cases [OF assms(1)]; rule utf8_class_cases [OF assms(2)])
    (use assms(3) in \<open>simp_all add: of_nat_u8_less del: of_nat_add\<close>)

lemma less_by_head: "hd xs < hd ys \<Longrightarrow> xs \<noteq> [] \<Longrightarrow> ys \<noteq> [] \<Longrightarrow> xs @ us < ys @ vs"
  by (cases xs; cases ys) auto

lemma seq2_less:
  assumes "q < 64" "q' < 64" "u < 64" "u' < 64" "q < q' \<or> q = q' \<and> u < u'"
  shows "[of_nat (0xC0 + q), of_nat (0x80 + u)] @ xs < ([of_nat (0xC0 + q'), of_nat (0x80 + u')] :: bytes) @ ys"
  using assms by (auto simp add: of_nat_u8_less of_nat_u8_eq simp del: of_nat_add)

lemma seq3_less:
  assumes "q < 16" "q' < 16" "u < 64" "u' < 64" "v < 64" "v' < 64"
    "q < q' \<or> q = q' \<and> (u < u' \<or> u = u' \<and> v < v')"
  shows "[of_nat (0xE0 + q), of_nat (0x80 + u), of_nat (0x80 + v)] @ xs
    < ([of_nat (0xE0 + q'), of_nat (0x80 + u'), of_nat (0x80 + v')] :: bytes) @ ys"
  using assms by (auto simp add: of_nat_u8_less of_nat_u8_eq simp del: of_nat_add)

lemma seq4_less:
  assumes "q < 5" "q' < 5" "u < 64" "u' < 64" "v < 64" "v' < 64" "w < 64" "w' < 64"
    "q < q' \<or> q = q' \<and> (u < u' \<or> u = u' \<and> (v < v' \<or> v = v' \<and> w < w'))"
  shows "[of_nat (0xF0 + q), of_nat (0x80 + u), of_nat (0x80 + v), of_nat (0x80 + w)] @ xs
    < ([of_nat (0xF0 + q'), of_nat (0x80 + u'), of_nat (0x80 + v'), of_nat (0x80 + w')] :: bytes) @ ys"
  using assms by (auto simp add: of_nat_u8_less of_nat_u8_eq simp del: of_nat_add)

lemma utf8_char_less:
  assumes "scalar c" "scalar d" "c < d"
  shows "utf8_char c @ xs < utf8_char d @ ys"
proof (cases "utf8_class c < utf8_class d")
  case True
  with assms(1,2) show ?thesis by (intro less_by_head head_byte_less) auto
next
  case False
  then have same: "utf8_class c = utf8_class d"
    using utf8_class_mono [OF assms(3)] by simp
  have one: "c div 64 < d div 64 \<or> c div 64 = d div 64 \<and> c mod 64 < d mod 64"
    using assms(3) less_base64 by blast
  then have two: "c div 64 div 64 < d div 64 div 64 \<or> c div 64 div 64 = d div 64 div 64 \<and>
      (c div 64 mod 64 < d div 64 mod 64 \<or> c div 64 mod 64 = d div 64 mod 64 \<and> c mod 64 < d mod 64)"
    using less_base64 [of "c div 64" "d div 64"] eq_base64 [of "c div 64" "d div 64"] by blast
  then have three: "c div 64 div 64 div 64 < d div 64 div 64 div 64 \<or>
      c div 64 div 64 div 64 = d div 64 div 64 div 64 \<and>
      (c div 64 div 64 mod 64 < d div 64 div 64 mod 64 \<or>
       c div 64 div 64 mod 64 = d div 64 div 64 mod 64 \<and>
       (c div 64 mod 64 < d div 64 mod 64 \<or> c div 64 mod 64 = d div 64 mod 64 \<and> c mod 64 < d mod 64))"
    using less_base64 [of "c div 64 div 64" "d div 64 div 64"]
      eq_base64 [of "c div 64 div 64" "d div 64 div 64"] by blast
  have m: "x mod 64 < 64" for x :: nat by simp
  show ?thesis
  proof (rule utf8_class_cases [OF assms(1)])
    assume c: "utf8_class c = 1" "c < 0x80" "utf8_char c = [of_nat c]"
    have d: "d < 0x80" "utf8_char d = [of_nat d]"
      by (rule utf8_class_cases [OF assms(2)]; use same c(1) in simp)+
    from c(2) d(1) assms(3) show ?thesis unfolding c(3) d(2) by (simp add: of_nat_u8_less)
  next
    assume c: "utf8_class c = 2" "c div 64 < 32"
      "utf8_char c = [of_nat (0xC0 + c div 64), of_nat (0x80 + c mod 64)]"
    have d: "d div 64 < 32" "utf8_char d = [of_nat (0xC0 + d div 64), of_nat (0x80 + d mod 64)]"
      by (rule utf8_class_cases [OF assms(2)]; use same c(1) in simp)+
    from c(2) d(1) have "c div 64 < 64" "d div 64 < 64" by simp_all
    from seq2_less [OF this m m one] show ?thesis unfolding c(3) d(2) .
  next
    assume c: "utf8_class c = 3" "c div 64 div 64 < 16" "utf8_char c =
      [of_nat (0xE0 + c div 64 div 64), of_nat (0x80 + c div 64 mod 64), of_nat (0x80 + c mod 64)]"
    have d: "d div 64 div 64 < 16" "utf8_char d =
      [of_nat (0xE0 + d div 64 div 64), of_nat (0x80 + d div 64 mod 64), of_nat (0x80 + d mod 64)]"
      by (rule utf8_class_cases [OF assms(2)]; use same c(1) in simp)+
    from seq3_less [OF c(2) d(1) m m m m two] show ?thesis unfolding c(3) d(2) .
  next
    assume c: "utf8_class c = 4" "c div 64 div 64 div 64 < 5" "utf8_char c =
      [of_nat (0xF0 + c div 64 div 64 div 64), of_nat (0x80 + c div 64 div 64 mod 64),
       of_nat (0x80 + c div 64 mod 64), of_nat (0x80 + c mod 64)]"
    have d: "d div 64 div 64 div 64 < 5" "utf8_char d =
      [of_nat (0xF0 + d div 64 div 64 div 64), of_nat (0x80 + d div 64 div 64 mod 64),
       of_nat (0x80 + d div 64 mod 64), of_nat (0x80 + d mod 64)]"
      by (rule utf8_class_cases [OF assms(2)]; use same c(1) in simp)+
    from seq4_less [OF c(2) d(1) m m m m m m three] show ?thesis unfolding c(3) d(2) .
  qed
qed

lemma utf8_strict_mono: "valid_str s \<Longrightarrow> valid_str t \<Longrightarrow> s < t \<Longrightarrow> utf8 s < utf8 t"
proof (induction s arbitrary: t)
  case Nil
  then show ?case by (cases t) (auto simp: neq_Nil_conv intro: le_neq_trans)
next
  case (Cons c s)
  then obtain d t' where t: "t = d # t'" by (cases t) auto
  with Cons.prems consider "c < d" | "c = d" "s < t'" by auto
  then show ?case
  proof cases
    case 1
    with Cons.prems t show ?thesis by (simp add: utf8_char_less)
  next
    case 2
    with Cons t show ?thesis by (simp add: append_less_same_length)
  qed
qed

lemma utf8_less_iff: "valid_str s \<Longrightarrow> valid_str t \<Longrightarrow> utf8 s < utf8 t \<longleftrightarrow> s < t"
  by (metis less_asym linorder_less_linear utf8_strict_mono)


section \<open>Splitting, trimming, lower case\<close>

text \<open>\<open>str::split(sep)\<close> for a char separator, and \<open>slice::join\<close> with it.\<close>

fun split_on :: "nat \<Rightarrow> rstring \<Rightarrow> rstring list" where
  "split_on sep [] = [[]]"
| "split_on sep (c # s) =
    (if c = sep then [] # split_on sep s
     else (case split_on sep s of [] \<Rightarrow> [[c]] | l # ls \<Rightarrow> (c # l) # ls))"

fun join_with :: "nat \<Rightarrow> rstring list \<Rightarrow> rstring" where
  "join_with sep [] = []"
| "join_with sep [l] = l"
| "join_with sep (l # ls) = l @ sep # join_with sep ls"

lemma split_on_nonempty [simp]: "split_on sep s \<noteq> []"
  by (induction s) (auto split: list.splits)

lemma join_with_Cons: "ls \<noteq> [] \<Longrightarrow> join_with sep (l # ls) = l @ sep # join_with sep ls"
  by (cases ls) auto

lemma join_with_Cons_head: "join_with sep ((c # l) # ls) = c # join_with sep (l # ls)"
  by (cases ls) auto

lemma join_split [simp]: "join_with sep (split_on sep s) = s"
proof (induction s)
  case Nil
  then show ?case by simp
next
  case (Cons c s)
  obtain l ls where "split_on sep s = l # ls" by (meson neq_Nil_conv split_on_nonempty)
  with Cons show ?case by (simp add: join_with_Cons join_with_Cons_head)
qed

lemma split_on_no_sep: "l \<in> set (split_on sep s) \<Longrightarrow> sep \<notin> set l"
  by (induction s arbitrary: l) (fastforce split: list.splits if_splits)+

lemma split_on_valid: "valid_str s \<Longrightarrow> l \<in> set (split_on sep s) \<Longrightarrow> valid_str l"
  by (induction s arbitrary: l) (fastforce split: list.splits if_splits)+

lemma split_on_plain: "sep \<notin> set l \<Longrightarrow> split_on sep l = [l]"
  by (induction l) auto

lemma split_on_append: "sep \<notin> set l \<Longrightarrow> split_on sep (l @ sep # s) = l # split_on sep s"
  by (induction l) auto

lemma split_join: "ls \<noteq> [] \<Longrightarrow> \<forall>l\<in>set ls. sep \<notin> set l \<Longrightarrow> split_on sep (join_with sep ls) = ls"
  by (induction sep ls rule: join_with.induct) (auto simp: split_on_plain split_on_append)

text \<open>Unicode \<open>White_Space\<close>, which \<open>char::is_whitespace\<close> and \<open>trim\<close> use.\<close>

definition is_whitespace :: "nat \<Rightarrow> bool" where
  "is_whitespace c \<longleftrightarrow>
    0x09 \<le> c \<and> c \<le> 0x0D \<or> c = 0x20 \<or> c = 0x85 \<or> c = 0xA0 \<or> c = 0x1680 \<or>
    0x2000 \<le> c \<and> c \<le> 0x200A \<or> c = 0x2028 \<or> c = 0x2029 \<or> c = 0x202F \<or> c = 0x205F \<or> c = 0x3000"

definition trim :: "rstring \<Rightarrow> rstring" where
  "trim s = rev (dropWhile is_whitespace (rev (dropWhile is_whitespace s)))"

definition trim_end_matches :: "nat \<Rightarrow> rstring \<Rightarrow> rstring" where
  "trim_end_matches c s = rev (dropWhile (\<lambda>x. x = c) (rev s))"

definition ascii_lower :: "nat \<Rightarrow> nat" where
  "ascii_lower c = (if 65 \<le> c \<and> c \<le> 90 then c + 32 else c)"

definition to_ascii_lowercase :: "rstring \<Rightarrow> rstring" where
  "to_ascii_lowercase s = map ascii_lower s"

section \<open>Numbers as text\<close>

text \<open>\<open>format!("{n}")\<close> of an unsigned integer, and \<open>{b:02x}\<close> of a byte.\<close>

fun show_nat :: "nat \<Rightarrow> rstring" where
  "show_nat n = (if n < 10 then [48 + n] else show_nat (n div 10) @ [48 + n mod 10])"

declare show_nat.simps [simp del]

definition digit_value :: "rstring \<Rightarrow> nat" where
  "digit_value ds = foldl (\<lambda>acc d. acc * 10 + (d - 48)) 0 ds"

lemma digit_value_show_nat [simp]: "digit_value (show_nat n) = n"
proof (induction n rule: show_nat.induct)
  case (1 n)
  then show ?case
    by (cases "n < 10") (simp_all add: show_nat.simps [of n] digit_value_def)
qed

lemma show_nat_inj [simp]: "show_nat m = show_nat n \<longleftrightarrow> m = n"
  by (metis digit_value_show_nat)

lemma show_nat_digits: "d \<in> set (show_nat n) \<Longrightarrow> 48 \<le> d \<and> d \<le> 57"
proof (induction n rule: show_nat.induct)
  case (1 n)
  then show ?case by (cases "n < 10") (auto simp: show_nat.simps [of n])
qed

lemma show_nat_nonempty [simp]: "show_nat n \<noteq> []"
  by (simp add: show_nat.simps [of n])

lemma valid_str_show_nat [simp]: "valid_str (show_nat n)"
  by (force simp: valid_str_def list_all_iff scalar_def dest: show_nat_digits)

definition hex_digit :: "nat \<Rightarrow> nat" where
  "hex_digit d = (if d < 10 then 48 + d else 87 + d)"

definition hex_byte :: "u8 \<Rightarrow> rstring" where
  "hex_byte b = [hex_digit (unat b div 16), hex_digit (unat b mod 16)]"

lemma hex_digit_inj: "a < 16 \<Longrightarrow> b < 16 \<Longrightarrow> hex_digit a = hex_digit b \<longleftrightarrow> a = b"
  by (auto simp: hex_digit_def)

lemma hex_byte_inj [simp]: "hex_byte a = hex_byte b \<longleftrightarrow> a = b"
proof
  assume h: "hex_byte a = hex_byte b"
  have "unat a div 16 < 16" "unat b div 16 < 16"
    using unat_lt_pow [of a] unat_lt_pow [of b] by simp_all
  with h have "unat a div 16 = unat b div 16" "unat a mod 16 = unat b mod 16"
    by (simp_all add: hex_byte_def hex_digit_inj)
  then have "unat a = unat b" by (metis div_mult_mod_eq)
  then show "a = b" by (simp only: word_unat_eq_iff)
qed simp

end
