(* ===== verification/Domain.thy ===== *)
theory Domain
  imports Rust_String
begin

text \<open>
  \<open>binda-core/src/domain.rs\<close>: the tuple struct \<open>DomainName(String)\<close>, its validating
  constructor and its labels. The derived \<open>Ord\<close> compares the strings; \<open>domain_less_utf8\<close>
  shows that this is the byte order Rust uses.
\<close>

datatype domain_name = DomainName (as_str: rstring)

datatype domain_name_error = Empty | NonPrintableChar nat | EmptyLabel

abbreviation dot :: nat where "dot \<equiv> 46"

text \<open>\<open>char::is_control\<close>: general category Cc.\<close>

definition is_control :: "nat \<Rightarrow> bool" where
  "is_control c \<longleftrightarrow> c \<le> 0x1F \<or> 0x7F \<le> c \<and> c \<le> 0x9F"

definition refused_char :: "nat \<Rightarrow> bool" where
  "refused_char c \<longleftrightarrow> is_control c \<or> c = 0x20"

text \<open>The loop over \<open>char_indices\<close>: the byte offset of the first refused character.\<close>

fun first_refused :: "nat \<Rightarrow> rstring \<Rightarrow> nat option" where
  "first_refused offset [] = None"
| "first_refused offset (c # s) =
    (if refused_char c then Some offset
     else first_refused (offset + length (utf8_char c)) s)"

definition domain_new :: "rstring \<Rightarrow> domain_name_error + domain_name" where
  "domain_new raw =
    (if raw = [] then Inl Empty
     else case first_refused 0 raw of
       Some offset \<Rightarrow> Inl (NonPrintableChar offset)
     | None \<Rightarrow>
         if list_ex (\<lambda>label. label = []) (split_on dot raw) then Inl EmptyLabel
         else Inr (DomainName raw))"

definition labels :: "domain_name \<Rightarrow> rstring list" where
  "labels d = split_on dot (as_str d)"

text \<open>\<open>Display\<close>, \<open>TryFrom<&str>\<close> and the messages of the \<open>thiserror\<close> attributes.\<close>

definition domain_display :: "domain_name \<Rightarrow> rstring" where
  "domain_display d = as_str d"

definition domain_try_from :: "rstring \<Rightarrow> domain_name_error + domain_name" where
  "domain_try_from value = domain_new value"

fun domain_name_error_text :: "domain_name_error \<Rightarrow> rstring" where
  "domain_name_error_text Empty = lit ''domain name must not be empty''"
| "domain_name_error_text (NonPrintableChar offset) =
    lit ''domain name contains a non-printable character at byte offset '' @ show_nat offset"
| "domain_name_error_text EmptyLabel =
    lit ''domain label must not be empty (found consecutive or leading/trailing '' @ [39, dot, 39] @ lit '')''"

text \<open>A domain that came through the constructor, on a string of Rust's type.\<close>

definition valid_domain :: "domain_name \<Rightarrow> bool" where
  "valid_domain d \<longleftrightarrow> valid_str (as_str d) \<and> domain_new (as_str d) = Inr d"

instantiation domain_name :: linorder
begin

definition less_eq_domain_name :: "domain_name \<Rightarrow> domain_name \<Rightarrow> bool" where
  "less_eq_domain_name a b \<longleftrightarrow> as_str a \<le> as_str b"

definition less_domain_name :: "domain_name \<Rightarrow> domain_name \<Rightarrow> bool" where
  "less_domain_name a b \<longleftrightarrow> as_str a < as_str b"

instance
  by standard (auto simp: less_eq_domain_name_def less_domain_name_def domain_name.expand)

end

lemma first_refused_None: "first_refused off s = None \<longleftrightarrow> list_all (\<lambda>c. \<not> refused_char c) s"
  by (induction s arbitrary: off) auto

lemma first_refused_Some:
  "first_refused off s = Some k \<longleftrightarrow>
    (\<exists>p c r. s = p @ c # r \<and> refused_char c \<and> list_all (\<lambda>x. \<not> refused_char x) p \<and>
      k = off + length (utf8 p))"
proof (induction s arbitrary: off)
  case Nil
  then show ?case by simp
next
  case (Cons x s)
  show ?case
  proof (cases "refused_char x")
    case True
    show ?thesis
    proof
      assume "first_refused off (x # s) = Some k"
      with True have "k = off" by simp
      with True show "\<exists>p c r. x # s = p @ c # r \<and> refused_char c \<and>
          list_all (\<lambda>x. \<not> refused_char x) p \<and> k = off + length (utf8 p)"
        by (intro exI [of _ "[]"]) auto
    next
      assume "\<exists>p c r. x # s = p @ c # r \<and> refused_char c \<and>
          list_all (\<lambda>x. \<not> refused_char x) p \<and> k = off + length (utf8 p)"
      then obtain p c r where "x # s = p @ c # r" "list_all (\<lambda>x. \<not> refused_char x) p"
        "k = off + length (utf8 p)" by blast
      with True show "first_refused off (x # s) = Some k" by (cases p) auto
    qed
  next
    case False
    have "first_refused off (x # s) = Some k \<longleftrightarrow>
        (\<exists>p c r. s = p @ c # r \<and> refused_char c \<and> list_all (\<lambda>x. \<not> refused_char x) p \<and>
          k = off + length (utf8 (x # p)))"
      using False Cons.IH [of "off + length (utf8_char x)"] by (simp add: add.assoc)
    also have "\<dots> \<longleftrightarrow> (\<exists>p c r. x # s = p @ c # r \<and> refused_char c \<and>
          list_all (\<lambda>x. \<not> refused_char x) p \<and> k = off + length (utf8 p))" (is "?l \<longleftrightarrow> ?r")
    proof
      assume ?l
      then obtain p c r where "s = p @ c # r" "refused_char c" "list_all (\<lambda>x. \<not> refused_char x) p"
        "k = off + length (utf8 (x # p))" by blast
      with False show ?r by (intro exI [of _ "x # p"] exI [of _ c] exI [of _ r]) auto
    next
      assume ?r
      then obtain p c r where "x # s = p @ c # r" "refused_char c"
        "list_all (\<lambda>x. \<not> refused_char x) p" "k = off + length (utf8 p)" by blast
      with False show ?l by (cases p) auto
    qed
    finally show ?thesis .
  qed
qed

lemma domain_new_Inr:
  "domain_new raw = Inr d \<longleftrightarrow>
    d = DomainName raw \<and> raw \<noteq> [] \<and> list_all (\<lambda>c. \<not> refused_char c) raw \<and>
    [] \<notin> set (split_on dot raw)"
  by (auto simp: domain_new_def first_refused_None [of 0, symmetric] list_ex_iff split: option.splits)

lemma valid_domain_labels:
  "valid_domain d \<Longrightarrow> l \<in> set (labels d) \<Longrightarrow> l \<noteq> [] \<and> dot \<notin> set l \<and> valid_str l"
  by (auto simp: valid_domain_def labels_def domain_new_Inr intro: split_on_valid dest: split_on_no_sep)

lemma join_labels [simp]: "join_with dot (labels d) = as_str d"
  by (simp add: labels_def)

lemma valid_domain_new: "valid_domain d \<Longrightarrow> domain_new (as_str d) = Inr d"
  by (simp add: valid_domain_def)

lemma domain_less_utf8:
  "valid_domain a \<Longrightarrow> valid_domain b \<Longrightarrow> a < b \<longleftrightarrow> utf8 (as_str a) < utf8 (as_str b)"
  by (simp add: less_domain_name_def valid_domain_def utf8_less_iff)

end
