(* ===== verification/Zone.thy ===== *)
theory Zone
  imports Domain
begin

text \<open>
  \<open>binda-core/src/zone.rs\<close> and \<open>resolver.rs\<close>: resource records, zone files, and the
  query and answer of the resolver protocol. The TOML parser and printer are a third-party
  crate, so \<open>from_toml\<close> and \<open>to_toml\<close> take them as arguments.
\<close>

record start_of_authority =
  primary_nameserver :: rstring
  admin_email :: rstring
  serial :: u32
  refresh_secs :: u32
  retry_secs :: u32
  expire_secs :: u32
  minimum_ttl_secs :: u32

datatype record_type = RecA | RecAaaa | RecCname | RecMx | RecTxt | RecNs

record zone_record =
  record_name :: rstring
  record_type_of :: record_type
  ttl_secs :: u32
  record_value :: rstring

record zone_file =
  zone_soa :: start_of_authority
  zone_records :: "zone_record list"

datatype ('de, 'ser) zone_file_error = Parse 'de | Serialize 'ser

text \<open>\<open>to_string\<close>; the crate's own errors print as the arguments say.\<close>

fun zone_file_error_text :: "('de \<Rightarrow> rstring) \<Rightarrow> ('ser \<Rightarrow> rstring) \<Rightarrow> ('de, 'ser) zone_file_error \<Rightarrow> rstring" where
  "zone_file_error_text show_de show_ser (Parse e) = lit ''failed to parse TOML zone file: '' @ show_de e"
| "zone_file_error_text show_de show_ser (Serialize e) = lit ''failed to serialize zone file to TOML: '' @ show_ser e"

definition from_toml ::
  "(rstring \<Rightarrow> 'de + zone_file) \<Rightarrow> rstring \<Rightarrow> ('de, 'ser) zone_file_error + zone_file" where
  "from_toml from_str input =
    (case from_str input of Inl e \<Rightarrow> Inl (Parse e) | Inr zone \<Rightarrow> Inr zone)"

definition to_toml ::
  "(zone_file \<Rightarrow> 'ser + rstring) \<Rightarrow> zone_file \<Rightarrow> ('de, 'ser) zone_file_error + rstring" where
  "to_toml to_string_pretty zone =
    (case to_string_pretty zone of Inl e \<Rightarrow> Inl (Serialize e) | Inr s \<Rightarrow> Inr s)"

record resolve_query =
  query_domain :: domain_name

record resolve_answer =
  owner_client_key :: "rstring option"
  answer_records :: "zone_record list"

end
