(* ===== verification/Client.thy ===== *)
theory Client
  imports Zone
begin

text \<open>
  \<open>binda-core/src/client.rs\<close>: a client is an Ed25519 key and the host name it claims. The
  signature scheme and the JSON printer are third-party crates; what the source calls of them
  is the record \<open>externals\<close>, an argument of every definition that uses it. Keys and
  signatures are the bytes they are parsed from.
\<close>

record externals =
  key_parses :: "bytes \<Rightarrow> bool"                      \<comment> \<open>\<open>VerifyingKey::from_bytes(b).is_ok()\<close>\<close>
  sig_parses :: "bytes \<Rightarrow> bool"                      \<comment> \<open>\<open>Signature::from_slice(b).is_ok()\<close>\<close>
  sig_verifies :: "bytes \<Rightarrow> bytes \<Rightarrow> bytes \<Rightarrow> bool"    \<comment> \<open>\<open>key.verify(message, signature).is_ok()\<close>\<close>
  records_json :: "zone_record list \<Rightarrow> bytes option" \<comment> \<open>\<open>serde_json::to_vec(records).ok()\<close>\<close>

record client_identity =
  verifying_key :: bytes
  rdns :: rstring

datatype client_auth_error = InvalidSignature

definition client_new :: "bytes \<Rightarrow> rstring \<Rightarrow> client_identity" where
  "client_new key host = \<lparr>verifying_key = key, rdns = host\<rparr>"

definition hex_encode :: "bytes \<Rightarrow> rstring" where
  "hex_encode bs = concat (map hex_byte bs)"

definition client_key :: "client_identity \<Rightarrow> rstring" where
  "client_key c = hex_encode (verifying_key c) @ lit ''@'' @ rdns c"

definition client_quota_key :: "client_identity \<Rightarrow> rstring" where
  "client_quota_key c = to_ascii_lowercase (trim_end_matches dot (trim (rdns c)))"

definition client_verify ::
  "externals \<Rightarrow> client_identity \<Rightarrow> bytes \<Rightarrow> bytes \<Rightarrow> client_auth_error + unit" where
  "client_verify ext c message signature =
    (if sig_verifies ext (verifying_key c) message signature then Inr () else Inl InvalidSignature)"

text \<open>A key pair of the scheme: \<open>sign\<close> makes signatures that verify under \<open>pk\<close>.\<close>

definition signs :: "externals \<Rightarrow> bytes \<Rightarrow> (bytes \<Rightarrow> bytes) \<Rightarrow> bool" where
  "signs ext pk sign \<longleftrightarrow> length pk = 32 \<and> key_parses ext pk \<and>
    (\<forall>m. sig_parses ext (sign m) \<and> sig_verifies ext pk m (sign m))"

section \<open>Client keys identify key and host\<close>

lemma at_not_hex: "64 \<notin> set (hex_encode bs)"
proof -
  have "hex_digit d \<noteq> 64" if "d < 16" for d using that by (auto simp: hex_digit_def)
  moreover have "unat b div 16 < 16" for b :: u8 using unat_lt_pow [of b] by simp
  ultimately have "64 \<notin> set (hex_byte b)" for b :: u8
    unfolding hex_byte_def by (metis empty_iff empty_set mod_less_divisor set_ConsD zero_less_numeral)
  then show ?thesis by (simp add: hex_encode_def)
qed

lemma hex_encode_inj [simp]: "hex_encode a = hex_encode b \<longleftrightarrow> a = b"
proof
  show "hex_encode a = hex_encode b \<Longrightarrow> a = b"
  proof (induction a arbitrary: b)
    case Nil
    then show ?case by (cases b) (auto simp: hex_encode_def hex_byte_def)
  next
    case (Cons x a)
    then obtain y b' where b: "b = y # b'" by (cases b) (auto simp: hex_encode_def hex_byte_def)
    with Cons.prems have "hex_byte x @ hex_encode a = hex_byte y @ hex_encode b'"
      by (simp add: hex_encode_def)
    then have "hex_byte x = hex_byte y" "hex_encode a = hex_encode b'"
      by (simp_all add: hex_byte_def)
    with Cons.IH b show ?case by simp
  qed
qed simp

lemma lit_at: "lit ''@'' = [64]"
  by (simp add: lit_def)

lemma append_sep_eq_first:
  assumes "c \<notin> set xs" "c \<notin> set xs'" "xs @ c # ys = xs' @ c # ys'"
  shows "xs = xs' \<and> ys = ys'"
  using assms
proof (induction xs arbitrary: xs')
  case Nil
  then show ?case by (cases xs') auto
next
  case (Cons x xs)
  then show ?case by (cases xs') auto
qed

lemma client_key_inj: "client_key a = client_key b \<longleftrightarrow> verifying_key a = verifying_key b \<and> rdns a = rdns b"
  using append_sep_eq_first [OF at_not_hex at_not_hex, of "verifying_key a" "rdns a" "verifying_key b" "rdns b"]
  by (auto simp: client_key_def lit_at)

section \<open>Quota keys are canonical\<close>

lemma ascii_lower_whitespace [simp]: "is_whitespace (ascii_lower c) = is_whitespace c"
  by (auto simp: is_whitespace_def ascii_lower_def)

lemma ascii_lower_dot [simp]: "ascii_lower c = 46 \<longleftrightarrow> c = 46"
  by (auto simp: ascii_lower_def)

lemma lower_trim: "to_ascii_lowercase (trim s) = trim (to_ascii_lowercase s)"
  by (simp add: to_ascii_lowercase_def trim_def dropWhile_map rev_map o_def)

lemma lower_trim_end: "to_ascii_lowercase (trim_end_matches 46 s) = trim_end_matches 46 (to_ascii_lowercase s)"
  by (simp add: to_ascii_lowercase_def trim_end_matches_def dropWhile_map rev_map o_def)

lemma quota_key_case:
  assumes "to_ascii_lowercase (rdns a) = to_ascii_lowercase (rdns b)"
  shows "client_quota_key a = client_quota_key b"
  using assms by (simp add: client_quota_key_def lower_trim lower_trim_end)

lemma dropWhile_replicate_append: "P x \<Longrightarrow> dropWhile P (replicate n x @ ys) = dropWhile P ys"
  by (induction n) auto

lemma trim_append_dots:
  assumes "s \<noteq> []" "\<not> is_whitespace (last s)"
  shows "trim (s @ replicate n 46) = trim s @ replicate n 46"
proof -
  have ws: "\<not> is_whitespace 46" by (simp add: is_whitespace_def)
  have "last s \<in> set s" using assms(1) by simp
  then obtain t where t: "dropWhile is_whitespace s = t" "t \<noteq> []" "last t = last s"
    using assms by (metis dropWhile_eq_Nil_conv dropWhile_last)
  have "dropWhile is_whitespace (s @ replicate n 46) = t @ replicate n 46"
    using dropWhile_append1 [where P = is_whitespace, OF \<open>last s \<in> set s\<close> assms(2), of "replicate n 46"] t(1) by simp
  moreover have "dropWhile is_whitespace (rev t) = rev t"
    using t assms(2) by (cases "rev t") (auto simp: hd_rev [symmetric])
  moreover have "dropWhile is_whitespace (replicate n 46 @ rev t) = replicate n 46 @ rev t"
    using ws calculation(2) by (cases n) auto
  ultimately show ?thesis using t by (simp add: trim_def)
qed

lemma quota_key_trailing_dots:
  assumes "rdns a = rdns b @ replicate n dot" "rdns b \<noteq> []" "\<not> is_whitespace (last (rdns b))"
  shows "client_quota_key a = client_quota_key b"
  using assms by (simp add: client_quota_key_def trim_append_dots trim_end_matches_def
      dropWhile_replicate_append)

end
