(* ===== verification/Token.thy ===== *)
theory Token
  imports Prelude
begin

text \<open>
  \<open>binda-core/src/token.rs\<close>: registration tokens. The nonce is drawn from the operating
  system's generator, outside the repository, so \<open>issue\<close> takes the eight bytes it drew.
  The array type \<open>[u8; 8]\<close> is a byte list with \<open>token_wf\<close>.
\<close>

record registration_token =
  issued_at_millis :: u64
  nonce :: bytes

definition token_wf :: "registration_token \<Rightarrow> bool" where
  "token_wf t \<longleftrightarrow> length (nonce t) = 8"

definition token_issue :: "bytes \<Rightarrow> u64 \<Rightarrow> registration_token" where
  "token_issue drawn millis = \<lparr>issued_at_millis = millis, nonce = drawn\<rparr>"

definition raw_ordering_key :: "registration_token \<Rightarrow> bytes" where
  "raw_ordering_key t = u64_be (issued_at_millis t) @ nonce t"

lemma raw_ordering_key_inj [simp]: "raw_ordering_key a = raw_ordering_key b \<longleftrightarrow> a = b"
  by (auto simp: raw_ordering_key_def append_eq_append_conv)

lemma raw_ordering_key_less:
  "raw_ordering_key a < raw_ordering_key b \<longleftrightarrow>
    issued_at_millis a < issued_at_millis b \<or>
    issued_at_millis a = issued_at_millis b \<and> nonce a < nonce b"
proof -
  have "u64_be (issued_at_millis a) < u64_be (issued_at_millis b) \<longleftrightarrow>
      issued_at_millis a < issued_at_millis b"
    using be_bytes_less [of "unat (issued_at_millis a)" 8 "unat (issued_at_millis b)"]
      unat_lt_pow [of "issued_at_millis a"] unat_lt_pow [of "issued_at_millis b"]
    by (simp add: u64_be_def word_less_nat_alt)
  then show ?thesis by (simp add: raw_ordering_key_def append_less_same_length)
qed

end
