(* ===== verification/Client_Api.thy ===== *)
theory Client_Api
  imports Client Token
begin

text \<open>
  \<open>binda-core/src/client_api.rs\<close>: the signed requests of end-user clients, the canonical
  messages their signatures cover, the freshness window and the authentication of a request.
\<close>

definition request_freshness_window_millis :: u64 where
  "request_freshness_window_millis = 10000"

record 'b signed_envelope =
  env_verifying_key :: bytes
  env_rdns :: rstring
  env_timestamp_millis :: u64
  env_signature :: bytes
  env_body :: 'b

datatype probe_body = ProbeBody

record register_body =
  register_domain :: domain_name

record set_records_body =
  records_domain :: domain_name
  records_records :: "zone_record list"

datatype client_request =
    Probe "probe_body signed_envelope"
  | Register "register_body signed_envelope"
  | SetRecords "set_records_body signed_envelope"

datatype client_response =
    ProbeAck
  | Registered registration_token
  | RecordsSet
  | ErrorResponse rstring

datatype request_auth_error =
    MalformedKey
  | MalformedSignature
  | Signature client_auth_error
  | Stale

text \<open>\<open>err.to_string()\<close>, as the \<open>thiserror\<close> attributes spell it.\<close>

fun client_auth_error_text :: "client_auth_error \<Rightarrow> rstring" where
  "client_auth_error_text InvalidSignature =
    lit ''signature does not verify against the supplied public key''"

fun request_auth_error_text :: "request_auth_error \<Rightarrow> rstring" where
  "request_auth_error_text MalformedKey = lit ''malformed public key''"
| "request_auth_error_text MalformedSignature = lit ''malformed signature''"
| "request_auth_error_text (Signature e) = client_auth_error_text e"
| "request_auth_error_text Stale = lit ''request timestamp is outside the freshness window''"

definition probe_message :: "u64 \<Rightarrow> bytes" where
  "probe_message timestamp = utf8 (lit ''binda-probe:'' @ show_nat (unat timestamp))"

definition register_message :: "domain_name \<Rightarrow> u64 \<Rightarrow> bytes" where
  "register_message d timestamp =
    utf8 (lit ''binda-register:'' @ as_str d @ lit '':'' @ show_nat (unat timestamp))"

definition set_records_message :: "externals \<Rightarrow> domain_name \<Rightarrow> zone_record list \<Rightarrow> u64 \<Rightarrow> bytes" where
  "set_records_message ext d recs timestamp =
    utf8 (lit ''binda-set-records:'' @ as_str d @ lit '':'' @ show_nat (unat timestamp) @ lit '':'') @
    (case records_json ext recs of Some json \<Rightarrow> json | None \<Rightarrow> [])"

definition is_fresh :: "u64 \<Rightarrow> u64 \<Rightarrow> bool" where
  "is_fresh timestamp now \<longleftrightarrow> abs_diff now timestamp \<le> request_freshness_window_millis"

definition authenticate ::
  "externals \<Rightarrow> 'b signed_envelope \<Rightarrow> bytes \<Rightarrow> u64 \<Rightarrow> request_auth_error + client_identity" where
  "authenticate ext envelope message now =
    (if \<not> is_fresh (env_timestamp_millis envelope) now then Inl Stale
     else if length (env_verifying_key envelope) \<noteq> 32 then Inl MalformedKey
     else if \<not> key_parses ext (env_verifying_key envelope) then Inl MalformedKey
     else if \<not> sig_parses ext (env_signature envelope) then Inl MalformedSignature
     else
       let identity = client_new (env_verifying_key envelope) (env_rdns envelope)
       in case client_verify ext identity message (env_signature envelope) of
            Inl e \<Rightarrow> Inl (Signature e)
          | Inr _ \<Rightarrow> Inr identity)"

section \<open>Freshness and authentication\<close>

lemma is_fresh_iff:
  "is_fresh timestamp now \<longleftrightarrow>
    unat now \<le> unat timestamp + 10000 \<and> unat timestamp \<le> unat now + 10000"
  by (auto simp: is_fresh_def request_freshness_window_millis_def word_le_nat_alt unat_abs_diff)

lemma authenticate_Inr:
  "authenticate ext envelope message now = Inr identity \<longleftrightarrow>
    is_fresh (env_timestamp_millis envelope) now \<and>
    length (env_verifying_key envelope) = 32 \<and> key_parses ext (env_verifying_key envelope) \<and>
    sig_parses ext (env_signature envelope) \<and>
    sig_verifies ext (env_verifying_key envelope) message (env_signature envelope) \<and>
    identity = client_new (env_verifying_key envelope) (env_rdns envelope)"
  by (auto simp: authenticate_def client_verify_def client_new_def Let_def)

section \<open>Messages determine what was signed\<close>

lemma utf8_ascii: "list_all (\<lambda>c. c < 128) s \<Longrightarrow> utf8 s = map of_nat s"
  by (induction s) (auto simp: utf8_char_def)

lemma lit_colon: "lit '':'' = [58]"
  by (simp add: lit_def)

lemma colon_not_digit: "58 \<notin> set (show_nat n)"
  by (auto dest: show_nat_digits)

lemma append_sep_eq_last:
  assumes "c \<notin> set ys" "c \<notin> set ys'" "xs @ c # ys = xs' @ c # ys'"
  shows "xs = xs' \<and> ys = ys'"
proof -
  have "rev ys @ c # rev xs = rev ys' @ c # rev xs'"
    using arg_cong [OF assms(3), of rev] by simp
  then show ?thesis
    using append_sep_eq_first [of c "rev ys" "rev ys'" "rev xs" "rev xs'"] assms(1,2) by simp
qed

lemma utf8_cancel_prefix: "utf8 (p @ s) = utf8 (p @ t) \<longleftrightarrow> utf8 s = utf8 t"
  by simp

lemma probe_message_inj: "probe_message s = probe_message t \<longleftrightarrow> s = t"
  unfolding probe_message_def by (simp add: utf8_inj word_unat_eq_iff)

lemma register_message_inj:
  assumes "valid_str (as_str d)" "valid_str (as_str e)"
    and "register_message d s = register_message e t"
  shows "d = e \<and> s = t"
proof -
  have "utf8 (as_str d @ 58 # show_nat (unat s)) = utf8 (as_str e @ 58 # show_nat (unat t))"
    using assms(3) unfolding register_message_def utf8_cancel_prefix lit_colon by simp
  moreover have "scalar 58" by (simp add: scalar_def)
  ultimately have "as_str d @ 58 # show_nat (unat s) = as_str e @ 58 # show_nat (unat t)"
    using assms(1,2) by (subst (asm) utf8_inj) simp_all
  then have "as_str d = as_str e \<and> show_nat (unat s) = show_nat (unat t)"
    by (rule append_sep_eq_last [OF colon_not_digit colon_not_digit])
  then show ?thesis by (simp add: domain_name.expand word_unat_eq_iff)
qed

text \<open>The three kinds of message differ in their seventh to ninth bytes, whatever follows.\<close>

lemma message_tags:
  "nth (probe_message t) 6 = 112"
  "nth (register_message d t) 6 = 114"
  "nth (set_records_message ext d recs t) 6 = 115"
  by (simp_all add: probe_message_def register_message_def set_records_message_def
      lit_def utf8_char_def nth_append)

end
