(* ===== verification/Collision.thy ===== *)
theory Collision
  imports Token
begin

text \<open>
  \<open>binda-core/src/collision.rs\<close>: arbitration between two claims on one name. Coin flips
  of the random generator are arguments.
\<close>

datatype win_condition = HigherWins | LowerWins

definition win_condition_random :: "bool \<Rightarrow> win_condition" where
  "win_condition_random coin = (if coin then HigherWins else LowerWins)"

record round_proposal =
  proposal_round :: u32
  proposal_condition :: win_condition

record negotiation =
  negotiation_round :: u32

definition negotiation_new :: negotiation where
  "negotiation_new = \<lparr>negotiation_round = 0\<rparr>"

definition propose :: "bool \<Rightarrow> negotiation \<Rightarrow> round_proposal \<times> negotiation" where
  "propose coin n =
    (let n' = n\<lparr>negotiation_round := negotiation_round n + 1\<rparr>
     in (\<lparr>proposal_round = negotiation_round n', proposal_condition = win_condition_random coin\<rparr>, n'))"

definition check_agreement :: "round_proposal \<Rightarrow> round_proposal \<Rightarrow> win_condition option" where
  "check_agreement mine theirs =
    (if proposal_round mine = proposal_round theirs \<and>
        proposal_condition mine = proposal_condition theirs
     then Some (proposal_condition mine) else None)"

fun resolve :: "win_condition \<Rightarrow> registration_token \<Rightarrow> registration_token \<Rightarrow> registration_token" where
  "resolve HigherWins a b = (if raw_ordering_key a \<ge> raw_ordering_key b then a else b)"
| "resolve LowerWins a b = (if raw_ordering_key a \<le> raw_ordering_key b then a else b)"

definition derived_parity :: "registration_token \<Rightarrow> registration_token \<Rightarrow> u8" where
  "derived_parity a b =
    foldl (\<lambda>acc byte. acc XOR byte) (ucast (issued_at_millis a XOR issued_at_millis b)) (nonce a @ nonce b)"

definition mutually_derived_condition :: "registration_token \<Rightarrow> registration_token \<Rightarrow> win_condition" where
  "mutually_derived_condition a b =
    (if derived_parity a b AND 1 = 0 then HigherWins else LowerWins)"

definition negotiate_locally :: "registration_token \<Rightarrow> registration_token \<Rightarrow> registration_token" where
  "negotiate_locally a b = resolve (mutually_derived_condition a b) a b"

section \<open>Arbiters\<close>

text \<open>What a node relies on when it settles one name between two claims: the winner is one
  of the two and does not depend on which claim is named first.\<close>

locale arbiter =
  fixes win :: "'t \<Rightarrow> 't \<Rightarrow> 't"
  assumes win_selects: "win a b = a \<or> win a b = b"
    and win_commute: "win a b = win b a"
begin

lemma win_idem: "win a a = a"
  using win_selects [of a a] by simp

lemma win_absorb: "win (win a b) a = win a b" "win (win a b) b = win a b"
  using win_selects [of a b] win_commute [of a b] win_commute [of b a] win_idem by metis+

text \<open>Delivering the two claims again, in any order, any number of times, changes nothing.\<close>

lemma redelivery: "set cs \<subseteq> {a, b} \<Longrightarrow> foldl win (win a b) cs = win a b"
  by (induction cs) (auto simp: win_absorb)

end

text \<open>An arbiter that is associative as well orders all claims: any number of claims
  delivered in any order end with the same winner.\<close>

locale transitive_arbiter = arbiter +
  assumes win_assoc: "win (win a b) c = win a (win b c)"
begin

lemma fold_dominates:
  "foldl win a cs \<in> set (a # cs) \<and> (\<forall>c\<in>set (a # cs). win (foldl win a cs) c = foldl win a cs)"
proof (induction cs rule: rev_induct)
  case Nil
  then show ?case by (simp add: win_idem)
next
  case (snoc c cs)
  let ?w = "foldl win a cs"
  have "win (win ?w c) x = win ?w c" if "x \<in> set (a # cs)" for x
    using snoc that by (metis win_assoc win_commute)
  moreover have "win (win ?w c) c = win ?w c" by (rule win_absorb)
  moreover have "win ?w c = ?w \<or> win ?w c = c" by (rule win_selects)
  ultimately show ?case using snoc by auto
qed

lemma fold_order_independent:
  assumes "set (a # cs) = set (b # ds)"
  shows "foldl win a cs = foldl win b ds"
  using fold_dominates [of a cs] fold_dominates [of b ds] assms by (metis win_commute)

end

lemma resolve_commute: "resolve c a b = resolve c b a"
  by (cases c) (auto simp flip: raw_ordering_key_inj)

lemma resolve_assoc: "resolve c (resolve c x y) z = resolve c x (resolve c y z)"
  by (cases c) (auto dest: order_trans)

interpretation fixed_rule: transitive_arbiter "resolve c" for c
proof unfold_locales
  fix x y z
  show "resolve c x y = x \<or> resolve c x y = y" by (cases c) auto
  show "resolve c x y = resolve c y x" by (rule resolve_commute)
  show "resolve c (resolve c x y) z = resolve c x (resolve c y z)" by (rule resolve_assoc)
qed

section \<open>The derived condition\<close>

text \<open>The low bit of the folded bytes is the sum of the two tokens' own low bits.\<close>

definition token_parity :: "registration_token \<Rightarrow> bool" where
  "token_parity t = (bit (issued_at_millis t) 0 \<noteq> odd (length (filter (\<lambda>b. bit b 0) (nonce t))))"

lemma bit_fold_xor:
  "bit (foldl (\<lambda>acc byte. acc XOR byte) (x :: u8) bs) 0 =
    (bit x 0 \<noteq> odd (length (filter (\<lambda>b. bit b 0) bs)))"
  by (induction bs arbitrary: x) (auto simp: bit_xor_iff)

lemma and_1_iff: "(w :: u8) AND 1 = 0 \<longleftrightarrow> \<not> bit w 0"
  by (simp add: and_one_eq bit_0 even_iff_mod_2_eq_zero)

lemma derived_parity_bit: "derived_parity a b AND 1 = 0 \<longleftrightarrow> token_parity a = token_parity b"
  unfolding and_1_iff derived_parity_def bit_fold_xor token_parity_def
  by (auto simp: bit_ucast_iff bit_xor_iff)

lemma mutually_derived_condition_eq:
  "mutually_derived_condition a b = (if token_parity a = token_parity b then HigherWins else LowerWins)"
  by (simp add: mutually_derived_condition_def derived_parity_bit)

lemma mutually_derived_condition_commute:
  "mutually_derived_condition a b = mutually_derived_condition b a"
  by (auto simp: mutually_derived_condition_eq)

interpretation local_rule: arbiter negotiate_locally
proof unfold_locales
  fix a b
  show "negotiate_locally a b = a \<or> negotiate_locally a b = b"
    unfolding negotiate_locally_def by (rule fixed_rule.win_selects)
  show "negotiate_locally a b = negotiate_locally b a"
    unfolding negotiate_locally_def
    by (simp add: mutually_derived_condition_commute [of a b] resolve_commute [of _ a b])
qed

end
