(* ===== verification/Gossip.thy ===== *)
theory Gossip
  imports Client_Api Collision
begin

text \<open>
  \<open>binda-core/src/gossip.rs\<close>: rumors (replicated leases) and their authorization, the
  conformance challenge, the gossip messages, their well-formedness, and the
  request/response contract.
\<close>

record registration_rumor =
  rumor_domain :: domain_name
  rumor_token :: registration_token
  rumor_client_key :: rstring
  rumor_owner_key :: bytes
  rumor_rdns :: rstring
  registration_timestamp_millis :: u64
  registration_signature :: bytes
  probe_timestamp_millis :: u64
  probe_signature :: bytes
  rumor_records :: "zone_record list"
  records_timestamp_millis :: "u64 option"
  records_signature :: "bytes option"

text \<open>The last \<open>match\<close> of \<open>is_authorized\<close>: the evidence for the records.\<close>

fun records_authorized ::
  "externals \<Rightarrow> client_identity \<Rightarrow> registration_rumor \<Rightarrow> u64 option \<Rightarrow> bytes option \<Rightarrow> bool" where
  "records_authorized ext owner r None None = (rumor_records r = [])"
| "records_authorized ext owner r (Some timestamp) (Some signature) =
    (if \<not> sig_parses ext signature then False
     else client_verify ext owner
        (set_records_message ext (rumor_domain r) (rumor_records r) timestamp) signature = Inr ())"
| "records_authorized ext owner r _ _ = False"

definition is_authorized :: "externals \<Rightarrow> registration_rumor \<Rightarrow> bool" where
  "is_authorized ext r =
    (if length (rumor_owner_key r) \<noteq> 32 then False
     else if \<not> key_parses ext (rumor_owner_key r) then False
     else
       let owner = client_new (rumor_owner_key r) (rumor_rdns r)
       in if client_key owner \<noteq> rumor_client_key r then False
          else if \<not> sig_parses ext (registration_signature r) then False
          else if \<not> sig_parses ext (probe_signature r) then False
          else if client_verify ext owner
                (register_message (rumor_domain r) (registration_timestamp_millis r))
                (registration_signature r) \<noteq> Inr () \<or>
              client_verify ext owner (probe_message (probe_timestamp_millis r)) (probe_signature r) \<noteq> Inr ()
            then False
          else records_authorized ext owner r (records_timestamp_millis r) (records_signature r))"

record conformance_challenge =
  token_a :: registration_token
  token_b :: registration_token
  challenge_condition :: win_condition

text \<open>The two drawn nonces and the coin are the random generator's.\<close>

definition challenge_random :: "bytes \<Rightarrow> bytes \<Rightarrow> bool \<Rightarrow> u64 \<Rightarrow> conformance_challenge" where
  "challenge_random nonce_a nonce_b coin millis =
    \<lparr>token_a = token_issue nonce_a millis, token_b = token_issue nonce_b millis,
     challenge_condition = win_condition_random coin\<rparr>"

definition expected_answer :: "conformance_challenge \<Rightarrow> registration_token" where
  "expected_answer c = resolve (challenge_condition c) (token_a c) (token_b c)"

record digest_entry =
  entry_domain :: domain_name
  entry_issued_at_millis :: u64

datatype gossip_message =
    Digest "digest_entry list"
  | Request "domain_name list" conformance_challenge
  | Rumors "registration_rumor list" registration_token

definition max_digest_entries :: nat where "max_digest_entries = 4096"

definition max_request_entries :: nat where "max_request_entries = 4096"

text \<open>\<open>domains.all(|d| seen.insert(d))\<close>: the set \<open>seen\<close> is the list of what was inserted.\<close>

fun unique_domains_from :: "domain_name list \<Rightarrow> domain_name list \<Rightarrow> bool" where
  "unique_domains_from seen [] = True"
| "unique_domains_from seen (d # ds) =
    (if List.member seen d then False else unique_domains_from (d # seen) ds)"

definition unique_domains :: "domain_name list \<Rightarrow> bool" where
  "unique_domains ds = unique_domains_from [] ds"

fun is_well_formed :: "gossip_message \<Rightarrow> bool" where
  "is_well_formed (Digest rumors) =
    (length rumors \<le> max_digest_entries \<and> unique_domains (map entry_domain rumors))"
| "is_well_formed (Request domains _) =
    (length domains \<le> max_request_entries \<and> unique_domains domains)"
| "is_well_formed (Rumors rumors _) =
    (length rumors \<le> max_digest_entries \<and> unique_domains (map rumor_domain rumors))"

definition is_valid_rumor_response :: "domain_name list \<Rightarrow> registration_rumor list \<Rightarrow> bool" where
  "is_valid_rumor_response requested rumors \<longleftrightarrow>
    list_all (\<lambda>d. List.member requested d) (map rumor_domain rumors) \<and>
    unique_domains (map rumor_domain rumors)"

section \<open>Facts\<close>

lemma unique_domains_from_iff:
  "unique_domains_from seen ds \<longleftrightarrow> distinct ds \<and> set ds \<inter> set seen = {}"
  by (induction ds arbitrary: seen) auto

lemma unique_domains_iff [simp]: "unique_domains ds = distinct ds"
  by (simp add: unique_domains_def unique_domains_from_iff)

lemma client_verify_Inr [simp]:
  "client_verify ext c m sg = Inr () \<longleftrightarrow> sig_verifies ext (verifying_key c) m sg"
  by (simp add: client_verify_def)

definition records_evidence :: "externals \<Rightarrow> registration_rumor \<Rightarrow> bool" where
  "records_evidence ext r \<longleftrightarrow>
    records_timestamp_millis r = None \<and> records_signature r = None \<and> rumor_records r = [] \<or>
    (\<exists>timestamp signature. records_timestamp_millis r = Some timestamp \<and>
      records_signature r = Some signature \<and> sig_parses ext signature \<and>
      sig_verifies ext (rumor_owner_key r)
        (set_records_message ext (rumor_domain r) (rumor_records r) timestamp) signature)"

lemma records_authorized_iff:
  "records_authorized ext (client_new (rumor_owner_key r) host) r (records_timestamp_millis r) (records_signature r)
    = records_evidence ext r"
  by (cases "records_timestamp_millis r"; cases "records_signature r")
    (auto simp: records_evidence_def client_new_def)

lemma is_authorized_iff:
  "is_authorized ext r \<longleftrightarrow>
    length (rumor_owner_key r) = 32 \<and> key_parses ext (rumor_owner_key r) \<and>
    rumor_client_key r = client_key (client_new (rumor_owner_key r) (rumor_rdns r)) \<and>
    sig_parses ext (registration_signature r) \<and> sig_parses ext (probe_signature r) \<and>
    sig_verifies ext (rumor_owner_key r)
      (register_message (rumor_domain r) (registration_timestamp_millis r)) (registration_signature r) \<and>
    sig_verifies ext (rumor_owner_key r) (probe_message (probe_timestamp_millis r)) (probe_signature r) \<and>
    records_evidence ext r"
  by (auto simp: is_authorized_def Let_def records_authorized_iff) (auto simp: client_new_def)

text \<open>An honest peer answers every challenge with the token that settles it.\<close>

lemma expected_answer_in: "expected_answer c \<in> {token_a c, token_b c}"
  using fixed_rule.win_selects [of "challenge_condition c" "token_a c" "token_b c"]
  by (auto simp: expected_answer_def)

end
