(* ===== verification/Liveness.thy ===== *)
theory Liveness
  imports Client
begin

text \<open>
  \<open>binda-core/src/liveness.rs\<close>: the liveness window, the per-host registration count and
  the clocks. Every operation takes the clock it is handed; \<open>SystemTimeSource\<close> reads the
  operating system (the time since the Unix epoch in nanoseconds is an argument, \<open>None\<close> when the
  system clock is before it), \<open>MockTimeSource\<close> stands still between calls of \<open>advance\<close>.
\<close>

definition liveness_window_millis :: u64 where
  "liveness_window_millis = 60000"

definition max_registrations_per_client :: nat where
  "max_registrations_per_client = 5"

text \<open>\<open>as u64\<close> of a \<open>u128\<close> keeps the low 64 bits.\<close>

definition system_now_millis :: "nat option \<Rightarrow> u64" where
  "system_now_millis since_epoch_nanos =
    of_nat (case since_epoch_nanos of None \<Rightarrow> 0 | Some ns \<Rightarrow> ns div 1000000)"

record mock_time_source =
  mock_millis :: u64

definition mock_new :: "u64 \<Rightarrow> mock_time_source" where
  "mock_new start = \<lparr>mock_millis = start\<rparr>"

definition mock_advance :: "nat \<Rightarrow> mock_time_source \<Rightarrow> mock_time_source" where
  "mock_advance delta_nanos m = m\<lparr>mock_millis := mock_millis m + of_nat (delta_nanos div 1000000)\<rparr>"

definition mock_time :: "mock_time_source \<Rightarrow> time_source" where
  "mock_time m = frozen (mock_millis m)"

record liveness_tracker =
  last_seen_millis :: "(rstring, u64) hash_map"
  registration_counts :: "(rstring, nat) hash_map"

definition tracker_new :: liveness_tracker where
  "tracker_new = \<lparr>last_seen_millis = [], registration_counts = []\<rparr>"

definition record_probe :: "client_identity \<Rightarrow> time_source \<Rightarrow> liveness_tracker \<Rightarrow> liveness_tracker" where
  "record_probe client time lv =
    lv\<lparr>last_seen_millis := hm_insert (client_quota_key client) (now_millis time) (last_seen_millis lv)\<rparr>"

definition is_live :: "liveness_tracker \<Rightarrow> client_identity \<Rightarrow> time_source \<Rightarrow> bool" where
  "is_live lv client time =
    (case hm_get (last_seen_millis lv) (client_quota_key client) of
      Some seen \<Rightarrow> saturating_sub (now_millis time) seen \<le> liveness_window_millis
    | None \<Rightarrow> False)"

definition registration_count :: "liveness_tracker \<Rightarrow> client_identity \<Rightarrow> nat" where
  "registration_count lv client =
    (case hm_get (registration_counts lv) (client_quota_key client) of Some n \<Rightarrow> n | None \<Rightarrow> 0)"

definition can_register :: "liveness_tracker \<Rightarrow> client_identity \<Rightarrow> time_source \<Rightarrow> bool" where
  "can_register lv client time \<longleftrightarrow>
    is_live lv client time \<and> registration_count lv client < max_registrations_per_client"

definition increment_registration :: "client_identity \<Rightarrow> liveness_tracker \<Rightarrow> liveness_tracker" where
  "increment_registration client lv =
    lv\<lparr>registration_counts :=
      hm_insert (client_quota_key client)
        ((case hm_get (registration_counts lv) (client_quota_key client) of Some n \<Rightarrow> n | None \<Rightarrow> 0) + 1)
        (registration_counts lv)\<rparr>"

definition clear_registrations :: "client_identity \<Rightarrow> liveness_tracker \<Rightarrow> liveness_tracker" where
  "clear_registrations client lv =
    lv\<lparr>registration_counts := hm_remove (client_quota_key client) (registration_counts lv)\<rparr>"

definition forget_client_by_key :: "rstring \<Rightarrow> liveness_tracker \<Rightarrow> liveness_tracker" where
  "forget_client_by_key k lv =
    lv\<lparr>registration_counts := hm_remove k (registration_counts lv),
       last_seen_millis := hm_remove k (last_seen_millis lv)\<rparr>"

definition expired_clients :: "liveness_tracker \<Rightarrow> time_source \<Rightarrow> rstring list" where
  "expired_clients lv time =
    (let now = now_millis time
     in map fst (filter (\<lambda>(k, seen). liveness_window_millis < saturating_sub now seen) (last_seen_millis lv)))"

section \<open>Tables of the tracker\<close>

text \<open>The count of a host by its quota key.\<close>

definition count_of :: "liveness_tracker \<Rightarrow> rstring \<Rightarrow> nat" where
  "count_of lv q = (case hm_get (registration_counts lv) q of Some n \<Rightarrow> n | None \<Rightarrow> 0)"

definition tracker_wf :: "liveness_tracker \<Rightarrow> bool" where
  "tracker_wf lv \<longleftrightarrow> hm_wf (last_seen_millis lv) \<and> hm_wf (registration_counts lv)"

lemma registration_count_eq: "registration_count lv c = count_of lv (client_quota_key c)"
  by (simp add: registration_count_def count_of_def)

lemma tracker_wf_ops [simp, intro]:
  "tracker_wf tracker_new"
  "tracker_wf lv \<Longrightarrow> tracker_wf (record_probe c time lv)"
  "tracker_wf lv \<Longrightarrow> tracker_wf (increment_registration c lv)"
  "tracker_wf lv \<Longrightarrow> tracker_wf (clear_registrations c lv)"
  "tracker_wf lv \<Longrightarrow> tracker_wf (forget_client_by_key k lv)"
  by (simp_all add: tracker_wf_def tracker_new_def record_probe_def increment_registration_def
      clear_registrations_def forget_client_by_key_def)

lemma count_of_ops [simp]:
  "count_of tracker_new q = 0"
  "count_of (record_probe c time lv) q = count_of lv q"
  "count_of (increment_registration c lv) q = count_of lv q + (if q = client_quota_key c then 1 else 0)"
  "count_of (clear_registrations c lv) q = (if q = client_quota_key c then 0 else count_of lv q)"
  "count_of (forget_client_by_key k lv) q = (if q = k then 0 else count_of lv q)"
  by (simp_all add: count_of_def tracker_new_def record_probe_def increment_registration_def
      clear_registrations_def forget_client_by_key_def)

lemma last_seen_ops [simp]:
  "hm_get (last_seen_millis tracker_new) q = None"
  "hm_get (last_seen_millis (record_probe c time lv)) q =
    (if q = client_quota_key c then Some (now_millis time) else hm_get (last_seen_millis lv) q)"
  "hm_get (last_seen_millis (increment_registration c lv)) q = hm_get (last_seen_millis lv) q"
  "hm_get (last_seen_millis (clear_registrations c lv)) q = hm_get (last_seen_millis lv) q"
  "hm_get (last_seen_millis (forget_client_by_key k lv)) q =
    (if q = k then None else hm_get (last_seen_millis lv) q)"
  by (simp_all add: tracker_new_def record_probe_def increment_registration_def
      clear_registrations_def forget_client_by_key_def)

lemma expired_clients_iff:
  assumes "tracker_wf lv"
  shows "q \<in> set (expired_clients lv time) \<longleftrightarrow>
    (\<exists>seen. hm_get (last_seen_millis lv) q = Some seen \<and> unat seen + 60000 < unat (now_millis time))"
  using assms
  by (force simp: expired_clients_def Let_def tracker_wf_def hm_get_eq_Some liveness_window_millis_def
      word_less_nat_alt)

lemma is_live_iff:
  "is_live lv c time \<longleftrightarrow>
    (\<exists>seen. hm_get (last_seen_millis lv) (client_quota_key c) = Some seen \<and>
      unat (now_millis time) \<le> unat seen + 60000)"
  by (auto simp: is_live_def liveness_window_millis_def word_le_nat_alt split: option.splits)

text \<open>Forgetting a list of hosts.\<close>

lemma fold_forget:
  "count_of (foldl (\<lambda>lv k. forget_client_by_key k lv) lv ks) q = (if q \<in> set ks then 0 else count_of lv q)"
  "hm_get (last_seen_millis (foldl (\<lambda>lv k. forget_client_by_key k lv) lv ks)) q =
    (if q \<in> set ks then None else hm_get (last_seen_millis lv) q)"
  "tracker_wf lv \<Longrightarrow> tracker_wf (foldl (\<lambda>lv k. forget_client_by_key k lv) lv ks)"
  by (induction ks arbitrary: lv) auto

end
