(* ===== verification/Store.thy ===== *)
theory Store
  imports Gossip Liveness
begin

text \<open>
  \<open>binda-core/src/store.rs\<close>: the registration table, the accepted claims of every host, the
  liveness tracker and the probe evidence, with every operation on them. The invariant is in
  \<open>Store_Inv\<close>, what the operations compute in \<open>Store_Props\<close>.
\<close>

record registration =
  reg_client_key :: rstring
  reg_quota_key :: rstring
  reg_token :: registration_token
  reg_records :: "zone_record list"
  reg_rumor :: "registration_rumor option"

datatype registration_error = NotLive | RegistrationLimitReached

fun registration_error_text :: "registration_error \<Rightarrow> rstring" where
  "registration_error_text NotLive =
    lit ''client is not currently live (must probe within the liveness window first)''"
| "registration_error_text RegistrationLimitReached =
    lit ''verified host already holds the maximum number of registrations''"

type_synonym claims_table = "(domain_name, registration_rumor) hash_map"

record registry_store =
  registrations :: "(domain_name, registration) hash_map"
  quota_claims :: "(rstring, claims_table) hash_map"
  liveness :: liveness_tracker
  probe_evidence :: "(rstring, u64 \<times> bytes) hash_map"

definition store_new :: registry_store where
  "store_new = \<lparr>registrations = [], quota_claims = [], liveness = tracker_new, probe_evidence = []\<rparr>"

definition quota_key :: "rstring \<Rightarrow> rstring" where
  "quota_key host = to_ascii_lowercase (trim_end_matches dot (trim host))"

definition lease_is_live :: "registration_rumor \<Rightarrow> time_source \<Rightarrow> bool" where
  "lease_is_live rumor time \<longleftrightarrow>
    saturating_sub (now_millis time) (probe_timestamp_millis rumor) \<le> liveness_window_millis"

definition registration_from_rumor :: "registration_rumor \<Rightarrow> rstring \<Rightarrow> registration" where
  "registration_from_rumor rumor quota =
    \<lparr>reg_client_key = rumor_client_key rumor, reg_quota_key = quota, reg_token = rumor_token rumor,
     reg_records = rumor_records rumor, reg_rumor = Some rumor\<rparr>"

section \<open>Reconciling a host's claims\<close>

text \<open>\<open>claims.retain(...)\<close>: the clock is read once for each authorized claim.\<close>

fun retain_live :: "externals \<Rightarrow> time_source \<Rightarrow> nat \<Rightarrow> claims_table \<Rightarrow> claims_table" where
  "retain_live ext time i [] = []"
| "retain_live ext time i ((d, rumor) # claims) =
    (if is_authorized ext rumor \<and> lease_is_live rumor (call i time)
     then (d, rumor) # retain_live ext time (Suc i) claims
     else retain_live ext time (Suc i) claims)"

text \<open>The comparison of \<open>winners.sort_by\<close>: the token's raw key, then the domain.\<close>

definition claim_order :: "registration_rumor \<Rightarrow> bytes \<times> domain_name" where
  "claim_order rumor = (raw_ordering_key (rumor_token rumor), rumor_domain rumor)"

definition first_claims :: "registration_rumor list \<Rightarrow> registration_rumor list" where
  "first_claims rumors = take max_registrations_per_client (sort_key claim_order rumors)"

fun install_winners ::
  "rstring \<Rightarrow> registration_rumor list \<Rightarrow> (domain_name, registration) hash_map \<Rightarrow>
    (domain_name, registration) hash_map" where
  "install_winners quota [] regs = regs"
| "install_winners quota (rumor # winners) regs =
    (let replace =
       (case hm_get regs (rumor_domain rumor) of
         Some existing \<Rightarrow> negotiate_locally (reg_token existing) (rumor_token rumor) = rumor_token rumor
       | None \<Rightarrow> True)
     in install_winners quota winners
          (if replace then hm_insert (rumor_domain rumor) (registration_from_rumor rumor quota) regs
           else regs))"

definition reconcile_quota ::
  "externals \<Rightarrow> rstring \<Rightarrow> time_source \<Rightarrow> registry_store \<Rightarrow> registry_store" where
  "reconcile_quota ext quota time s =
    (case hm_get (quota_claims s) quota of
      None \<Rightarrow> s
    | Some claims \<Rightarrow>
        let claims = retain_live ext time 0 claims;
            winners = first_claims (hm_values claims);
            winner_domains = map rumor_domain winners;
            claims = hm_retain (\<lambda>d _. List.member winner_domains d) claims;
            regs = hm_retain (\<lambda>_ reg. reg_quota_key reg \<noteq> quota \<or> reg_rumor reg = None) (registrations s)
        in s\<lparr>quota_claims := hm_insert quota claims (quota_claims s),
             registrations := install_winners quota winners regs\<rparr>)"

section \<open>Operations\<close>

definition probe :: "client_identity \<Rightarrow> time_source \<Rightarrow> registry_store \<Rightarrow> registry_store" where
  "probe client time s = s\<lparr>liveness := record_probe client time (liveness s)\<rparr>"

definition probe_with_evidence ::
  "client_identity \<Rightarrow> time_source \<Rightarrow> u64 \<Rightarrow> bytes \<Rightarrow> registry_store \<Rightarrow> registry_store" where
  "probe_with_evidence client time timestamp signature s =
    (let s = probe client time s
     in s\<lparr>probe_evidence := hm_insert (client_key client) (timestamp, signature) (probe_evidence s)\<rparr>)"

definition last_probe_evidence :: "registry_store \<Rightarrow> client_identity \<Rightarrow> (u64 \<times> bytes) option" where
  "last_probe_evidence s client = hm_get (probe_evidence s) (client_key client)"

fun reconcile_all ::
  "externals \<Rightarrow> time_source \<Rightarrow> nat \<Rightarrow> rstring list \<Rightarrow> registry_store \<Rightarrow> registry_store" where
  "reconcile_all ext time i [] s = s"
| "reconcile_all ext time i (q # qs) s =
    reconcile_all ext time (Suc i) qs (reconcile_quota ext q (call i time) s)"

definition reclaim_stale :: "externals \<Rightarrow> time_source \<Rightarrow> registry_store \<Rightarrow> registry_store" where
  "reclaim_stale ext time s =
    (let expired = expired_clients (liveness s) (call 0 time);
         regs = hm_retain (\<lambda>_ reg. \<not> List.member expired (reg_quota_key reg)) (registrations s);
         lv = foldl (\<lambda>lv k. forget_client_by_key k lv) (liveness s) expired;
         s = s\<lparr>registrations := regs, liveness := lv\<rparr>
     in reconcile_all ext (call 1 time) 0 (hm_keys (quota_claims s)) s)"

definition register ::
  "externals \<Rightarrow> bytes \<Rightarrow> domain_name \<Rightarrow> client_identity \<Rightarrow> time_source \<Rightarrow> registry_store \<Rightarrow>
    (registration_error + registration_token) \<times> registry_store" where
  "register ext drawn d client time s =
    (if \<not> is_live (liveness s) client (call 0 time) then (Inl NotLive, s)
     else
       let s = reclaim_stale ext (call 1 time) s
       in if hm_contains_key (registrations s) d then (Inl RegistrationLimitReached, s)
          else if \<not> can_register (liveness s) client (call 2 time) then (Inl RegistrationLimitReached, s)
          else
            let token = token_issue drawn (now_millis (call 3 time));
                reg = \<lparr>reg_client_key = client_key client, reg_quota_key = client_quota_key client,
                       reg_token = token, reg_records = [], reg_rumor = None\<rparr>
            in (Inr token,
                s\<lparr>registrations := hm_insert d reg (registrations s),
                  liveness := increment_registration client (liveness s)\<rparr>))"

definition resolve_collision ::
  "domain_name \<Rightarrow> rstring \<times> rstring \<times> registration_token \<Rightarrow> rstring \<times> rstring \<times> registration_token \<Rightarrow>
    registry_store \<Rightarrow> registry_store" where
  "resolve_collision d a b s =
    (let winner_token = negotiate_locally (snd (snd a)) (snd (snd b));
         (ck, qk, token) = (if winner_token = snd (snd a) then a else b)
     in s\<lparr>registrations := hm_insert d
          \<lparr>reg_client_key = ck, reg_quota_key = qk, reg_token = token, reg_records = [], reg_rumor = None\<rparr>
          (registrations s)\<rparr>)"

definition set_records ::
  "domain_name \<Rightarrow> client_identity \<Rightarrow> zone_record list \<Rightarrow> registry_store \<Rightarrow> bool \<times> registry_store" where
  "set_records d client recs s =
    (case hm_get (registrations s) d of
      Some reg \<Rightarrow>
        if reg_client_key reg = client_key client
        then (True, s\<lparr>registrations := hm_insert d (reg\<lparr>reg_records := recs\<rparr>) (registrations s)\<rparr>)
        else (False, s)
    | None \<Rightarrow> (False, s))"

text \<open>\<open>quota_claims.entry(q).or_default().insert(rumor.domain, rumor)\<close>.\<close>

definition insert_claim :: "rstring \<Rightarrow> registration_rumor \<Rightarrow> registry_store \<Rightarrow> registry_store" where
  "insert_claim quota rumor s =
    (let claims = (case hm_get (quota_claims s) quota of Some claims \<Rightarrow> claims | None \<Rightarrow> [])
     in s\<lparr>quota_claims := hm_insert quota (hm_insert (rumor_domain rumor) rumor claims) (quota_claims s)\<rparr>)"

definition attach_rumor ::
  "externals \<Rightarrow> registration_rumor \<Rightarrow> time_source \<Rightarrow> registry_store \<Rightarrow> bool \<times> registry_store" where
  "attach_rumor ext rumor time s =
    (let quota = quota_key (rumor_rdns rumor)
     in case hm_get (registrations s) (rumor_domain rumor) of
       Some reg \<Rightarrow>
         if reg_client_key reg = rumor_client_key rumor \<and> reg_token reg = rumor_token rumor
         then (True, reconcile_quota ext quota (call 0 time) (insert_claim quota rumor s))
         else (False, s)
     | None \<Rightarrow> (False, s))"

definition refresh_rumor :: "u64 \<Rightarrow> bytes \<Rightarrow> registration_rumor \<Rightarrow> registration_rumor" where
  "refresh_rumor timestamp signature rumor =
    rumor\<lparr>probe_timestamp_millis := timestamp, probe_signature := signature\<rparr>"

definition refresh_probe_evidence ::
  "rstring \<Rightarrow> u64 \<Rightarrow> bytes \<Rightarrow> registry_store \<Rightarrow> registry_store" where
  "refresh_probe_evidence ck timestamp signature s =
    s\<lparr>registrations := hm_map_values
        (\<lambda>reg. if reg_client_key reg = ck
               then reg\<lparr>reg_rumor := map_option (refresh_rumor timestamp signature) (reg_rumor reg)\<rparr>
               else reg) (registrations s),
      quota_claims := hm_map_values
        (hm_map_values
          (\<lambda>rumor. if rumor_client_key rumor = ck then refresh_rumor timestamp signature rumor
                   else rumor)) (quota_claims s)\<rparr>"

text \<open>The registration's rumor takes the new records; the claims' rumors take only the new
  timestamp and signature, as the source has it.\<close>

definition attach_record_evidence ::
  "domain_name \<Rightarrow> rstring \<Rightarrow> u64 \<Rightarrow> bytes \<Rightarrow> registry_store \<Rightarrow> registry_store" where
  "attach_record_evidence d ck timestamp signature s =
    s\<lparr>registrations :=
        (case hm_get (registrations s) d of
          Some reg \<Rightarrow>
            if reg_client_key reg = ck
            then hm_insert d
              (reg\<lparr>reg_rumor := map_option (\<lambda>rumor. rumor\<lparr>rumor_records := reg_records reg,
                    records_timestamp_millis := Some timestamp, records_signature := Some signature\<rparr>)
                  (reg_rumor reg)\<rparr>) (registrations s)
            else registrations s
        | None \<Rightarrow> registrations s),
      quota_claims := hm_map_values
        (\<lambda>claims. case hm_get claims d of
            Some rumor \<Rightarrow>
              if rumor_client_key rumor = ck
              then hm_insert d (rumor\<lparr>records_timestamp_millis := Some timestamp,
                    records_signature := Some signature\<rparr>) claims
              else claims
          | None \<Rightarrow> claims) (quota_claims s)\<rparr>"

definition adopt_rumor ::
  "externals \<Rightarrow> registration_rumor \<Rightarrow> time_source \<Rightarrow> registry_store \<Rightarrow> bool \<times> registry_store" where
  "adopt_rumor ext rumor time s =
    (if \<not> is_authorized ext rumor \<or>
        liveness_window_millis
          < saturating_sub (now_millis (call 0 time)) (probe_timestamp_millis rumor)
     then (False, s)
     else
       let quota = quota_key (rumor_rdns rumor)
       in (True, reconcile_quota ext quota (call 1 time) (insert_claim quota rumor s)))"

definition all_rumors :: "registry_store \<Rightarrow> (domain_name \<times> rstring \<times> registration_token) list" where
  "all_rumors s = map (\<lambda>(d, reg). (d, reg_client_key reg, reg_token reg)) (registrations s)"

definition lookup :: "registry_store \<Rightarrow> domain_name \<Rightarrow> registration option" where
  "lookup s d = hm_get (registrations s) d"

end
