(* ===== verification/Store_Inv.thy ===== *)
theory Store_Inv
  imports Store
begin

text \<open>
  The invariant of the store: well-formed tables, at most five claims a host, every leased
  registration backed by an accepted claim, and at most as many unleased registrations of a
  host as its registration count. Every operation of the API and gossip paths keeps it.
\<close>

named_theorems store_sel \<open>what the operations leave alone\<close>

section \<open>Retaining, ordering, installing\<close>

lemma retain_live_subset: "set (retain_live ext time i claims) \<subseteq> set claims"
  by (induction ext time i claims rule: retain_live.induct) auto

lemma retain_live_keys: "hm_wf claims \<Longrightarrow> hm_wf (retain_live ext time i claims)"
proof (induction ext time i claims rule: retain_live.induct)
  case (1 ext time i)
  then show ?case by simp
next
  case (2 ext time i d rumor claims)
  have "fst ` set (retain_live ext time (Suc i) claims) \<subseteq> fst ` set claims"
    using retain_live_subset by (rule image_mono)
  with 2 show ?case by (auto simp: hm_wf_def)
qed

lemma retain_live_member:
  "(d, r) \<in> set (retain_live ext time i claims) \<Longrightarrow>
    is_authorized ext r \<and> (\<exists>j. lease_is_live r (call j time))"
  by (induction ext time i claims rule: retain_live.induct) (auto split: if_splits)

lemma retain_live_frozen:
  "retain_live ext (frozen t) i claims =
    filter (\<lambda>e. is_authorized ext (snd e) \<and> lease_is_live (snd e) (frozen t)) claims"
  by (induction claims arbitrary: i) auto

lemma first_claims_subset: "set (first_claims rs) \<subseteq> set rs"
  unfolding first_claims_def by (metis set_sort set_take_subset)

lemma length_first_claims: "length (first_claims rs) \<le> 5"
  by (simp add: first_claims_def max_registrations_per_client_def)

lemma install_winners_get:
  "hm_get (install_winners quota ws regs) d = Some reg \<Longrightarrow>
    (\<exists>r\<in>set ws. rumor_domain r = d \<and> reg = registration_from_rumor r quota) \<or> hm_get regs d = Some reg"
proof (induction quota ws regs rule: install_winners.induct)
  case (1 quota regs)
  then show ?case by simp
next
  case (2 quota rumor ws regs)
  from 2(1) [OF refl] 2(2) show ?case
    by (auto simp: Let_def split: if_splits)
qed

lemma install_winners_wf: "hm_wf regs \<Longrightarrow> hm_wf (install_winners quota ws regs)"
  by (induction quota ws regs rule: install_winners.induct) (simp add: Let_def)+

section \<open>The invariant\<close>

definition claims_ok :: "rstring \<Rightarrow> claims_table \<Rightarrow> bool" where
  "claims_ok q claims \<longleftrightarrow> hm_wf claims \<and>
    (\<forall>d r. hm_get claims d = Some r \<longrightarrow> rumor_domain r = d \<and> quota_key (rumor_rdns r) = q)"

definition leased_ok :: "domain_name \<Rightarrow> registration \<Rightarrow> registration_rumor \<Rightarrow> bool" where
  "leased_ok d reg r \<longleftrightarrow> rumor_domain r = d \<and> reg_quota_key reg = quota_key (rumor_rdns r) \<and>
    reg_client_key reg = rumor_client_key r \<and> reg_token reg = rumor_token r"

definition backed :: "registry_store \<Rightarrow> domain_name \<Rightarrow> registration \<Rightarrow> bool" where
  "backed s d reg \<longleftrightarrow> (\<exists>claims c. hm_get (quota_claims s) (reg_quota_key reg) = Some claims \<and>
    hm_get claims d = Some c \<and> rumor_token c = reg_token reg \<and> rumor_client_key c = reg_client_key reg)"

text \<open>The names a host holds without and with a lease.\<close>

definition local_names :: "registry_store \<Rightarrow> rstring \<Rightarrow> domain_name set" where
  "local_names s q =
    {d. \<exists>reg. hm_get (registrations s) d = Some reg \<and> (reg_quota_key reg = q \<and> reg_rumor reg = None)}"

definition leased_names :: "registry_store \<Rightarrow> rstring \<Rightarrow> domain_name set" where
  "leased_names s q =
    {d. \<exists>reg. hm_get (registrations s) d = Some reg \<and> (reg_quota_key reg = q \<and> reg_rumor reg \<noteq> None)}"

text \<open>The invariant, with one host possibly exempt from the bounds its next reconciliation
  restores.\<close>

definition store_inv_except :: "rstring option \<Rightarrow> registry_store \<Rightarrow> bool" where
  "store_inv_except exempt s \<longleftrightarrow>
    hm_wf (registrations s) \<and> hm_wf (quota_claims s) \<and> hm_wf (probe_evidence s) \<and>
    tracker_wf (liveness s) \<and>
    (\<forall>q claims. hm_get (quota_claims s) q = Some claims \<longrightarrow>
      claims_ok q claims \<and> (exempt \<noteq> Some q \<longrightarrow> length claims \<le> 5)) \<and>
    (\<forall>d reg r. hm_get (registrations s) d = Some reg \<longrightarrow> reg_rumor reg = Some r \<longrightarrow>
      leased_ok d reg r \<and> (exempt \<noteq> Some (reg_quota_key reg) \<longrightarrow> backed s d reg)) \<and>
    (\<forall>q. count_of (liveness s) q \<le> 5) \<and>
    (\<forall>q. card (local_names s q) \<le> count_of (liveness s) q)"

definition store_inv :: "registry_store \<Rightarrow> bool" where
  "store_inv s \<longleftrightarrow> store_inv_except None s"

lemma store_inv_exceptI:
  assumes "hm_wf (registrations s)" "hm_wf (quota_claims s)" "hm_wf (probe_evidence s)"
    "tracker_wf (liveness s)"
    "\<And>q claims. hm_get (quota_claims s) q = Some claims \<Longrightarrow> claims_ok q claims"
    "\<And>q claims. hm_get (quota_claims s) q = Some claims \<Longrightarrow> exempt \<noteq> Some q \<Longrightarrow> length claims \<le> 5"
    "\<And>d reg r. hm_get (registrations s) d = Some reg \<Longrightarrow> reg_rumor reg = Some r \<Longrightarrow> leased_ok d reg r"
    "\<And>d reg r. hm_get (registrations s) d = Some reg \<Longrightarrow> reg_rumor reg = Some r \<Longrightarrow>
      exempt \<noteq> Some (reg_quota_key reg) \<Longrightarrow> backed s d reg"
    "\<And>q. count_of (liveness s) q \<le> 5" "\<And>q. card (local_names s q) \<le> count_of (liveness s) q"
  shows "store_inv_except exempt s"
  unfolding store_inv_except_def using assms by blast

lemma store_inv_exceptD:
  assumes "store_inv_except exempt s"
  shows "hm_wf (registrations s)" "hm_wf (quota_claims s)" "hm_wf (probe_evidence s)"
    "tracker_wf (liveness s)"
    "\<And>q claims. hm_get (quota_claims s) q = Some claims \<Longrightarrow> claims_ok q claims"
    "\<And>q claims. hm_get (quota_claims s) q = Some claims \<Longrightarrow> exempt \<noteq> Some q \<Longrightarrow> length claims \<le> 5"
    "\<And>d reg r. hm_get (registrations s) d = Some reg \<Longrightarrow> reg_rumor reg = Some r \<Longrightarrow> leased_ok d reg r"
    "\<And>d reg r. hm_get (registrations s) d = Some reg \<Longrightarrow> reg_rumor reg = Some r \<Longrightarrow>
      exempt \<noteq> Some (reg_quota_key reg) \<Longrightarrow> backed s d reg"
    "\<And>q. count_of (liveness s) q \<le> 5" "\<And>q. card (local_names s q) \<le> count_of (liveness s) q"
  using assms unfolding store_inv_except_def by blast+

lemma store_inv_weaken: "store_inv s \<Longrightarrow> store_inv_except exempt s"
  unfolding store_inv_def store_inv_except_def by blast

lemma finite_names [simp]: "finite (local_names s q)" "finite (leased_names s q)"
  unfolding local_names_def leased_names_def by (rule finite_hm_where)+

section \<open>Reconciliation restores the invariant\<close>

definition live_claims :: "externals \<Rightarrow> rstring \<Rightarrow> time_source \<Rightarrow> registry_store \<Rightarrow> claims_table" where
  "live_claims ext quota time s =
    (case hm_get (quota_claims s) quota of None \<Rightarrow> [] | Some claims \<Rightarrow> retain_live ext time 0 claims)"

definition winners :: "externals \<Rightarrow> rstring \<Rightarrow> time_source \<Rightarrow> registry_store \<Rightarrow> registration_rumor list" where
  "winners ext quota time s = first_claims (hm_values (live_claims ext quota time s))"

definition other_regs :: "rstring \<Rightarrow> registry_store \<Rightarrow> (domain_name, registration) hash_map" where
  "other_regs quota s =
    hm_retain (\<lambda>_ reg. reg_quota_key reg \<noteq> quota \<or> reg_rumor reg = None) (registrations s)"

lemma reconcile_quota_sel [simp, store_sel]:
  "liveness (reconcile_quota ext quota time s) = liveness s"
  "probe_evidence (reconcile_quota ext quota time s) = probe_evidence s"
  by (simp_all add: reconcile_quota_def Let_def split: option.splits)

lemma reconcile_quota_absent:
  "hm_get (quota_claims s) quota = None \<Longrightarrow> reconcile_quota ext quota time s = s"
  by (simp add: reconcile_quota_def)

lemma reconcile_quota_present:
  assumes "hm_get (quota_claims s) quota = Some claims"
  shows "registrations (reconcile_quota ext quota time s) =
      install_winners quota (winners ext quota time s) (other_regs quota s)"
    "quota_claims (reconcile_quota ext quota time s) =
      hm_insert quota (hm_retain (\<lambda>d _. d \<in> rumor_domain ` set (winners ext quota time s))
        (live_claims ext quota time s)) (quota_claims s)"
  using assms
  by (simp_all add: reconcile_quota_def Let_def winners_def live_claims_def other_regs_def)

lemma live_claims_ok:
  assumes "hm_get (quota_claims s) quota = Some claims" "claims_ok quota claims"
  shows "claims_ok quota (live_claims ext quota time s)"
    and "hm_get (live_claims ext quota time s) d = Some r \<Longrightarrow> hm_get claims d = Some r"
proof -
  have wf: "hm_wf claims" "hm_wf (live_claims ext quota time s)"
    using assms by (auto simp: claims_ok_def live_claims_def intro: retain_live_keys)
  have sub: "set (live_claims ext quota time s) \<subseteq> set claims"
    using assms(1) retain_live_subset by (simp add: live_claims_def)
  show *: "hm_get (live_claims ext quota time s) d = Some r \<Longrightarrow> hm_get claims d = Some r" for d r
    using wf sub by (auto simp: hm_get_eq_Some)
  show "claims_ok quota (live_claims ext quota time s)"
    unfolding claims_ok_def using wf assms(2) * by (auto simp: claims_ok_def)
qed

lemma winner_claim:
  assumes "hm_get (quota_claims s) quota = Some claims" "claims_ok quota claims"
    and "r \<in> set (winners ext quota time s)"
  shows "hm_get (live_claims ext quota time s) (rumor_domain r) = Some r"
    and "quota_key (rumor_rdns r) = quota" and "is_authorized ext r"
    and "\<exists>j. lease_is_live r (call j time)"
proof -
  note ok = live_claims_ok [OF assms(1,2), of ext time]
  from assms(3) have "r \<in> set (hm_values (live_claims ext quota time s))"
    using first_claims_subset by (auto simp: winners_def)
  then obtain d where d: "(d, r) \<in> set (live_claims ext quota time s)" by (auto simp: hm_values_def)
  then have "hm_get (live_claims ext quota time s) d = Some r"
    using ok(1) by (simp add: claims_ok_def hm_get_eq_Some)
  with ok(1) show "hm_get (live_claims ext quota time s) (rumor_domain r) = Some r"
    and "quota_key (rumor_rdns r) = quota" by (auto simp: claims_ok_def)
  from d assms(1) have "(d, r) \<in> set (retain_live ext time 0 claims)" by (simp add: live_claims_def)
  from retain_live_member [OF this] show "is_authorized ext r" "\<exists>j. lease_is_live r (call j time)"
    by auto
qed

text \<open>At most five of the live claims survive, because winners' domains are theirs.\<close>

lemma retained_length:
  assumes "claims_ok quota cl" "set ws \<subseteq> set (hm_values cl)" "length ws \<le> 5"
  shows "length (hm_retain (\<lambda>d _. d \<in> rumor_domain ` set ws) cl) \<le> 5"
proof -
  let ?kept = "hm_retain (\<lambda>d _. d \<in> rumor_domain ` set ws) cl"
  have "distinct (map fst ?kept)" using assms(1) by (metis claims_ok_def hm_wf_def hm_wf_retain)
  moreover have "set (map fst ?kept) \<subseteq> rumor_domain ` set ws" by (auto simp: hm_retain_def)
  ultimately have "length ?kept \<le> card (rumor_domain ` set ws)"
    by (metis card_mono distinct_card finite_imageI length_map List.finite_set)
  also have "\<dots> \<le> length ws" by (metis card_image_le card_length List.finite_set le_trans)
  finally show ?thesis using assms(3) by simp
qed


lemma other_regs_get:
  "hm_wf (registrations s) \<Longrightarrow> hm_get (other_regs quota s) d = Some reg \<longleftrightarrow>
    hm_get (registrations s) d = Some reg \<and> (reg_quota_key reg \<noteq> quota \<or> reg_rumor reg = None)"
  by (simp add: other_regs_def hm_get_retain_Some)

lemma reconcile_reg_cases:
  assumes "hm_wf (registrations s)" "hm_get (quota_claims s) quota = Some claims"
    and "hm_get (registrations (reconcile_quota ext quota time s)) d = Some reg"
  obtains (winner) r where "r \<in> set (winners ext quota time s)" "rumor_domain r = d"
      "reg = registration_from_rumor r quota"
  | (kept) "hm_get (registrations s) d = Some reg" "reg_quota_key reg \<noteq> quota \<or> reg_rumor reg = None"
  using install_winners_get [of quota "winners ext quota time s" "other_regs quota s" d reg]
    assms(3) other_regs_get [OF assms(1)] reconcile_quota_present(1) [OF assms(2)]
  by auto

lemma reconcile_local_subset:
  assumes "hm_wf (registrations s)"
  shows "local_names (reconcile_quota ext quota time s) q \<subseteq> local_names s q"
proof (cases "hm_get (quota_claims s) quota")
  case None
  then show ?thesis by (simp add: reconcile_quota_absent)
next
  case (Some claims)
  show ?thesis
  proof
    fix d
    assume "d \<in> local_names (reconcile_quota ext quota time s) q"
    then obtain reg where reg: "hm_get (registrations (reconcile_quota ext quota time s)) d = Some reg"
      "reg_quota_key reg = q" "reg_rumor reg = None" by (auto simp: local_names_def)
    from assms Some reg(1) show "d \<in> local_names s q"
      by (cases rule: reconcile_reg_cases)
        (use reg(2,3) in \<open>auto simp: local_names_def registration_from_rumor_def\<close>)
  qed
qed

lemma reconcile_restores:
  assumes inv: "store_inv_except (Some quota) s" and present: "hm_contains_key (quota_claims s) quota"
  shows "store_inv (reconcile_quota ext quota time s)"
proof -
  note D = store_inv_exceptD [OF inv]
  let ?s' = "reconcile_quota ext quota time s"
  from present obtain claims where claims: "hm_get (quota_claims s) quota = Some claims"
    by (auto simp: hm_contains_key_def)
  note ok = D(5) [OF claims]
  let ?live = "live_claims ext quota time s" and ?ws = "winners ext quota time s"
  let ?kept = "hm_retain (\<lambda>d _. d \<in> rumor_domain ` set ?ws) ?live"
  note new = reconcile_quota_present [OF claims, of ext time]
  have live: "claims_ok quota ?live" using live_claims_ok(1) [OF claims ok] .
  then have wf: "hm_wf ?live" by (simp add: claims_ok_def)
  have kept: "hm_get ?kept d = Some r \<longleftrightarrow> hm_get ?live d = Some r \<and> d \<in> rumor_domain ` set ?ws" for d r
    using wf by (simp add: hm_get_retain_Some)
  have kept_ok: "claims_ok quota ?kept" using live wf kept by (auto simp: claims_ok_def)
  have kept_len: "length ?kept \<le> 5"
    using live by (rule retained_length) (auto simp: winners_def first_claims_subset length_first_claims)
  note winner = winner_claim [OF claims ok]
  show ?thesis
    unfolding store_inv_def
  proof (rule store_inv_exceptI)
    show "hm_wf (registrations ?s')" using D(1) by (simp add: new other_regs_def install_winners_wf)
    show "hm_wf (quota_claims ?s')" using D(2) by (simp add: new)
    show "hm_wf (probe_evidence ?s')" "tracker_wf (liveness ?s')" "count_of (liveness ?s') q \<le> 5" for q
      using D(3,4,9) by simp_all
    show "claims_ok q cl" if "hm_get (quota_claims ?s') q = Some cl" for q cl
      using that D(5) kept_ok by (auto simp: new split: if_splits)
    show "length cl \<le> 5" if "hm_get (quota_claims ?s') q = Some cl" for q cl
      using that D(6) [of q cl] kept_len by (auto simp: new split: if_splits)
    show "leased_ok d reg r" if "hm_get (registrations ?s') d = Some reg" "reg_rumor reg = Some r" for d reg r
      using D(1) claims that(1)
      by (cases rule: reconcile_reg_cases)
        (use that(2) D(7) winner in \<open>auto simp: leased_ok_def registration_from_rumor_def\<close>)
    show "backed ?s' d reg" if "hm_get (registrations ?s') d = Some reg" "reg_rumor reg = Some r" for d reg r
      using D(1) claims that(1)
    proof (cases rule: reconcile_reg_cases)
      case (winner r')
      then show ?thesis
        using winner_claim(1) [OF claims ok winner(1)] kept
        by (auto simp: backed_def new registration_from_rumor_def)
    next
      case kept
      with that(2) have other: "reg_quota_key reg \<noteq> quota" by auto
      with kept that(2) have "backed s d reg" using D(8) by auto
      with other show ?thesis by (simp add: backed_def new)
    qed
    show "card (local_names ?s' q) \<le> count_of (liveness ?s') q" for q
    proof -
      have "card (local_names ?s' q) \<le> card (local_names s q)"
        using reconcile_local_subset [OF D(1)] by (rule card_mono [OF finite_names(1)])
      with D(10) [of q] show ?thesis by simp
    qed
  qed
qed

lemma reconcile_inv: "store_inv s \<Longrightarrow> store_inv (reconcile_quota ext quota time s)"
  by (cases "hm_contains_key (quota_claims s) quota")
    (simp_all add: reconcile_restores store_inv_weaken hm_contains_key_def reconcile_quota_absent)

lemma reconcile_all_inv: "store_inv s \<Longrightarrow> store_inv (reconcile_all ext time i qs s)"
  by (induction qs arbitrary: s i) (auto intro: reconcile_inv)

section \<open>Every operation keeps the invariant\<close>

lemma store_new_inv: "store_inv store_new"
  unfolding store_inv_def
  by (rule store_inv_exceptI) (simp_all add: store_new_def local_names_def)

lemma tracker_change_inv:
  assumes "store_inv s" "tracker_wf lv" "hm_wf pe" "\<And>q. count_of lv q = count_of (liveness s) q"
  shows "store_inv (s\<lparr>liveness := lv, probe_evidence := pe\<rparr>)"
  unfolding store_inv_def
  by (rule store_inv_exceptI)
    (use store_inv_exceptD [OF assms(1) [unfolded store_inv_def]] assms(2-4)
      in \<open>auto simp: local_names_def backed_def\<close>)

lemma probe_inv: "store_inv s \<Longrightarrow> store_inv (probe c time s)"
  using tracker_change_inv [of s "record_probe c time (liveness s)" "probe_evidence s"]
  by (simp add: probe_def store_inv_def store_inv_except_def)

lemma probe_with_evidence_inv: "store_inv s \<Longrightarrow> store_inv (probe_with_evidence c time t sg s)"
  using tracker_change_inv [of s "record_probe c time (liveness s)"
      "hm_insert (client_key c) (t, sg) (probe_evidence s)"]
  by (simp add: probe_with_evidence_def probe_def Let_def store_inv_def store_inv_except_def)

lemma insert_claim_inv:
  assumes "store_inv s" "quota = quota_key (rumor_rdns rumor)"
  shows "store_inv_except (Some quota) (insert_claim quota rumor s)"
proof -
  note D = store_inv_exceptD [OF assms(1) [unfolded store_inv_def]]
  let ?claims = "case hm_get (quota_claims s) quota of Some claims \<Rightarrow> claims | None \<Rightarrow> []"
  have claims: "claims_ok quota ?claims"
    using D(5) [of quota] by (auto simp: claims_ok_def split: option.splits)
  show ?thesis
  proof (rule store_inv_exceptI)
    show "claims_ok q cl" if "hm_get (quota_claims (insert_claim quota rumor s)) q = Some cl" for q cl
      using that claims D(5) [of q cl] assms(2)
      by (auto simp: insert_claim_def Let_def claims_ok_def split: if_splits)
  qed (use D in \<open>auto simp: insert_claim_def Let_def local_names_def backed_def\<close>)
qed

lemma insert_claim_contains: "hm_contains_key (quota_claims (insert_claim quota rumor s)) quota"
  by (simp add: insert_claim_def Let_def hm_contains_key_def)

lemma claim_reconciled_inv:
  "store_inv s \<Longrightarrow> quota = quota_key (rumor_rdns rumor) \<Longrightarrow>
    store_inv (reconcile_quota ext quota time (insert_claim quota rumor s))"
  by (rule reconcile_restores [OF insert_claim_inv insert_claim_contains])

lemma attach_rumor_inv: "store_inv s \<Longrightarrow> store_inv (snd (attach_rumor ext rumor time s))"
  by (simp add: attach_rumor_def Let_def claim_reconciled_inv split: option.splits)

lemma adopt_rumor_inv: "store_inv s \<Longrightarrow> store_inv (snd (adopt_rumor ext rumor time s))"
  by (simp add: adopt_rumor_def Let_def claim_reconciled_inv)

text \<open>Changes that leave owner, token, host and lease presence of every registration alone.\<close>

definition same_claim :: "registration_rumor \<Rightarrow> registration_rumor \<Rightarrow> bool" where
  "same_claim r r' \<longleftrightarrow> rumor_domain r' = rumor_domain r \<and> rumor_rdns r' = rumor_rdns r \<and>
    rumor_token r' = rumor_token r \<and> rumor_client_key r' = rumor_client_key r"

definition same_holder :: "registration \<Rightarrow> registration \<Rightarrow> bool" where
  "same_holder reg reg' \<longleftrightarrow> reg_client_key reg' = reg_client_key reg \<and>
    reg_quota_key reg' = reg_quota_key reg \<and> reg_token reg' = reg_token reg \<and>
    rel_option same_claim (reg_rumor reg) (reg_rumor reg')"

definition same_claims :: "claims_table \<Rightarrow> claims_table \<Rightarrow> bool" where
  "same_claims cl cl' \<longleftrightarrow> length cl' = length cl \<and> (hm_wf cl \<longrightarrow> hm_wf cl') \<and>
    (\<forall>d. rel_option same_claim (hm_get cl d) (hm_get cl' d))"

lemma same_refl [simp]: "same_claim r r" "same_holder reg reg" "same_claims cl cl"
  by (simp_all add: same_claim_def same_holder_def same_claims_def option.rel_refl)

lemma rel_optionE:
  assumes "rel_option R x y"
  obtains "x = None" "y = None" | a b where "x = Some a" "y = Some b" "R a b"
  using assms by (cases x; cases y) auto

lemma same_shape_inv:
  assumes inv: "store_inv s"
    and other: "liveness s' = liveness s" "probe_evidence s' = probe_evidence s"
      "hm_wf (registrations s) \<Longrightarrow> hm_wf (registrations s')" "hm_wf (quota_claims s) \<Longrightarrow> hm_wf (quota_claims s')"
    and regs: "\<And>d. rel_option same_holder (hm_get (registrations s) d) (hm_get (registrations s') d)"
    and claims: "\<And>q. rel_option same_claims (hm_get (quota_claims s) q) (hm_get (quota_claims s') q)"
  shows "store_inv s'"
proof -
  note D = store_inv_exceptD [OF inv [unfolded store_inv_def]]
  have reg: "\<exists>reg0. hm_get (registrations s) d = Some reg0 \<and> same_holder reg0 reg"
    if "hm_get (registrations s') d = Some reg" for d reg
    using regs [of d] that by (auto elim: rel_optionE)
  have lease: "\<exists>reg0 r0. hm_get (registrations s) d = Some reg0 \<and> same_holder reg0 reg \<and>
      reg_rumor reg0 = Some r0 \<and> same_claim r0 r"
    if "hm_get (registrations s') d = Some reg" "reg_rumor reg = Some r" for d reg r
    using reg [OF that(1)] that(2) by (auto simp: same_holder_def elim: rel_optionE)
  have cl: "\<exists>cl0. hm_get (quota_claims s) q = Some cl0 \<and> same_claims cl0 cl"
    if "hm_get (quota_claims s') q = Some cl" for q cl
    using claims [of q] that by (auto elim: rel_optionE)
  have claims_same: "claims_ok q cl" if "claims_ok q cl0" "same_claims cl0 cl" for q cl cl0
    unfolding claims_ok_def
  proof (intro conjI allI impI)
    show "hm_wf cl" using that by (simp add: claims_ok_def same_claims_def)
    fix d r assume "hm_get cl d = Some r"
    moreover have "rel_option same_claim (hm_get cl0 d) (hm_get cl d)"
      using that(2) by (simp add: same_claims_def)
    ultimately obtain r0 where "hm_get cl0 d = Some r0" "same_claim r0 r" by (auto elim: rel_optionE)
    with that(1) show "rumor_domain r = d" "quota_key (rumor_rdns r) = q"
      by (auto simp: claims_ok_def same_claim_def)
  qed
  have local: "local_names s' q \<subseteq> local_names s q" for q
    using reg by (fastforce simp: local_names_def same_holder_def)
  show ?thesis
    unfolding store_inv_def
  proof (rule store_inv_exceptI)
    show "claims_ok q cl" if "hm_get (quota_claims s') q = Some cl" for q cl
      using cl [OF that] claims_same D(5) by blast
    show "length cl \<le> 5" if "hm_get (quota_claims s') q = Some cl" for q cl
      using cl [OF that] D(6) by (auto simp: same_claims_def)
    show "leased_ok d reg r" if "hm_get (registrations s') d = Some reg" "reg_rumor reg = Some r" for d reg r
      using lease [OF that] D(7) by (fastforce simp: leased_ok_def same_claim_def same_holder_def)
    show "backed s' d reg" if "hm_get (registrations s') d = Some reg" "reg_rumor reg = Some r" for d reg r
    proof -
      from lease [OF that] obtain reg0 where reg0: "same_holder reg0 reg" "backed s d reg0"
        using D(8) by blast
      then obtain cl0 c0 where cl0: "hm_get (quota_claims s) (reg_quota_key reg0) = Some cl0"
        "hm_get cl0 d = Some c0" "rumor_token c0 = reg_token reg0" "rumor_client_key c0 = reg_client_key reg0"
        by (auto simp: backed_def)
      from claims [of "reg_quota_key reg0"] cl0(1) obtain cl' where
        cl': "hm_get (quota_claims s') (reg_quota_key reg0) = Some cl'" "same_claims cl0 cl'"
        by (auto elim: rel_optionE)
      then have "rel_option same_claim (hm_get cl0 d) (hm_get cl' d)" by (simp add: same_claims_def)
      with cl0(2) obtain c where "hm_get cl' d = Some c" "same_claim c0 c" by (auto elim: rel_optionE)
      with cl' cl0 reg0(1) show ?thesis by (auto simp: backed_def same_claim_def same_holder_def)
    qed
    show "card (local_names s' q) \<le> count_of (liveness s') q" for q
      using card_mono [OF finite_names(1) local [of q]] D(10) [of q] by (simp add: other)
  qed (use D other in auto)
qed

lemma rel_option_same_refl [simp]:
  "rel_option same_claim x x" "rel_option same_holder y y" "rel_option same_claims z z"
  by (simp_all add: option.rel_refl)

lemma set_records_inv: "store_inv s \<Longrightarrow> store_inv (snd (set_records d c recs s))"
proof (cases "hm_get (registrations s) d")
  case (Some reg)
  have "same_holder reg (reg\<lparr>reg_records := recs\<rparr>)" by (simp add: same_holder_def)
  moreover assume "store_inv s"
  ultimately show ?thesis
    using Some by (auto simp: set_records_def intro!: same_shape_inv [of s])
qed (simp add: set_records_def)

lemma refresh_rumor_same [simp]: "same_claim r (refresh_rumor t sg r)"
  by (simp add: same_claim_def refresh_rumor_def)

lemma same_holder_rumor:
  "rel_option same_claim (reg_rumor reg) x \<Longrightarrow> same_holder reg (reg\<lparr>reg_rumor := x\<rparr>)"
  by (simp add: same_holder_def)

lemma rel_option_map_same:
  "(\<And>r. same_claim r (f r)) \<Longrightarrow> rel_option same_claim x (map_option f x)"
  by (cases x) simp_all

lemma refresh_probe_evidence_inv:
  assumes "store_inv s" shows "store_inv (refresh_probe_evidence ck t sg s)"
proof -
  let ?f = "\<lambda>reg. if reg_client_key reg = ck
      then reg\<lparr>reg_rumor := map_option (refresh_rumor t sg) (reg_rumor reg)\<rparr> else reg"
  let ?g = "\<lambda>rumor. if rumor_client_key rumor = ck then refresh_rumor t sg rumor else rumor"
  have f: "same_holder reg (?f reg)" for reg by (simp add: same_holder_rumor rel_option_map_same)
  have g: "same_claim r (?g r)" for r by simp
  have cl: "same_claims m (hm_map_values ?g m)" for m
    unfolding same_claims_def using g by (simp add: rel_option_map_same)
  have "rel_option same_holder x (map_option ?f x)" for x using f by (cases x) (simp_all del: if_split)
  moreover have "rel_option same_claims x (map_option (hm_map_values ?g) x)" for x
    using cl by (cases x) (simp_all del: if_split)
  ultimately show ?thesis
    by (intro same_shape_inv [OF assms]) (simp_all add: refresh_probe_evidence_def)
qed

lemma attach_record_evidence_inv:
  assumes "store_inv s" shows "store_inv (attach_record_evidence d ck t sg s)"
proof -
  let ?g = "\<lambda>claims. case hm_get claims d of
      Some rumor \<Rightarrow>
        if rumor_client_key rumor = ck
        then hm_insert d (rumor\<lparr>records_timestamp_millis := Some t, records_signature := Some sg\<rparr>) claims
        else claims
    | None \<Rightarrow> claims"
  have sel: "quota_claims (attach_record_evidence d ck t sg s) = hm_map_values ?g (quota_claims s)"
    by (simp add: attach_record_evidence_def)
  have cl: "same_claims m (?g m)" for m
    by (auto simp: same_claims_def same_claim_def length_hm_insert hm_contains_key_def split: option.splits)
  have claims: "rel_option same_claims x (map_option ?g x)" for x
    using cl by (cases x) simp_all
  have attached: "rel_option same_claim x (map_option (\<lambda>rumor. rumor\<lparr>rumor_records := recs,
      records_timestamp_millis := Some t, records_signature := Some sg\<rparr>) x)" for x recs
    by (rule rel_option_map_same) (simp add: same_claim_def)
  have "same_holder reg (reg\<lparr>reg_rumor := map_option (\<lambda>rumor. rumor\<lparr>rumor_records := recs,
      records_timestamp_millis := Some t, records_signature := Some sg\<rparr>) (reg_rumor reg)\<rparr>)" for reg recs
    by (rule same_holder_rumor) (rule attached)
  then have regs: "rel_option same_holder (hm_get (registrations s) d')
      (hm_get (registrations (attach_record_evidence d ck t sg s)) d')" for d'
    by (auto simp: attach_record_evidence_def split: option.splits)
  show ?thesis
  proof (rule same_shape_inv [OF assms _ _ _ _ regs])
    show "rel_option same_claims (hm_get (quota_claims s) q)
        (hm_get (quota_claims (attach_record_evidence d ck t sg s)) q)" for q
      unfolding sel hm_get_map_values by (rule claims)
    show "hm_wf (quota_claims s) \<Longrightarrow> hm_wf (quota_claims (attach_record_evidence d ck t sg s))"
      by (simp add: sel)
    show "hm_wf (registrations s) \<Longrightarrow> hm_wf (registrations (attach_record_evidence d ck t sg s))"
      by (simp add: attach_record_evidence_def split: option.splits)
  qed (simp_all add: attach_record_evidence_def)
qed

definition drop_hosts :: "rstring list \<Rightarrow> registry_store \<Rightarrow> registry_store" where
  "drop_hosts ks s =
    s\<lparr>registrations := hm_retain (\<lambda>_ reg. \<not> List.member ks (reg_quota_key reg)) (registrations s),
      liveness := foldl (\<lambda>lv k. forget_client_by_key k lv) (liveness s) ks\<rparr>"

lemma reclaim_stale_eq:
  "reclaim_stale ext time s =
    reconcile_all ext (call 1 time) 0 (hm_keys (quota_claims s))
      (drop_hosts (expired_clients (liveness s) (call 0 time)) s)"
  by (simp add: reclaim_stale_def Let_def drop_hosts_def)

lemma drop_hosts_get:
  "hm_wf (registrations s) \<Longrightarrow> hm_get (registrations (drop_hosts ks s)) d = Some reg \<longleftrightarrow>
    hm_get (registrations s) d = Some reg \<and> reg_quota_key reg \<notin> set ks"
  by (simp add: drop_hosts_def hm_get_retain_Some)

lemma drop_hosts_inv: assumes "store_inv s" shows "store_inv (drop_hosts ks s)"
proof -
  note D = store_inv_exceptD [OF assms [unfolded store_inv_def]]
  have sel: "quota_claims (drop_hosts ks s) = quota_claims s" "probe_evidence (drop_hosts ks s) = probe_evidence s"
    "liveness (drop_hosts ks s) = foldl (\<lambda>lv k. forget_client_by_key k lv) (liveness s) ks"
    by (simp_all add: drop_hosts_def)
  have local: "local_names (drop_hosts ks s) q = (if q \<in> set ks then {} else local_names s q)" for q
    using D(1) by (auto simp: local_names_def drop_hosts_get)
  show ?thesis
    unfolding store_inv_def
  proof (rule store_inv_exceptI)
    show "hm_wf (registrations (drop_hosts ks s))" using D(1) by (simp add: drop_hosts_def)
    show "leased_ok d reg r" if "hm_get (registrations (drop_hosts ks s)) d = Some reg" "reg_rumor reg = Some r"
      for d reg r
      using that D(1,7) by (simp add: drop_hosts_get)
    show "backed (drop_hosts ks s) d reg"
      if "hm_get (registrations (drop_hosts ks s)) d = Some reg" "reg_rumor reg = Some r" for d reg r
      using that D(1,8) by (simp add: drop_hosts_get backed_def sel)
  qed (use D in \<open>simp_all add: sel local fold_forget\<close>)
qed

lemma reclaim_stale_inv: "store_inv s \<Longrightarrow> store_inv (reclaim_stale ext time s)"
  by (simp add: reclaim_stale_eq reconcile_all_inv drop_hosts_inv)

text \<open>What a successful registration adds.\<close>

definition add_registration ::
  "domain_name \<Rightarrow> client_identity \<Rightarrow> registration_token \<Rightarrow> registry_store \<Rightarrow> registry_store" where
  "add_registration d c token s =
    s\<lparr>registrations := hm_insert d
        \<lparr>reg_client_key = client_key c, reg_quota_key = client_quota_key c, reg_token = token,
         reg_records = [], reg_rumor = None\<rparr> (registrations s),
      liveness := increment_registration c (liveness s)\<rparr>"

lemma register_cases:
  obtains (not_live) "\<not> is_live (liveness s) c (call 0 time)" "register ext drawn d c time s = (Inl NotLive, s)"
  | (refused) "is_live (liveness s) c (call 0 time)"
      "hm_contains_key (registrations (reclaim_stale ext (call 1 time) s)) d \<or>
        \<not> can_register (liveness (reclaim_stale ext (call 1 time) s)) c (call 2 time)"
      "register ext drawn d c time s = (Inl RegistrationLimitReached, reclaim_stale ext (call 1 time) s)"
  | (granted) "is_live (liveness s) c (call 0 time)"
      "hm_get (registrations (reclaim_stale ext (call 1 time) s)) d = None"
      "can_register (liveness (reclaim_stale ext (call 1 time) s)) c (call 2 time)"
      "register ext drawn d c time s =
        (Inr (token_issue drawn (now_millis (call 3 time))),
         add_registration d c (token_issue drawn (now_millis (call 3 time)))
           (reclaim_stale ext (call 1 time) s))"
  by (cases "is_live (liveness s) c (call 0 time)";
      cases "hm_contains_key (registrations (reclaim_stale ext (call 1 time) s)) d";
      cases "can_register (liveness (reclaim_stale ext (call 1 time) s)) c (call 2 time)")
    (simp_all add: register_def Let_def add_registration_def hm_contains_key_def)

lemma add_registration_inv:
  assumes "store_inv s" "hm_get (registrations s) d = None" "can_register (liveness s) c time"
  shows "store_inv (add_registration d c token s)"
proof -
  note D = store_inv_exceptD [OF assms(1) [unfolded store_inv_def]]
  have sel: "quota_claims (add_registration d c token s) = quota_claims s"
    "probe_evidence (add_registration d c token s) = probe_evidence s"
    "liveness (add_registration d c token s) = increment_registration c (liveness s)"
    "hm_wf (registrations s) \<Longrightarrow> hm_wf (registrations (add_registration d c token s))"
    by (simp_all add: add_registration_def)
  have local: "local_names (add_registration d c token s) q =
      (if q = client_quota_key c then insert d (local_names s q) else local_names s q)" for q
    using assms(2) by (auto simp: local_names_def add_registration_def)
  have room: "count_of (liveness s) (client_quota_key c) < 5"
    using assms(3) by (simp add: can_register_def registration_count_eq max_registrations_per_client_def)
  have old: "hm_get (registrations s) d' = Some reg"
    if "hm_get (registrations (add_registration d c token s)) d' = Some reg" "reg_rumor reg = Some r" for d' reg r
    using that by (auto simp: add_registration_def split: if_splits)
  show ?thesis
    unfolding store_inv_def
  proof (rule store_inv_exceptI)
    show "card (local_names (add_registration d c token s) q) \<le> count_of (liveness (add_registration d c token s)) q" for q
      using D(10) [of q] by (auto simp: sel local card_insert_if)
    show "count_of (liveness (add_registration d c token s)) q \<le> 5" for q
      using room D(9) [of q] by (auto simp: sel)
    show "leased_ok d' reg r" if "hm_get (registrations (add_registration d c token s)) d' = Some reg" "reg_rumor reg = Some r"
      for d' reg r
      using D(7) [OF old [OF that] that(2)] .
    show "backed (add_registration d c token s) d' reg"
      if "hm_get (registrations (add_registration d c token s)) d' = Some reg" "reg_rumor reg = Some r" for d' reg r
      using D(8) [OF old [OF that] that(2)] by (simp add: backed_def sel)
  qed (use D in \<open>simp_all add: sel\<close>)
qed

lemma register_inv: "store_inv s \<Longrightarrow> store_inv (snd (register ext drawn d c time s))"
  by (rule register_cases [where s = s and c = c and time = time and ext = ext and drawn = drawn and d = d])
    (simp_all add: reclaim_stale_inv add_registration_inv)

end
