(* ===== verification/Store_Props.thy ===== *)
theory Store_Props
  imports Store_Inv
begin

text \<open>
  What the store's operations compute: the caps every history of operations respects, the
  outcome of a registration, what survives a reconciliation, convergence of replicas, and what
  an update of a name's records does to its claim.
\<close>

section \<open>Histories\<close>

datatype store_event =
    EvProbe client_identity time_source u64 bytes
  | EvRegister bytes domain_name client_identity time_source
  | EvSetRecords domain_name client_identity "zone_record list"
  | EvAttachRumor registration_rumor time_source
  | EvRefreshProbe rstring u64 bytes
  | EvRecordEvidence domain_name rstring u64 bytes
  | EvAdopt registration_rumor time_source
  | EvReclaim time_source

fun store_step :: "externals \<Rightarrow> registry_store \<Rightarrow> store_event \<Rightarrow> registry_store" where
  "store_step ext s (EvProbe c time t sg) = probe_with_evidence c time t sg s"
| "store_step ext s (EvRegister drawn d c time) = snd (register ext drawn d c time s)"
| "store_step ext s (EvSetRecords d c recs) = snd (set_records d c recs s)"
| "store_step ext s (EvAttachRumor rumor time) = snd (attach_rumor ext rumor time s)"
| "store_step ext s (EvRefreshProbe ck t sg) = refresh_probe_evidence ck t sg s"
| "store_step ext s (EvRecordEvidence d ck t sg) = attach_record_evidence d ck t sg s"
| "store_step ext s (EvAdopt rumor time) = snd (adopt_rumor ext rumor time s)"
| "store_step ext s (EvReclaim time) = reclaim_stale ext time s"

lemma store_step_inv: "store_inv s \<Longrightarrow> store_inv (store_step ext s e)"
  by (cases e) (simp_all add: probe_with_evidence_inv register_inv set_records_inv attach_rumor_inv
      refresh_probe_evidence_inv attach_record_evidence_inv adopt_rumor_inv reclaim_stale_inv)

interpretation store_machine: state_machine "store_step ext" store_new store_inv for ext
  by unfold_locales (auto intro: store_new_inv store_step_inv)

lemma leased_cap: assumes "store_inv s" shows "card (leased_names s q) \<le> 5"
proof -
  note D = store_inv_exceptD [OF assms [unfolded store_inv_def]]
  show ?thesis
  proof (cases "hm_get (quota_claims s) q")
    case None
    then have "leased_names s q = {}" using D(8) by (force simp: leased_names_def backed_def)
    then show ?thesis by simp
  next
    case (Some claims)
    have "leased_names s q \<subseteq> fst ` set claims"
    proof
      fix d assume "d \<in> leased_names s q"
      then obtain c where "hm_get claims d = Some c"
        using D(8) Some by (fastforce simp: leased_names_def backed_def)
      then show "d \<in> fst ` set claims" by (force dest: hm_get_SomeD)
    qed
    then have "card (leased_names s q) \<le> card (fst ` set claims)" by (intro card_mono) auto
    also have "\<dots> \<le> length claims" by (metis card_image_le card_length List.finite_set le_trans)
    finally show ?thesis using D(6) [OF Some] by simp
  qed
qed

text \<open>The names a host holds.\<close>

definition host_names :: "registry_store \<Rightarrow> rstring \<Rightarrow> domain_name set" where
  "host_names s q = {d. \<exists>reg. hm_get (registrations s) d = Some reg \<and> reg_quota_key reg = q}"

lemma host_names_split: "host_names s q = local_names s q \<union> leased_names s q"
  by (auto simp: host_names_def local_names_def leased_names_def)

lemma caps:
  assumes "store_inv s"
  shows "card (leased_names s q) \<le> 5" "card (local_names s q) \<le> 5" "card (host_names s q) \<le> 10"
proof -
  note D = store_inv_exceptD [OF assms [unfolded store_inv_def]]
  show "card (leased_names s q) \<le> 5" using leased_cap [OF assms] .
  show "card (local_names s q) \<le> 5" using D(9,10) [of q] by simp
  with leased_cap [OF assms, of q] show "card (host_names s q) \<le> 10"
    unfolding host_names_split using card_Un_le [of "local_names s q" "leased_names s q"] by simp
qed

section \<open>Reconciliation, exactly\<close>

lemma install_winners_get_eq:
  assumes "distinct (map rumor_domain ws)"
  shows "hm_get (install_winners quota ws regs) d =
    (case find (\<lambda>w. rumor_domain w = d) ws of
      None \<Rightarrow> hm_get regs d
    | Some w \<Rightarrow>
        (case hm_get regs d of
          Some reg \<Rightarrow> if negotiate_locally (reg_token reg) (rumor_token w) = rumor_token w
            then Some (registration_from_rumor w quota) else Some reg
        | None \<Rightarrow> Some (registration_from_rumor w quota)))"
  using assms
proof (induction ws arbitrary: regs)
  case Nil
  then show ?case by simp
next
  case (Cons rumor ws)
  have "find (\<lambda>w. rumor_domain w = rumor_domain rumor) ws = None"
    using Cons.prems by (simp add: find_None_iff) (metis image_eqI)
  then show ?case using Cons by (auto simp: Let_def split: option.splits)
qed

text \<open>The claims of a host, and their order of precedence.\<close>

definition claims_of :: "registry_store \<Rightarrow> rstring \<Rightarrow> claims_table" where
  "claims_of s q = (case hm_get (quota_claims s) q of Some claims \<Rightarrow> claims | None \<Rightarrow> [])"

definition canon :: "claims_table \<Rightarrow> registration_rumor list" where
  "canon cl = sort_key claim_order (hm_values cl)"

lemma claims_of_ok: "store_inv s \<Longrightarrow> claims_ok q (claims_of s q)"
  using store_inv_exceptD(5) [of None s q]
  by (auto simp: store_inv_def claims_of_def claims_ok_def split: option.splits)

lemma claims_of_length: "store_inv s \<Longrightarrow> length (claims_of s q) \<le> 5"
  using store_inv_exceptD(6) [of None s q]
  by (auto simp: store_inv_def claims_of_def split: option.splits)

lemma set_canon: "set (canon cl) = snd ` set cl"
  by (simp add: canon_def hm_values_def)

lemma length_canon: "length (canon cl) = length cl"
  by (simp add: canon_def hm_values_def)

lemma canon_sorted: "sorted (map claim_order (canon cl))"
  by (simp add: canon_def)

lemma claims_get_iff:
  "claims_ok q cl \<Longrightarrow> hm_get cl d = Some r \<longleftrightarrow> r \<in> set (canon cl) \<and> rumor_domain r = d"
  by (force simp: claims_ok_def set_canon hm_get_eq_Some)

lemma claims_ok_entry: "claims_ok q cl \<Longrightarrow> (d, r) \<in> set cl \<Longrightarrow> d = rumor_domain r"
  by (simp add: claims_ok_def hm_get_eq_Some)

lemma claims_ok_values: "claims_ok q cl \<Longrightarrow> map rumor_domain (hm_values cl) = map fst cl"
  using claims_ok_entry by (fastforce simp: hm_values_def)

lemma claims_ok_distinct: "claims_ok q cl \<Longrightarrow> distinct (map rumor_domain (hm_values cl))"
  by (simp add: claims_ok_values) (simp add: claims_ok_def hm_wf_def)

lemma canon_distinct:
  assumes "claims_ok q cl"
  shows "distinct (map rumor_domain (canon cl))" "distinct (canon cl)"
proof -
  have "mset (map rumor_domain (canon cl)) = mset (map rumor_domain (hm_values cl))"
    by (simp add: canon_def)
  then show "distinct (map rumor_domain (canon cl))"
    using claims_ok_distinct [OF assms] mset_eq_imp_distinct_iff by blast
  then show "distinct (canon cl)" by (simp add: distinct_map)
qed

lemma claim_order_inj: "inj_on rumor_domain A \<Longrightarrow> inj_on claim_order A"
  by (auto simp: inj_on_def claim_order_def)

lemma sort_claims_cong:
  assumes "mset xs = mset ys" "distinct (map rumor_domain xs)"
  shows "sort_key claim_order xs = sort_key claim_order ys"
proof (rule sort_key_inj_key_eq)
  show "mset xs = mset (sort_key claim_order ys)" using assms(1) by simp
  show "inj_on claim_order (set xs)" using assms(2) by (simp add: distinct_map claim_order_inj)
qed simp

lemma option_ext: "(\<And>r. a = Some r \<longleftrightarrow> b = Some r) \<Longrightarrow> a = b"
  by (cases a; cases b) (simp_all, blast+)

lemma claims_get_cong:
  assumes "claims_ok q cl" "claims_ok q cl'" "canon cl = canon cl'"
  shows "hm_get cl d = hm_get cl' d"
proof -
  have "hm_get cl d = Some r \<longleftrightarrow> hm_get cl' d = Some r" for r
    by (simp only: claims_get_iff [OF assms(1)] claims_get_iff [OF assms(2)] assms(3))
  then show ?thesis by (rule option_ext)
qed

lemma take_insort_key:
  "take n (insort_key f x (take n xs)) = take n (insort_key f x xs)"
proof (induction n arbitrary: xs)
  case 0
  then show ?case by simp
next
  case (Suc n)
  then show ?case by (cases xs; cases n) (auto simp: min_def)
qed

lemma take_sort_append:
  "take n (sort_key f (xs @ take n (sort_key f ys))) = take n (sort_key f (xs @ ys))"
proof (induction xs)
  case Nil
  have "sorted (map f (take n (sort_key f ys)))" by (simp add: sorted_wrt_take flip: take_map)
  then show ?case by (simp add: sort_key_id_if_sorted)
next
  case (Cons x xs)
  then show ?case by simp (metis take_insort_key)
qed

lemma filter_take_canon:
  assumes "distinct xs" shows "filter (\<lambda>r. r \<in> set (take n xs)) xs = take n xs"
  using assms
proof (induction xs arbitrary: n)
  case (Cons x xs)
  show ?case
  proof (cases n)
    case (Suc m)
    from Cons.prems have "filter (\<lambda>r. r = x \<or> r \<in> set (take m xs)) xs = filter (\<lambda>r. r \<in> set (take m xs)) xs"
      by (intro filter_cong) auto
    with Cons Suc show ?thesis by simp
  qed simp
qed simp

text \<open>After a reconciliation the claims left are the first five of the live ones.\<close>

lemma canon_reconciled:
  assumes ok: "claims_ok q cl" and w: "ws = take n (canon cl)"
  shows "canon (hm_retain (\<lambda>d _. d \<in> rumor_domain ` set ws) cl) = ws"
proof -
  have inj: "inj_on rumor_domain (set (hm_values cl))"
    using claims_ok_distinct [OF ok] by (simp add: distinct_map)
  have sub: "set ws \<subseteq> set (hm_values cl)"
    using w set_take_subset [of n "canon cl"] by (simp add: canon_def)
  have "hm_values (hm_retain (\<lambda>d _. d \<in> rumor_domain ` set ws) cl)
      = map snd (filter (\<lambda>e. snd e \<in> set ws) cl)"
    unfolding hm_values_def hm_retain_def
  proof (rule arg_cong [of _ _ "map snd"], rule filter_cong [OF refl])
    fix e assume e: "e \<in> set cl"
    then have "fst e = rumor_domain (snd e)" using claims_ok_entry [OF ok, of "fst e" "snd e"] by simp
    moreover have "snd e \<in> set (hm_values cl)" using e by (simp add: hm_values_def)
    ultimately show "(fst e \<in> rumor_domain ` set ws) = (snd e \<in> set ws)"
      using inj_on_image_mem_iff [OF inj _ sub] by simp
  qed
  also have "\<dots> = filter (\<lambda>r. r \<in> set ws) (hm_values cl)"
    by (simp add: hm_values_def filter_map o_def)
  finally have "canon (hm_retain (\<lambda>d _. d \<in> rumor_domain ` set ws) cl) = filter (\<lambda>r. r \<in> set ws) (canon cl)"
    by (simp add: canon_def filter_sort)
  then show ?thesis using filter_take_canon [OF canon_distinct(2) [OF ok], of n] w by simp
qed

lemma winners_eq:
  assumes "hm_get (quota_claims s) quota = Some claims"
  shows "winners ext quota time s = take 5 (canon (retain_live ext time 0 claims))"
  using assms
  by (simp add: winners_def first_claims_def max_registrations_per_client_def live_claims_def canon_def)

lemma claims_of_reconcile:
  assumes "store_inv_except (Some quota) s" "hm_get (quota_claims s) quota = Some claims"
  shows "canon (claims_of (reconcile_quota ext quota time s) quota)
    = take 5 (canon (retain_live ext time 0 claims))"
proof -
  have ok: "claims_ok quota (live_claims ext quota time s)"
    using live_claims_ok(1) [OF assms(2)] store_inv_exceptD(5) [OF assms(1,2)] by blast
  have eq: "live_claims ext quota time s = retain_live ext time 0 claims"
    using assms(2) by (simp add: live_claims_def)
  have "claims_of (reconcile_quota ext quota time s) quota
    = hm_retain (\<lambda>d _. d \<in> rumor_domain ` set (winners ext quota time s)) (live_claims ext quota time s)"
    by (simp add: claims_of_def reconcile_quota_present [OF assms(2)])
  then show ?thesis
    using canon_reconciled [OF ok, of "winners ext quota time s" 5]
    by (simp add: winners_eq [OF assms(2)] eq)
qed

lemma find_distinct:
  "distinct (map f xs) \<Longrightarrow> find (\<lambda>x. f x = d) xs = Some r \<longleftrightarrow> r \<in> set xs \<and> f r = d"
  by (induction xs) (auto simp: image_iff)

lemma reconcile_get:
  assumes inv: "store_inv_except (Some quota) s" and claims: "hm_get (quota_claims s) quota = Some claims"
  shows "hm_get (registrations (reconcile_quota ext quota time s)) d =
    (case hm_get (claims_of (reconcile_quota ext quota time s) quota) d of
      None \<Rightarrow> hm_get (other_regs quota s) d
    | Some w \<Rightarrow>
        (case hm_get (other_regs quota s) d of
          Some reg \<Rightarrow> if negotiate_locally (reg_token reg) (rumor_token w) = rumor_token w
            then Some (registration_from_rumor w quota) else Some reg
        | None \<Rightarrow> Some (registration_from_rumor w quota)))"
proof -
  let ?s' = "reconcile_quota ext quota time s" and ?ws = "winners ext quota time s"
  have cl: "canon (claims_of ?s' quota) = ?ws"
    using claims_of_reconcile [OF inv claims] by (simp add: winners_eq [OF claims])
  have "store_inv ?s'"
    using reconcile_restores [OF inv] claims by (simp add: hm_contains_key_def)
  then have ok: "claims_ok quota (claims_of ?s' quota)" by (rule claims_of_ok)
  then have dist: "distinct (map rumor_domain ?ws)" using canon_distinct(1) cl by metis
  have "find (\<lambda>w. rumor_domain w = d) ?ws = hm_get (claims_of ?s' quota) d"
  proof (rule option_ext)
    fix r
    show "find (\<lambda>w. rumor_domain w = d) ?ws = Some r \<longleftrightarrow> hm_get (claims_of ?s' quota) d = Some r"
      unfolding claims_get_iff [OF ok] cl by (rule find_distinct [OF dist])
  qed
  then show ?thesis
    using install_winners_get_eq [OF dist] by (simp add: reconcile_quota_present [OF claims])
qed

section \<open>Convergence\<close>

definition adopt_all :: "externals \<Rightarrow> u64 \<Rightarrow> registration_rumor list \<Rightarrow> registry_store \<Rightarrow> registry_store" where
  "adopt_all ext t rumors s = foldl (\<lambda>s r. snd (adopt_rumor ext r (frozen t) s)) s rumors"

definition live_at :: "externals \<Rightarrow> u64 \<Rightarrow> registration_rumor \<Rightarrow> bool" where
  "live_at ext t r \<longleftrightarrow> is_authorized ext r \<and> lease_is_live r (frozen t)"

lemma adopt_live:
  "live_at ext t r \<Longrightarrow> adopt_rumor ext r (frozen t) s =
    (True, reconcile_quota ext (quota_key (rumor_rdns r)) (frozen t)
       (insert_claim (quota_key (rumor_rdns r)) r s))"
  by (auto simp: adopt_rumor_def live_at_def lease_is_live_def Let_def)

definition live_canon :: "externals \<Rightarrow> u64 \<Rightarrow> rstring \<Rightarrow> registry_store \<Rightarrow> registration_rumor list" where
  "live_canon ext t q s = filter (live_at ext t) (canon (claims_of s q))"

lemma canon_retain_live:
  "canon (retain_live ext (frozen t) i cl) = filter (live_at ext t) (canon cl)"
proof -
  have "retain_live ext (frozen t) i cl = filter (\<lambda>e. live_at ext t (snd e)) cl"
    by (simp add: retain_live_frozen live_at_def)
  then show ?thesis by (simp add: canon_def hm_values_def filter_sort filter_map o_def)
qed

lemma claims_of_insert_claim:
  "claims_of (insert_claim q r s) q = hm_insert (rumor_domain r) r (claims_of s q)"
  by (simp add: insert_claim_def claims_of_def Let_def split: option.splits)

lemma canon_insert_fresh:
  assumes "claims_ok q cl" "rumor_domain r \<notin> fst ` set cl"
  shows "canon (hm_insert (rumor_domain r) r cl) = insort_key claim_order r (canon cl)"
proof -
  have "sort_key claim_order (hm_values cl @ [r]) = sort_key claim_order (r # hm_values cl)"
  proof (rule sort_claims_cong)
    have "rumor_domain ` set (hm_values cl) = fst ` set cl"
      using claims_ok_values [OF assms(1)] by (metis image_set)
    then show "distinct (map rumor_domain (hm_values cl @ [r]))"
      using claims_ok_distinct [OF assms(1)] assms(2) by simp
  qed simp
  then show ?thesis by (simp add: canon_def hm_values_def hm_insert_fresh [OF assms(2)])
qed

lemma adopt_canon:
  assumes inv: "store_inv s" and live: "live_at ext t r" and q: "quota_key (rumor_rdns r) = q"
    and fresh: "rumor_domain r \<notin> fst ` set (claims_of s q)"
  shows "canon (claims_of (snd (adopt_rumor ext r (frozen t) s)) q)
      = take 5 (insort_key claim_order r (live_canon ext t q s))"
proof -
  have claims: "hm_get (quota_claims (insert_claim q r s)) q = Some (hm_insert (rumor_domain r) r (claims_of s q))"
    by (simp add: insert_claim_def claims_of_def Let_def)
  have "filter (live_at ext t) (insort_key claim_order r (canon (claims_of s q)))
      = insort_key claim_order r (live_canon ext t q s)"
    using live by (simp add: live_canon_def filter_insort canon_sorted)
  then show ?thesis
    using claims_of_reconcile [OF insert_claim_inv [OF inv q [symmetric]] claims, of ext "frozen t"]
      claims_of_ok [OF inv, of q] live q
    by (simp add: adopt_live canon_retain_live canon_insert_fresh fresh)
qed

lemma live_canon_all: "live_canon ext t q s = filter (live_at ext t) (live_canon ext t q s)"
  by (simp add: live_canon_def)

lemma adopt_live_canon:
  assumes "store_inv s" "live_at ext t r" "quota_key (rumor_rdns r) = q"
    "rumor_domain r \<notin> fst ` set (claims_of s q)"
  shows "live_canon ext t q (snd (adopt_rumor ext r (frozen t) s))
      = take 5 (insort_key claim_order r (live_canon ext t q s))"
    "canon (claims_of (snd (adopt_rumor ext r (frozen t) s)) q)
      = live_canon ext t q (snd (adopt_rumor ext r (frozen t) s))"
proof -
  have "set (insort_key claim_order r (live_canon ext t q s)) \<subseteq> {x. live_at ext t x}"
    using assms(2) by (auto simp: set_insort_key live_canon_def)
  then have all: "filter (live_at ext t) (take 5 (insort_key claim_order r (live_canon ext t q s)))
      = take 5 (insort_key claim_order r (live_canon ext t q s))"
    using set_take_subset [of 5 "insort_key claim_order r (live_canon ext t q s)"]
    by (intro filter_True) (auto simp only: mem_Collect_eq subset_iff)
  let ?s' = "snd (adopt_rumor ext r (frozen t) s)"
  note canon = adopt_canon [OF assms]
  show first: "live_canon ext t q ?s' = take 5 (insort_key claim_order r (live_canon ext t q s))"
    unfolding live_canon_def [of ext t q ?s'] canon by (rule all)
  show "canon (claims_of ?s' q) = live_canon ext t q ?s'" unfolding first by (rule canon)
qed

lemma live_canon_short: "store_inv s \<Longrightarrow> length (live_canon ext t q s) \<le> 5"
  using claims_of_length [of s q] length_filter_le [of "live_at ext t" "canon (claims_of s q)"]
  by (simp add: live_canon_def length_canon)

lemma adopt_fresh:
  assumes "store_inv s" "live_at ext t r" "quota_key (rumor_rdns r) = q"
    "rumor_domain r \<notin> fst ` set (claims_of s q)"
  shows "fst ` set (claims_of (snd (adopt_rumor ext r (frozen t) s)) q)
    \<subseteq> insert (rumor_domain r) (fst ` set (claims_of s q))"
proof -
  let ?s' = "snd (adopt_rumor ext r (frozen t) s)"
  have dom: "fst ` set (claims_of s' q) = rumor_domain ` set (canon (claims_of s' q))" if "store_inv s'" for s'
    using claims_ok_values [OF claims_of_ok [OF that, of q]] by (metis canon_def image_set set_sort)
  have "set (canon (claims_of ?s' q)) \<subseteq> insert r (set (canon (claims_of s q)))"
    using adopt_canon [OF assms] set_take_subset [of 5 "insort_key claim_order r (live_canon ext t q s)"]
    by (auto simp: set_insort_key live_canon_def)
  then show ?thesis using dom [OF adopt_rumor_inv [OF assms(1)]] dom [OF assms(1)] by auto
qed

text \<open>Rumors a replica may adopt in any order: all live, of one host, each for a name of its
  own that the host does not claim yet.\<close>

definition fresh_batch :: "externals \<Rightarrow> u64 \<Rightarrow> rstring \<Rightarrow> registry_store \<Rightarrow> registration_rumor list \<Rightarrow> bool" where
  "fresh_batch ext t q s rs \<longleftrightarrow>
    list_all (\<lambda>r. live_at ext t r \<and> quota_key (rumor_rdns r) = q \<and>
      \<not> List.member (map fst (claims_of s q)) (rumor_domain r)) rs \<and>
    distinct (map rumor_domain rs)"

lemma fresh_batch_step:
  assumes "store_inv s" "fresh_batch ext t q s (r # rs)"
  shows "live_at ext t r" "quota_key (rumor_rdns r) = q" "rumor_domain r \<notin> fst ` set (claims_of s q)"
    "fresh_batch ext t q (snd (adopt_rumor ext r (frozen t) s)) rs"
proof -
  show r: "live_at ext t r" "quota_key (rumor_rdns r) = q" "rumor_domain r \<notin> fst ` set (claims_of s q)"
    using assms(2) by (auto simp: fresh_batch_def)
  show "fresh_batch ext t q (snd (adopt_rumor ext r (frozen t) s)) rs"
  proof -
    have "rumor_domain x \<notin> fst ` set (claims_of (snd (adopt_rumor ext r (frozen t) s)) q)" if "x \<in> set rs" for x
    proof -
      have "rumor_domain r \<notin> rumor_domain ` set rs" "rumor_domain x \<notin> fst ` set (claims_of s q)"
        using assms(2) that by (simp_all add: fresh_batch_def list_all_iff)
      moreover from that have "rumor_domain x \<in> rumor_domain ` set rs" by (rule imageI)
      ultimately have "rumor_domain x \<noteq> rumor_domain r" "rumor_domain x \<notin> fst ` set (claims_of s q)"
        by metis+
      with adopt_fresh [OF assms(1) r] show ?thesis by blast
    qed
    with assms(2) show ?thesis by (simp add: fresh_batch_def list_all_iff)
  qed
qed

lemma adopt_all_live_canon:
  "store_inv s \<Longrightarrow> fresh_batch ext t q s rs \<Longrightarrow>
    live_canon ext t q (adopt_all ext t rs s) = take 5 (sort_key claim_order (rs @ live_canon ext t q s))"
proof (induction rs arbitrary: s)
  case Nil
  have "sorted (map claim_order (live_canon ext t q s))"
    unfolding live_canon_def by (rule sorted_filter) (rule canon_sorted)
  with live_canon_short [OF Nil.prems(1)] show ?case by (simp add: adopt_all_def sort_key_id_if_sorted)
next
  case (Cons r rs)
  note st = fresh_batch_step [OF Cons.prems]
  let ?s' = "snd (adopt_rumor ext r (frozen t) s)" and ?L = "live_canon ext t q s"
  have sorted: "sort_key claim_order ?L = ?L"
    unfolding live_canon_def by (simp add: sort_key_id_if_sorted sorted_filter canon_sorted)
  have "live_canon ext t q (adopt_all ext t (r # rs) s) = live_canon ext t q (adopt_all ext t rs ?s')"
    by (simp add: adopt_all_def)
  also have "\<dots> = take 5 (sort_key claim_order (rs @ live_canon ext t q ?s'))"
    by (rule Cons.IH [OF adopt_rumor_inv [OF Cons.prems(1)] st(4)])
  also have "\<dots> = take 5 (sort_key claim_order (rs @ take 5 (sort_key claim_order (r # ?L))))"
    using adopt_live_canon(1) [OF Cons.prems(1) st(1-3)] sorted by simp
  also have "\<dots> = take 5 (sort_key claim_order (rs @ r # ?L))" by (rule take_sort_append)
  also have "sort_key claim_order (rs @ r # ?L) = sort_key claim_order (r # rs @ ?L)"
  proof (rule sort_claims_cong)
    have "rumor_domain ` set ?L \<subseteq> fst ` set (claims_of s q)" "distinct (map rumor_domain ?L)"
      using claims_of_ok [OF Cons.prems(1), of q] canon_distinct(1) [OF claims_of_ok [OF Cons.prems(1), of q]]
        claims_ok_entry by (auto simp: live_canon_def set_canon distinct_map_filter rev_image_eqI)
    with Cons.prems(2) show "distinct (map rumor_domain (rs @ r # ?L))"
      by (auto simp: fresh_batch_def list_all_iff)
  qed simp
  finally show ?case by simp
qed

lemma adopt_all_Cons:
  "adopt_all ext t (r # rs) s = adopt_all ext t rs (snd (adopt_rumor ext r (frozen t) s))"
  by (simp add: adopt_all_def)

lemma adopt_all_inv: "store_inv s \<Longrightarrow> store_inv (adopt_all ext t rs s)"
  by (induction rs arbitrary: s) (simp_all add: adopt_all_Cons adopt_rumor_inv, simp add: adopt_all_def)

lemma adopt_all_canon:
  "store_inv s \<Longrightarrow> fresh_batch ext t q s rs \<Longrightarrow> rs \<noteq> [] \<Longrightarrow>
    canon (claims_of (adopt_all ext t rs s) q) = take 5 (sort_key claim_order (rs @ live_canon ext t q s))"
proof (induction rs arbitrary: s rule: rev_induct)
  case Nil
  then show ?case by simp
next
  case (snoc r rs)
  let ?s' = "adopt_all ext t rs s"
  have last: "adopt_all ext t (rs @ [r]) s = snd (adopt_rumor ext r (frozen t) ?s')"
    by (simp add: adopt_all_def)
  have batch: "fresh_batch ext t q (adopt_all ext t rs s) [r]" if "fresh_batch ext t q s (rs @ [r])" "store_inv s" for rs s
    using that
  proof (induction rs arbitrary: s)
    case (Cons a rs)
    from fresh_batch_step [OF Cons.prems(2), of ext t q a "rs @ [r]"] Cons.prems(1)
    show ?case unfolding adopt_all_Cons
      by (intro Cons.IH) (simp_all add: adopt_rumor_inv Cons.prems(2))
  qed (simp add: adopt_all_def)
  note st = fresh_batch_step(1-3) [OF adopt_all_inv [OF snoc.prems(1)] batch [OF snoc.prems(2,1)]]
  have "canon (claims_of (adopt_all ext t (rs @ [r]) s) q) = live_canon ext t q (adopt_all ext t (rs @ [r]) s)"
    unfolding last by (rule adopt_live_canon(2) [OF adopt_all_inv [OF snoc.prems(1)] st])
  then show ?case using adopt_all_live_canon [OF snoc.prems(1,2)] by simp
qed

text \<open>Names of the batch and of the host's claims that nobody else holds.\<close>

definition uncontested :: "rstring \<Rightarrow> registry_store \<Rightarrow> registration_rumor list \<Rightarrow> bool" where
  "uncontested q s rs \<longleftrightarrow>
    list_all (\<lambda>d. hm_get (other_regs q s) d = None) (map fst (claims_of s q) @ map rumor_domain rs)"

lemma adopt_get:
  assumes inv: "store_inv s" and live: "live_at ext t r" and q: "quota_key (rumor_rdns r) = q"
    and fresh: "rumor_domain r \<notin> fst ` set (claims_of s q)" and free: "uncontested q s (r # rs)"
  defines "s' \<equiv> snd (adopt_rumor ext r (frozen t) s)"
  shows "hm_get (registrations s') d =
      (case hm_get (claims_of s' q) d of
        None \<Rightarrow> hm_get (other_regs q s) d | Some w \<Rightarrow> Some (registration_from_rumor w q))"
    and "hm_get (other_regs q s') d = hm_get (other_regs q s) d"
    and "uncontested q s' rs"
proof -
  have s': "s' = reconcile_quota ext q (frozen t) (insert_claim q r s)"
    using live q by (simp add: s'_def adopt_live)
  have inv': "store_inv s'" using inv by (simp add: s'_def adopt_rumor_inv)
  have others: "other_regs q (insert_claim q r s) = other_regs q s"
    by (simp add: other_regs_def insert_claim_def Let_def)
  have claims: "hm_get (quota_claims (insert_claim q r s)) q = Some (hm_insert (rumor_domain r) r (claims_of s q))"
    by (simp add: insert_claim_def claims_of_def Let_def)
  have keys: "fst ` set (claims_of s' q) \<subseteq> insert (rumor_domain r) (fst ` set (claims_of s q))"
    unfolding s'_def by (rule adopt_fresh [OF inv live q fresh])
  have none: "hm_get (other_regs q s) d = None" if "hm_get (claims_of s' q) d = Some w" for d w
  proof -
    from that have "d \<in> fst ` set (claims_of s' q)" by (force dest: hm_get_SomeD)
    with keys have "d \<in> insert (rumor_domain r) (fst ` set (claims_of s q))" by blast
    with free show ?thesis by (auto simp: uncontested_def list_all_iff)
  qed
  have get: "hm_get (registrations s') d =
      (case hm_get (claims_of s' q) d of
        None \<Rightarrow> hm_get (other_regs q s) d | Some w \<Rightarrow> Some (registration_from_rumor w q))" for d
    using reconcile_get [OF insert_claim_inv [OF inv q [symmetric]] claims, of ext "frozen t" d] none [of d]
    by (auto simp: s' others split: option.splits)
  then show "hm_get (registrations s') d =
      (case hm_get (claims_of s' q) d of
        None \<Rightarrow> hm_get (other_regs q s) d | Some w \<Rightarrow> Some (registration_from_rumor w q))" .
  have wf: "hm_wf (registrations s')" "hm_wf (registrations s)"
    using inv inv' by (simp_all add: store_inv_def store_inv_except_def)
  have same: "hm_get (other_regs q s') d = hm_get (other_regs q s) d" for d
  proof (rule option_ext)
    fix reg
    have other: "reg_quota_key reg \<noteq> q \<or> reg_rumor reg = None" if "hm_get (other_regs q s) d = Some reg"
      using that other_regs_get [OF wf(2), of q d reg] by simp
    show "hm_get (other_regs q s') d = Some reg \<longleftrightarrow> hm_get (other_regs q s) d = Some reg"
    proof (cases "hm_get (claims_of s' q) d")
      case None
      then have "hm_get (registrations s') d = hm_get (other_regs q s) d" by (simp add: get)
      with other show ?thesis unfolding other_regs_get [OF wf(1)] by metis
    next
      case (Some w)
      then have "hm_get (registrations s') d = Some (registration_from_rumor w q)" by (simp add: get)
      with none [OF Some] show ?thesis
        unfolding other_regs_get [OF wf(1)] by (auto simp: registration_from_rumor_def)
    qed
  qed
  then show "hm_get (other_regs q s') d = hm_get (other_regs q s) d" .
  show "uncontested q s' rs"
    unfolding uncontested_def list_all_iff
  proof
    fix x assume "x \<in> set (map fst (claims_of s' q) @ map rumor_domain rs)"
    then have "x \<in> set (map fst (claims_of s q) @ map rumor_domain (r # rs))" using keys by auto
    with free show "hm_get (other_regs q s') x = None" by (auto simp: same uncontested_def list_all_iff)
  qed
qed

lemma adopt_all_get:
  "store_inv s \<Longrightarrow> fresh_batch ext t q s rs \<Longrightarrow> uncontested q s rs \<Longrightarrow> rs \<noteq> [] \<Longrightarrow>
    hm_get (registrations (adopt_all ext t rs s)) d =
      (case hm_get (claims_of (adopt_all ext t rs s) q) d of
        None \<Rightarrow> hm_get (other_regs q s) d | Some w \<Rightarrow> Some (registration_from_rumor w q))"
proof (induction rs arbitrary: s)
  case (Cons r rs)
  note st = fresh_batch_step [OF Cons.prems(1,2)]
  note get = adopt_get [OF Cons.prems(1) st(1-3) Cons.prems(3)]
  show ?case
  proof (cases "rs = []")
    case True
    then show ?thesis using get(1) by (simp add: adopt_all_def)
  next
    case False
    from Cons.IH [OF adopt_rumor_inv [OF Cons.prems(1)] st(4) get(3) False]
    show ?thesis unfolding adopt_all_Cons by (simp add: get(2) split: option.splits)
  qed
qed simp

lemma adopt_all_converges:
  assumes inv: "store_inv s" and batch: "fresh_batch ext t q s rs" and perm: "mset rs' = mset rs"
  shows "hm_get (claims_of (adopt_all ext t rs' s) q) d = hm_get (claims_of (adopt_all ext t rs s) q) d"
    and "uncontested q s rs \<Longrightarrow>
      hm_get (registrations (adopt_all ext t rs' s)) d = hm_get (registrations (adopt_all ext t rs s)) d"
proof -
  have batch': "fresh_batch ext t q s rs'" and free': "uncontested q s rs \<Longrightarrow> uncontested q s rs'"
    using batch mset_eq_setD [OF perm] mset_eq_imp_distinct_iff [of "map rumor_domain rs'" "map rumor_domain rs"] perm
    by (auto simp: fresh_batch_def uncontested_def list_all_iff)
  have canon: "canon (claims_of (adopt_all ext t rs' s) q) = canon (claims_of (adopt_all ext t rs s) q)" if "rs \<noteq> []"
  proof -
    have "rs' \<noteq> []" using perm that by auto
    moreover have "sort_key claim_order (rs' @ live_canon ext t q s) = sort_key claim_order (rs @ live_canon ext t q s)"
    proof (rule sort_claims_cong)
      have "rumor_domain ` set (live_canon ext t q s) \<subseteq> fst ` set (claims_of s q)"
        "distinct (map rumor_domain (live_canon ext t q s))"
        using claims_of_ok [OF inv, of q] canon_distinct(1) [OF claims_of_ok [OF inv, of q]] claims_ok_entry
        by (auto simp: live_canon_def set_canon distinct_map_filter rev_image_eqI)
      with batch' show "distinct (map rumor_domain (rs' @ live_canon ext t q s))"
        by (auto simp: fresh_batch_def list_all_iff)
    qed (simp add: perm)
    ultimately show ?thesis
      using adopt_all_canon [OF inv batch] adopt_all_canon [OF inv batch'] that by simp
  qed
  show claims: "hm_get (claims_of (adopt_all ext t rs' s) q) d = hm_get (claims_of (adopt_all ext t rs s) q) d"
  proof (cases "rs = []")
    case False
    then show ?thesis
      using claims_get_cong claims_of_ok [OF adopt_all_inv [OF inv]] canon by blast
  qed (use perm in simp)
  assume "uncontested q s rs"
  then show "hm_get (registrations (adopt_all ext t rs' s)) d = hm_get (registrations (adopt_all ext t rs s)) d"
    using adopt_all_get [OF inv batch, of d] adopt_all_get [OF inv batch' free', of d] claims perm
    by (cases "rs = []"; cases "rs' = []") simp_all
qed

section \<open>Updating the records of a name\<close>

lemma retain_live_get:
  assumes "hm_wf cl" "hm_get (retain_live ext time i cl) d = Some r"
  shows "hm_get cl d = Some r" "is_authorized ext r"
proof -
  have "(d, r) \<in> set (retain_live ext time i cl)" using assms(2) by (rule hm_get_SomeD)
  then have "(d, r) \<in> set cl" "is_authorized ext r"
    using retain_live_subset retain_live_member by blast+
  with assms(1) show "hm_get cl d = Some r" "is_authorized ext r" by (simp_all add: hm_get_eq_Some)
qed

text \<open>The claims after a reconciliation are claims from before, and authorized.\<close>

lemma reconciled_claim:
  assumes except: "store_inv_except (Some q) s" and claims: "hm_get (quota_claims s) q = Some cl"
    and claim: "hm_get (claims_of (reconcile_quota ext q time s) q) d = Some r"
  shows "hm_get cl d = Some r" "is_authorized ext r"
proof -
  let ?live = "retain_live ext time 0 cl"
  have okc: "claims_ok q cl" by (rule store_inv_exceptD(5) [OF except claims])
  have ok: "claims_ok q (claims_of (reconcile_quota ext q time s) q)"
    using reconcile_restores [OF except] claims by (intro claims_of_ok) (simp add: hm_contains_key_def)
  have "set (take 5 (canon ?live)) \<subseteq> set (canon ?live)" by (rule set_take_subset)
  with claim have r: "r \<in> set (canon ?live)" "rumor_domain r = d"
    unfolding claims_get_iff [OF ok] claims_of_reconcile [OF except claims] by blast+
  then obtain k where k: "(k, r) \<in> set ?live" by (auto simp: set_canon)
  moreover have "set ?live \<subseteq> set cl" by (rule retain_live_subset)
  ultimately have "(k, r) \<in> set cl" by blast
  with r(2) claims_ok_entry [OF okc] have "k = d" by blast
  moreover have wf: "hm_wf cl" using okc by (simp add: claims_ok_def)
  ultimately have "hm_get ?live d = Some r"
    using k retain_live_keys [OF wf] by (simp add: hm_get_eq_Some)
  from retain_live_get [OF wf this] show "hm_get cl d = Some r" "is_authorized ext r" .
qed

text \<open>A claim that fails its authorization is dropped by the next reconciliation, and with it
  every lease of its host on the name.\<close>

lemma unauthorized_claim_dropped:
  assumes inv: "store_inv s" and claims: "hm_get (quota_claims s) q = Some cl"
    and claim: "hm_get cl d = Some c" "\<not> is_authorized ext c"
    and lease: "hm_get (registrations s) d = Some reg" "reg_quota_key reg = q" "reg_rumor reg \<noteq> None"
  shows "hm_get (claims_of (reconcile_quota ext q time s) q) d = None"
    and "hm_get (registrations (reconcile_quota ext q time s)) d = None"
proof -
  note except = store_inv_weaken [OF inv, of "Some q"]
  note D = store_inv_exceptD [OF inv [unfolded store_inv_def]]
  let ?s' = "reconcile_quota ext q time s"
  show none: "hm_get (claims_of ?s' q) d = None"
    using reconciled_claim [OF except claims, of ext time d] claim
    by (cases "hm_get (claims_of ?s' q) d") auto
  have "hm_get (other_regs q s) d = None"
    using lease D(1) by (simp add: other_regs_def hm_get_retain)
  then show "hm_get (registrations ?s') d = None"
    unfolding reconcile_get [OF except claims] none by simp
qed

text \<open>The claim after new record evidence: new timestamp and signature over the old records.\<close>

lemma record_evidence_claim:
  assumes "hm_get (quota_claims s) q = Some cl" "hm_get cl d = Some c" "rumor_client_key c = ck"
  shows "\<exists>cl'. hm_get (quota_claims (attach_record_evidence d ck t sg s)) q = Some cl' \<and>
    hm_get cl' d = Some (c\<lparr>records_timestamp_millis := Some t, records_signature := Some sg\<rparr>)"
  using assms by (simp add: attach_record_evidence_def)

lemma record_evidence_registration:
  assumes "hm_get (registrations s) d = Some reg" "reg_client_key reg = ck"
  shows "hm_get (registrations (attach_record_evidence d ck t sg s)) d =
    Some (reg\<lparr>reg_rumor := map_option (\<lambda>rumor. rumor\<lparr>rumor_records := reg_records reg,
      records_timestamp_millis := Some t, records_signature := Some sg\<rparr>) (reg_rumor reg)\<rparr>)"
  using assms by (simp add: attach_record_evidence_def)

lemma record_update_evicts:
  assumes inv: "store_inv s"
    and lease: "hm_get (registrations s) d = Some reg" "reg_quota_key reg = q" "reg_client_key reg = ck"
      "reg_rumor reg = Some rumor"
    and claim: "hm_get (quota_claims s) q = Some cl" "hm_get cl d = Some c" "rumor_client_key c = ck"
    and stale: "\<not> sig_verifies ext (rumor_owner_key c) (set_records_message ext d (rumor_records c) t) sg"
  shows "hm_get (registrations (reconcile_quota ext q time (attach_record_evidence d ck t sg s))) d = None"
proof -
  let ?a = "attach_record_evidence d ck t sg s"
  have inv': "store_inv ?a" by (rule attach_record_evidence_inv [OF inv])
  obtain cl' where cl': "hm_get (quota_claims ?a) q = Some cl'"
    "hm_get cl' d = Some (c\<lparr>records_timestamp_millis := Some t, records_signature := Some sg\<rparr>)"
    using record_evidence_claim [OF claim] by blast
  have "rumor_domain c = d"
    using store_inv_exceptD(5) [OF inv [unfolded store_inv_def] claim(1)] claim(2) by (simp add: claims_ok_def)
  then have bad: "\<not> is_authorized ext (c\<lparr>records_timestamp_millis := Some t, records_signature := Some sg\<rparr>)"
    using stale by (simp add: is_authorized_iff records_evidence_def)
  show ?thesis
    by (rule unauthorized_claim_dropped(2) [OF inv' cl' bad record_evidence_registration [OF lease(1,3)]])
      (simp_all add: lease)
qed

section \<open>What a granted registration did\<close>

lemma register_granted:
  assumes "register ext drawn d c time s = (Inr token, s')"
  shows "s' = add_registration d c token (reclaim_stale ext (call 1 time) s)"
    and "token = token_issue drawn (now_millis (call 3 time))"
    and "is_live (liveness s) c (call 0 time)"
    and "hm_get (registrations (reclaim_stale ext (call 1 time) s)) d = None"
    and "count_of (liveness (reclaim_stale ext (call 1 time) s)) (client_quota_key c) < 5"
  using assms
  by (auto simp: register_def Let_def add_registration_def hm_contains_key_def can_register_def
      registration_count_eq max_registrations_per_client_def split: if_splits)

lemma reconcile_all_sel:
  "liveness (reconcile_all ext time i qs s) = liveness s"
  "probe_evidence (reconcile_all ext time i qs s) = probe_evidence s"
  by (induction qs arbitrary: s i) simp_all

lemma register_sel:
  "probe_evidence (snd (register ext drawn d c time s)) = probe_evidence s"
  by (simp add: register_def reclaim_stale_def Let_def reconcile_all_sel)

section \<open>Leases after a reclaim\<close>

lemma reconciled_lease:
  assumes inv: "store_inv s"
    and reg: "hm_get (registrations (reconcile_quota ext q time s)) d = Some reg" "reg_rumor reg = Some r"
  shows "reg_quota_key reg = q \<and> is_authorized ext r \<and> (\<exists>j. lease_is_live r (call j time)) \<or>
    reg_quota_key reg \<noteq> q \<and> hm_get (registrations s) d = Some reg"
proof (cases "hm_get (quota_claims s) q")
  case None
  then have same: "hm_get (registrations s) d = Some reg" using reg by (simp add: reconcile_quota_absent)
  then have "backed s d reg" using store_inv_exceptD(8) [OF inv [unfolded store_inv_def] same reg(2)] by simp
  with None same show ?thesis by (auto simp: backed_def)
next
  case (Some claims)
  note D = store_inv_exceptD [OF inv [unfolded store_inv_def]]
  from D(1) Some reg(1) show ?thesis
  proof (cases rule: reconcile_reg_cases)
    case (winner r')
    with reg(2) have "r' = r" "reg_quota_key reg = q" by (simp_all add: registration_from_rumor_def)
    with winner_claim(3,4) [OF Some D(5) [OF Some] winner(1)] show ?thesis by simp
  next
    case kept
    with reg(2) show ?thesis by simp
  qed
qed

lemma reconcile_keys: "hm_keys (quota_claims (reconcile_quota ext q time s)) = hm_keys (quota_claims s)"
proof (cases "hm_get (quota_claims s) q")
  case (Some claims)
  then have "q \<in> set (hm_keys (quota_claims s))" by (force simp: hm_keys_def dest: hm_get_SomeD)
  then show ?thesis by (simp add: reconcile_quota_present [OF Some] hm_keys_insert)
qed (simp add: reconcile_quota_absent)

definition lease_valid :: "externals \<Rightarrow> u64 \<Rightarrow> registration_rumor \<Rightarrow> bool" where
  "lease_valid ext now r \<longleftrightarrow> is_authorized ext r \<and> unat now \<le> unat (probe_timestamp_millis r) + 60000"

lemma lease_valid_since:
  "is_authorized ext r \<Longrightarrow> lease_is_live r time \<Longrightarrow> clock_between lo hi time \<Longrightarrow> lease_valid ext lo r"
  using clock_between_now(1) [of lo hi time]
  by (simp add: lease_valid_def lease_is_live_def liveness_window_millis_def word_le_nat_alt)

lemma reconcile_all_leases:
  assumes "store_inv s" "clock_between lo hi time"
    and "\<forall>d reg r. hm_get (registrations s) d = Some reg \<longrightarrow> reg_rumor reg = Some r \<longrightarrow>
      reg_quota_key reg \<in> K \<longrightarrow> lease_valid ext lo r"
    and "hm_get (registrations (reconcile_all ext time i qs s)) d = Some reg" "reg_rumor reg = Some r"
    and "reg_quota_key reg \<in> K \<union> set qs"
  shows "lease_valid ext lo r"
  using assms
proof (induction qs arbitrary: s i K)
  case Nil
  then show ?case by auto
next
  case (Cons q qs)
  let ?s' = "reconcile_quota ext q (call i time) s"
  show ?case
  proof (rule Cons.IH [of ?s' "insert q K" "Suc i"])
    show "store_inv ?s'" by (rule reconcile_inv [OF Cons.prems(1)])
    show "\<forall>d reg r. hm_get (registrations ?s') d = Some reg \<longrightarrow> reg_rumor reg = Some r \<longrightarrow>
        reg_quota_key reg \<in> insert q K \<longrightarrow> lease_valid ext lo r"
    proof (intro allI impI)
      fix d' reg' r'
      assume *: "hm_get (registrations ?s') d' = Some reg'" "reg_rumor reg' = Some r'" "reg_quota_key reg' \<in> insert q K"
      from reconciled_lease [OF Cons.prems(1) *(1,2)] show "lease_valid ext lo r'"
      proof
        assume "reg_quota_key reg' = q \<and> is_authorized ext r' \<and> (\<exists>j. lease_is_live r' (call j (call i time)))"
        then show ?thesis using lease_valid_since clock_between_call [OF clock_between_call [OF Cons.prems(2)]] by blast
      qed (use * Cons.prems(3) in auto)
    qed
  qed (use Cons.prems in auto)
qed

lemma reconcile_all_keys: "hm_keys (quota_claims (reconcile_all ext time i qs s)) = hm_keys (quota_claims s)"
  by (induction qs arbitrary: s i) (simp_all add: reconcile_keys)

lemma reclaimed_leases:
  assumes inv: "store_inv s" and clock: "clock_between lo hi time"
    and reg: "hm_get (registrations (reclaim_stale ext time s)) d = Some reg" "reg_rumor reg = Some r"
  shows "lease_valid ext lo r"
proof -
  let ?s = "drop_hosts (expired_clients (liveness s) (call 0 time)) s"
  have "backed (reclaim_stale ext time s) d reg"
    using store_inv_exceptD(8) [OF reclaim_stale_inv [OF inv, unfolded store_inv_def] reg] by simp
  then have "reg_quota_key reg \<in> set (hm_keys (quota_claims (reclaim_stale ext time s)))"
    by (force simp: backed_def hm_keys_def dest: hm_get_SomeD)
  then have "reg_quota_key reg \<in> set (hm_keys (quota_claims s))"
    by (simp add: reclaim_stale_eq reconcile_all_keys drop_hosts_def)
  then show ?thesis
    using reg by (intro reconcile_all_leases [OF drop_hosts_inv [OF inv] clock_between_call [OF clock],
        where K = "{}" and reg = reg and d = d]) (simp_all add: reclaim_stale_eq)
qed

section \<open>Names without an authorized claim\<close>

lemma reconciled_claims:
  assumes "store_inv s" "hm_get (claims_of (reconcile_quota ext q time s) q') d = Some c"
  shows "hm_get (claims_of s q') d = Some c \<and> (q' = q \<longrightarrow> is_authorized ext c)"
proof (cases "hm_get (quota_claims s) q")
  case None
  with assms(2) show ?thesis by (auto simp: reconcile_quota_absent claims_of_def split: option.splits)
next
  case (Some cl)
  show ?thesis
  proof (cases "q' = q")
    case True
    with reconciled_claim [OF store_inv_weaken [OF assms(1)] Some, of ext time d c] assms(2) Some
    show ?thesis by (simp add: claims_of_def)
  next
    case False
    with assms(2) Some show ?thesis by (simp add: claims_of_def reconcile_quota_present)
  qed
qed

lemma reconcile_all_unclaimed:
  assumes "store_inv s" "\<And>q c. hm_get (claims_of s q) d = Some c \<Longrightarrow> \<not> is_authorized ext c \<and> q \<notin> K"
    and "hm_get (claims_of (reconcile_all ext time i qs s) q) d = Some c"
  shows "\<not> is_authorized ext c \<and> q \<notin> K \<union> set qs"
  using assms
proof (induction qs arbitrary: s i K)
  case (Cons k qs)
  have "\<not> is_authorized ext c \<and> q \<notin> insert k K \<union> set qs"
  proof (rule Cons.IH [of "reconcile_quota ext k (call i time) s" "insert k K" "Suc i"])
    fix q' c'
    assume "hm_get (claims_of (reconcile_quota ext k (call i time) s) q') d = Some c'"
    from reconciled_claims [OF Cons.prems(1) this] Cons.prems(2) show "\<not> is_authorized ext c' \<and> q' \<notin> insert k K" by auto
  qed (use Cons.prems in \<open>simp_all add: reconcile_inv\<close>)
  then show ?case by auto
qed auto

lemma reconcile_all_local:
  "store_inv s \<Longrightarrow> local_names (reconcile_all ext time i qs s) q \<subseteq> local_names s q"
proof (induction qs arbitrary: s i)
  case (Cons k qs)
  have "hm_wf (registrations s)" using Cons.prems by (simp add: store_inv_def store_inv_except_def)
  from subset_trans [OF Cons.IH [OF reconcile_inv [OF Cons.prems]] reconcile_local_subset [OF this]]
  show ?case by simp
qed simp

text \<open>A leased name none of whose claims is authorized is released by the next reclaim.\<close>

lemma reclaim_unclaimed:
  assumes inv: "store_inv s" and leased: "\<And>q. d \<notin> local_names s q"
    and bad: "\<And>q c. hm_get (claims_of s q) d = Some c \<Longrightarrow> \<not> is_authorized ext c"
  shows "hm_get (registrations (reclaim_stale ext time s)) d = None"
proof (cases "hm_get (registrations (reclaim_stale ext time s)) d")
  case (Some reg)
  let ?s = "drop_hosts (expired_clients (liveness s) (call 0 time)) s"
  have "hm_wf (registrations s)" using inv by (simp add: store_inv_def store_inv_except_def)
  then have sub: "local_names ?s q \<subseteq> local_names s q" for q by (auto simp: local_names_def drop_hosts_get)
  have "local_names (reclaim_stale ext time s) q \<subseteq> local_names s q" for q
    unfolding reclaim_stale_eq by (rule subset_trans [OF reconcile_all_local [OF drop_hosts_inv [OF inv]] sub])
  with leased have "d \<notin> local_names (reclaim_stale ext time s) q" for q by blast
  with Some have "reg_rumor reg \<noteq> None" by (auto simp: local_names_def)
  then have "backed (reclaim_stale ext time s) d reg"
    using store_inv_exceptD(8) [OF reclaim_stale_inv [OF inv, unfolded store_inv_def] Some] by auto
  then obtain c where c: "hm_get (claims_of (reclaim_stale ext time s) (reg_quota_key reg)) d = Some c"
    and "reg_quota_key reg \<in> set (hm_keys (quota_claims (reclaim_stale ext time s)))"
    by (force simp: backed_def claims_of_def hm_keys_def dest: hm_get_SomeD)
  then have "reg_quota_key reg \<in> set (hm_keys (quota_claims s))"
    by (simp add: reclaim_stale_eq reconcile_all_keys drop_hosts_def)
  moreover have same: "claims_of ?s q = claims_of s q" for q by (simp add: claims_of_def drop_hosts_def)
  have "\<not> is_authorized ext c' \<and> q' \<notin> {}" if "hm_get (claims_of ?s q') d = Some c'" for q' c'
    using bad [of q' c'] that by (simp add: same)
  from reconcile_all_unclaimed [OF drop_hosts_inv [OF inv] this c [unfolded reclaim_stale_eq]]
  have "reg_quota_key reg \<notin> set (hm_keys (quota_claims s))" by simp
  ultimately show ?thesis by blast
qed

section \<open>Adoption installs a lease\<close>

lemma adopt_installs:
  assumes inv: "store_inv s" and live: "live_at ext t r" and q: "quota_key (rumor_rdns r) = q"
    and fresh: "rumor_domain r \<notin> fst ` set (claims_of s q)" and room: "length (claims_of s q) < 5"
    and free: "hm_get (registrations s) (rumor_domain r) = None"
  shows "hm_get (registrations (snd (adopt_rumor ext r (frozen t) s))) (rumor_domain r) =
    Some (registration_from_rumor r q)"
proof -
  let ?s = "insert_claim q r s" and ?s' = "snd (adopt_rumor ext r (frozen t) s)"
  have s': "?s' = reconcile_quota ext q (frozen t) ?s" using live q by (simp add: adopt_live)
  have claims: "hm_get (quota_claims ?s) q = Some (hm_insert (rumor_domain r) r (claims_of s q))"
    by (simp add: insert_claim_def claims_of_def Let_def)
  have "length (live_canon ext t q s) < 5"
    using room length_filter_le [of "live_at ext t" "canon (claims_of s q)"] by (simp add: live_canon_def length_canon)
  then have "r \<in> set (canon (claims_of ?s' q))"
    unfolding adopt_canon [OF inv live q fresh] by (simp add: set_insort_key)
  then have "hm_get (claims_of ?s' q) (rumor_domain r) = Some r"
    using claims_get_iff [OF claims_of_ok [OF adopt_rumor_inv [OF inv]]] by simp
  moreover have "hm_get (other_regs q ?s) (rumor_domain r) = None"
    using free inv by (simp add: other_regs_def insert_claim_def Let_def hm_get_retain store_inv_def store_inv_except_def)
  ultimately show ?thesis
    using reconcile_get [OF insert_claim_inv [OF inv q [symmetric]] claims, of ext "frozen t" "rumor_domain r"]
    by (simp add: s')
qed

end
