(* ===== verification/Api.thy ===== *)
theory Api
  imports Store_Props
begin

text \<open>
  \<open>binda-core/src/api.rs\<close>: the authenticated client requests applied to the store. A
  handler returns the response and the store. The response is \<open>None\<close> when the handler panics
  (\<open>expect\<close> in \<open>handle_register\<close>); the store keeps what the handler had done by then, because
  the lock that guards it (\<open>tokio::sync::Mutex\<close>) has no poisoning.
\<close>

definition handle_probe ::
  "externals \<Rightarrow> registry_store \<Rightarrow> time_source \<Rightarrow> u64 \<Rightarrow> probe_body signed_envelope \<Rightarrow>
    client_response option \<times> registry_store" where
  "handle_probe ext s time now envelope =
    (let message = probe_message (env_timestamp_millis envelope)
     in case authenticate ext envelope message now of
       Inr identity \<Rightarrow>
         let s = probe_with_evidence identity time (env_timestamp_millis envelope) (env_signature envelope) s;
             s = refresh_probe_evidence (client_key identity) (env_timestamp_millis envelope)
                   (env_signature envelope) s
         in (Some ProbeAck, s)
     | Inl err \<Rightarrow> (Some (ErrorResponse (request_auth_error_text err)), s))"

text \<open>The rumor a registration attaches, built from the envelope and the probe evidence.\<close>

definition registration_rumor_of ::
  "register_body signed_envelope \<Rightarrow> client_identity \<Rightarrow> registration_token \<Rightarrow> u64 \<Rightarrow> bytes \<Rightarrow>
    registration_rumor" where
  "registration_rumor_of envelope identity token probe_timestamp probe_sig =
    \<lparr>rumor_domain = register_domain (env_body envelope), rumor_token = token,
     rumor_client_key = client_key identity, rumor_owner_key = env_verifying_key envelope,
     rumor_rdns = env_rdns envelope,
     registration_timestamp_millis = env_timestamp_millis envelope,
     registration_signature = env_signature envelope,
     probe_timestamp_millis = probe_timestamp, probe_signature = probe_sig,
     rumor_records = [], records_timestamp_millis = None, records_signature = None\<rparr>"

definition handle_register ::
  "externals \<Rightarrow> bytes \<Rightarrow> registry_store \<Rightarrow> time_source \<Rightarrow> u64 \<Rightarrow> register_body signed_envelope \<Rightarrow> bool \<Rightarrow>
    client_response option \<times> registry_store" where
  "handle_register ext drawn s time now envelope rdns_verified =
    (let message = register_message (register_domain (env_body envelope)) (env_timestamp_millis envelope)
     in case authenticate ext envelope message now of
       Inr identity \<Rightarrow>
         if \<not> rdns_verified
         then (Some (ErrorResponse (lit ''claimed rdns hostname does not forward-confirm against the request's source address'')), s)
         else
           (case register ext drawn (register_domain (env_body envelope)) identity (call 0 time) s of
             (Inr token, s) \<Rightarrow>
               (case last_probe_evidence s identity of
                 None \<Rightarrow> (None, s)
               | Some (probe_timestamp, probe_sig) \<Rightarrow>
                   let rumor = registration_rumor_of envelope identity token probe_timestamp probe_sig;
                       s = snd (attach_rumor ext rumor (call 1 time) s)
                   in (Some (Registered token), s))
           | (Inl err, s) \<Rightarrow> (Some (ErrorResponse (registration_error_text err)), s))
     | Inl err \<Rightarrow> (Some (ErrorResponse (request_auth_error_text err)), s))"

definition handle_set_records ::
  "externals \<Rightarrow> registry_store \<Rightarrow> u64 \<Rightarrow> set_records_body signed_envelope \<Rightarrow>
    client_response option \<times> registry_store" where
  "handle_set_records ext s now envelope =
    (let d = records_domain (env_body envelope);
         message = set_records_message ext d (records_records (env_body envelope)) (env_timestamp_millis envelope)
     in case authenticate ext envelope message now of
       Inr identity \<Rightarrow>
         (case set_records d identity (records_records (env_body envelope)) s of
           (True, s) \<Rightarrow>
             (Some RecordsSet,
              attach_record_evidence d (client_key identity) (env_timestamp_millis envelope)
                (env_signature envelope) s)
         | (False, s) \<Rightarrow> (Some (ErrorResponse (lit ''client does not own this domain'')), s))
     | Inl err \<Rightarrow> (Some (ErrorResponse (request_auth_error_text err)), s))"

definition handle_client_request ::
  "externals \<Rightarrow> bytes \<Rightarrow> registry_store \<Rightarrow> time_source \<Rightarrow> client_request \<Rightarrow> bool \<Rightarrow>
    client_response option \<times> registry_store" where
  "handle_client_request ext drawn s time request rdns_verified =
    (let now = now_millis (call 0 time)
     in case request of
       Probe envelope \<Rightarrow> handle_probe ext s (call 1 time) now envelope
     | Register envelope \<Rightarrow> handle_register ext drawn s (call 1 time) now envelope rdns_verified
     | SetRecords envelope \<Rightarrow> handle_set_records ext s now envelope)"

section \<open>The invariant\<close>

lemma handle_probe_inv: "store_inv s \<Longrightarrow> store_inv (snd (handle_probe ext s time now envelope))"
  by (simp add: handle_probe_def Let_def probe_with_evidence_inv refresh_probe_evidence_inv split: sum.splits)

lemma handle_register_inv:
  assumes "store_inv s" shows "store_inv (snd (handle_register ext drawn s time now envelope verified))"
proof -
  have "store_inv s'" if "register ext drawn d c time' s = (r, s')" for d c time' r s'
    using register_inv [OF assms, of ext drawn d c time'] that by simp
  with assms show ?thesis
    by (auto simp: handle_register_def Let_def attach_rumor_inv split: sum.splits prod.splits option.splits)
qed

lemma handle_set_records_inv: "store_inv s \<Longrightarrow> store_inv (snd (handle_set_records ext s now envelope))"
  using set_records_inv [of s]
  by (auto simp: handle_set_records_def Let_def split: sum.splits prod.splits bool.splits)
    (metis attach_record_evidence_inv snd_conv)+

lemma handle_client_request_inv:
  "store_inv s \<Longrightarrow> store_inv (snd (handle_client_request ext drawn s time request verified))"
  by (simp add: handle_client_request_def Let_def handle_probe_inv handle_register_inv
      handle_set_records_inv split: client_request.splits)

section \<open>What the handlers do\<close>

text \<open>The message a request's signature must cover.\<close>

fun request_message :: "externals \<Rightarrow> client_request \<Rightarrow> bytes" where
  "request_message ext (Probe e) = probe_message (env_timestamp_millis e)"
| "request_message ext (Register e) = register_message (register_domain (env_body e)) (env_timestamp_millis e)"
| "request_message ext (SetRecords e) =
    set_records_message ext (records_domain (env_body e)) (records_records (env_body e)) (env_timestamp_millis e)"

fun request_auth :: "externals \<Rightarrow> client_request \<Rightarrow> u64 \<Rightarrow> request_auth_error + client_identity" where
  "request_auth ext (Probe e) now = authenticate ext e (request_message ext (Probe e)) now"
| "request_auth ext (Register e) now = authenticate ext e (request_message ext (Register e)) now"
| "request_auth ext (SetRecords e) now = authenticate ext e (request_message ext (SetRecords e)) now"

lemma unauthenticated_unchanged:
  "request_auth ext request (now_millis (call 0 time)) = Inl err \<Longrightarrow>
    handle_client_request ext drawn s time request verified = (Some (ErrorResponse (request_auth_error_text err)), s)"
  by (cases request)
    (simp_all add: handle_client_request_def handle_probe_def handle_register_def handle_set_records_def Let_def)

lemma quota_key_client: "client_quota_key (client_new k host) = quota_key host"
  by (simp add: client_quota_key_def quota_key_def client_new_def)

text \<open>Attaching the rumor of a registration just made keeps the name in its holder's hands.\<close>

lemma attach_keeps_holder:
  assumes inv: "store_inv s" and reg: "hm_get (registrations s) (rumor_domain rumor) = Some reg"
    and owner: "reg_client_key reg = rumor_client_key rumor" "reg_token reg = rumor_token rumor"
    and host: "reg_quota_key reg = quota_key (rumor_rdns rumor)" "reg_rumor reg = None"
  shows "\<exists>reg'. hm_get (registrations (snd (attach_rumor ext rumor time s))) (rumor_domain rumor) = Some reg' \<and>
    reg_client_key reg' = rumor_client_key rumor \<and> reg_token reg' = rumor_token rumor \<and>
    reg_quota_key reg' = quota_key (rumor_rdns rumor)"
proof -
  let ?q = "quota_key (rumor_rdns rumor)"
  let ?s = "insert_claim ?q rumor s" and ?d = "rumor_domain rumor"
  let ?s' = "reconcile_quota ext ?q (call 0 time) ?s"
  have claims: "hm_get (quota_claims ?s) ?q = Some (hm_insert ?d rumor (claims_of s ?q))"
    by (simp add: insert_claim_def claims_of_def Let_def)
  note except = insert_claim_inv [OF inv refl, of rumor]
  have regs: "registrations ?s = registrations s" by (simp add: insert_claim_def Let_def)
  have wf: "hm_wf (registrations ?s)" using inv by (simp add: regs store_inv_def store_inv_except_def)
  have other: "hm_get (other_regs ?q ?s) ?d = Some reg"
    using other_regs_get [OF wf] reg host by (simp add: regs)
  have w: "w = rumor" if "hm_get (claims_of ?s' ?q) ?d = Some w" for w
    using reconciled_claim(1) [OF except claims that] by simp
  have "snd (attach_rumor ext rumor time s) = ?s'"
    using reg owner by (simp add: attach_rumor_def Let_def)
  moreover have "hm_get (registrations ?s') ?d =
      Some (if hm_get (claims_of ?s' ?q) ?d = None then reg else registration_from_rumor rumor ?q)"
    unfolding reconcile_get [OF except claims] other
    using w owner by (cases "hm_get (claims_of ?s' ?q) ?d") (simp_all add: local_rule.win_idem)
  ultimately show ?thesis using owner host by (simp add: registration_from_rumor_def)
qed

lemma registered_holds:
  assumes inv: "store_inv s"
    and result: "handle_register ext drawn s time now envelope verified = (Some (Registered token), s')"
  shows "verified \<and> (\<exists>reg. hm_get (registrations s') (register_domain (env_body envelope)) = Some reg \<and>
    reg_client_key reg = client_key (client_new (env_verifying_key envelope) (env_rdns envelope)) \<and>
    reg_token reg = token \<and> reg_quota_key reg = quota_key (env_rdns envelope))"
proof -
  let ?d = "register_domain (env_body envelope)"
  let ?id = "client_new (env_verifying_key envelope) (env_rdns envelope)"
  from result obtain identity s1 probe_timestamp probe_sig where
    auth: "authenticate ext envelope (register_message ?d (env_timestamp_millis envelope)) now = Inr identity"
    and verified: "verified"
    and reg: "register ext drawn ?d identity (call 0 time) s = (Inr token, s1)"
    and s': "s' = snd (attach_rumor ext (registration_rumor_of envelope identity token probe_timestamp probe_sig)
      (call 1 time) s1)"
    by (auto simp: handle_register_def Let_def split: sum.splits prod.splits option.splits if_splits)
  have id: "identity = ?id" using auth by (simp add: authenticate_Inr)
  let ?s0 = "reclaim_stale ext (call 1 (call 0 time)) s"
  have s1: "s1 = add_registration ?d identity token ?s0"
    using register_granted(1) [OF reg] .
  have inv1: "store_inv s1" using register_inv [OF inv, of ext drawn ?d identity "call 0 time"] reg by simp
  have "hm_get (registrations s1) ?d = Some \<lparr>reg_client_key = client_key identity,
      reg_quota_key = client_quota_key identity, reg_token = token, reg_records = [], reg_rumor = None\<rparr>"
    by (simp add: s1 add_registration_def)
  with attach_keeps_holder [OF inv1, of "registration_rumor_of envelope identity token probe_timestamp probe_sig"]
  show ?thesis
    by (simp add: s' verified registration_rumor_of_def id quota_key_client)
qed

section \<open>Panics\<close>

lemma register_panics:
  assumes auth: "authenticate ext envelope
      (register_message (register_domain (env_body envelope)) (env_timestamp_millis envelope)) now = Inr identity"
    and verified: "verified"
    and granted: "register ext drawn (register_domain (env_body envelope)) identity (call 0 time) s = (Inr token, s')"
    and no_probe: "hm_get (probe_evidence s) (client_key identity) = None"
  shows "handle_register ext drawn s time now envelope verified = (None, s')"
proof -
  have "probe_evidence s' = probe_evidence s"
    using register_sel [of ext drawn "register_domain (env_body envelope)" identity "call 0 time" s] granted by simp
  with assms show ?thesis by (simp add: handle_register_def last_probe_evidence_def)
qed

text \<open>Which requests can panic: only registrations by an identity that never probed.\<close>

lemma panic_cause:
  assumes "handle_client_request ext drawn s time request verified = (None, s')"
  shows "\<exists>envelope identity token. request = Register envelope \<and>
    request_auth ext request (now_millis (call 0 time)) = Inr identity \<and> verified \<and>
    hm_get (probe_evidence s) (client_key identity) = None \<and>
    register ext drawn (register_domain (env_body envelope)) identity (call 0 (call 1 time)) s = (Inr token, s')"
proof (cases request)
  case (Probe e)
  with assms show ?thesis
    by (simp add: handle_client_request_def handle_probe_def Let_def split: sum.splits)
next
  case (SetRecords e)
  with assms show ?thesis
    by (auto simp: handle_client_request_def handle_set_records_def Let_def split: sum.splits prod.splits bool.splits)
next
  case (Register e)
  then obtain identity token s1 where
    auth: "request_auth ext request (now_millis (call 0 time)) = Inr identity" and verified: "verified"
    and reg: "register ext drawn (register_domain (env_body e)) identity (call 0 (call 1 time)) s = (Inr token, s1)"
    and none: "last_probe_evidence s1 identity = None" and s': "s' = s1"
    using assms
    by (auto simp: handle_client_request_def handle_register_def Let_def
        split: sum.splits prod.splits option.splits if_splits)
  have "probe_evidence s1 = probe_evidence s"
    using register_sel [of ext drawn "register_domain (env_body e)" identity "call 0 (call 1 time)" s] reg by simp
  with Register auth verified reg none s' show ?thesis by (auto simp: last_probe_evidence_def)
qed

section \<open>Probes\<close>

lemma probe_accepted:
  assumes "authenticate ext envelope (probe_message (env_timestamp_millis envelope)) now = Inr identity"
  shows "handle_probe ext s time now envelope = (Some ProbeAck,
    refresh_probe_evidence (client_key identity) (env_timestamp_millis envelope) (env_signature envelope)
      (probe_with_evidence identity time (env_timestamp_millis envelope) (env_signature envelope) s))"
  using assms by (simp add: handle_probe_def Let_def)

lemma probe_makes_live:
  assumes "handle_probe ext s time now envelope = (Some ProbeAck, s')"
    and "unat (now_millis later) \<le> unat (now_millis time) + 60000"
  shows "is_live (liveness s') (client_new k (env_rdns envelope)) later"
proof -
  from assms(1) obtain identity where auth: "authenticate ext envelope (probe_message (env_timestamp_millis envelope)) now = Inr identity"
    by (auto simp: handle_probe_def Let_def split: sum.splits)
  with assms(1) have "liveness s' = record_probe identity time (liveness s)"
    by (auto simp: probe_accepted refresh_probe_evidence_def probe_with_evidence_def probe_def Let_def)
  moreover have "client_quota_key identity = client_quota_key (client_new k (env_rdns envelope))"
    using auth by (simp add: authenticate_Inr quota_key_client)
  ultimately show ?thesis using assms(2) by (simp add: is_live_iff)
qed

text \<open>A probe's signature does not cover the host, so it probes for any host.\<close>

lemma probe_any_host:
  assumes "fst (handle_probe ext s time now envelope) = Some ProbeAck"
  shows "fst (handle_probe ext s' time' now (envelope\<lparr>env_rdns := host\<rparr>)) = Some ProbeAck"
proof -
  from assms have "\<exists>identity. authenticate ext envelope (probe_message (env_timestamp_millis envelope)) now = Inr identity"
    by (auto simp: handle_probe_def Let_def split: sum.splits)
  then have "\<exists>identity. authenticate ext (envelope\<lparr>env_rdns := host\<rparr>) (probe_message (env_timestamp_millis envelope)) now = Inr identity"
    by (simp add: authenticate_Inr)
  then show ?thesis by (auto simp: handle_probe_def Let_def)
qed

section \<open>Only the owner changes records\<close>

lemma set_records_owner:
  assumes "handle_set_records ext s now envelope = (Some RecordsSet, s')"
  shows "\<exists>reg. hm_get (registrations s) (records_domain (env_body envelope)) = Some reg \<and>
      reg_client_key reg = client_key (client_new (env_verifying_key envelope) (env_rdns envelope))"
    and "sig_verifies ext (env_verifying_key envelope)
      (set_records_message ext (records_domain (env_body envelope)) (records_records (env_body envelope))
        (env_timestamp_millis envelope)) (env_signature envelope)"
    and "map_option reg_records (hm_get (registrations s') (records_domain (env_body envelope)))
      = Some (records_records (env_body envelope))"
    and "d \<noteq> records_domain (env_body envelope) \<Longrightarrow> hm_get (registrations s') d = hm_get (registrations s) d"
  using assms
  by (auto simp: handle_set_records_def Let_def set_records_def authenticate_Inr attach_record_evidence_def
      split: sum.splits option.splits if_splits)

lemma set_records_refused:
  assumes "fst (handle_set_records ext s now envelope) \<noteq> Some RecordsSet"
  shows "snd (handle_set_records ext s now envelope) = s"
  using assms by (auto simp: handle_set_records_def Let_def set_records_def split: sum.splits option.splits)

section \<open>What an update of the records does to the name\<close>

lemma attach_record_evidence_claims:
  "hm_get (claims_of (attach_record_evidence d ck t sg s) q) d =
    map_option (\<lambda>c. if rumor_client_key c = ck
      then c\<lparr>records_timestamp_millis := Some t, records_signature := Some sg\<rparr> else c) (hm_get (claims_of s q) d)"
  by (simp add: claims_of_def attach_record_evidence_def split: option.splits)

text \<open>The update leaves the name with a claim whose evidence is for other records, so the next reclaim
  releases it.\<close>

lemma set_records_loses_name:
  assumes inv: "store_inv s" and reg: "hm_get (registrations s) d = Some reg" "reg_rumor reg \<noteq> None"
    and claim: "hm_get (claims_of s (reg_quota_key reg)) d = Some c"
    and only: "\<And>q. q \<noteq> reg_quota_key reg \<Longrightarrow> hm_get (claims_of s q) d = None"
    and result: "handle_set_records ext s now e = (Some RecordsSet, s')" "records_domain (env_body e) = d"
    and stale: "\<not> sig_verifies ext (rumor_owner_key c)
      (set_records_message ext d (rumor_records c) (env_timestamp_millis e)) (env_signature e)"
  shows "hm_get (registrations (reclaim_stale ext time s')) d = None"
proof -
  let ?s = "s\<lparr>registrations := hm_insert d (reg\<lparr>reg_records := records_records (env_body e)\<rparr>) (registrations s)\<rparr>"
  let ?ck = "reg_client_key reg" and ?t = "env_timestamp_millis e" and ?sg = "env_signature e"
  have s': "s' = attach_record_evidence d ?ck ?t ?sg ?s"
    using result reg(1) by (auto simp: handle_set_records_def Let_def set_records_def split: sum.splits if_splits)
  have "backed s d reg" using store_inv_exceptD(8) [OF inv [unfolded store_inv_def] reg(1)] reg(2) by auto
  then have key: "rumor_client_key c = ?ck" using claim by (auto simp: backed_def claims_of_def)
  have dom: "rumor_domain c = d" using claims_of_ok [OF inv] claim by (simp add: claims_ok_def)
  have claims: "claims_of ?s q = claims_of s q" for q by (simp add: claims_of_def)
  show ?thesis
  proof (rule reclaim_unclaimed)
    show "store_inv s'" using handle_set_records_inv [OF inv, of ext now e] result(1) by simp
    show "d \<notin> local_names s' q" for q
      using reg(2) by (auto simp: local_names_def s' attach_record_evidence_def)
    fix q c'
    assume "hm_get (claims_of s' q) d = Some c'"
    with only [of q] claim key have "c' = c\<lparr>records_timestamp_millis := Some ?t, records_signature := Some ?sg\<rparr>"
      by (cases "q = reg_quota_key reg") (simp_all add: s' attach_record_evidence_claims claims)
    with stale dom show "\<not> is_authorized ext c'" by (simp add: is_authorized_iff records_evidence_def)
  qed
qed

section \<open>Requests\<close>

fun request_signature :: "client_request \<Rightarrow> bytes" where
  "request_signature (Probe e) = env_signature e"
| "request_signature (Register e) = env_signature e"
| "request_signature (SetRecords e) = env_signature e"

fun request_timestamp :: "client_request \<Rightarrow> u64" where
  "request_timestamp (Probe e) = env_timestamp_millis e"
| "request_timestamp (Register e) = env_timestamp_millis e"
| "request_timestamp (SetRecords e) = env_timestamp_millis e"

lemma request_auth_Inr:
  "request_auth ext request now = Inr identity \<Longrightarrow>
    is_fresh (request_timestamp request) now \<and> length (verifying_key identity) = 32 \<and>
    sig_verifies ext (verifying_key identity) (request_message ext request) (request_signature request)"
  by (cases request) (auto simp: authenticate_Inr client_new_def)

lemma registered_verified:
  assumes "fst (handle_client_request ext drawn s time request verified) = Some (Registered token)"
  shows "verified \<and> (\<exists>e. request = Register e)"
  using assms
  by (cases request)
    (auto simp: handle_client_request_def handle_probe_def handle_register_def handle_set_records_def Let_def
      split: sum.splits prod.splits option.splits if_splits bool.splits)

end
