(* ===== verification/Wire.thy ===== *)
theory Wire
  imports Rust_String
begin

text \<open>
  \<open>binda-core/src/wire.rs\<close>: frames of at most one UDP datagram. The JSON printer and parser
  (\<open>serde_json\<close>) are arguments.
\<close>

definition max_datagram_bytes :: nat where "max_datagram_bytes = 65507"

datatype 'e wire_error = Encode 'e | Decode 'e | TooLarge (actual: nat) (maximum: nat)

text \<open>\<open>to_string\<close>; the serializer's own error prints as \<open>show_error\<close> has it.\<close>

fun wire_error_text :: "('e \<Rightarrow> rstring) \<Rightarrow> 'e wire_error \<Rightarrow> rstring" where
  "wire_error_text show_error (Encode e) = lit ''failed to serialize message: '' @ show_error e"
| "wire_error_text show_error (Decode e) = lit ''failed to deserialize message: '' @ show_error e"
| "wire_error_text show_error (TooLarge n limit) =
    lit ''encoded message of '' @ show_nat n @ lit '' bytes exceeds the '' @ show_nat limit @ lit '' byte limit''"

definition encode :: "('m \<Rightarrow> 'e + bytes) \<Rightarrow> 'm \<Rightarrow> 'e wire_error + bytes" where
  "encode to_vec message =
    (case to_vec message of
      Inl e \<Rightarrow> Inl (Encode e)
    | Inr bs \<Rightarrow>
        if max_datagram_bytes < length bs then Inl (TooLarge (length bs) max_datagram_bytes)
        else Inr bs)"

definition decode :: "(bytes \<Rightarrow> 'e + 'm) \<Rightarrow> bytes \<Rightarrow> 'e wire_error + 'm" where
  "decode from_slice bs =
    (if max_datagram_bytes < length bs then Inl (TooLarge (length bs) max_datagram_bytes)
     else case from_slice bs of Inl e \<Rightarrow> Inl (Decode e) | Inr m \<Rightarrow> Inr m)"

text \<open>What the size limit keeps of a serializer pair's round trip.\<close>

lemma decode_encode:
  assumes "encode to_vec m = Inr bs" "\<And>m bs. to_vec m = Inr bs \<Longrightarrow> from_slice bs = Inr m"
  shows "decode from_slice bs = Inr m"
  using assms by (auto simp: encode_def decode_def split: sum.splits if_splits)

lemma encode_bound: "encode to_vec m = Inr bs \<Longrightarrow> length bs \<le> 65507"
  by (auto simp: encode_def max_datagram_bytes_def split: sum.splits if_splits)

lemma decode_too_large: "decode from_slice bs = Inl (TooLarge n m) \<longleftrightarrow>
    65507 < length bs \<and> n = length bs \<and> m = 65507"
  by (auto simp: decode_def max_datagram_bytes_def split: sum.splits)

end
