(* ===== verification/Rate_Limit.thy ===== *)
theory Rate_Limit
  imports Prelude Complex_Main
begin

text \<open>
  \<open>binda-core/src/rate_limit.rs\<close>: a token bucket for every key, with a bounded number of keys.
  Tokens are \<open>f64\<close>: a real number, every arithmetic operation followed by the
  rounding \<open>rnd\<close> of the floating-point format, an argument of the definitions. An
  \<open>Instant\<close> is a number of nanoseconds; \<open>saturating_duration_since\<close> is subtraction on \<open>nat\<close>.
\<close>

record bucket =
  tokens :: real
  last_refill :: nat

record 'k rate_limiter =
  capacity :: real
  refill_per_sec :: real
  max_tracked_keys :: nat
  buckets :: "('k, bucket) hash_map"

definition limiter_new :: "u32 \<Rightarrow> real \<Rightarrow> nat \<Rightarrow> 'k rate_limiter" where
  "limiter_new cap refill max_keys =
    \<lparr>capacity = real (unat cap), refill_per_sec = refill, max_tracked_keys = max_keys, buckets = []\<rparr>"

text \<open>\<open>Duration::as_secs_f64\<close>.\<close>

definition as_secs_f64 :: "(real \<Rightarrow> real) \<Rightarrow> nat \<Rightarrow> real" where
  "as_secs_f64 rnd nanos =
    rnd (rnd (real (nanos div 1000000000)) + rnd (real (nanos mod 1000000000) / 1000000000))"

definition evict_least_recently_seen :: "('k, bucket) hash_map \<Rightarrow> ('k, bucket) hash_map" where
  "evict_least_recently_seen m =
    (case hm_min_by_key last_refill m of Some (k, _) \<Rightarrow> hm_remove k m | None \<Rightarrow> m)"

definition refill :: "(real \<Rightarrow> real) \<Rightarrow> real \<Rightarrow> real \<Rightarrow> nat \<Rightarrow> bucket \<Rightarrow> real" where
  "refill rnd cap per_sec now b =
    min (rnd (tokens b + rnd (as_secs_f64 rnd (now - last_refill b) * per_sec))) cap"

definition allow_at ::
  "(real \<Rightarrow> real) \<Rightarrow> 'k \<Rightarrow> nat \<Rightarrow> 'k rate_limiter \<Rightarrow> bool \<times> 'k rate_limiter" where
  "allow_at rnd key now l =
    (let bs = (if \<not> hm_contains_key (buckets l) key \<and> max_tracked_keys l \<le> length (buckets l)
               then evict_least_recently_seen (buckets l) else buckets l);
         b = (case hm_get bs key of Some b \<Rightarrow> b
              | None \<Rightarrow> \<lparr>tokens = capacity l, last_refill = now\<rparr>);
         available = refill rnd (capacity l) (refill_per_sec l) now b
     in if 1 \<le> available
        then (True, l\<lparr>buckets := hm_insert key \<lparr>tokens = rnd (available - 1), last_refill = now\<rparr> bs\<rparr>)
        else (False, l\<lparr>buckets := hm_insert key \<lparr>tokens = available, last_refill = now\<rparr> bs\<rparr>))"

definition prune_older_than :: "nat \<Rightarrow> nat \<Rightarrow> 'k rate_limiter \<Rightarrow> 'k rate_limiter" where
  "prune_older_than max_age now l =
    l\<lparr>buckets := hm_retain (\<lambda>_ b. now - last_refill b < max_age) (buckets l)\<rparr>"

section \<open>Memory\<close>

definition limiter_wf :: "'k rate_limiter \<Rightarrow> bool" where
  "limiter_wf l \<longleftrightarrow> hm_wf (buckets l) \<and> length (buckets l) \<le> max_tracked_keys l"

lemma evict_wf: "hm_wf m \<Longrightarrow> hm_wf (evict_least_recently_seen m)"
  by (simp add: evict_least_recently_seen_def split: option.splits)

lemma evict_length: "m \<noteq> [] \<Longrightarrow> length (evict_least_recently_seen m) < length m"
proof -
  assume "m \<noteq> []"
  then obtain k b where min: "hm_min_by_key last_refill m = Some (k, b)"
    by (cases "hm_min_by_key last_refill m") auto
  then have "(k, b) \<in> set m" by (rule hm_min_by_key_in)
  then have "hm_contains_key m k" by (force simp: hm_contains_key_def hm_get_None_iff)
  with min show ?thesis by (simp add: evict_least_recently_seen_def length_hm_remove_less)
qed

lemma evict_length_le: "length (evict_least_recently_seen m) \<le> length m"
  by (cases "m = []") (auto simp: evict_least_recently_seen_def dest: evict_length)

lemma allow_at_sel [simp]:
  "capacity (snd (allow_at rnd key now l)) = capacity l"
  "refill_per_sec (snd (allow_at rnd key now l)) = refill_per_sec l"
  "max_tracked_keys (snd (allow_at rnd key now l)) = max_tracked_keys l"
  by (simp_all add: allow_at_def Let_def)

lemma prune_sel [simp]:
  "capacity (prune_older_than age now l) = capacity l"
  "refill_per_sec (prune_older_than age now l) = refill_per_sec l"
  "max_tracked_keys (prune_older_than age now l) = max_tracked_keys l"
  by (simp_all add: prune_older_than_def)

definition tracked :: "'k rate_limiter \<Rightarrow> 'k \<Rightarrow> ('k, bucket) hash_map" where
  "tracked l key =
    (if \<not> hm_contains_key (buckets l) key \<and> max_tracked_keys l \<le> length (buckets l)
     then evict_least_recently_seen (buckets l) else buckets l)"

lemma allow_at_buckets:
  "\<exists>b. buckets (snd (allow_at rnd key now l)) = hm_insert key b (tracked l key)"
  by (auto simp: allow_at_def Let_def tracked_def)

lemma tracked_room:
  assumes "limiter_wf l" "0 < max_tracked_keys l" "\<not> hm_contains_key (tracked l key) key"
  shows "length (tracked l key) < max_tracked_keys l"
  using assms evict_length [of "buckets l"]
  by (cases "buckets l = []") (auto simp: tracked_def limiter_wf_def split: if_splits)

lemma allow_at_wf:
  assumes "limiter_wf l" "0 < max_tracked_keys l"
  shows "limiter_wf (snd (allow_at rnd key now l))"
proof -
  from allow_at_buckets [of rnd key now l] obtain b where b: "buckets (snd (allow_at rnd key now l)) = hm_insert key b (tracked l key)"
    by blast
  have wf: "hm_wf (tracked l key)" using assms(1) by (simp add: tracked_def limiter_wf_def evict_wf)
  have "length (tracked l key) \<le> max_tracked_keys l"
    using assms(1) evict_length_le [of "buckets l"] by (auto simp: tracked_def limiter_wf_def)
  with tracked_room [OF assms, of key] have "length (hm_insert key b (tracked l key)) \<le> max_tracked_keys l"
    by (auto simp: length_hm_insert)
  with wf b show ?thesis by (simp add: limiter_wf_def)
qed

lemma prune_wf: "limiter_wf l \<Longrightarrow> limiter_wf (prune_older_than age now l)"
  using length_hm_retain_le [of _ "buckets l"] by (force simp: limiter_wf_def prune_older_than_def intro: le_trans)

text \<open>The events a limiter sees, and its table as a bounded table.\<close>

definition limiter_admit ::
  "(real \<Rightarrow> real) \<Rightarrow> real \<Rightarrow> real \<Rightarrow> nat \<Rightarrow> ('k, bucket) hash_map \<Rightarrow> 'k \<times> nat \<Rightarrow> ('k, bucket) hash_map" where
  "limiter_admit rnd cap per_sec max_keys m e =
    buckets (snd (allow_at rnd (fst e) (snd e)
      \<lparr>capacity = cap, refill_per_sec = per_sec, max_tracked_keys = max_keys, buckets = m\<rparr>))"

interpretation limiter_table: bounded_table "Suc n" "limiter_admit rnd cap per_sec (Suc n)" for rnd cap per_sec n
proof unfold_locales
  fix m :: "('k, bucket) hash_map" and e :: "'k \<times> nat"
  let ?l = "\<lparr>capacity = cap, refill_per_sec = per_sec, max_tracked_keys = Suc n, buckets = m\<rparr>"
  obtain b where "limiter_admit rnd cap per_sec (Suc n) m e = hm_insert (fst e) b (tracked ?l (fst e))"
    using allow_at_buckets [of rnd "fst e" "snd e" ?l] by (auto simp: limiter_admit_def)
  then show "hm_wf m \<Longrightarrow> hm_wf (limiter_admit rnd cap per_sec (Suc n) m e)"
    by (simp add: tracked_def evict_wf)
  assume "hm_wf m" "length m \<le> Suc n"
  then show "length (limiter_admit rnd cap per_sec (Suc n) m e) \<le> Suc n"
    using allow_at_wf [of ?l rnd "fst e" "snd e"] by (simp add: limiter_wf_def limiter_admit_def)
qed

section \<open>Tokens\<close>

text \<open>What a rounding does: it is monotone and exact on the integers a \<open>u32\<close> holds.\<close>

definition rounding :: "(real \<Rightarrow> real) \<Rightarrow> bool" where
  "rounding rnd \<longleftrightarrow> mono rnd \<and> (\<forall>n < 2 ^ 32. rnd (real n) = real n)"

lemma roundingD:
  assumes "rounding rnd"
  shows "x \<le> y \<Longrightarrow> rnd x \<le> rnd y" "n < 2 ^ 32 \<Longrightarrow> rnd (real n) = real n" "rnd 0 = 0" "0 \<le> x \<Longrightarrow> 0 \<le> rnd x"
proof -
  show mono: "x \<le> y \<Longrightarrow> rnd x \<le> rnd y" for x y using assms by (simp add: rounding_def monoD)
  show "n < 2 ^ 32 \<Longrightarrow> rnd (real n) = real n" for n using assms by (simp add: rounding_def)
  from this [of 0] show zero: "rnd 0 = 0" by simp
  show "0 \<le> x \<Longrightarrow> 0 \<le> rnd x" using mono [of 0 x] zero by simp
qed

definition limiter_ok :: "'k rate_limiter \<Rightarrow> bool" where
  "limiter_ok l \<longleftrightarrow> limiter_wf l \<and> 0 < max_tracked_keys l \<and> 0 \<le> refill_per_sec l \<and>
    (\<exists>n < 2 ^ 32. capacity l = real n) \<and>
    (\<forall>k b. hm_get (buckets l) k = Some b \<longrightarrow> 0 \<le> tokens b \<and> tokens b \<le> capacity l)"

lemma as_secs_f64_nonneg: "rounding rnd \<Longrightarrow> 0 \<le> as_secs_f64 rnd n"
  by (simp add: as_secs_f64_def roundingD(4))

lemma refill_range:
  assumes "rounding rnd" "0 \<le> per_sec" "0 \<le> tokens b" "0 \<le> cap"
  shows "0 \<le> refill rnd cap per_sec now b" "refill rnd cap per_sec now b \<le> cap"
  using assms by (simp_all add: refill_def roundingD(4) as_secs_f64_nonneg)

lemma evict_get: "hm_get (evict_least_recently_seen m) k = Some b \<Longrightarrow> hm_get m k = Some b"
  by (auto simp: evict_least_recently_seen_def split: option.splits if_splits)

lemma allow_at_ok:
  assumes rnd: "rounding rnd" and ok: "limiter_ok l"
  shows "limiter_ok (snd (allow_at rnd key now l))"
proof -
  let ?b = "case hm_get (tracked l key) key of Some b \<Rightarrow> b | None \<Rightarrow> \<lparr>tokens = capacity l, last_refill = now\<rparr>"
  let ?a = "refill rnd (capacity l) (refill_per_sec l) now ?b"
  from ok obtain n where cap: "capacity l = real n" "n < 2 ^ 32" by (auto simp: limiter_ok_def)
  have sub: "hm_get (buckets l) k = Some b" if "hm_get (tracked l key) k = Some b" for k b
    using that evict_get by (auto simp: tracked_def split: if_splits)
  have "0 \<le> tokens ?b" using ok sub by (auto simp: limiter_ok_def split: option.splits)
  then have a: "0 \<le> ?a" "?a \<le> capacity l"
    using refill_range [OF rnd, of "refill_per_sec l" ?b "capacity l" now] ok cap by (auto simp: limiter_ok_def)
  have "rnd (?a - 1) \<le> rnd (capacity l)" using a by (intro roundingD(1) [OF rnd]) simp
  then have spent: "rnd (?a - 1) \<le> capacity l" using roundingD(2) [OF rnd cap(2)] cap(1) by simp
  have buckets: "buckets (snd (allow_at rnd key now l)) = hm_insert key
      \<lparr>tokens = (if 1 \<le> ?a then rnd (?a - 1) else ?a), last_refill = now\<rparr> (tracked l key)"
    by (simp add: allow_at_def Let_def tracked_def)
  have new: "0 \<le> (if 1 \<le> ?a then rnd (?a - 1) else ?a)" "(if 1 \<le> ?a then rnd (?a - 1) else ?a) \<le> capacity l"
    using a spent roundingD(4) [OF rnd, of "?a - 1"] by auto
  have range: "0 \<le> tokens b \<and> tokens b \<le> capacity l" if "hm_get (buckets (snd (allow_at rnd key now l))) k = Some b" for k b
  proof (cases "k = key")
    case True
    with that new show ?thesis by (auto simp: buckets)
  next
    case False
    with that have "hm_get (buckets l) k = Some b" by (simp add: buckets sub)
    with ok show ?thesis by (auto simp: limiter_ok_def)
  qed
  have "limiter_wf (snd (allow_at rnd key now l))" using ok by (intro allow_at_wf) (auto simp: limiter_ok_def)
  with ok range show ?thesis by (auto simp: limiter_ok_def)
qed

lemma prune_ok: "limiter_ok l \<Longrightarrow> limiter_ok (prune_older_than age now l)"
  using prune_wf [of l age now]
  by (auto simp: limiter_ok_def limiter_wf_def prune_older_than_def hm_get_retain_Some)

text \<open>A bucket at one instant: no refill.\<close>

lemma refill_same_instant:
  "rounding rnd \<Longrightarrow> n \<le> c \<Longrightarrow> c < 2 ^ 32 \<Longrightarrow>
    refill rnd (real c) per_sec now \<lparr>tokens = real n, last_refill = now\<rparr> = real n"
  by (simp add: refill_def as_secs_f64_def roundingD(2,3))

fun allow_burst :: "(real \<Rightarrow> real) \<Rightarrow> 'k \<Rightarrow> nat \<Rightarrow> nat \<Rightarrow> 'k rate_limiter \<Rightarrow> bool list \<times> 'k rate_limiter" where
  "allow_burst rnd key now 0 l = ([], l)"
| "allow_burst rnd key now (Suc n) l =
    (let (ok, l) = allow_at rnd key now l; (oks, l) = allow_burst rnd key now n l in (ok # oks, l))"

lemma allow_at_known:
  assumes "rounding rnd" "c < 2 ^ 32" "capacity l = real c"
    and "hm_get (buckets l) key = Some \<lparr>tokens = real m, last_refill = now\<rparr>" "m \<le> c"
  shows "allow_at rnd key now l =
    (0 < m, l\<lparr>buckets := hm_insert key \<lparr>tokens = real (m - 1), last_refill = now\<rparr> (buckets l)\<rparr>)"
proof -
  have known: "hm_contains_key (buckets l) key" using assms(4) by (simp add: hm_contains_key_def)
  have "rnd (real m - 1) = real (m - 1)" if "0 < m"
    using that assms(2,5) roundingD(2) [OF assms(1), of "m - 1"] by (simp add: of_nat_diff)
  moreover have "refill rnd (real c) (refill_per_sec l) now \<lparr>tokens = real m, last_refill = now\<rparr> = real m"
    by (rule refill_same_instant [OF assms(1,5,2)])
  ultimately show ?thesis using known assms(3,4) by (cases "m = 0") (simp_all add: allow_at_def Let_def)
qed

lemma allow_burst_known:
  assumes "rounding rnd" "c < 2 ^ 32" "capacity l = real c"
    and "hm_get (buckets l) key = Some \<lparr>tokens = real m, last_refill = now\<rparr>" "m \<le> c"
  shows "fst (allow_burst rnd key now n l) = replicate (min m n) True @ replicate (n - m) False"
  using assms(3-5)
proof (induction n arbitrary: l m)
  case 0
  then show ?case by simp
next
  case (Suc n)
  let ?l = "l\<lparr>buckets := hm_insert key \<lparr>tokens = real (m - 1), last_refill = now\<rparr> (buckets l)\<rparr>"
  have "fst (allow_burst rnd key now n ?l) = replicate (min (m - 1) n) True @ replicate (n - (m - 1)) False"
    using Suc.prems by (intro Suc.IH) auto
  with allow_at_known [OF assms(1,2) Suc.prems] show ?case
    by (cases m) (auto simp: Let_def split: prod.splits)
qed

text \<open>The first request of a key not tracked creates a full bucket.\<close>

lemma allow_at_fresh:
  assumes "rounding rnd" "c < 2 ^ 32" "capacity l = real c" "\<not> hm_contains_key (buckets l) key" "0 < c"
  shows "fst (allow_at rnd key now l)"
    and "hm_get (buckets (snd (allow_at rnd key now l))) key = Some \<lparr>tokens = real (c - 1), last_refill = now\<rparr>"
proof -
  have "hm_get (tracked l key) key = None"
    using assms(4) evict_get [of "buckets l" key]
    by (cases "hm_get (tracked l key) key") (auto simp: tracked_def hm_contains_key_def split: if_splits)
  moreover have "refill rnd (real c) (refill_per_sec l) now \<lparr>tokens = real c, last_refill = now\<rparr> = real c"
    using assms(1,2) by (intro refill_same_instant) simp_all
  moreover have "rnd (real c - 1) = real (c - 1)"
    using roundingD(2) [OF assms(1), of "c - 1"] assms(2,5) by (simp add: of_nat_diff)
  ultimately show "fst (allow_at rnd key now l)"
    "hm_get (buckets (snd (allow_at rnd key now l))) key = Some \<lparr>tokens = real (c - 1), last_refill = now\<rparr>"
    using assms(3,5) by (simp_all add: allow_at_def Let_def tracked_def)
qed

lemma allow_burst_fresh:
  assumes "rounding rnd" "c < 2 ^ 32" "capacity l = real c" "\<not> hm_contains_key (buckets l) key" "0 < c"
  shows "fst (allow_burst rnd key now n l) = replicate (min c n) True @ replicate (n - c) False"
proof (cases n)
  case (Suc k)
  obtain ok l' where step: "allow_at rnd key now l = (ok, l')" by (cases "allow_at rnd key now l")
  have "fst (allow_burst rnd key now k l') = replicate (min (c - 1) k) True @ replicate (k - (c - 1)) False"
    using allow_at_fresh [OF assms, of now] allow_at_sel(1) [of rnd key now l] assms step
    by (intro allow_burst_known [OF assms(1,2)]) auto
  then show ?thesis
    using allow_at_fresh(1) [OF assms, of now] step Suc assms(5) by (cases c) (auto simp: Let_def split: prod.splits)
qed simp

section \<open>Throughput\<close>

text \<open>In exact arithmetic, calls for one tracked key at times that do not decrease.\<close>

fun allow_times :: "(real \<Rightarrow> real) \<Rightarrow> 'k \<Rightarrow> nat list \<Rightarrow> 'k rate_limiter \<Rightarrow> bool list \<times> 'k rate_limiter" where
  "allow_times rnd key [] l = ([], l)"
| "allow_times rnd key (now # ts) l =
    (let (ok, l) = allow_at rnd key now l; (oks, l) = allow_times rnd key ts l in (ok # oks, l))"

lemma as_secs_exact: "as_secs_f64 (\<lambda>x. x) n = real n / 1000000000"
proof -
  have "real n = real (n div 1000000000) * 1000000000 + real (n mod 1000000000)"
    by (metis div_mult_mod_eq of_nat_add of_nat_mult of_nat_numeral)
  then show ?thesis by (simp add: as_secs_f64_def add_divide_distrib)
qed

lemma allow_at_tracked:
  assumes "hm_get (buckets l) key = Some b" "last_refill b \<le> now"
  shows "\<exists>b'. hm_get (buckets (snd (allow_at (\<lambda>x. x) key now l))) key = Some b' \<and> last_refill b' = now \<and>
    tokens b' + (if fst (allow_at (\<lambda>x. x) key now l) then 1 else 0)
      \<le> tokens b + refill_per_sec l * (real (now - last_refill b) / 1000000000)"
proof -
  have "hm_contains_key (buckets l) key" using assms(1) by (simp add: hm_contains_key_def)
  with assms show ?thesis
    by (simp add: allow_at_def Let_def refill_def as_secs_exact mult.commute)
qed

lemma allow_times_bound:
  assumes "hm_get (buckets l) key = Some b" "sorted (last_refill b # ts)" "limiter_ok l"
  shows "real (length (filter id (fst (allow_times (\<lambda>x. x) key ts l))))
    \<le> tokens b + refill_per_sec l * (real (last (last_refill b # ts) - last_refill b) / 1000000000)"
  using assms
proof (induction ts arbitrary: l b)
  case Nil
  then show ?case by (auto simp: limiter_ok_def)
next
  case (Cons now ts)
  let ?r = "allow_at (\<lambda>x. x) key now l"
  have le: "last_refill b \<le> now" using Cons.prems(2) by simp
  obtain b' where b': "hm_get (buckets (snd ?r)) key = Some b'" "last_refill b' = now"
    and spent: "tokens b' + (if fst ?r then 1 else 0)
      \<le> tokens b + refill_per_sec l * (real (now - last_refill b) / 1000000000)"
    using allow_at_tracked [OF Cons.prems(1) le] by blast
  have id: "rounding (\<lambda>x. x)" by (simp add: rounding_def mono_def)
  have sorted: "sorted (last_refill b' # ts)" using Cons.prems(2) b'(2) by simp
  have ih: "real (length (filter id (fst (allow_times (\<lambda>x. x) key ts (snd ?r)))))
      \<le> tokens b' + refill_per_sec l * (real (last (now # ts) - now) / 1000000000)"
    using Cons.IH [OF b'(1) sorted allow_at_ok [OF id Cons.prems(3)]] unfolding b'(2) allow_at_sel .
  have "now \<le> last (now # ts)"
    using Cons.prems(2) by (cases "ts = []") auto
  with le have split: "real (now - last_refill b) + real (last (now # ts) - now) = real (last (now # ts) - last_refill b)"
    by (simp only: of_nat_add [symmetric])
  have "refill_per_sec l * (real (now - last_refill b) / 1000000000)
      + refill_per_sec l * (real (last (now # ts) - now) / 1000000000)
      = refill_per_sec l * (real (last (now # ts) - last_refill b) / 1000000000)"
    by (simp only: distrib_left [symmetric] add_divide_distrib [symmetric] split)
  with ih spent have "(if fst ?r then 1 else 0) + real (length (filter id (fst (allow_times (\<lambda>x. x) key ts (snd ?r)))))
      \<le> tokens b + refill_per_sec l * (real (last (now # ts) - last_refill b) / 1000000000)"
    by linarith
  moreover have "real (length (filter id (fst (allow_times (\<lambda>x. x) key (now # ts) l)))) =
      (if fst ?r then 1 else 0) + real (length (filter id (fst (allow_times (\<lambda>x. x) key ts (snd ?r)))))"
    by (simp add: Let_def split: prod.splits)
  moreover have "last (last_refill b # now # ts) = last (now # ts)" by simp
  ultimately show ?case by (simp only:)
qed

end
