(* ===== verification/Net.thy ===== *)
theory Net
  imports Rust_String
begin

text \<open>
  Addresses of \<open>std::net\<close> and their \<open>FromStr\<close> parsers (\<open>core::net::parser\<close>), as far as the
  program uses them. A parser consumes a prefix of the text; reading fails as a whole
  (\<open>read_atomically\<close>). A V4 socket address has flow label and scope 0.
\<close>

type_synonym 'a parser = "rstring \<Rightarrow> ('a \<times> rstring) option"

datatype ip_addr = IpV4 (octets: bytes) | IpV6 (segments: "u16 list")

record socket_addr =
  sock_ip :: ip_addr
  sock_port :: u16
  sock_flow :: u32
  sock_scope :: u32

definition socket_addr_new :: "ip_addr \<Rightarrow> u16 \<Rightarrow> socket_addr" where
  "socket_addr_new ip port = \<lparr>sock_ip = ip, sock_port = port, sock_flow = 0, sock_scope = 0\<rparr>"

section \<open>Parsers\<close>

text \<open>\<open>char::to_digit\<close>.\<close>

definition to_digit :: "nat \<Rightarrow> nat \<Rightarrow> nat option" where
  "to_digit radix c =
    (let d = (if 48 \<le> c \<and> c \<le> 57 then Some (c - 48)
              else if 97 \<le> c \<and> c \<le> 122 then Some (c - 87)
              else if 65 \<le> c \<and> c \<le> 90 then Some (c - 55)
              else None)
     in case d of Some n \<Rightarrow> if n < radix then Some n else None | None \<Rightarrow> None)"

fun take_digits :: "nat \<Rightarrow> rstring \<Rightarrow> nat list \<times> rstring" where
  "take_digits radix [] = ([], [])"
| "take_digits radix (c # s) =
    (case to_digit radix c of
      Some d \<Rightarrow> (let (ds, rest) = take_digits radix s in (d # ds, rest))
    | None \<Rightarrow> ([], c # s))"

definition digits_value :: "nat \<Rightarrow> nat list \<Rightarrow> nat" where
  "digits_value radix ds = foldl (\<lambda>acc d. acc * radix + d) 0 ds"

text \<open>\<open>read_number(radix, max_digits, allow_zero_prefix)\<close> for a type with \<open>limit\<close> values. Without
  \<open>max_digits\<close> the source adds up in the type itself and fails on overflow.\<close>

definition read_number :: "nat \<Rightarrow> nat option \<Rightarrow> bool \<Rightarrow> nat \<Rightarrow> nat parser" where
  "read_number radix max_digits allow_zero_prefix limit s =
    (let (ds, rest) = take_digits radix s
     in if (case max_digits of Some m \<Rightarrow> m < length ds | None \<Rightarrow> False) then None
        else if ds = [] then None
        else if \<not> allow_zero_prefix \<and> s \<noteq> [] \<and> hd s = 48 \<and> 1 < length ds then None
        else if limit \<le> digits_value radix ds then None
        else Some (digits_value radix ds, rest))"

definition read_given_char :: "nat \<Rightarrow> unit parser" where
  "read_given_char c s = (case s of x # rest \<Rightarrow> if x = c then Some ((), rest) else None | [] \<Rightarrow> None)"

definition read_separator :: "nat \<Rightarrow> nat \<Rightarrow> 'a parser \<Rightarrow> 'a parser" where
  "read_separator sep index inner s =
    (if 0 < index
     then case read_given_char sep s of Some (_, rest) \<Rightarrow> inner rest | None \<Rightarrow> None
     else inner s)"

fun read_octets :: "nat \<Rightarrow> nat \<Rightarrow> bytes parser" where
  "read_octets 0 i s = Some ([], s)"
| "read_octets (Suc n) i s =
    (case read_separator 46 i (read_number 10 (Some 3) False 256) s of
      Some (b, rest) \<Rightarrow>
        (case read_octets n (Suc i) rest of
          Some (bs, rest) \<Rightarrow> Some (of_nat b # bs, rest)
        | None \<Rightarrow> None)
    | None \<Rightarrow> None)"

definition read_ipv4_addr :: "bytes parser" where
  "read_ipv4_addr s = read_octets 4 0 s"

text \<open>\<open>read_groups\<close>: the groups read, whether the last two came from an embedded IPv4
  address, and the rest. \<open>left\<close> counts the slots still free.\<close>

fun read_groups :: "nat \<Rightarrow> nat \<Rightarrow> rstring \<Rightarrow> u16 list \<times> bool \<times> rstring" where
  "read_groups 0 i s = ([], False, s)"
| "read_groups (Suc left) i s =
    (case (if 0 < left then read_separator 58 i read_ipv4_addr s else None) of
      Some (v4, rest) \<Rightarrow> ([u16_of_be (take 2 v4), u16_of_be (drop 2 v4)], True, rest)
    | None \<Rightarrow>
        (case read_separator 58 i (read_number 16 (Some 4) True 65536) s of
          Some (g, rest) \<Rightarrow>
            (let (gs, v4, rest) = read_groups left (Suc i) rest in (of_nat g # gs, v4, rest))
        | None \<Rightarrow> ([], False, s)))"

definition read_ipv6_addr :: "u16 list parser" where
  "read_ipv6_addr s =
    (let (head, head_v4, rest) = read_groups 8 0 s
     in if length head = 8 then Some (head, rest)
        else if head_v4 then None
        else case rest of
          a # b # rest \<Rightarrow>
            if a = 58 \<and> b = 58
            then (let (tail, _, rest) = read_groups (8 - (length head + 1)) 0 rest
                  in Some (head @ replicate (8 - length head - length tail) 0 @ tail, rest))
            else None
        | _ \<Rightarrow> None)"

text \<open>\<open>parse_with\<close>: the parser has to consume the whole text.\<close>

definition parse_with :: "'a parser \<Rightarrow> rstring \<Rightarrow> 'a option" where
  "parse_with p s = (case p s of Some (a, []) \<Rightarrow> Some a | _ \<Rightarrow> None)"

definition parse_ipv4 :: "rstring \<Rightarrow> bytes option" where
  "parse_ipv4 s = (if 15 < length (utf8 s) then None else parse_with read_ipv4_addr s)"

definition parse_ipv6 :: "rstring \<Rightarrow> u16 list option" where
  "parse_ipv6 s = parse_with read_ipv6_addr s"

definition read_port :: "u16 parser" where
  "read_port s =
    (case read_given_char 58 s of
      Some (_, rest) \<Rightarrow>
        (case read_number 10 None True 65536 rest of
          Some (n, rest) \<Rightarrow> Some (of_nat n, rest)
        | None \<Rightarrow> None)
    | None \<Rightarrow> None)"

definition read_scope_id :: "u32 parser" where
  "read_scope_id s =
    (case read_given_char 37 s of
      Some (_, rest) \<Rightarrow>
        (case read_number 10 None True 4294967296 rest of
          Some (n, rest) \<Rightarrow> Some (of_nat n, rest)
        | None \<Rightarrow> None)
    | None \<Rightarrow> None)"

definition read_socket_addr_v4 :: "socket_addr parser" where
  "read_socket_addr_v4 s =
    (case read_ipv4_addr s of
      Some (ip, rest) \<Rightarrow>
        (case read_port rest of
          Some (port, rest) \<Rightarrow> Some (socket_addr_new (IpV4 ip) port, rest)
        | None \<Rightarrow> None)
    | None \<Rightarrow> None)"

definition read_socket_addr_v6 :: "socket_addr parser" where
  "read_socket_addr_v6 s =
    (case read_given_char 91 s of
      None \<Rightarrow> None
    | Some (_, s) \<Rightarrow>
        (case read_ipv6_addr s of
          None \<Rightarrow> None
        | Some (ip, s) \<Rightarrow>
            (let (scope, s) = (case read_scope_id s of Some (n, rest) \<Rightarrow> (n, rest) | None \<Rightarrow> (0, s))
             in case read_given_char 93 s of
               None \<Rightarrow> None
             | Some (_, s) \<Rightarrow>
                 (case read_port s of
                   None \<Rightarrow> None
                 | Some (port, s) \<Rightarrow>
                     Some (\<lparr>sock_ip = IpV6 ip, sock_port = port, sock_flow = 0, sock_scope = scope\<rparr>, s)))))"

definition parse_socket_addr :: "rstring \<Rightarrow> socket_addr option" where
  "parse_socket_addr s =
    parse_with (\<lambda>s. case read_socket_addr_v4 s of Some r \<Rightarrow> Some r | None \<Rightarrow> read_socket_addr_v6 s) s"

text \<open>\<open>str::parse::<u16>\<close>: a leading \<open>+\<close> is accepted.\<close>

definition parse_u16 :: "rstring \<Rightarrow> u16 option" where
  "parse_u16 s =
    (let ds = (case s of c # rest \<Rightarrow> if c = 43 then rest else s | [] \<Rightarrow> s)
     in case take_digits 10 ds of
       (n # ns, []) \<Rightarrow>
         if digits_value 10 (n # ns) < 65536 then Some (of_nat (digits_value 10 (n # ns))) else None
     | _ \<Rightarrow> None)"

section \<open>Facts\<close>

lemma read_octets_length: "read_octets n i s = Some (bs, rest) \<Longrightarrow> length bs = n"
  by (induction n arbitrary: i s bs rest) (auto split: option.splits)

lemma parse_ipv4_length: "parse_ipv4 s = Some bs \<Longrightarrow> length bs = 4"
  by (auto simp: parse_ipv4_def parse_with_def read_ipv4_addr_def split: if_splits option.splits list.splits
      dest: read_octets_length)

lemma read_groups_length: "read_groups n i s = (gs, v4, rest) \<Longrightarrow> length gs \<le> n"
proof (induction n arbitrary: i s gs v4 rest)
  case (Suc n)
  then show ?case
    by (cases n) (fastforce split: option.splits prod.splits if_splits)+
qed simp

lemma read_ipv6_length: "read_ipv6_addr s = Some (gs, rest) \<Longrightarrow> length gs = 8"
  by (auto simp: read_ipv6_addr_def Let_def split: prod.splits if_splits list.splits dest!: read_groups_length)

lemma parse_ipv6_length: "parse_ipv6 s = Some gs \<Longrightarrow> length gs = 8"
  by (auto simp: parse_ipv6_def parse_with_def split: option.splits list.splits dest: read_ipv6_length)

end
