(* ===== verification/Peers.thy ===== *)
theory Peers
  imports Net
begin

text \<open>
  \<open>binda/src/peers.rs\<close>: the list of peer addresses. \<open>choose\<close> picks an index below the length with
  the random generator: \<open>pick\<close> maps a bound to an index, and is the generator's.
\<close>

record peer_book =
  book_peers :: "socket_addr list"

definition peers_new :: "socket_addr list \<Rightarrow> peer_book" where
  "peers_new initial = \<lparr>book_peers = initial\<rparr>"

definition random_peer :: "(nat \<Rightarrow> nat) \<Rightarrow> peer_book \<Rightarrow> socket_addr option" where
  "random_peer pick book =
    (let peers = book_peers book
     in if peers = [] then None else Some (peers ! (pick (length peers) mod length peers)))"

definition learn :: "socket_addr \<Rightarrow> peer_book \<Rightarrow> peer_book" where
  "learn addr book =
    (if \<not> List.member (book_peers book) addr then book\<lparr>book_peers := book_peers book @ [addr]\<rparr> else book)"

definition snapshot :: "peer_book \<Rightarrow> socket_addr list" where
  "snapshot book = book_peers book"

section \<open>Facts\<close>

lemma random_peer_known: "random_peer pick book = Some addr \<Longrightarrow> addr \<in> set (snapshot book)"
  by (auto simp: random_peer_def snapshot_def Let_def split: if_splits)

lemma random_peer_None: "random_peer pick book = None \<longleftrightarrow> snapshot book = []"
  by (simp add: random_peer_def snapshot_def Let_def)

lemma learn_set: "set (snapshot (learn addr book)) = insert addr (set (snapshot book))"
  by (auto simp: learn_def snapshot_def)

lemma learn_distinct: "distinct (snapshot book) \<Longrightarrow> distinct (snapshot (learn addr book))"
  by (auto simp: learn_def snapshot_def)

lemma learn_fresh: "addr \<notin> set (snapshot book) \<Longrightarrow> length (snapshot (learn addr book)) = Suc (length (snapshot book))"
  by (auto simp: learn_def snapshot_def)

end
