(* ===== verification/Dns.thy ===== *)
theory Dns
  imports Net Zone
begin

text \<open>
  \<open>binda-core/src/dns.rs\<close>: the lookup protocol. Messages are byte lists; the parser keeps the
  source's positions into the message. \<open>usize\<close> positions are natural numbers: a label is shorter
  than \<open>2 ^ 32\<close> bytes, so no position overflows 64 bits.
\<close>

definition type_a :: u16 where "type_a = 1"
definition type_ns :: u16 where "type_ns = 2"
definition type_cname :: u16 where "type_cname = 5"
definition type_mx :: u16 where "type_mx = 15"
definition type_txt :: u16 where "type_txt = 16"
definition type_aaaa :: u16 where "type_aaaa = 28"
definition qtype_any :: u16 where "qtype_any = 255"
definition class_in :: u16 where "class_in = 1"
definition rcode_nxdomain :: u16 where "rcode_nxdomain = 3"
definition rcode_formerr :: u16 where "rcode_formerr = 1"
definition rcode_format_error :: u16 where "rcode_format_error = rcode_formerr"

datatype dns_error =
  TooShort | UnsupportedQuestionCount | MalformedLabel | InvalidUtf8 | InvalidDomain domain_name_error

text \<open>\<open>to_string\<close>, as the \<open>thiserror\<close> attributes spell it.\<close>

fun dns_error_text :: "dns_error \<Rightarrow> rstring" where
  "dns_error_text TooShort = lit ''message shorter than a header''"
| "dns_error_text UnsupportedQuestionCount = lit ''message does not contain exactly one question''"
| "dns_error_text MalformedLabel = lit ''malformed domain name label in message''"
| "dns_error_text InvalidUtf8 = lit ''label is not valid UTF-8''"
| "dns_error_text (InvalidDomain e) = lit ''decoded domain name is invalid: '' @ domain_name_error_text e"

record dns_query =
  dq_id :: u16
  dq_domain :: domain_name
  dq_qtype :: u16
  dq_qclass :: u16

fun record_type_code :: "record_type \<Rightarrow> u16" where
  "record_type_code RecA = type_a"
| "record_type_code RecAaaa = type_aaaa"
| "record_type_code RecCname = type_cname"
| "record_type_code RecMx = type_mx"
| "record_type_code RecTxt = type_txt"
| "record_type_code RecNs = type_ns"

definition read_u16 :: "bytes \<Rightarrow> nat \<Rightarrow> dns_error + u16" where
  "read_u16 bs pos = (case get_range bs pos 2 of Some b \<Rightarrow> Inr (u16_of_be b) | None \<Rightarrow> Inl MalformedLabel)"

definition read_u32 :: "bytes \<Rightarrow> nat \<Rightarrow> dns_error + u32" where
  "read_u32 bs pos = (case get_range bs pos 4 of Some b \<Rightarrow> Inr (u32_of_be b) | None \<Rightarrow> Inl MalformedLabel)"

section \<open>Parsing a query\<close>

text \<open>The loop of \<open>parse_query\<close> over the labels: the labels and the position after the
  terminator.\<close>

function parse_labels :: "bytes \<Rightarrow> nat \<Rightarrow> dns_error + (rstring list \<times> nat)" where
  "parse_labels bs pos =
    (case read_u32 bs pos of
      Inl e \<Rightarrow> Inl e
    | Inr n \<Rightarrow>
        let len = unat n; pos' = pos + 4
        in if len = 0 then Inr ([], pos')
           else case get_range bs pos' len of
             None \<Rightarrow> Inl MalformedLabel
           | Some label_bytes \<Rightarrow>
               (case from_utf8 label_bytes of
                 None \<Rightarrow> Inl InvalidUtf8
               | Some label \<Rightarrow>
                   (case parse_labels bs (pos' + len) of
                     Inl e \<Rightarrow> Inl e
                   | Inr (ls, end_pos) \<Rightarrow> Inr (label # ls, end_pos))))"
  by auto
termination
  by (relation "measure (\<lambda>(bs, pos). length bs - pos)")
    (auto simp: read_u32_def get_range_def split: option.splits if_splits)

declare parse_labels.simps [simp del]

definition parse_query :: "bytes \<Rightarrow> dns_error + dns_query" where
  "parse_query bs =
    (if length bs < 12 then Inl TooShort
     else
       let query_id = u16_of_be [bs ! 0, bs ! 1];
           qdcount = u16_of_be [bs ! 4, bs ! 5]
       in if qdcount \<noteq> 1 then Inl UnsupportedQuestionCount
          else case parse_labels bs 12 of
            Inl e \<Rightarrow> Inl e
          | Inr (ls, pos) \<Rightarrow>
              (case read_u16 bs pos of
                Inl e \<Rightarrow> Inl e
              | Inr qtype \<Rightarrow>
                  (case read_u16 bs (pos + 2) of
                    Inl e \<Rightarrow> Inl e
                  | Inr qclass \<Rightarrow>
                      (case domain_new (join_with dot ls) of
                        Inl e \<Rightarrow> Inl (InvalidDomain e)
                      | Inr d \<Rightarrow>
                          Inr \<lparr>dq_id = query_id, dq_domain = d, dq_qtype = qtype, dq_qclass = qclass\<rparr>))))"

section \<open>Building a response\<close>

definition encode_label :: "rstring \<Rightarrow> bytes" where
  "encode_label label = u32_be (of_nat (length (utf8 label))) @ utf8 label"

definition encode_domain_labels :: "domain_name \<Rightarrow> bytes" where
  "encode_domain_labels d = concat (map encode_label (labels d)) @ u32_be 0"

text \<open>\<open>split_once(' ')\<close>.\<close>

fun split_once_space :: "rstring \<Rightarrow> (rstring \<times> rstring) option" where
  "split_once_space [] = None"
| "split_once_space (c # s) =
    (if c = 32 then Some ([], s)
     else case split_once_space s of Some (p, e) \<Rightarrow> Some (c # p, e) | None \<Rightarrow> None)"

text \<open>\<open>chunks(255)\<close>, and the loop that prefixes each chunk with its length.\<close>

function encode_txt :: "bytes \<Rightarrow> bytes" where
  "encode_txt bs =
    (if bs = [] then []
     else of_nat (length (take 255 bs)) # take 255 bs @ encode_txt (drop 255 bs))"
  by auto
termination by (relation "measure length") auto

declare encode_txt.simps [simp del]

definition encode_rdata :: "zone_record \<Rightarrow> dns_error + bytes" where
  "encode_rdata r =
    (case record_type_of r of
      RecA \<Rightarrow> (case parse_ipv4 (record_value r) of Some b \<Rightarrow> Inr b | None \<Rightarrow> Inl MalformedLabel)
    | RecAaaa \<Rightarrow>
        (case parse_ipv6 (record_value r) of
          Some gs \<Rightarrow> Inr (concat (map u16_be gs))
        | None \<Rightarrow> Inl MalformedLabel)
    | RecMx \<Rightarrow>
        (let (preference, exchange) =
           (case split_once_space (record_value r) of
             Some (p, e) \<Rightarrow> (case parse_u16 p of Some n \<Rightarrow> (n, e) | None \<Rightarrow> (0, record_value r))
           | None \<Rightarrow> (0, record_value r))
         in case domain_new exchange of
           Inl e \<Rightarrow> Inl (InvalidDomain e)
         | Inr target \<Rightarrow> Inr (u16_be preference @ encode_domain_labels target))
    | RecTxt \<Rightarrow> Inr (encode_txt (utf8 (record_value r)))
    | _ \<Rightarrow>
        (case domain_new (record_value r) of
          Inl e \<Rightarrow> Inl (InvalidDomain e)
        | Inr target \<Rightarrow> Inr (encode_domain_labels target)))"

definition encode_answer :: "domain_name \<Rightarrow> zone_record \<Rightarrow> bytes \<Rightarrow> bytes" where
  "encode_answer d r rdata =
    encode_domain_labels d @ u16_be (record_type_code (record_type_of r)) @ u16_be class_in @
    u32_be (ttl_secs r) @ u32_be (of_nat (length rdata)) @ rdata"

text \<open>The loop over \<open>matching\<close>: records whose data does not encode are skipped.\<close>

fun encode_answers :: "domain_name \<Rightarrow> zone_record list \<Rightarrow> bytes list" where
  "encode_answers d [] = []"
| "encode_answers d (r # rs) =
    (case encode_rdata r of
      Inl _ \<Rightarrow> encode_answers d rs
    | Inr rdata \<Rightarrow> encode_answer d r rdata # encode_answers d rs)"

definition build_response :: "dns_query \<Rightarrow> bool \<Rightarrow> zone_record list \<Rightarrow> bytes" where
  "build_response query domain_exists matching =
    (let rcode = (if domain_exists then 0 else rcode_nxdomain);
         answers = encode_answers (dq_domain query) matching
     in u16_be (dq_id query) @ u16_be (0x8400 OR rcode) @
        u16_be 1 @ u16_be (of_nat (length answers)) @ u16_be 0 @ u16_be 0 @
        encode_domain_labels (dq_domain query) @ u16_be (dq_qtype query) @ u16_be (dq_qclass query) @
        concat answers)"

definition build_error_response :: "u16 \<Rightarrow> u16 \<Rightarrow> bytes" where
  "build_error_response query_id rcode = u16_be query_id @ u16_be (0x8000 OR rcode) @ replicate 8 0"

definition record_matches_qtype :: "zone_record \<Rightarrow> u16 \<Rightarrow> bool" where
  "record_matches_qtype r qtype \<longleftrightarrow> qtype = qtype_any \<or> record_type_code (record_type_of r) = qtype"

section \<open>Reading back what was written\<close>

lemma read_u32_append [simp]: "read_u32 (pre @ u32_be w @ rest) (length pre) = Inr w"
  using get_range_append [of pre "u32_be w" rest] by (simp add: read_u32_def)

lemma read_u16_append [simp]: "read_u16 (pre @ u16_be w @ rest) (length pre) = Inr w"
  using get_range_append [of pre "u16_be w" rest] by (simp add: read_u16_def)

lemma read_u16_at: "length pre = n \<Longrightarrow> read_u16 (pre @ u16_be w @ rest) n = Inr w"
  by auto

definition encode_labels :: "rstring list \<Rightarrow> bytes" where
  "encode_labels ls = concat (map encode_label ls) @ u32_be 0"

definition decode_labels :: "bytes \<Rightarrow> (rstring list \<times> bytes) option" where
  "decode_labels bs =
    (case parse_labels bs 0 of Inr (ls, pos) \<Rightarrow> Some (ls, drop pos bs) | Inl _ \<Rightarrow> None)"

definition label_ok :: "rstring \<Rightarrow> bool" where
  "label_ok l \<longleftrightarrow> l \<noteq> [] \<and> valid_str l \<and> length (utf8 l) < 2 ^ 32"

lemma parse_labels_step:
  assumes "label_ok l"
  shows "parse_labels (pre @ encode_label l @ rest) (length pre) =
    (case parse_labels (pre @ encode_label l @ rest) (length pre + length (encode_label l)) of
      Inl e \<Rightarrow> Inl e | Inr (ls, p) \<Rightarrow> Inr (l # ls, p))"
proof -
  let ?n = "length (utf8 l)"
  let ?bs = "pre @ encode_label l @ rest"
  have n: "unat (of_nat ?n :: u32) = ?n" "?n \<noteq> 0"
    using assms by (simp_all add: label_ok_def unat_of_nat)
  have "read_u32 ?bs (length pre) = Inr (of_nat ?n)"
    using read_u32_append [of pre "of_nat ?n" "utf8 l @ rest"] by (simp add: encode_label_def)
  moreover have "get_range ?bs (length pre + 4) ?n = Some (utf8 l)"
    using get_range_append [of "pre @ u32_be (of_nat ?n)" "utf8 l" rest] by (simp add: encode_label_def)
  moreover have "from_utf8 (utf8 l) = Some l" using assms by (simp add: label_ok_def)
  moreover have "length (encode_label l) = 4 + ?n" by (simp add: encode_label_def)
  ultimately show ?thesis
    using n by (subst parse_labels.simps) (simp add: Let_def add.assoc)
qed

lemma parse_labels_encode:
  "\<forall>l\<in>set ls. label_ok l \<Longrightarrow>
    parse_labels (pre @ encode_labels ls @ rest) (length pre) = Inr (ls, length pre + length (encode_labels ls))"
proof (induction ls arbitrary: pre)
  case Nil
  have "read_u32 (pre @ u32_be 0 @ rest) (length pre) = Inr 0" by simp
  then show ?case by (subst parse_labels.simps) (simp add: encode_labels_def Let_def)
next
  case (Cons l ls)
  have assoc: "pre @ encode_labels (l # ls) @ rest = pre @ encode_label l @ encode_labels ls @ rest"
    by (simp add: encode_labels_def)
  have "parse_labels ((pre @ encode_label l) @ encode_labels ls @ rest) (length (pre @ encode_label l))
      = Inr (ls, length (pre @ encode_label l) + length (encode_labels ls))"
    using Cons.IH [of "pre @ encode_label l"] Cons.prems by simp
  then show ?case
    using Cons.prems parse_labels_step [of l pre "encode_labels ls @ rest"]
    unfolding assoc by (simp add: encode_labels_def)
qed

interpretation dns_name: prefix_codec encode_labels decode_labels "list_all label_ok"
proof unfold_locales
  fix ls rest
  assume "list_all label_ok ls"
  then have "parse_labels ([] @ encode_labels ls @ rest) (length ([] :: bytes))
      = Inr (ls, length ([] :: bytes) + length (encode_labels ls))"
    by (intro parse_labels_encode) (simp add: list_all_iff)
  then show "decode_labels (encode_labels ls @ rest) = Some (ls, rest)"
    by (simp add: decode_labels_def)
qed

text \<open>A domain whose labels fit their length field.\<close>

definition wire_domain :: "domain_name \<Rightarrow> bool" where
  "wire_domain d \<longleftrightarrow> valid_domain d \<and> list_all (\<lambda>l. length (utf8 l) < 2 ^ 32) (labels d)"

lemma wire_domain_labels: "wire_domain d \<Longrightarrow> list_all label_ok (labels d)"
  using valid_domain_labels by (auto simp: wire_domain_def label_ok_def list_all_iff)

lemma encode_domain_labels_eq: "encode_domain_labels d = encode_labels (labels d)"
  by (simp add: encode_domain_labels_def encode_labels_def)

section \<open>Queries\<close>

text \<open>The message of a client: header with one question, the question.\<close>

definition native_query :: "dns_query \<Rightarrow> bytes" where
  "native_query q = u16_be (dq_id q) @ u16_be 0 @ u16_be 1 @ u16_be 0 @ u16_be 0 @ u16_be 0 @
    encode_domain_labels (dq_domain q) @ u16_be (dq_qtype q) @ u16_be (dq_qclass q)"

lemma u16_of_be_pair: "u16_of_be [u16_be w ! 0, u16_be w ! Suc 0] = w"
proof -
  have "u16_be w = [u16_be w ! 0, u16_be w ! Suc 0]"
    by (rule nth_equalityI) (auto simp: less_Suc_eq numeral_2_eq_2)
  then show ?thesis by (metis u16_of_be_u16_be)
qed

lemma parse_query_shape:
  assumes "wire_domain d" "length mid = 2" "length counts = 6"
  shows "parse_query (u16_be i @ mid @ u16_be 1 @ counts @
      encode_domain_labels d @ u16_be t @ u16_be c @ rest)
    = Inr \<lparr>dq_id = i, dq_domain = d, dq_qtype = t, dq_qclass = c\<rparr>"
proof -
  let ?header = "u16_be i @ mid @ u16_be 1 @ counts"
  let ?bs = "u16_be i @ mid @ u16_be 1 @ counts @ encode_domain_labels d @ u16_be t @ u16_be c @ rest"
  have header: "length ?header = 12" using assms(2,3) by simp
  have ids: "?bs ! 0 = u16_be i ! 0" "?bs ! 1 = u16_be i ! 1" "?bs ! 4 = u16_be 1 ! 0" "?bs ! 5 = u16_be 1 ! 1"
    using assms(2) by (simp_all add: nth_append)
  have labels: "parse_labels ?bs 12 = Inr (labels d, 12 + length (encode_domain_labels d))"
    using parse_labels_encode [of "labels d" ?header "u16_be t @ u16_be c @ rest"] wire_domain_labels [OF assms(1)]
    unfolding header encode_domain_labels_eq by (simp add: list_all_iff)
  have t: "read_u16 ?bs (12 + length (encode_domain_labels d)) = Inr t"
    using read_u16_at [of "?header @ encode_domain_labels d" "12 + length (encode_domain_labels d)" t "u16_be c @ rest"]
      header by (simp only: append_assoc length_append)
  have c: "read_u16 ?bs (14 + length (encode_domain_labels d)) = Inr c"
    using read_u16_at [of "?header @ encode_domain_labels d @ u16_be t" "14 + length (encode_domain_labels d)" c rest]
      header by (simp only: append_assoc length_append length_u_be)
  have d: "domain_new (as_str d) = Inr d" using assms(1) by (simp add: wire_domain_def valid_domain_def)
  have "\<not> length ?bs < 12" using header by simp
  moreover have "u16_of_be [?bs ! 0, ?bs ! 1] = i" "u16_of_be [?bs ! 4, ?bs ! 5] = 1"
    unfolding ids using u16_of_be_pair by simp_all
  ultimately show ?thesis
    unfolding parse_query_def Let_def labels by (simp add: labels t c d)
qed

lemma parse_native_query: "wire_domain (dq_domain q) \<Longrightarrow> parse_query (native_query q @ rest) = Inr q"
  using parse_query_shape [of "dq_domain q" "u16_be 0" "u16_be 0 @ u16_be 0 @ u16_be 0" "dq_id q" "dq_qtype q" "dq_qclass q" rest]
  by (simp add: native_query_def)

lemma parse_build_response:
  "wire_domain (dq_domain q) \<Longrightarrow> parse_query (build_response q domain_exists recs) = Inr q"
  using parse_query_shape [of "dq_domain q" "u16_be (0x8400 OR (if domain_exists then 0 else rcode_nxdomain))"
      "u16_be (of_nat (length (encode_answers (dq_domain q) recs))) @ u16_be 0 @ u16_be 0"
      "dq_id q" "dq_qtype q" "dq_qclass q" "concat (encode_answers (dq_domain q) recs)"]
  by (simp add: build_response_def Let_def)

section \<open>What the parser accepts\<close>

lemma u32_be_of_be: "length bs = 4 \<Longrightarrow> u32_be (u32_of_be bs) = bs"
  using be_bytes_be_value [of bs] be_value_less [of bs] by (simp add: u32_be_def u32_of_be_def unat_of_nat)

lemma read_u32_Inr: "read_u32 bs pos = Inr w \<Longrightarrow> pos + 4 \<le> length bs \<and> drop pos bs = u32_be w @ drop (pos + 4) bs"
  by (auto simp: read_u32_def u32_be_of_be split: option.splits dest!: get_range_Some)

lemma parse_labels_sound:
  "parse_labels bs pos = Inr (ls, p) \<Longrightarrow>
    list_all label_ok ls \<and> p \<le> length bs \<and> drop pos bs = encode_labels ls @ drop p bs"
proof (induction bs pos arbitrary: ls p rule: parse_labels.induct)
  case (1 bs pos)
  from "1.prems" obtain n where n: "read_u32 bs pos = Inr n"
    by (subst (asm) parse_labels.simps) (auto split: sum.splits)
  note head = read_u32_Inr [OF n]
  show ?case
  proof (cases "unat n = 0")
    case True
    then have "n = 0" by (simp add: word_unat_eq_iff)
    with "1.prems" n head show ?thesis
      by (subst (asm) parse_labels.simps) (auto simp: encode_labels_def)
  next
    case False
    with "1.prems" n obtain lb l ls' where lb: "get_range bs (pos + 4) (unat n) = Some lb"
      and l: "from_utf8 lb = Some l" and rec: "parse_labels bs (pos + 4 + unat n) = Inr (ls', p)" and ls: "ls = l # ls'"
      by (subst (asm) parse_labels.simps) (auto simp: Let_def split: option.splits sum.splits)
    note body = get_range_Some [OF lb] and str = from_utf8_Some [OF l]
    have ih: "list_all label_ok ls' \<and> p \<le> length bs \<and> drop (pos + 4 + unat n) bs = encode_labels ls' @ drop p bs"
      using "1.IH" [OF n refl refl False lb l] rec by blast
    have len: "length (utf8 l) = unat n" "unat n < 2 ^ 32" using body str unat_lt_pow [of n] by auto
    then have "u32_be n @ lb = encode_label l" using str by (simp add: encode_label_def)
    moreover have "label_ok l" using len False str by (auto simp: label_ok_def)
    ultimately show ?thesis using head body ih ls by (simp add: encode_labels_def)
  qed
qed

lemma domain_new_sound: "valid_str s \<Longrightarrow> domain_new s = Inr d \<Longrightarrow> valid_domain d"
  by (auto simp: valid_domain_def domain_new_Inr)

lemma valid_str_append: "valid_str (a @ b) \<longleftrightarrow> valid_str a \<and> valid_str b"
  by (auto simp: valid_str_def)

lemma join_valid: "\<forall>l\<in>set ls. valid_str l \<Longrightarrow> valid_str (join_with dot ls)"
proof (induction ls)
  case (Cons l ls)
  then show ?case by (cases ls) (auto simp: valid_str_append valid_str_def scalar_def)
qed simp

lemma parse_query_Inr:
  assumes "parse_query bs = Inr q"
  shows "valid_domain (dq_domain q)"
    and "\<exists>ls rest. list_all label_ok ls \<and> as_str (dq_domain q) = join_with dot ls \<and>
      drop 12 bs = encode_labels ls @ rest"
proof -
  from assms obtain ls p where ls: "parse_labels bs 12 = Inr (ls, p)"
    and d: "domain_new (join_with dot ls) = Inr (dq_domain q)"
    by (auto simp: parse_query_def Let_def split: if_splits sum.splits)
  from parse_labels_sound [OF ls] have ok: "list_all label_ok ls" "drop 12 bs = encode_labels ls @ drop p bs" by auto
  then have "valid_str (join_with dot ls)" by (intro join_valid) (auto simp: list_all_iff label_ok_def)
  with d show "valid_domain (dq_domain q)" by (rule domain_new_sound [rotated])
  have "as_str (dq_domain q) = join_with dot ls" using d by (auto simp: domain_new_Inr)
  with ok show "\<exists>ls rest. list_all label_ok ls \<and> as_str (dq_domain q) = join_with dot ls \<and>
      drop 12 bs = encode_labels ls @ rest" by blast
qed

section \<open>Reading a response\<close>

text \<open>A reading of the answer section, written from the layout alone: name, type, class, TTL,
  four bytes of length, data.\<close>

type_synonym answer = "rstring list \<times> u16 \<times> u16 \<times> u32 \<times> bytes"

fun answer_bytes :: "answer \<Rightarrow> bytes" where
  "answer_bytes (ls, t, c, ttl, rdata) =
    encode_labels ls @ u16_be t @ u16_be c @ u32_be ttl @ u32_be (of_nat (length rdata)) @ rdata"

definition read_answer :: "bytes \<Rightarrow> (answer \<times> bytes) option" where
  "read_answer bs =
    (case decode_labels bs of
      None \<Rightarrow> None
    | Some (ls, r) \<Rightarrow>
        let n = unat (u32_of_be (take 4 (drop 8 r)))
        in if length r < 12 + n then None
           else Some ((ls, u16_of_be (take 2 r), u16_of_be (take 2 (drop 2 r)),
             u32_of_be (take 4 (drop 4 r)), take n (drop 12 r)), drop (12 + n) r))"

fun answer_ok :: "answer \<Rightarrow> bool" where
  "answer_ok (ls, t, c, ttl, rdata) \<longleftrightarrow> list_all label_ok ls \<and> length rdata < 2 ^ 32"

lemma read_answer_bytes: "answer_ok a \<Longrightarrow> read_answer (answer_bytes a @ rest) = Some (a, rest)"
proof -
  obtain ls t c ttl rdata where a: "a = (ls, t, c, ttl, rdata)" by (cases a)
  let ?n = "length rdata"
  let ?r = "u16_be t @ u16_be c @ u32_be ttl @ u32_be (of_nat ?n) @ rdata @ rest"
  assume ok: "answer_ok a"
  have "answer_bytes a @ rest = encode_labels ls @ ?r" by (simp add: a)
  then have labels: "decode_labels (answer_bytes a @ rest) = Some (ls, ?r)"
    using dns_name.dec_enc [of ls ?r] ok by (simp add: a)
  have n: "unat (of_nat ?n :: u32) = ?n" using ok by (simp add: a unat_of_nat)
  show ?thesis unfolding read_answer_def labels using n by (simp add: a Let_def)
qed

interpretation dns_answer: prefix_codec answer_bytes read_answer answer_ok
  by unfold_locales (rule read_answer_bytes)

fun read_answers :: "nat \<Rightarrow> bytes \<Rightarrow> answer list option" where
  "read_answers 0 bs = (if bs = [] then Some [] else None)"
| "read_answers (Suc n) bs =
    (case read_answer bs of None \<Rightarrow> None | Some (a, rest) \<Rightarrow> map_option ((#) a) (read_answers n rest))"

lemma read_answers_concat:
  "\<forall>a\<in>set as. answer_ok a \<Longrightarrow> read_answers (length as) (concat (map answer_bytes as)) = Some as"
  by (induction as) (simp_all add: read_answer_bytes)

definition read_response :: "bytes \<Rightarrow> answer list option" where
  "read_response bs =
    (case parse_labels bs 12 of
      Inl _ \<Rightarrow> None
    | Inr (ls, pos) \<Rightarrow> read_answers (unat (u16_of_be (take 2 (drop 6 bs)))) (drop (pos + 4) bs))"

text \<open>The answers a response should carry.\<close>

fun answers_of :: "domain_name \<Rightarrow> zone_record list \<Rightarrow> answer list" where
  "answers_of d [] = []"
| "answers_of d (r # rs) =
    (case encode_rdata r of
      Inl _ \<Rightarrow> answers_of d rs
    | Inr rdata \<Rightarrow> (labels d, record_type_code (record_type_of r), class_in, ttl_secs r, rdata) # answers_of d rs)"

lemma encode_answers_eq: "encode_answers d rs = map answer_bytes (answers_of d rs)"
  by (induction rs) (auto simp: encode_answer_def encode_domain_labels_eq split: sum.splits)

lemma answers_of_ok:
  assumes "wire_domain d" "list_all (\<lambda>r. case encode_rdata r of Inr rdata \<Rightarrow> length rdata < 2 ^ 32 | Inl _ \<Rightarrow> True) rs"
  shows "\<forall>a\<in>set (answers_of d rs). answer_ok a"
  using assms(2) wire_domain_labels [OF assms(1)] by (induction rs) (auto split: sum.splits)

lemma ancount:
  "u16_of_be (take 2 (drop 6 (build_response q e rs))) = of_nat (length (answers_of (dq_domain q) rs))"
  by (simp add: build_response_def Let_def encode_answers_eq)

lemma read_build_response:
  assumes d: "wire_domain (dq_domain q)" and few: "length (answers_of (dq_domain q) rs) < 65536"
    and "list_all (\<lambda>r. case encode_rdata r of Inr rdata \<Rightarrow> length rdata < 2 ^ 32 | Inl _ \<Rightarrow> True) rs"
  shows "read_response (build_response q e rs) = Some (answers_of (dq_domain q) rs)"
proof -
  let ?as = "answers_of (dq_domain q) rs" and ?labels = "encode_domain_labels (dq_domain q)"
  let ?flags = "0x8400 OR (if e then 0 else rcode_nxdomain) :: u16"
  let ?header = "u16_be (dq_id q) @ u16_be ?flags @ u16_be 1 @ u16_be (of_nat (length ?as)) @ u16_be 0 @ u16_be 0"
  let ?types = "u16_be (dq_qtype q) @ u16_be (dq_qclass q)"
  have header: "length ?header = 12" by simp
  have bs: "build_response q e rs = ?header @ ?labels @ ?types @ concat (map answer_bytes ?as)"
    by (simp add: build_response_def Let_def encode_answers_eq)
  have labels: "parse_labels (build_response q e rs) 12 = Inr (labels (dq_domain q), 12 + length ?labels)"
    using parse_labels_encode [of "labels (dq_domain q)" ?header "?types @ concat (map answer_bytes ?as)"]
      wire_domain_labels [OF d]
    unfolding header encode_domain_labels_eq bs by (simp add: list_all_iff)
  have rest: "drop (16 + length ?labels) (build_response q e rs) = concat (map answer_bytes ?as)"
    unfolding bs by simp
  have "unat (of_nat (length ?as) :: u16) = length ?as" using few by (simp add: unat_of_nat)
  then show ?thesis
    unfolding read_response_def labels ancount using read_answers_concat [OF answers_of_ok [OF d assms(3)]]
    by (simp add: rest)
qed

section \<open>Text data\<close>

function read_txt :: "bytes \<Rightarrow> bytes option" where
  "read_txt [] = Some []"
| "read_txt (n # bs) =
    (if unat n \<le> length bs then map_option ((@) (take (unat n) bs)) (read_txt (drop (unat n) bs)) else None)"
  by pat_completeness auto
termination by (relation "measure length") auto

lemma read_encode_txt: "read_txt (encode_txt bs) = Some bs"
proof (induction bs rule: encode_txt.induct)
  case (1 bs)
  show ?case
  proof (cases "bs = []")
    case False
    have n: "unat (of_nat (length (take 255 bs)) :: u8) = length (take 255 bs)" by (simp add: unat_of_nat)
    have "take (min (length bs) 255) bs = take 255 bs" by (simp add: min_def)
    then show ?thesis
      using 1 [OF False] False n by (subst encode_txt.simps) simp
  qed (simp add: encode_txt.simps)
qed

text \<open>Every label of a domain that the parser accepts is a label of the message, but a label of the
  message may hold dots: the question a response echoes need not be the one that was asked.\<close>

definition dotted_question :: bytes where
  "dotted_question = u16_be 7 @ u16_be 0 @ u16_be 1 @ u16_be 0 @ u16_be 0 @ u16_be 0 @
    encode_labels [lit ''a.b''] @ u16_be 1 @ u16_be 1"

end
