(* ===== verification/Fcrdns.thy ===== *)
theory Fcrdns
  imports Net Domain
begin

text \<open>
  \<open>binda-core/src/fcrdns.rs\<close>: the check that a claimed host name is confirmed by the reverse and
  the forward lookup in the classic DNS. The network is an argument: what each exchange with a
  resolver returns, and the query identifiers drawn, by the path of calls that leads to them (as
  for the clock).
\<close>

definition default_resolvers :: "rstring list" where
  "default_resolvers = [lit ''1.1.1.1:53'', lit ''8.8.8.8:53'', lit ''9.9.9.9:53'']"

definition rr_a :: u16 where "rr_a = 1"
definition rr_ptr :: u16 where "rr_ptr = 12"
definition rr_aaaa :: u16 where "rr_aaaa = 28"
definition rr_class_in :: u16 where "rr_class_in = 1"

record dns_network =
  exchange :: "nat list \<Rightarrow> rstring \<Rightarrow> bytes \<Rightarrow> bytes option"
  drawn_id :: "nat list \<Rightarrow> u16"

definition net_call :: "nat \<Rightarrow> dns_network \<Rightarrow> dns_network" where
  "net_call i net =
    \<lparr>exchange = (\<lambda>path. exchange net (i # path)), drawn_id = (\<lambda>path. drawn_id net (i # path))\<rparr>"

section \<open>Messages\<close>

definition normalize_host :: "rstring \<Rightarrow> rstring" where
  "normalize_host hostname = to_ascii_lowercase (trim_end_matches dot hostname)"

definition ip_octets :: "ip_addr \<Rightarrow> bytes" where
  "ip_octets ip = (case ip of IpV4 o4 \<Rightarrow> o4 | IpV6 gs \<Rightarrow> concat (map u16_be gs))"

fun nibbles :: "bytes \<Rightarrow> rstring" where
  "nibbles [] = []"
| "nibbles (b # bs) =
    [hex_digit (unat (b AND 0x0F)), dot, hex_digit (unat (drop_bit 4 b)), dot] @ nibbles bs"

definition ptr_query_name :: "ip_addr \<Rightarrow> rstring" where
  "ptr_query_name ip =
    (case ip of
      IpV4 o4 \<Rightarrow>
        show_nat (unat (o4 ! 3)) @ [dot] @ show_nat (unat (o4 ! 2)) @ [dot] @
        show_nat (unat (o4 ! 1)) @ [dot] @ show_nat (unat (o4 ! 0)) @ lit ''.in-addr.arpa''
    | IpV6 gs \<Rightarrow> nibbles (rev (ip_octets (IpV6 gs))) @ lit ''ip6.arpa'')"

fun encode_query_labels :: "rstring list \<Rightarrow> bytes" where
  "encode_query_labels [] = []"
| "encode_query_labels (l # ls) =
    (if l = [] then encode_query_labels ls
     else of_nat (length (utf8 l)) # utf8 l @ encode_query_labels ls)"

definition encode_query :: "u16 \<Rightarrow> rstring \<Rightarrow> u16 \<Rightarrow> bytes" where
  "encode_query query_id name qtype =
    u16_be query_id @ u16_be 0x0100 @ u16_be 1 @ replicate 6 0 @
    encode_query_labels (split_on dot name) @ [0] @ u16_be qtype @ u16_be rr_class_in"

text \<open>The loop of \<open>read_name\<close>: the labels still to come and the end position. \<open>end_pos\<close> and
  \<open>jumps\<close> are the source's variables.\<close>

function read_labels :: "bytes \<Rightarrow> nat \<Rightarrow> nat \<Rightarrow> nat option \<Rightarrow> (rstring list \<times> nat) option" where
  "read_labels buf pos jumps end_pos =
    (if length buf \<le> pos then None
     else
       let len = buf ! pos
       in if len = 0 then Some ([], case end_pos of None \<Rightarrow> pos + 1 | Some e \<Rightarrow> e)
          else if len AND 0xC0 = 0xC0 then
            if length buf \<le> pos + 1 then None
            else
              let second = unat (buf ! (pos + 1));
                  end_pos' = Some (case end_pos of None \<Rightarrow> pos + 2 | Some e \<Rightarrow> e)
              in if 32 < jumps + 1 then None
                 else read_labels buf (unat (len AND 0x3F) * 256 + second) (jumps + 1) end_pos'
          else
            case get_range buf (pos + 1) (unat len) of
              None \<Rightarrow> None
            | Some label \<Rightarrow>
                (case read_labels buf (pos + 1 + unat len) jumps end_pos of
                  None \<Rightarrow> None
                | Some (ls, e) \<Rightarrow> Some (from_utf8_lossy label # ls, e)))"
  by auto
termination
  by (relation "measures [\<lambda>(buf, pos, jumps, end_pos). 32 - jumps, \<lambda>(buf, pos, jumps, end_pos). length buf - pos]")
    auto

declare read_labels.simps [simp del]

definition read_name :: "bytes \<Rightarrow> nat \<Rightarrow> (rstring \<times> nat) option" where
  "read_name buf start =
    (case read_labels buf start 0 None of None \<Rightarrow> None | Some (ls, e) \<Rightarrow> Some (join_with dot ls, e))"

section \<open>Responses\<close>

fun parse_questions :: "bytes \<Rightarrow> nat \<Rightarrow> nat \<Rightarrow> nat option" where
  "parse_questions buf 0 pos = Some pos"
| "parse_questions buf (Suc n) pos =
    (case read_name buf pos of None \<Rightarrow> None | Some (_, next) \<Rightarrow> parse_questions buf n (next + 4))"

definition parse_answer :: "bytes \<Rightarrow> nat \<Rightarrow> ((u16 \<times> bytes) \<times> nat) option" where
  "parse_answer buf pos =
    (case read_name buf pos of
      None \<Rightarrow> None
    | Some (_, pos) \<Rightarrow>
        (case get_range buf pos 2 of
          None \<Rightarrow> None
        | Some t \<Rightarrow>
            let rtype = u16_of_be t; pos = pos + 2 + 2 + 4
            in case get_range buf pos 2 of
              None \<Rightarrow> None
            | Some n \<Rightarrow>
                let rdlength = unat (u16_of_be n); rdata_start = pos + 2; pos = rdata_start + rdlength
                in if rtype = rr_ptr
                   then case read_name buf rdata_start of
                     None \<Rightarrow> None
                   | Some (name, _) \<Rightarrow> Some ((rtype, utf8 name), pos)
                   else case get_range buf rdata_start rdlength of
                     None \<Rightarrow> None
                   | Some data \<Rightarrow> Some ((rtype, data), pos)))"

fun parse_answers :: "bytes \<Rightarrow> nat \<Rightarrow> nat \<Rightarrow> (u16 \<times> bytes) list option" where
  "parse_answers buf 0 pos = Some []"
| "parse_answers buf (Suc n) pos =
    (case parse_answer buf pos of
      None \<Rightarrow> None
    | Some (a, pos) \<Rightarrow>
        (case parse_answers buf n pos of None \<Rightarrow> None | Some as \<Rightarrow> Some (a # as)))"

definition parse_response :: "bytes \<Rightarrow> u16 \<Rightarrow> (u16 \<times> bytes) list option" where
  "parse_response buf expected_id =
    (if length buf < 12 then None
     else if u16_of_be [buf ! 0, buf ! 1] \<noteq> expected_id then None
     else
       let flags = u16_of_be [buf ! 2, buf ! 3];
           qr = drop_bit 15 flags AND 1;
           rcode = flags AND 0x000F
       in if qr \<noteq> 1 \<or> rcode \<noteq> 0 then Some []
          else
            let qdcount = unat (u16_of_be [buf ! 4, buf ! 5]);
                ancount = unat (u16_of_be [buf ! 6, buf ! 7])
            in case parse_questions buf qdcount 12 of
              None \<Rightarrow> None
            | Some pos \<Rightarrow> parse_answers buf ancount pos)"

section \<open>Lookups\<close>

text \<open>\<open>send_and_receive\<close>: one datagram, of which the first 4096 bytes are received.\<close>

definition send_and_receive :: "dns_network \<Rightarrow> rstring \<Rightarrow> bytes \<Rightarrow> bytes option" where
  "send_and_receive net resolver request = map_option (take 4096) (exchange net [] resolver request)"

fun ask_resolvers ::
  "dns_network \<Rightarrow> nat \<Rightarrow> bytes \<Rightarrow> u16 \<Rightarrow> rstring list \<Rightarrow> (u16 \<times> bytes) list option" where
  "ask_resolvers net i request query_id [] = None"
| "ask_resolvers net i request query_id (resolver # resolvers) =
    (case send_and_receive (net_call i net) resolver request of
      Some response \<Rightarrow>
        (case parse_response response query_id of
          Some answers \<Rightarrow> Some answers
        | None \<Rightarrow> ask_resolvers net (Suc i) request query_id resolvers)
    | None \<Rightarrow> ask_resolvers net (Suc i) request query_id resolvers)"

definition dns_query_network ::
  "dns_network \<Rightarrow> rstring \<Rightarrow> u16 \<Rightarrow> rstring list \<Rightarrow> (u16 \<times> bytes) list option" where
  "dns_query_network net name qtype resolvers =
    (let query_id = drawn_id net []
     in ask_resolvers net 0 (encode_query query_id name qtype) query_id resolvers)"

definition reverse_lookup :: "dns_network \<Rightarrow> ip_addr \<Rightarrow> rstring list \<Rightarrow> rstring list option" where
  "reverse_lookup net ip resolvers =
    (case dns_query_network net (ptr_query_name ip) rr_ptr resolvers of
      None \<Rightarrow> None
    | Some response \<Rightarrow>
        Some (List.map_filter from_utf8
          (map snd (filter (\<lambda>a. fst a = rr_ptr) response))))"

definition parse_a :: "bytes \<Rightarrow> ip_addr option" where
  "parse_a data = (if length data = 4 then Some (IpV4 data) else None)"

fun u16_pairs :: "bytes \<Rightarrow> u16 list" where
  "u16_pairs (a # b # bs) = u16_of_be [a, b] # u16_pairs bs"
| "u16_pairs _ = []"

definition parse_aaaa :: "bytes \<Rightarrow> ip_addr option" where
  "parse_aaaa data = (if length data = 16 then Some (IpV6 (u16_pairs data)) else None)"

definition lookup_ips ::
  "dns_network \<Rightarrow> rstring \<Rightarrow> u16 \<Rightarrow> (bytes \<Rightarrow> ip_addr option) \<Rightarrow> rstring list \<Rightarrow> ip_addr list" where
  "lookup_ips net hostname qtype parse resolvers =
    (case dns_query_network net hostname qtype resolvers of
      None \<Rightarrow> []
    | Some response \<Rightarrow> List.map_filter parse (map snd (filter (\<lambda>a. fst a = qtype) response)))"

definition forward_lookup :: "dns_network \<Rightarrow> rstring \<Rightarrow> rstring list \<Rightarrow> ip_addr list option" where
  "forward_lookup net hostname resolvers =
    Some (lookup_ips (net_call 0 net) hostname rr_a parse_a resolvers @
          lookup_ips (net_call 1 net) hostname rr_aaaa parse_aaaa resolvers)"

definition is_forward_confirmed :: "dns_network \<Rightarrow> ip_addr \<Rightarrow> rstring \<Rightarrow> rstring list \<Rightarrow> bool" where
  "is_forward_confirmed net source_ip claimed_rdns resolvers =
    (let claimed = normalize_host claimed_rdns
     in case reverse_lookup (net_call 0 net) source_ip resolvers of
       None \<Rightarrow> False
     | Some ptr_names \<Rightarrow>
         if \<not> list_ex (\<lambda>name. normalize_host name = claimed) ptr_names then False
         else case forward_lookup (net_call 1 net) claimed_rdns resolvers of
           None \<Rightarrow> False
         | Some forward_ips \<Rightarrow> List.member forward_ips source_ip)"

text \<open>The two verifiers of the trait \<open>RdnsVerifier\<close>.\<close>

datatype rdns_verifier = FcrdnsVerifier | AllowAllVerifier

fun verify :: "dns_network \<Rightarrow> rdns_verifier \<Rightarrow> ip_addr \<Rightarrow> rstring \<Rightarrow> bool" where
  "verify net FcrdnsVerifier source_ip claimed_rdns =
    is_forward_confirmed net source_ip claimed_rdns default_resolvers"
| "verify net AllowAllVerifier source_ip claimed_rdns = True"

section \<open>Names\<close>

lemma short_label_not_pointer: "n < 64 \<Longrightarrow> (of_nat n :: u8) AND 0xC0 \<noteq> 0xC0"
proof
  assume n: "n < 64" and "(of_nat n :: u8) AND 0xC0 = 0xC0"
  then have "bit ((of_nat n :: u8) AND 0xC0) 7" by simp
  then have "bit (of_nat n :: u8) 7" by (simp add: bit_and_iff)
  then have "bit n 7" by (simp add: bit_of_nat_iff)
  with n show False by (simp add: bit_iff_odd)
qed

definition query_label_ok :: "rstring \<Rightarrow> bool" where
  "query_label_ok l \<longleftrightarrow> l \<noteq> [] \<and> valid_str l \<and> length (utf8 l) < 64"

definition encode_name :: "rstring list \<Rightarrow> bytes" where
  "encode_name ls = encode_query_labels ls @ [0]"

lemma read_labels_encode:
  "\<forall>l\<in>set ls. query_label_ok l \<Longrightarrow>
    read_labels (pre @ encode_name ls @ rest) (length pre) jumps e =
      Some (ls, case e of None \<Rightarrow> length pre + length (encode_name ls) | Some e \<Rightarrow> e)"
proof (induction ls arbitrary: pre)
  case Nil
  show ?case by (subst read_labels.simps) (simp add: encode_name_def split: option.splits)
next
  case (Cons l ls)
  let ?n = "length (utf8 l)"
  let ?buf = "pre @ encode_name (l # ls) @ rest"
  from Cons.prems have l: "l \<noteq> []" "valid_str l" "?n < 64" by (simp_all add: query_label_ok_def)
  have buf: "?buf = (pre @ of_nat ?n # utf8 l) @ encode_name ls @ rest"
    using l(1) by (simp add: encode_name_def)
  have n: "unat (of_nat ?n :: u8) = ?n" "(of_nat ?n :: u8) \<noteq> 0"
  proof -
    show n: "unat (of_nat ?n :: u8) = ?n" using l(3) by (simp add: unat_of_nat)
    then show "(of_nat ?n :: u8) \<noteq> 0" using l(1) by (metis length_0_conv unat_0 utf8_eq_Nil)
  qed
  have head: "?buf ! length pre = of_nat ?n" "length pre < length ?buf" unfolding buf by (simp_all add: nth_append)
  have label: "get_range ?buf (length pre + 1) ?n = Some (utf8 l)"
    using get_range_append [of "pre @ [of_nat ?n]" "utf8 l" "encode_name ls @ rest"] unfolding buf by simp
  have ih: "read_labels ?buf (length pre + 1 + ?n) jumps e =
      Some (ls, case e of None \<Rightarrow> length pre + 1 + ?n + length (encode_name ls) | Some e \<Rightarrow> e)"
    using Cons.IH [of "pre @ of_nat ?n # utf8 l"] Cons.prems unfolding buf by (simp split: option.splits)
  have len: "length (encode_name (l # ls)) = 1 + ?n + length (encode_name ls)"
    using l(1) by (simp add: encode_name_def)
  show ?case
    using head n short_label_not_pointer [OF l(3)] label ih l(2) len
    by (subst read_labels.simps) (simp add: Let_def split: option.splits)
qed

lemma read_name_encode:
  "\<forall>l\<in>set ls. query_label_ok l \<Longrightarrow> length pre = start \<Longrightarrow>
    read_name (pre @ encode_name ls @ rest) start = Some (join_with dot ls, start + length (encode_name ls))"
  using read_labels_encode [of ls pre rest 0 None] by (auto simp: read_name_def)

text \<open>The end position lies in the message, whatever the message.\<close>

lemma read_labels_end:
  "read_labels buf pos jumps e = Some (ls, e') \<Longrightarrow> (case e of None \<Rightarrow> pos < e' \<and> e' \<le> length buf | Some x \<Rightarrow> e' = x)"
proof (induction buf pos jumps e arbitrary: ls e' rule: read_labels.induct)
  case (1 buf pos jumps e)
  show ?case
  proof (cases "length buf \<le> pos \<or> buf ! pos = 0")
    case True
    with "1.prems" show ?thesis by (subst (asm) read_labels.simps) (auto split: if_splits option.splits)
  next
    case False
    then have in_buf: "\<not> length buf \<le> pos" "buf ! pos \<noteq> 0" by auto
    show ?thesis
    proof (cases "buf ! pos AND 0xC0 = 0xC0")
      case True
      with "1.prems" in_buf have step: "\<not> length buf \<le> pos + 1 \<and> \<not> 32 < jumps + 1 \<and>
        read_labels buf (unat (buf ! pos AND 0x3F) * 256 + unat (buf ! (pos + 1))) (jumps + 1)
          (Some (case e of None \<Rightarrow> pos + 2 | Some e \<Rightarrow> e)) = Some (ls, e')"
        by (subst (asm) read_labels.simps) (simp add: Let_def split: if_splits)
      from "1.IH"(1) [OF in_buf(1) refl in_buf(2) True _ refl refl, of ls e'] step
      show ?thesis by (auto split: option.splits)
    next
      case False
      with "1.prems" in_buf obtain label ls' where
        label: "get_range buf (pos + 1) (unat (buf ! pos)) = Some label"
        and rec: "read_labels buf (pos + 1 + unat (buf ! pos)) jumps e = Some (ls', e')"
        by (subst (asm) read_labels.simps) (auto simp: Let_def split: option.splits)
      from "1.IH"(2) [OF in_buf(1) refl in_buf(2) False label rec] show ?thesis by (auto split: option.splits)
    qed
  qed
qed

lemma read_name_end: "read_name buf start = Some (name, next) \<Longrightarrow> start < next \<and> next \<le> length buf"
  using read_labels_end [of buf start 0 None] by (auto simp: read_name_def split: option.splits)

section \<open>A resolver's answer is read back\<close>

text \<open>The response of a resolver that holds records of the queried name, written from the layout
  of RFC 1035: the question, then for each answer the name, type, class, TTL, length and data. A
  PTR target is a name, any other data is bytes.\<close>

datatype rr_data = PtrName "rstring list" | RawData u16 bytes

fun rr_type :: "rr_data \<Rightarrow> u16" where
  "rr_type (PtrName _) = rr_ptr"
| "rr_type (RawData t _) = t"

fun rr_bytes :: "rr_data \<Rightarrow> bytes" where
  "rr_bytes (PtrName ls) = encode_name ls"
| "rr_bytes (RawData _ bs) = bs"

fun rr_read :: "rr_data \<Rightarrow> u16 \<times> bytes" where
  "rr_read (PtrName ls) = (rr_ptr, utf8 (join_with dot ls))"
| "rr_read (RawData t bs) = (t, bs)"

fun rr_ok :: "rr_data \<Rightarrow> bool" where
  "rr_ok (PtrName ls) \<longleftrightarrow> list_all query_label_ok ls \<and> length (encode_name ls) < 65536"
| "rr_ok (RawData t bs) \<longleftrightarrow> t \<noteq> rr_ptr \<and> length bs < 65536"

text \<open>What follows the name of an answer.\<close>

definition rr_tail :: "u32 \<Rightarrow> rr_data \<Rightarrow> bytes" where
  "rr_tail ttl r = u16_be (rr_type r) @ u16_be rr_class_in @ u32_be ttl @
    u16_be (of_nat (length (rr_bytes r))) @ rr_bytes r"

definition rr_encode :: "rstring list \<Rightarrow> u32 \<Rightarrow> rr_data \<Rightarrow> bytes" where
  "rr_encode name ttl r = encode_name name @ rr_tail ttl r"

lemma parse_answer_tail:
  assumes "read_name (pre @ rr_tail ttl r @ rest) start = Some (name, length pre)" "rr_ok r"
  shows "parse_answer (pre @ rr_tail ttl r @ rest) start = Some (rr_read r, length pre + length (rr_tail ttl r))"
proof -
  let ?d = "rr_bytes r" and ?p = "length pre"
  let ?buf = "pre @ rr_tail ttl r @ rest"
  note buf = rr_tail_def
  have range: "get_range (a @ b @ c) n m = Some b" if "length a = n" "length b = m" for a b c n m
    using that get_range_append by blast
  have t: "get_range ?buf ?p 2 = Some (u16_be (rr_type r))"
    using range [of pre ?p "u16_be (rr_type r)" 2] by (simp add: buf)
  have n: "get_range ?buf (?p + 2 + 2 + 4) 2 = Some (u16_be (of_nat (length ?d)))"
    using range [of "pre @ u16_be (rr_type r) @ u16_be rr_class_in @ u32_be ttl"
        "?p + 2 + 2 + 4" "u16_be (of_nat (length ?d))" 2] by (simp add: buf)
  have len: "unat (of_nat (length ?d) :: u16) = length ?d"
    using assms(2) by (cases r) (simp_all add: unat_of_nat)
  have pre: "length (pre @ u16_be (rr_type r) @ u16_be rr_class_in @ u32_be ttl @
      u16_be (of_nat (length ?d))) = ?p + 2 + 2 + 4 + 2"
    by simp
  show ?thesis
  proof (cases r)
    case (PtrName ls)
    have "read_name ?buf (?p + 2 + 2 + 4 + 2) = Some (join_with dot ls, ?p + 2 + 2 + 4 + 2 + length (encode_name ls))"
      using read_name_encode [OF _ pre, of ls rest] assms(2) PtrName by (simp add: buf list_all_iff)
    then show ?thesis
      unfolding parse_answer_def assms(1) using t n len PtrName by (simp add: Let_def rr_ptr_def rr_tail_def)
  next
    case (RawData rt bs)
    have "get_range ?buf (?p + 2 + 2 + 4 + 2) (length bs) = Some bs"
      using range [OF pre, of bs "length bs" rest] RawData by (simp add: buf)
    then show ?thesis
      unfolding parse_answer_def assms(1) using t n len RawData assms(2) by (simp add: Let_def rr_tail_def)
  qed
qed

lemma parse_answer_encode:
  assumes "list_all query_label_ok name" "rr_ok r" "length pre = start"
  shows "parse_answer (pre @ rr_encode name ttl r @ rest) start =
    Some (rr_read r, start + length (rr_encode name ttl r))"
proof -
  have "read_name (pre @ encode_name name @ rr_tail ttl r @ rest) start =
      Some (join_with dot name, length (pre @ encode_name name))"
    using assms(1,3) by (subst read_name_encode) (simp_all add: list_all_iff)
  then show ?thesis
    using parse_answer_tail [of "pre @ encode_name name" ttl r rest start, OF _ assms(2)] assms(3)
    by (simp add: rr_encode_def)
qed

lemma parse_answers_encode:
  assumes "list_all query_label_ok name"
  shows "list_all rr_ok rs \<Longrightarrow> length pre = start \<Longrightarrow>
    parse_answers (pre @ concat (map (rr_encode name ttl) rs)) (length rs) start = Some (map rr_read rs)"
proof (induction rs arbitrary: pre start)
  case (Cons r rs)
  have "parse_answers ((pre @ rr_encode name ttl r) @ concat (map (rr_encode name ttl) rs)) (length rs)
      (start + length (rr_encode name ttl r)) = Some (map rr_read rs)"
    using Cons.prems by (intro Cons.IH) simp_all
  then show ?case using parse_answer_encode [OF assms] Cons.prems by simp
qed simp

definition resolver_response :: "u16 \<Rightarrow> rstring list \<Rightarrow> u16 \<Rightarrow> u32 \<Rightarrow> rr_data list \<Rightarrow> bytes" where
  "resolver_response i name qtype ttl rs =
    u16_be i @ u16_be 0x8180 @ u16_be 1 @ u16_be (of_nat (length rs)) @ u16_be 0 @ u16_be 0 @
    encode_name name @ u16_be qtype @ u16_be rr_class_in @ concat (map (rr_encode name ttl) rs)"

lemma parse_resolver_response:
  assumes name: "list_all query_label_ok name" and rs: "list_all rr_ok rs" "length rs < 65536"
  shows "parse_response (resolver_response i name qtype ttl rs) i = Some (map rr_read rs)"
proof -
  let ?header = "u16_be i @ u16_be 0x8180 @ u16_be 1 @ u16_be (of_nat (length rs)) @ u16_be 0 @ u16_be 0"
  let ?q = "encode_name name @ u16_be qtype @ u16_be rr_class_in"
  let ?rest = "concat (map (rr_encode name ttl) rs)"
  let ?buf = "resolver_response i name qtype ttl rs"
  have buf: "?buf = ?header @ ?q @ ?rest" by (simp add: resolver_response_def)
  have header: "length ?header = 12" by simp
  have pair: "[u16_be w ! 0, u16_be w ! Suc 0] = u16_be w" for w :: u16
    by (rule nth_equalityI) (auto simp: less_Suc_eq numeral_2_eq_2)
  have fields: "[?buf ! 0, ?buf ! 1] = u16_be i" "[?buf ! 2, ?buf ! 3] = u16_be 0x8180"
    "[?buf ! 4, ?buf ! 5] = u16_be 1" "[?buf ! 6, ?buf ! 7] = u16_be (of_nat (length rs))"
    unfolding buf using pair by (simp_all add: nth_append)
  have question: "parse_questions ?buf 1 12 = Some (12 + length (encode_name name) + 4)"
    using read_name_encode [of name ?header 12 "u16_be qtype @ u16_be rr_class_in @ ?rest"] name
    by (simp add: buf list_all_iff)
  have pos: "length (?header @ ?q) = 12 + length (encode_name name) + 4" by simp
  have answers: "parse_answers ?buf (length rs) (12 + length (encode_name name) + 4) = Some (map rr_read rs)"
    using parse_answers_encode [OF name rs(1) pos, of ttl] by (simp only: buf append_assoc)
  have count: "unat (of_nat (length rs) :: u16) = length rs" using rs(2) by (simp add: unat_of_nat)
  have "\<not> length ?buf < 12" by (simp add: buf)
  then show ?thesis
    unfolding parse_response_def fields Let_def using question answers count by simp
qed

section \<open>Confirmation\<close>

lemma ask_resolvers_Some:
  "ask_resolvers net i request q rs = Some answers \<Longrightarrow>
    \<exists>k resolver response. resolver \<in> set rs \<and> exchange net [k] resolver request = Some response \<and>
      parse_response (take 4096 response) q = Some answers"
  by (induction net i request q rs rule: ask_resolvers.induct)
    (auto simp: send_and_receive_def net_call_def split: option.splits)

text \<open>Someone the network reached answered the reverse query for the address with a PTR record for
  the claimed name, and the forward query for the name with the address.\<close>

definition answered :: "dns_network \<Rightarrow> rstring \<Rightarrow> u16 \<Rightarrow> rstring list \<Rightarrow> u16 \<times> bytes \<Rightarrow> bool" where
  "answered net name qtype resolvers record \<longleftrightarrow>
    (\<exists>path path' resolver response answers. resolver \<in> set resolvers \<and>
      exchange net path resolver (encode_query (drawn_id net path') name qtype) = Some response \<and>
      parse_response (take 4096 response) (drawn_id net path') = Some answers \<and> record \<in> set answers)"

lemma query_answered:
  "dns_query_network net name qtype resolvers = Some answers \<Longrightarrow> record \<in> set answers \<Longrightarrow>
    answered net name qtype resolvers record"
  unfolding dns_query_network_def Let_def answered_def by (blast dest: ask_resolvers_Some)

lemma answered_net_call: "answered (net_call i net) name qtype resolvers r \<Longrightarrow> answered net name qtype resolvers r"
  unfolding answered_def net_call_def by auto blast

lemma set_map_filter: "x \<in> set (List.map_filter f xs) \<longleftrightarrow> (\<exists>y\<in>set xs. f y = Some x)"
  by (induction xs) (auto simp: List.map_filter_def)

lemma reverse_lookup_answered:
  assumes "reverse_lookup net ip resolvers = Some names" "name \<in> set names"
  shows "answered net (ptr_query_name ip) rr_ptr resolvers (rr_ptr, utf8 name)"
proof -
  from assms obtain response data where
    "dns_query_network net (ptr_query_name ip) rr_ptr resolvers = Some response"
    "(rr_ptr, data) \<in> set response" "from_utf8 data = Some name"
    by (auto simp: reverse_lookup_def set_map_filter split: option.splits)
  then show ?thesis using query_answered from_utf8_Some by blast
qed

lemma u16_be_pair: "u16_be (u16_of_be [a, b]) = [a, b]"
proof -
  have len: "length [a, b] = 2" by simp
  have "unat (of_nat (be_value [a, b]) :: u16) = be_value [a, b]"
    using be_value_less [of "[a, b]"] by (simp add: unat_of_nat)
  then show ?thesis
    using be_bytes_be_value [of "[a, b]"] unfolding len u16_be_def u16_of_be_def by (simp only:)
qed

lemma u16_pairs_octets: "even (length bs) \<Longrightarrow> concat (map u16_be (u16_pairs bs)) = bs"
  by (induction bs rule: u16_pairs.induct) (auto simp: u16_be_pair)

lemma lookup_ips_answered:
  assumes "ip \<in> set (lookup_ips net name qtype parse resolvers)" "\<And>data ip. parse data = Some ip \<Longrightarrow> ip_octets ip = data"
  shows "answered net name qtype resolvers (qtype, ip_octets ip)"
proof -
  from assms(1) obtain response where
    response: "dns_query_network net name qtype resolvers = Some response"
    by (cases "dns_query_network net name qtype resolvers") (auto simp: lookup_ips_def)
  with assms(1) obtain data where "(qtype, data) \<in> set response" "parse data = Some ip"
    by (auto simp: lookup_ips_def set_map_filter)
  then show ?thesis using query_answered [OF response] assms(2) by auto
qed

lemma forward_confirmed_sound:
  assumes "is_forward_confirmed net ip claimed resolvers"
  shows "\<exists>name. normalize_host name = normalize_host claimed \<and>
      answered net (ptr_query_name ip) rr_ptr resolvers (rr_ptr, utf8 name)"
    and "answered net claimed rr_a resolvers (rr_a, ip_octets ip) \<or>
      answered net claimed rr_aaaa resolvers (rr_aaaa, ip_octets ip)"
proof -
  from assms obtain names where names: "reverse_lookup (net_call 0 net) ip resolvers = Some names"
    "\<exists>name\<in>set names. normalize_host name = normalize_host claimed"
    and ip: "ip \<in> set (lookup_ips (net_call 0 (net_call 1 net)) claimed rr_a parse_a resolvers) \<or>
      ip \<in> set (lookup_ips (net_call 1 (net_call 1 net)) claimed rr_aaaa parse_aaaa resolvers)"
    by (auto simp: is_forward_confirmed_def forward_lookup_def Let_def list_ex_iff split: option.splits if_splits)
  show "\<exists>name. normalize_host name = normalize_host claimed \<and>
      answered net (ptr_query_name ip) rr_ptr resolvers (rr_ptr, utf8 name)"
    using names reverse_lookup_answered answered_net_call by blast
  have a: "ip_octets x = data" if "parse_a data = Some x" for data x
    using that by (auto simp: parse_a_def ip_octets_def split: if_splits)
  have aaaa: "ip_octets x = data" if "parse_aaaa data = Some x" for data x
    using that by (auto simp: parse_aaaa_def ip_octets_def u16_pairs_octets split: if_splits)
  from ip show "answered net claimed rr_a resolvers (rr_a, ip_octets ip) \<or>
      answered net claimed rr_aaaa resolvers (rr_aaaa, ip_octets ip)"
  proof
    assume "ip \<in> set (lookup_ips (net_call 0 (net_call 1 net)) claimed rr_a parse_a resolvers)"
    from lookup_ips_answered [OF this a] show ?thesis by (blast dest: answered_net_call)
  next
    assume "ip \<in> set (lookup_ips (net_call 1 (net_call 1 net)) claimed rr_aaaa parse_aaaa resolvers)"
    from lookup_ips_answered [OF this aaaa] show ?thesis by (blast dest: answered_net_call)
  qed
qed

section \<open>The reverse name determines the address\<close>

definition ip_wf :: "ip_addr \<Rightarrow> bool" where
  "ip_wf ip = (case ip of IpV4 o4 \<Rightarrow> length o4 = 4 | IpV6 gs \<Rightarrow> length gs = 8)"

lemma dot_not_in: "dot \<notin> set (show_nat n)" "a < 16 \<Longrightarrow> hex_digit a \<noteq> dot"
  by (auto dest: show_nat_digits simp: hex_digit_def)

lemma low_nibble: "unat ((b :: u8) AND 0x0F) = unat b mod 16"
proof -
  have "b AND mask 4 = take_bit 4 b" by (rule take_bit_eq_mask [symmetric])
  then have "b AND 0x0F = take_bit 4 b" by (simp add: mask_eq_exp_minus_1)
  then show ?thesis by (simp add: take_bit_eq_mod unat_mod)
qed

lemma high_nibble: "unat (drop_bit 4 (b :: u8)) = unat b div 16"
  by (simp add: drop_bit_eq_div unat_div)

lemma high_nibble_less: "unat (b :: u8) div 16 < 16"
  using unat_lt_pow [of b] by simp

lemma split_nibbles:
  "split_on dot (nibbles bs @ s) =
    concat (map (\<lambda>b. [[hex_digit (unat b mod 16)], [hex_digit (unat b div 16)]]) bs) @ split_on dot s"
proof (induction bs)
  case (Cons b bs)
  have "[hex_digit (unat b mod 16)] @ dot # [hex_digit (unat b div 16)] @ dot # nibbles bs @ s = nibbles (b # bs) @ s"
    by (simp add: low_nibble high_nibble)
  then show ?case
    using split_on_append [of dot "[hex_digit (unat b mod 16)]" "[hex_digit (unat b div 16)] @ dot # nibbles bs @ s"]
      split_on_append [of dot "[hex_digit (unat b div 16)]" "nibbles bs @ s"]
      dot_not_in(2) [of "unat b mod 16"] dot_not_in(2) [of "unat b div 16"] high_nibble_less [of b] Cons
    by (simp add: low_nibble high_nibble)
qed simp

lemma split_ptr_v4:
  "split_on dot (ptr_query_name (IpV4 [a, b, c, d])) =
    [show_nat (unat d), show_nat (unat c), show_nat (unat b), show_nat (unat a), lit ''in-addr'', lit ''arpa'']"
proof -
  have "split_on dot (lit ''.in-addr.arpa'') = [[], lit ''in-addr'', lit ''arpa'']" by (simp add: lit_def)
  then have last: "split_on dot (show_nat n @ lit ''.in-addr.arpa'') = [show_nat n, lit ''in-addr'', lit ''arpa'']" for n
    using split_on_append [of dot "show_nat n" "lit ''in-addr.arpa''"] dot_not_in(1) by (simp add: lit_def)
  show ?thesis
    using dot_not_in(1) by (simp add: ptr_query_name_def split_on_append last)
qed

lemma split_ptr_v6:
  "split_on dot (ptr_query_name (IpV6 gs)) =
    concat (map (\<lambda>b. [[hex_digit (unat b mod 16)], [hex_digit (unat b div 16)]]) (rev (concat (map u16_be gs)))) @
      [lit ''ip6'', lit ''arpa'']"
proof -
  have "split_on dot (lit ''ip6.arpa'') = [lit ''ip6'', lit ''arpa'']" by (simp add: lit_def)
  then show ?thesis by (simp add: ptr_query_name_def split_nibbles ip_octets_def)
qed

lemma nibble_labels_inj:
  "concat (map (\<lambda>b. [[hex_digit (unat b mod 16)], [hex_digit (unat b div 16)]]) xs) =
    concat (map (\<lambda>b. [[hex_digit (unat b mod 16)], [hex_digit (unat b div 16)]]) ys) \<Longrightarrow> xs = (ys :: bytes)"
proof (induction xs arbitrary: ys)
  case (Cons x xs)
  then obtain y ys' where ys: "ys = y # ys'" by (cases ys) auto
  with Cons.prems have "unat x mod 16 = unat y mod 16" "unat x div 16 = unat y div 16"
    using high_nibble_less by (auto simp: hex_digit_inj)
  then have "unat x = unat y" by (metis div_mult_mod_eq)
  with Cons ys show ?case by (simp add: word_unat_eq_iff)
qed (simp add: concat_eq_Nil_conv)

lemma concat_u16_be_inj: "concat (map u16_be xs) = concat (map u16_be ys) \<Longrightarrow> xs = ys"
proof (induction xs arbitrary: ys)
  case Nil
  then show ?case by (cases ys) (auto dest: arg_cong [of _ _ length])
next
  case (Cons x xs)
  then obtain y ys' where ys: "ys = y # ys'" by (cases ys) (auto dest: arg_cong [of _ _ length])
  with Cons.prems have "u16_be x = u16_be y" "concat (map u16_be xs) = concat (map u16_be ys')"
    by (simp_all add: append_eq_append_conv)
  with Cons.IH ys show ?case by (metis u16_of_be_u16_be)
qed

lemma ptr_query_name_inj:
  assumes "ip_wf ip" "ip_wf ip'" "ptr_query_name ip = ptr_query_name ip'"
  shows "ip = ip'"
proof -
  have v4: "\<exists>a b c d. o4 = [a, b, c, d]" if "ip_wf (IpV4 o4)" for o4
    using that by (auto simp: ip_wf_def length_Suc_conv numeral_eq_Suc)
  have split: "split_on dot (ptr_query_name ip) = split_on dot (ptr_query_name ip')" using assms(3) by simp
  have mixed: "split_on dot (ptr_query_name (IpV4 [a, b, c, d])) \<noteq> split_on dot (ptr_query_name (IpV6 gs))" for a b c d gs
  proof
    assume "split_on dot (ptr_query_name (IpV4 [a, b, c, d])) = split_on dot (ptr_query_name (IpV6 gs))"
    then have "last (butlast (split_on dot (ptr_query_name (IpV4 [a, b, c, d])))) =
        last (butlast (split_on dot (ptr_query_name (IpV6 gs))))" by simp
    then show False by (simp add: split_ptr_v4 split_ptr_v6 butlast_append lit_def)
  qed
  show ?thesis
  proof (cases ip; cases ip')
    fix o4 p4 assume ips: "ip = IpV4 o4" "ip' = IpV4 p4"
    with assms(1,2) v4 obtain a b c d a' b' c' d' where "o4 = [a, b, c, d]" "p4 = [a', b', c', d']" by metis
    with split ips show ?thesis by (simp add: split_ptr_v4 word_unat_eq_iff)
  next
    fix gs hs assume ips: "ip = IpV6 gs" "ip' = IpV6 hs"
    with split show ?thesis by (auto simp: split_ptr_v6 dest!: nibble_labels_inj concat_u16_be_inj)
  qed (use assms(1,2) split v4 mixed in metis)+
qed

end
