(* ===== verification/Node.thy ===== *)
theory Node
  imports Api Gossip Wire Rate_Limit Peers Dns Fcrdns
begin

text \<open>
  \<open>binda/src/node.rs\<close>: the state shared by the listeners and every step of their loops. A step
  handles one datagram or one tick, as if no other task ran meanwhile. A handler takes the lock of each
  shared part at most once, one at a time; \<open>Interleaving\<close> has the pieces between the locks, and
  \<open>Serial_Runs\<close> shows that running them side by side amounts to running whole steps in some order.
  A step returns the new state and the datagrams sent. Readings of the monotonic clock, random
  draws and the network are arguments.
\<close>

definition gossip_interval_nanos :: nat where "gossip_interval_nanos = 1000000000"
definition rate_limit_burst :: u32 where "rate_limit_burst = 20"
definition rate_limit_per_sec :: real where "rate_limit_per_sec = 10"
definition rate_limit_max_tracked_keys :: nat where "rate_limit_max_tracked_keys = 100000"
definition rate_limit_prune_interval_nanos :: nat where "rate_limit_prune_interval_nanos = 60000000000"
definition rate_limit_prune_age_nanos :: nat where "rate_limit_prune_age_nanos = 300000000000"
definition pending_challenge_timeout_nanos :: nat where "pending_challenge_timeout_nanos = 10000000000"
definition max_pending_challenges :: nat where "max_pending_challenges = 10000"

definition new_rate_limiter :: "socket_addr rate_limiter" where
  "new_rate_limiter = limiter_new rate_limit_burst rate_limit_per_sec rate_limit_max_tracked_keys"

type_synonym pending_challenge = "conformance_challenge \<times> domain_name list \<times> nat"

type_synonym datagrams = "(socket_addr \<times> bytes) list"

record node =
  node_store :: registry_store
  node_peers :: peer_book
  gossip_limiter :: "socket_addr rate_limiter"
  resolver_limiter :: "socket_addr rate_limiter"
  api_limiter :: "socket_addr rate_limiter"
  dns_limiter :: "socket_addr rate_limiter"
  pending_challenges :: "(socket_addr, pending_challenge) hash_map"
  node_verifier :: rdns_verifier
  api_running :: bool

text \<open>What the node gets from third-party crates: signatures, JSON, and the rounding of \<open>f64\<close>.\<close>

record node_env =
  env_ext :: externals
  env_round :: "real \<Rightarrow> real"
  gossip_to_vec :: "gossip_message \<Rightarrow> rstring + bytes"
  gossip_from_slice :: "bytes \<Rightarrow> rstring + gossip_message"
  query_from_slice :: "bytes \<Rightarrow> rstring + resolve_query"
  answer_to_vec :: "resolve_answer \<Rightarrow> rstring + bytes"
  request_from_slice :: "bytes \<Rightarrow> rstring + client_request"
  response_to_vec :: "client_response \<Rightarrow> rstring + bytes"

definition new_with_verifier :: "socket_addr list \<Rightarrow> rdns_verifier \<Rightarrow> node" where
  "new_with_verifier peers verifier =
    \<lparr>node_store = store_new, node_peers = peers_new peers, gossip_limiter = new_rate_limiter,
     resolver_limiter = new_rate_limiter, api_limiter = new_rate_limiter, dns_limiter = new_rate_limiter,
     pending_challenges = [], node_verifier = verifier, api_running = True\<rparr>"

definition node_new :: "socket_addr list \<Rightarrow> node" where
  "node_new peers = new_with_verifier peers FcrdnsVerifier"

definition new_allowing_any_rdns :: "socket_addr list \<Rightarrow> node" where
  "new_allowing_any_rdns peers = new_with_verifier peers AllowAllVerifier"

text \<open>\<open>if let Ok(bytes) = wire::encode(&msg) { let _ = socket.send_to(&bytes, to).await; }\<close>\<close>

definition send_encoded :: "('m \<Rightarrow> rstring + bytes) \<Rightarrow> 'm \<Rightarrow> socket_addr \<Rightarrow> datagrams" where
  "send_encoded to_vec m addr = (case encode to_vec m of Inr bs \<Rightarrow> [(addr, bs)] | Inl _ \<Rightarrow> [])"

section \<open>Gossip\<close>

definition push_digest :: "registry_store \<Rightarrow> gossip_message" where
  "push_digest s = Digest (map (\<lambda>(d, _, token). \<lparr>entry_domain = d, entry_issued_at_millis = issued_at_millis token\<rparr>)
    (all_rumors s))"

definition gossip_push :: "node_env \<Rightarrow> (nat \<Rightarrow> nat) \<Rightarrow> node \<Rightarrow> datagrams" where
  "gossip_push env pick n =
    (case random_peer pick (node_peers n) of
      None \<Rightarrow> []
    | Some peer \<Rightarrow> send_encoded (gossip_to_vec env) (push_digest (node_store n)) peer)"

text \<open>The names of a digest this node lacks or holds under an older token.\<close>

definition missing_domains :: "registry_store \<Rightarrow> digest_entry list \<Rightarrow> domain_name list" where
  "missing_domains s entries = map entry_domain
    (filter (\<lambda>e. case lookup s (entry_domain e) of
        Some reg \<Rightarrow> issued_at_millis (reg_token reg) < entry_issued_at_millis e
      | None \<Rightarrow> True) entries)"

definition admit_pending ::
  "(socket_addr, pending_challenge) hash_map \<Rightarrow> socket_addr \<times> pending_challenge \<Rightarrow>
    (socket_addr, pending_challenge) hash_map" where
  "admit_pending pending e =
    (let pending =
       (if \<not> hm_contains_key pending (fst e) \<and> max_pending_challenges \<le> length pending
        then case hm_min_by_key (\<lambda>(_, _, issued_at). issued_at) pending of
            Some (oldest, _) \<Rightarrow> hm_remove oldest pending
          | None \<Rightarrow> pending
        else pending)
     in hm_insert (fst e) (snd e) pending)"

definition requested_rumors :: "registry_store \<Rightarrow> domain_name list \<Rightarrow> registration_rumor list" where
  "requested_rumors s domains = List.map_filter
    (\<lambda>d. case lookup s d of
        None \<Rightarrow> None
      | Some reg \<Rightarrow> map_option (\<lambda>rumor. rumor\<lparr>rumor_domain := d\<rparr>) (reg_rumor reg)) domains"

fun adopt_rumors ::
  "externals \<Rightarrow> time_source \<Rightarrow> nat \<Rightarrow> registration_rumor list \<Rightarrow> registry_store \<Rightarrow> registry_store" where
  "adopt_rumors ext time i [] s = s"
| "adopt_rumors ext time i (rumor # rumors) s =
    adopt_rumors ext time (Suc i) rumors (snd (adopt_rumor ext rumor (call i time) s))"

text \<open>What a gossip handler draws: the nonces and the coin of a challenge, and the instant of its
  issue.\<close>

record gossip_draws =
  draw_nonce_a :: bytes
  draw_nonce_b :: bytes
  draw_coin :: bool
  draw_instant :: nat

fun handle_gossip_message ::
  "node_env \<Rightarrow> gossip_draws \<Rightarrow> time_source \<Rightarrow> socket_addr \<Rightarrow> gossip_message \<Rightarrow> node \<Rightarrow> node \<times> datagrams" where
  "handle_gossip_message env draws time sender (Digest entries) n =
    (let missing = missing_domains (node_store n) entries
     in if missing = [] then (n, [])
        else
          let challenge = challenge_random (draw_nonce_a draws) (draw_nonce_b draws) (draw_coin draws)
                (now_millis time);
              n = n\<lparr>pending_challenges :=
                admit_pending (pending_challenges n) (sender, challenge, missing, draw_instant draws)\<rparr>
          in (n, send_encoded (gossip_to_vec env) (Request missing challenge) sender))"
| "handle_gossip_message env draws time sender (Request domains challenge) n =
    (n, send_encoded (gossip_to_vec env)
      (Rumors (requested_rumors (node_store n) domains) (expected_answer challenge)) sender)"
| "handle_gossip_message env draws time sender (Rumors rumors answer) n =
    (let expected = hm_get (pending_challenges n) sender;
         n = n\<lparr>pending_challenges := hm_remove sender (pending_challenges n)\<rparr>
     in case expected of
       None \<Rightarrow> (n, [])
     | Some (challenge, requested, _) \<Rightarrow>
         if answer \<noteq> expected_answer challenge then (n, [])
         else if \<not> is_valid_rumor_response requested rumors then (n, [])
         else (n\<lparr>node_store := adopt_rumors (env_ext env) time 0 rumors (node_store n)\<rparr>, []))"

definition gossip_recv ::
  "node_env \<Rightarrow> nat \<Rightarrow> gossip_draws \<Rightarrow> time_source \<Rightarrow> socket_addr \<Rightarrow> bytes \<Rightarrow> node \<Rightarrow> node \<times> datagrams" where
  "gossip_recv env now draws time sender packet n =
    (let (ok, limiter) = allow_at (env_round env) sender now (gossip_limiter n);
         n = n\<lparr>gossip_limiter := limiter\<rparr>
     in if \<not> ok then (n, [])
        else case decode (gossip_from_slice env) (take max_datagram_bytes packet) of
          Inl _ \<Rightarrow> (n, [])
        | Inr msg \<Rightarrow>
            if \<not> is_well_formed msg then (n, [])
            else handle_gossip_message env draws time sender msg
              (n\<lparr>node_peers := learn sender (node_peers n)\<rparr>))"

section \<open>Resolver\<close>

definition resolve_answer_for :: "registry_store \<Rightarrow> domain_name \<Rightarrow> resolve_answer" where
  "resolve_answer_for s d =
    (case lookup s d of
      Some reg \<Rightarrow> \<lparr>owner_client_key = Some (reg_client_key reg), answer_records = reg_records reg\<rparr>
    | None \<Rightarrow> \<lparr>owner_client_key = None, answer_records = []\<rparr>)"

definition resolver_recv :: "node_env \<Rightarrow> nat \<Rightarrow> socket_addr \<Rightarrow> bytes \<Rightarrow> node \<Rightarrow> node \<times> datagrams" where
  "resolver_recv env now sender packet n =
    (let (ok, limiter) = allow_at (env_round env) sender now (resolver_limiter n);
         n = n\<lparr>resolver_limiter := limiter\<rparr>
     in if \<not> ok then (n, [])
        else case decode (query_from_slice env) (take max_datagram_bytes packet) of
          Inl _ \<Rightarrow> (n, [])
        | Inr query \<Rightarrow>
            (n, send_encoded (answer_to_vec env) (resolve_answer_for (node_store n) (query_domain query)) sender))"

section \<open>Client API\<close>

text \<open>A panic of the handler ends the task of the listener: \<open>api_running\<close>.\<close>

definition client_api_recv ::
  "node_env \<Rightarrow> nat \<Rightarrow> dns_network \<Rightarrow> bytes \<Rightarrow> time_source \<Rightarrow> socket_addr \<Rightarrow> bytes \<Rightarrow> node \<Rightarrow> node \<times> datagrams" where
  "client_api_recv env now net drawn time sender packet n =
    (if \<not> api_running n then (n, [])
     else
       let (ok, limiter) = allow_at (env_round env) sender now (api_limiter n);
           n = n\<lparr>api_limiter := limiter\<rparr>
       in if \<not> ok then (n, [])
          else case decode (request_from_slice env) (take max_datagram_bytes packet) of
            Inl _ \<Rightarrow> (n, [])
          | Inr request \<Rightarrow>
              let rdns_verified = (case request of
                    Register envelope \<Rightarrow> verify net (node_verifier n) (sock_ip sender) (env_rdns envelope)
                  | _ \<Rightarrow> True)
              in case handle_client_request (env_ext env) drawn (node_store n) time request rdns_verified of
                (Some response, s) \<Rightarrow>
                  (n\<lparr>node_store := s\<rparr>, send_encoded (response_to_vec env) response sender)
              | (None, s) \<Rightarrow> (n\<lparr>node_store := s, api_running := False\<rparr>, []))"

section \<open>Native lookup protocol\<close>

definition dns_response_for :: "registry_store \<Rightarrow> dns_query \<Rightarrow> bytes" where
  "dns_response_for s query =
    (case lookup s (dq_domain query) of
      Some reg \<Rightarrow>
        build_response query True (filter (\<lambda>r. record_matches_qtype r (dq_qtype query)) (reg_records reg))
    | None \<Rightarrow> build_response query False [])"

definition dns_recv :: "node_env \<Rightarrow> nat \<Rightarrow> socket_addr \<Rightarrow> bytes \<Rightarrow> node \<Rightarrow> node \<times> datagrams" where
  "dns_recv env now sender packet n =
    (let (ok, limiter) = allow_at (env_round env) sender now (dns_limiter n);
         n = n\<lparr>dns_limiter := limiter\<rparr>;
         buf = take max_datagram_bytes packet
     in if \<not> ok then (n, [])
        else case parse_query buf of
          Inl _ \<Rightarrow>
            if 2 \<le> length buf
            then (n, [(sender, build_error_response (u16_of_be [buf ! 0, buf ! 1]) rcode_format_error)])
            else (n, [])
        | Inr query \<Rightarrow> (n, [(sender, dns_response_for (node_store n) query)]))"

section \<open>Maintenance\<close>

definition prune_pending :: "nat \<Rightarrow> node \<Rightarrow> node" where
  "prune_pending now n = n\<lparr>pending_challenges :=
    hm_retain (\<lambda>_ (_, _, issued_at). now - issued_at < pending_challenge_timeout_nanos) (pending_challenges n)\<rparr>"

datatype limiter_name = GossipLimiter | ResolverLimiter | ApiLimiter | DnsLimiter

fun prune_limiter :: "limiter_name \<Rightarrow> nat \<Rightarrow> node \<Rightarrow> node" where
  "prune_limiter GossipLimiter now n =
    n\<lparr>gossip_limiter := prune_older_than rate_limit_prune_age_nanos now (gossip_limiter n)\<rparr>"
| "prune_limiter ResolverLimiter now n =
    n\<lparr>resolver_limiter := prune_older_than rate_limit_prune_age_nanos now (resolver_limiter n)\<rparr>"
| "prune_limiter ApiLimiter now n =
    n\<lparr>api_limiter := prune_older_than rate_limit_prune_age_nanos now (api_limiter n)\<rparr>"
| "prune_limiter DnsLimiter now n =
    n\<lparr>dns_limiter := prune_older_than rate_limit_prune_age_nanos now (dns_limiter n)\<rparr>"

text \<open>One tick of the maintenance task: the limiters one after the other, then the challenges,
  all against one reading of the clock.\<close>

definition maintenance_tick :: "nat \<Rightarrow> node \<Rightarrow> node" where
  "maintenance_tick now n =
    prune_pending now (prune_limiter DnsLimiter now (prune_limiter ApiLimiter now
      (prune_limiter ResolverLimiter now (prune_limiter GossipLimiter now n))))"

end
