(* ===== verification/Args.thy ===== *)
theory Args
  imports Node
begin

text \<open>
  \<open>binda/src/main.rs\<close>: the arguments of the daemon and which listeners it starts. A panic of
  \<open>expect\<close> or \<open>unwrap\<close> is \<open>None\<close>.
\<close>

record args =
  gossip_addr :: socket_addr
  resolver_addr :: socket_addr
  api_addr :: socket_addr
  dns_addr :: "socket_addr option"
  peers_arg :: "socket_addr list"
  insecure_skip_rdns_verification :: bool

text \<open>\<open>args.next().expect(..).parse().expect(..)\<close>: the address and the arguments left.\<close>

fun take_addr :: "rstring list \<Rightarrow> (socket_addr \<times> rstring list) option" where
  "take_addr [] = None"
| "take_addr (text # rest) = map_option (\<lambda>a. (a, rest)) (parse_socket_addr text)"

lemma take_addr_shorter: "take_addr ts = Some (a, rest) \<Longrightarrow> length rest < length ts"
  by (cases ts) auto

text \<open>The loop over the flags.\<close>

function parse_flags :: "rstring list \<Rightarrow> args \<Rightarrow> args option" where
  "parse_flags [] a = Some a"
| "parse_flags (flag # ts) a =
    (if flag = lit ''--gossip'' then
       (case take_addr ts of None \<Rightarrow> None
        | Some (addr, rest) \<Rightarrow> parse_flags rest (a\<lparr>gossip_addr := addr\<rparr>))
     else if flag = lit ''--resolver'' then
       (case take_addr ts of None \<Rightarrow> None
        | Some (addr, rest) \<Rightarrow> parse_flags rest (a\<lparr>resolver_addr := addr\<rparr>))
     else if flag = lit ''--api'' then
       (case take_addr ts of None \<Rightarrow> None
        | Some (addr, rest) \<Rightarrow> parse_flags rest (a\<lparr>api_addr := addr\<rparr>))
     else if flag = lit ''--dns'' then
       (case take_addr ts of None \<Rightarrow> None
        | Some (addr, rest) \<Rightarrow> parse_flags rest (a\<lparr>dns_addr := Some addr\<rparr>))
     else if flag = lit ''--peer'' then
       (case take_addr ts of None \<Rightarrow> None
        | Some (addr, rest) \<Rightarrow> parse_flags rest (a\<lparr>peers_arg := peers_arg a @ [addr]\<rparr>))
     else if flag = lit ''--insecure-skip-rdns-verification'' then
       parse_flags ts (a\<lparr>insecure_skip_rdns_verification := True\<rparr>)
     else parse_flags ts a)"
  by pat_completeness auto
termination
  by (relation "measure (\<lambda>(ts, _). length ts)") (auto dest: take_addr_shorter)

definition parse_args_from :: "rstring list \<Rightarrow> args option" where
  "parse_args_from ts =
    (case (parse_socket_addr (lit ''0.0.0.0:9530''), parse_socket_addr (lit ''0.0.0.0:9531''),
           parse_socket_addr (lit ''0.0.0.0:9532'')) of
      (Some g, Some r, Some p) \<Rightarrow>
        parse_flags ts \<lparr>gossip_addr = g, resolver_addr = r, api_addr = p, dns_addr = None,
          peers_arg = [], insecure_skip_rdns_verification = False\<rparr>
    | _ \<Rightarrow> None)"

text \<open>The tasks that \<open>spawn_listener_tasks\<close> starts: each runs one listener on an address. It ends when
  the listener's \<open>run\<close> method returns an error (the address is taken, or the socket fails), which it
  prints, or when the listener panics. \<open>run\<close> tells how a listener ends, \<open>None\<close> as long as it runs.\<close>

datatype listener = GossipListener | ResolverListener | ApiListener | DnsListener

datatype task_end = Failed rstring | Panicked

type_synonym listener_runs = "listener \<Rightarrow> socket_addr \<Rightarrow> task_end option"

record listener_task =
  bound_to :: socket_addr
  task_ended :: "task_end option"
  exit_line :: "rstring option"

record listener_tasks =
  gossip_task :: listener_task
  resolver_task :: listener_task
  api_task :: listener_task
  dns_task :: "listener_task option"

fun exit_prefix :: "listener \<Rightarrow> rstring" where
  "exit_prefix GossipListener = lit ''gossip loop exited: ''"
| "exit_prefix ResolverListener = lit ''resolver loop exited: ''"
| "exit_prefix ApiListener = lit ''client API loop exited: ''"
| "exit_prefix DnsListener = lit ''DNS loop exited: ''"

definition spawn_listener :: "listener_runs \<Rightarrow> listener \<Rightarrow> socket_addr \<Rightarrow> listener_task" where
  "spawn_listener run l addr =
    \<lparr>bound_to = addr, task_ended = run l addr,
     exit_line = (case run l addr of Some (Failed err) \<Rightarrow> Some (exit_prefix l @ err) | _ \<Rightarrow> None)\<rparr>"

definition spawn_listener_tasks :: "listener_runs \<Rightarrow> args \<Rightarrow> listener_tasks" where
  "spawn_listener_tasks run a =
    \<lparr>gossip_task = spawn_listener run GossipListener (gossip_addr a),
     resolver_task = spawn_listener run ResolverListener (resolver_addr a),
     api_task = spawn_listener run ApiListener (api_addr a),
     dns_task = map_option (spawn_listener run DnsListener) (dns_addr a)\<rparr>"

text \<open>\<open>main\<close> joins the tasks: it returns once every one has ended.\<close>

definition has_exited :: "listener_task \<Rightarrow> bool" where
  "has_exited t \<longleftrightarrow> task_ended t \<noteq> None"

definition all_exited :: "listener_tasks \<Rightarrow> bool" where
  "all_exited ts \<longleftrightarrow>
    has_exited (gossip_task ts) \<and> has_exited (resolver_task ts) \<and> has_exited (api_task ts) \<and>
    (case dns_task ts of Some t \<Rightarrow> has_exited t | None \<Rightarrow> True)"

definition main_node :: "args \<Rightarrow> node" where
  "main_node a =
    (if insecure_skip_rdns_verification a then new_allowing_any_rdns (peers_arg a)
     else node_new (peers_arg a))"

text \<open>\<open>main\<close>: the node, the tasks, and whether it has returned; \<open>None\<close> when the arguments panic.\<close>

definition daemon_main ::
  "listener_runs \<Rightarrow> rstring list \<Rightarrow> (node \<times> listener_tasks \<times> bool) option" where
  "daemon_main run ts =
    (case parse_args_from ts of
      None \<Rightarrow> None
    | Some a \<Rightarrow> let tasks = spawn_listener_tasks run a in Some (main_node a, tasks, all_exited tasks))"

section \<open>Facts\<close>

definition insecure_flag :: rstring where
  "insecure_flag = lit ''--insecure-skip-rdns-verification''"

text \<open>The verification is only ever skipped when the flag is among the arguments.\<close>

lemma parse_flags_secure:
  "parse_flags ts a = Some a' \<Longrightarrow> insecure_skip_rdns_verification a' \<Longrightarrow>
    insecure_skip_rdns_verification a \<or> insecure_flag \<in> set ts"
proof (induction ts a rule: parse_flags.induct)
  case (1 a)
  then show ?case by simp
next
  case (2 flag ts a)
  have sub: "take_addr ts = Some (addr, rest) \<Longrightarrow> set rest \<subseteq> set ts" for addr rest by (cases ts) auto
  show ?case
    using 2 sub
    by (auto simp: insecure_flag_def split: if_splits option.splits) blast+
qed

text \<open>The daemon keeps running as long as one listener does: neither an error nor a panic of another
  ends it.\<close>

lemma daemon_runs:
  assumes "daemon_main run ts = Some (n, tasks, returned)"
    "run l (bound_to t) = None" "t = (case l of GossipListener \<Rightarrow> gossip_task tasks | ResolverListener \<Rightarrow> resolver_task tasks
      | ApiListener \<Rightarrow> api_task tasks | DnsListener \<Rightarrow> the (dns_task tasks))"
    "l = DnsListener \<Longrightarrow> dns_task tasks \<noteq> None"
  shows "\<not> returned"
  using assms
  by (cases l) (auto simp: daemon_main_def Let_def all_exited_def has_exited_def spawn_listener_tasks_def
      spawn_listener_def split: option.splits)

end
