(* ===== verification/Samples.thy ===== *)
theory Samples
  imports Args
begin

text \<open>
  Concrete inputs the witnesses of the properties are evaluated on: a signature scheme in which the
  message is its own signature, a JSON printer that prints the number of records, and a host
  with two keys.
\<close>

definition sample_ext :: externals where
  "sample_ext = \<lparr>key_parses = (\<lambda>_. True), sig_parses = (\<lambda>_. True), sig_verifies = (\<lambda>_ m s. s = m),
    records_json = (\<lambda>rs. Some (replicate (length rs) 49))\<rparr>"

definition sample_key :: "nat \<Rightarrow> bytes" where "sample_key k = replicate 32 (of_nat k)"

definition sample_host :: rstring where "sample_host = lit ''h''"

definition sample_domain :: "nat \<Rightarrow> domain_name" where "sample_domain k = DomainName (lit ''a.'' @ show_nat k)"

definition sample_token :: "nat \<Rightarrow> registration_token" where
  "sample_token k = \<lparr>issued_at_millis = of_nat k, nonce = replicate 8 0\<rparr>"

text \<open>A lease of the \<open>k\<close>-th name, signed by the sample key at time 100000.\<close>

definition sample_rumor :: "nat \<Rightarrow> registration_rumor" where
  "sample_rumor k = \<lparr>rumor_domain = sample_domain k, rumor_token = sample_token k,
    rumor_client_key = client_key (client_new (sample_key 1) sample_host),
    rumor_owner_key = sample_key 1, rumor_rdns = sample_host,
    registration_timestamp_millis = 100000,
    registration_signature = register_message (sample_domain k) 100000,
    probe_timestamp_millis = 100000, probe_signature = probe_message 100000,
    rumor_records = [], records_timestamp_millis = None, records_signature = None\<rparr>"

lemma sample_rumor_authorized: "is_authorized sample_ext (sample_rumor k)"
  by (simp add: is_authorized_iff sample_rumor_def sample_ext_def records_evidence_def sample_key_def)

lemma sample_rumor_live: "live_at sample_ext 100000 (sample_rumor k)"
  using sample_rumor_authorized [of k]
  by (simp add: live_at_def lease_is_live_def liveness_window_millis_def sample_rumor_def saturating_sub_def)

lemma sample_host_canonical [simp]: "quota_key sample_host = sample_host"
  by (simp add: quota_key_def sample_host_def lit_def trim_def trim_end_matches_def
      to_ascii_lowercase_def ascii_lower_def is_whitespace_def)

lemma sample_quota [simp]: "quota_key (rumor_rdns (sample_rumor k)) = sample_host"
  by (simp add: sample_rumor_def)

lemma sample_domain_inj [simp]: "sample_domain i = sample_domain j \<longleftrightarrow> i = j"
  by (simp add: sample_domain_def)

definition sample_store :: registry_store where
  "sample_store = snd (adopt_rumor sample_ext (sample_rumor 1) (frozen 100000) store_new)"

lemma store_new_sel [simp]:
  "registrations store_new = []" "quota_claims store_new = []" "claims_of store_new q = []"
  "probe_evidence store_new = []" "liveness store_new = tracker_new"
  by (simp_all add: store_new_def claims_of_def)

lemma sample_rumor_domain [simp]: "rumor_domain (sample_rumor k) = sample_domain k"
  by (simp add: sample_rumor_def)

lemma sample_store_inv: "store_inv sample_store"
  unfolding sample_store_def by (rule adopt_rumor_inv [OF store_new_inv])

lemma hm_insert_Nil [simp]: "hm_insert k v [] = [(k, v)]"
  by (simp add: hm_insert_def)

lemma hm_insert_same [simp]: "hm_insert k v [(k, w)] = [(k, v)]"
  by (simp add: hm_insert_def)

lemma hm_get_one [simp]: "hm_get [(k, v)] k' = (if k' = k then Some v else None)"
  by (simp add: hm_get_def)

lemma first_claims_one [simp]: "first_claims [r] = [r]"
  by (simp add: first_claims_def max_registrations_per_client_def)

text \<open>A host whose one claim is \<open>r\<close>.\<close>

definition one_lease :: "registration_rumor \<Rightarrow> registry_store" where
  "one_lease r = store_new\<lparr>
    registrations := [(rumor_domain r, registration_from_rumor r (quota_key (rumor_rdns r)))],
    quota_claims := [(quota_key (rumor_rdns r), [(rumor_domain r, r)])]\<rparr>"

lemma reconcile_one_lease:
  assumes "live_at ext t r" "registrations s = [] \<or> registrations s = [(rumor_domain r, registration_from_rumor r q)]"
    and "quota_claims s = [(q, [(rumor_domain r, r)])]"
  shows "reconcile_quota ext q (frozen t) s = s\<lparr>registrations := [(rumor_domain r, registration_from_rumor r q)]\<rparr>"
  using assms
  by (auto simp: reconcile_quota_def Let_def live_at_def hm_values_def hm_retain_def registration_from_rumor_def)

lemma adopt_one_lease:
  "live_at ext t r \<Longrightarrow> adopt_rumor ext r (frozen t) store_new = (True, one_lease r)"
  by (simp add: adopt_live insert_claim_def reconcile_one_lease one_lease_def store_new_def)

lemma reclaim_one_lease:
  "live_at ext t r \<Longrightarrow> reclaim_stale ext (frozen t) (one_lease r) = one_lease r"
  by (simp add: reclaim_stale_eq drop_hosts_def one_lease_def expired_clients_def tracker_new_def hm_keys_def
      hm_retain_def reconcile_one_lease store_new_def registration_from_rumor_def)

lemma sample_store_eq: "sample_store = one_lease (sample_rumor 1)"
  unfolding sample_store_def using sample_rumor_live [of 1] by (simp add: adopt_one_lease)

lemma sample_store_lookup:
  "hm_get (registrations sample_store) (sample_domain 1) = Some (registration_from_rumor (sample_rumor 1) sample_host)"
  by (simp add: sample_store_eq one_lease_def)

lemma sample_store_claims: "hm_get (quota_claims sample_store) sample_host = Some [(sample_domain 1, sample_rumor 1)]"
  by (simp add: sample_store_eq one_lease_def)

end
