(* ===== verification/Store_Spec.thy ===== *)
theory Store_Spec
  imports Store_Props
begin

text \<open>
  An abstract specification of the registration store and the proof that the store implements it. The
  specification has maps where the store has hash tables, keeps a claim when fewer than five valid claims
  of its host precede it, and leaves open what the source leaves open: which reading of the clock
  decides about a claim, and in which order a reclaim visits the hosts. Nothing in it sorts, truncates
  or iterates.
\<close>

section \<open>The specification\<close>

record registry_spec =
  spec_regs :: "domain_name \<rightharpoonup> registration"
  spec_claims :: "rstring \<rightharpoonup> (domain_name \<rightharpoonup> registration_rumor)"
  spec_seen :: "rstring \<rightharpoonup> u64"
  spec_counts :: "rstring \<Rightarrow> nat"
  spec_evidence :: "rstring \<rightharpoonup> u64 \<times> bytes"

text \<open>What the specification leaves open: the clock readings an operation takes itself, the reading each
  claim is judged by, and the order of the hosts.\<close>

record spec_choice =
  choice_now :: "nat \<Rightarrow> u64"
  choice_claim :: "rstring \<Rightarrow> domain_name \<Rightarrow> u64"
  choice_order :: "rstring list"

definition claim_valid :: "externals \<Rightarrow> (domain_name \<Rightarrow> u64) \<Rightarrow> registration_rumor \<Rightarrow> bool" where
  "claim_valid ext reading r \<longleftrightarrow>
    is_authorized ext r \<and> unat (reading (rumor_domain r)) \<le> unat (probe_timestamp_millis r) + 60000"

definition spec_kept ::
  "externals \<Rightarrow> (domain_name \<Rightarrow> u64) \<Rightarrow> (domain_name \<rightharpoonup> registration_rumor) \<Rightarrow> domain_name \<rightharpoonup> registration_rumor" where
  "spec_kept ext reading m d =
    (case m d of
      None \<Rightarrow> None
    | Some r \<Rightarrow>
        if claim_valid ext reading r \<and>
          card {r' \<in> ran m. claim_valid ext reading r' \<and> claim_order r' < claim_order r} < 5
        then Some r else None)"

definition spec_install ::
  "rstring \<Rightarrow> (domain_name \<rightharpoonup> registration_rumor) \<Rightarrow> (domain_name \<rightharpoonup> registration) \<Rightarrow> domain_name \<rightharpoonup> registration" where
  "spec_install q kept regs d =
    (let others = (case regs d of
          Some reg \<Rightarrow> if reg_quota_key reg \<noteq> q \<or> reg_rumor reg = None then Some reg else None
        | None \<Rightarrow> None)
     in case kept d of
       None \<Rightarrow> others
     | Some r \<Rightarrow>
         (case others of
           Some reg \<Rightarrow> if negotiate_locally (reg_token reg) (rumor_token r) = rumor_token r
             then Some (registration_from_rumor r q) else Some reg
         | None \<Rightarrow> Some (registration_from_rumor r q)))"

definition spec_reconcile :: "externals \<Rightarrow> rstring \<Rightarrow> (domain_name \<Rightarrow> u64) \<Rightarrow> registry_spec \<Rightarrow> registry_spec" where
  "spec_reconcile ext q reading S =
    (case spec_claims S q of
      None \<Rightarrow> S
    | Some m \<Rightarrow>
        let kept = spec_kept ext reading m
        in S\<lparr>spec_claims := (spec_claims S)(q \<mapsto> kept), spec_regs := spec_install q kept (spec_regs S)\<rparr>)"

definition spec_live :: "u64 \<Rightarrow> client_identity \<Rightarrow> registry_spec \<Rightarrow> bool" where
  "spec_live now c S \<longleftrightarrow> (\<exists>seen. spec_seen S (client_quota_key c) = Some seen \<and> unat now \<le> unat seen + 60000)"

definition spec_probe :: "client_identity \<Rightarrow> u64 \<Rightarrow> u64 \<Rightarrow> bytes \<Rightarrow> registry_spec \<Rightarrow> registry_spec" where
  "spec_probe c now t sg S =
    S\<lparr>spec_seen := (spec_seen S)(client_quota_key c \<mapsto> now), spec_evidence := (spec_evidence S)(client_key c \<mapsto> (t, sg))\<rparr>"

text \<open>The hosts whose last probe is more than 60 seconds old lose their registrations.\<close>

definition spec_dead :: "u64 \<Rightarrow> registry_spec \<Rightarrow> rstring set" where
  "spec_dead now S = {q. \<exists>seen. spec_seen S q = Some seen \<and> unat seen + 60000 < unat now}"

definition spec_drop :: "u64 \<Rightarrow> registry_spec \<Rightarrow> registry_spec" where
  "spec_drop now S =
    S\<lparr>spec_regs := (\<lambda>d. case spec_regs S d of
        Some reg \<Rightarrow> if reg_quota_key reg \<in> spec_dead now S then None else Some reg | None \<Rightarrow> None),
      spec_seen := (\<lambda>q. if q \<in> spec_dead now S then None else spec_seen S q),
      spec_counts := (\<lambda>q. if q \<in> spec_dead now S then 0 else spec_counts S q)\<rparr>"

definition spec_reclaim :: "externals \<Rightarrow> u64 \<Rightarrow> spec_choice \<Rightarrow> registry_spec \<Rightarrow> registry_spec" where
  "spec_reclaim ext now ch S =
    foldl (\<lambda>S q. spec_reconcile ext q (choice_claim ch q) S) (spec_drop now S) (choice_order ch)"

definition spec_register ::
  "externals \<Rightarrow> spec_choice \<Rightarrow> bytes \<Rightarrow> domain_name \<Rightarrow> client_identity \<Rightarrow> registry_spec \<Rightarrow> registry_spec" where
  "spec_register ext ch drawn d c S =
    (if \<not> spec_live (choice_now ch 0) c S then S
     else
       let S = spec_reclaim ext (choice_now ch 1) ch S
       in if spec_regs S d \<noteq> None \<or> \<not> spec_live (choice_now ch 2) c S \<or> 5 \<le> spec_counts S (client_quota_key c) then S
          else S\<lparr>spec_regs := (spec_regs S)(d \<mapsto> \<lparr>reg_client_key = client_key c, reg_quota_key = client_quota_key c,
                reg_token = token_issue drawn (choice_now ch 3), reg_records = [], reg_rumor = None\<rparr>),
              spec_counts := (spec_counts S)(client_quota_key c := Suc (spec_counts S (client_quota_key c)))\<rparr>)"

definition spec_set_records :: "domain_name \<Rightarrow> client_identity \<Rightarrow> zone_record list \<Rightarrow> registry_spec \<Rightarrow> registry_spec" where
  "spec_set_records d c recs S =
    (case spec_regs S d of
      Some reg \<Rightarrow> if reg_client_key reg = client_key c
        then S\<lparr>spec_regs := (spec_regs S)(d \<mapsto> reg\<lparr>reg_records := recs\<rparr>)\<rparr> else S
    | None \<Rightarrow> S)"

definition spec_add_claim :: "rstring \<Rightarrow> registration_rumor \<Rightarrow> registry_spec \<Rightarrow> registry_spec" where
  "spec_add_claim q r S =
    S\<lparr>spec_claims := (spec_claims S)(q \<mapsto>
      (case spec_claims S q of None \<Rightarrow> Map.empty | Some m \<Rightarrow> m)(rumor_domain r \<mapsto> r))\<rparr>"

definition spec_claim :: "externals \<Rightarrow> spec_choice \<Rightarrow> registration_rumor \<Rightarrow> registry_spec \<Rightarrow> registry_spec" where
  "spec_claim ext ch r S =
    (let q = quota_key (rumor_rdns r) in spec_reconcile ext q (choice_claim ch q) (spec_add_claim q r S))"

definition spec_attach :: "externals \<Rightarrow> spec_choice \<Rightarrow> registration_rumor \<Rightarrow> registry_spec \<Rightarrow> registry_spec" where
  "spec_attach ext ch r S =
    (case spec_regs S (rumor_domain r) of
      Some reg \<Rightarrow> if reg_client_key reg = rumor_client_key r \<and> reg_token reg = rumor_token r
        then spec_claim ext ch r S else S
    | None \<Rightarrow> S)"

definition spec_adopt :: "externals \<Rightarrow> spec_choice \<Rightarrow> registration_rumor \<Rightarrow> registry_spec \<Rightarrow> registry_spec" where
  "spec_adopt ext ch r S =
    (if claim_valid ext (\<lambda>_. choice_now ch 0) r then spec_claim ext ch r S else S)"

definition spec_refresh :: "rstring \<Rightarrow> u64 \<Rightarrow> bytes \<Rightarrow> registry_spec \<Rightarrow> registry_spec" where
  "spec_refresh ck t sg S =
    S\<lparr>spec_regs := (\<lambda>d. map_option (\<lambda>reg. if reg_client_key reg = ck
        then reg\<lparr>reg_rumor := map_option (refresh_rumor t sg) (reg_rumor reg)\<rparr> else reg) (spec_regs S d)),
      spec_claims := (\<lambda>q. map_option (\<lambda>m d. map_option (\<lambda>r. if rumor_client_key r = ck
        then refresh_rumor t sg r else r) (m d)) (spec_claims S q))\<rparr>"

definition spec_record_evidence :: "domain_name \<Rightarrow> rstring \<Rightarrow> u64 \<Rightarrow> bytes \<Rightarrow> registry_spec \<Rightarrow> registry_spec" where
  "spec_record_evidence d ck t sg S =
    S\<lparr>spec_regs := (spec_regs S)(d := map_option (\<lambda>reg. if reg_client_key reg = ck
        then reg\<lparr>reg_rumor := map_option (\<lambda>r. r\<lparr>rumor_records := reg_records reg,
          records_timestamp_millis := Some t, records_signature := Some sg\<rparr>) (reg_rumor reg)\<rparr>
        else reg) (spec_regs S d)),
      spec_claims := (\<lambda>q. map_option (\<lambda>m. m(d := map_option (\<lambda>r. if rumor_client_key r = ck
        then r\<lparr>records_timestamp_millis := Some t, records_signature := Some sg\<rparr> else r) (m d))) (spec_claims S q))\<rparr>"

fun spec_step :: "externals \<Rightarrow> spec_choice \<Rightarrow> registry_spec \<Rightarrow> store_event \<Rightarrow> registry_spec" where
  "spec_step ext ch S (EvProbe c time t sg) = spec_probe c (choice_now ch 0) t sg S"
| "spec_step ext ch S (EvRegister drawn d c time) = spec_register ext ch drawn d c S"
| "spec_step ext ch S (EvSetRecords d c recs) = spec_set_records d c recs S"
| "spec_step ext ch S (EvAttachRumor r time) = spec_attach ext ch r S"
| "spec_step ext ch S (EvRefreshProbe ck t sg) = spec_refresh ck t sg S"
| "spec_step ext ch S (EvRecordEvidence d ck t sg) = spec_record_evidence d ck t sg S"
| "spec_step ext ch S (EvAdopt r time) = spec_adopt ext ch r S"
| "spec_step ext ch S (EvReclaim time) = spec_reclaim ext (choice_now ch 0) ch S"

section \<open>The abstraction\<close>

definition abs_store :: "registry_store \<Rightarrow> registry_spec" where
  "abs_store s =
    \<lparr>spec_regs = hm_get (registrations s), spec_claims = (\<lambda>q. map_option hm_get (hm_get (quota_claims s) q)),
     spec_seen = hm_get (last_seen_millis (liveness s)), spec_counts = count_of (liveness s),
     spec_evidence = hm_get (probe_evidence s)\<rparr>"

lemma abs_store_sel [simp]:
  "spec_regs (abs_store s) = hm_get (registrations s)"
  "spec_claims (abs_store s) q = map_option hm_get (hm_get (quota_claims s) q)"
  "spec_seen (abs_store s) = hm_get (last_seen_millis (liveness s))"
  "spec_counts (abs_store s) = count_of (liveness s)"
  "spec_evidence (abs_store s) = hm_get (probe_evidence s)"
  by (simp_all add: abs_store_def)

lemma spec_eqI:
  fixes S S' :: registry_spec
  assumes "\<And>d. spec_regs S d = spec_regs S' d" "\<And>q. spec_claims S q = spec_claims S' q" "\<And>q. spec_seen S q = spec_seen S' q"
    "\<And>q. spec_counts S q = spec_counts S' q" "\<And>k. spec_evidence S k = spec_evidence S' k"
  shows "S = S'"
  using assms by (intro registry_spec.equality ext) simp_all

section \<open>Reconciliation\<close>

text \<open>The first \<open>n\<close> of a sorted list are those that fewer than \<open>n\<close> precede.\<close>

lemma in_set_take_iff: "y \<in> set (take i xs) \<longleftrightarrow> (\<exists>j < length xs. j < i \<and> y = xs ! j)"
  by (auto simp: in_set_conv_nth)

lemma take_sort_key_iff:
  assumes "distinct xs" "inj_on f (set xs)"
  shows "x \<in> set (take n (sort_key f xs)) \<longleftrightarrow> x \<in> set xs \<and> card {y \<in> set xs. f y < f x} < n"
proof -
  let ?ys = "sort_key f xs"
  have strict: "f (?ys ! i) < f (?ys ! j) \<longleftrightarrow> i < j" if "i < length ?ys" "j < length ?ys" for i j
  proof -
    have "sorted_wrt (<) (map f ?ys)"
      using assms by (simp add: strict_sorted_iff distinct_map)
    then show ?thesis using that
      by (metis length_map less_asym less_irrefl linorder_neqE_nat nth_map sorted_wrt_iff_nth_less)
  qed
  have before: "{y \<in> set xs. f y < f (?ys ! i)} = set (take i ?ys)" if "i < length ?ys" for i
  proof -
    have "y \<in> set ?ys \<and> f y < f (?ys ! i) \<longleftrightarrow> y \<in> set (take i ?ys)" for y
      using strict that unfolding in_set_take_iff by (metis in_set_conv_nth)
    then have "{y \<in> set ?ys. f y < f (?ys ! i)} = set (take i ?ys)" by blast
    then show ?thesis by simp
  qed
  have rank: "card {y \<in> set xs. f y < f (?ys ! i)} = i" if "i < length ?ys" for i
    using before [OF that] that assms(1) by (simp add: distinct_card)
  show ?thesis
  proof
    assume "x \<in> set (take n ?ys)"
    then obtain i where "i < n" "i < length ?ys" "x = ?ys ! i" unfolding in_set_take_iff by blast
    with rank show "x \<in> set xs \<and> card {y \<in> set xs. f y < f x} < n"
      by (metis nth_mem set_sort)
  next
    assume x: "x \<in> set xs \<and> card {y \<in> set xs. f y < f x} < n"
    then obtain i where "i < length ?ys" "x = ?ys ! i" by (metis in_set_conv_nth set_sort)
    with x rank show "x \<in> set (take n ?ys)" unfolding in_set_take_iff by metis
  qed
qed

text \<open>Some reading of the clock decides about each claim.\<close>

lemma retain_live_reading:
  assumes "distinct (map fst cl)"
  shows "\<exists>g. (\<forall>d. g d \<in> range time) \<and>
    retain_live ext time i cl = filter (\<lambda>(d, r). is_authorized ext r \<and> lease_is_live r (frozen (g d))) cl"
  using assms
proof (induction ext time i cl rule: retain_live.induct)
  case (2 ext time i d r cl)
  then obtain g where g: "\<forall>d. g d \<in> range time"
    "retain_live ext time (Suc i) cl = filter (\<lambda>(d, r). is_authorized ext r \<and> lease_is_live r (frozen (g d))) cl"
    by (cases "is_authorized ext r \<and> lease_is_live r (call i time)") auto
  let ?g = "g(d := now_millis (call i time))"
  have "filter (\<lambda>(d, r). is_authorized ext r \<and> lease_is_live r (frozen (?g d))) cl =
      filter (\<lambda>(d, r). is_authorized ext r \<and> lease_is_live r (frozen (g d))) cl"
    using 2(3) by (intro filter_cong) force+
  moreover have "lease_is_live r (call i time) = lease_is_live r (frozen (?g d))"
    by (simp add: lease_is_live_def)
  moreover have "\<forall>d. ?g d \<in> range time" using g(1) by (simp add: now_millis_def call_def)
  ultimately show ?case using g(2) by (intro exI [of _ ?g]) simp
qed auto

lemma claim_valid_iff:
  "claim_valid ext reading r \<longleftrightarrow> is_authorized ext r \<and> lease_is_live r (frozen (reading (rumor_domain r)))"
proof -
  have "unat liveness_window_millis = 60000" by (simp add: liveness_window_millis_def)
  then show ?thesis by (simp add: claim_valid_def lease_is_live_def word_le_nat_alt) arith
qed

lemma reconciled_claims_spec:
  assumes except: "store_inv_except (Some q) s" and claims: "hm_get (quota_claims s) q = Some cl"
    and g: "retain_live ext time 0 cl = filter (\<lambda>(d, r). is_authorized ext r \<and> lease_is_live r (frozen (g d))) cl"
  shows "hm_get (claims_of (reconcile_quota ext q time s) q) d = spec_kept ext g (hm_get cl) d"
proof -
  let ?live = "retain_live ext time 0 cl" and ?P = "claim_valid ext g"
  have ok: "claims_ok q cl" by (rule store_inv_exceptD(5) [OF except claims])
  then have wf: "hm_wf cl" by (simp add: claims_ok_def)
  have dom: "(k, r) \<in> set cl \<Longrightarrow> k = rumor_domain r" for k r using claims_ok_entry [OF ok] .
  have oklive: "claims_ok q ?live"
    using live_claims_ok(1) [OF claims ok, of ext time] claims by (simp add: live_claims_def)
  have live: "set (hm_values ?live) = {r \<in> ran (hm_get cl). ?P r}"
  proof -
    have "ran (hm_get cl) = snd ` set cl" using wf by (simp add: hm_get_def [abs_def] ran_distinct hm_wf_def)
    moreover have "(is_authorized ext r \<and> lease_is_live r (frozen (g k))) = ?P r" if "(k, r) \<in> set cl" for k r
      using dom [OF that] by (simp add: claim_valid_iff)
    ultimately show ?thesis unfolding g hm_values_def by force
  qed
  have distinct: "distinct (map rumor_domain (hm_values ?live))" by (rule claims_ok_distinct [OF oklive])
  then have inj: "inj_on claim_order (set (hm_values ?live))" by (simp add: distinct_map claim_order_inj)
  have ok': "claims_ok q (claims_of (reconcile_quota ext q time s) q)"
    using reconcile_restores [OF except] claims by (intro claims_of_ok) (simp add: hm_contains_key_def)
  have "hm_get (claims_of (reconcile_quota ext q time s) q) d = Some r \<longleftrightarrow> spec_kept ext g (hm_get cl) d = Some r" for r
  proof -
    have "hm_get (claims_of (reconcile_quota ext q time s) q) d = Some r \<longleftrightarrow>
        r \<in> set (take 5 (sort_key claim_order (hm_values ?live))) \<and> rumor_domain r = d"
      unfolding claims_get_iff [OF ok'] claims_of_reconcile [OF except claims] by (simp add: canon_def)
    also have "\<dots> \<longleftrightarrow> (r \<in> set (hm_values ?live) \<and>
        card {y \<in> set (hm_values ?live). claim_order y < claim_order r} < 5) \<and> rumor_domain r = d"
      using take_sort_key_iff [OF _ inj] distinct by (simp add: distinct_map)
    also have "{y \<in> set (hm_values ?live). claim_order y < claim_order r} =
        {r' \<in> ran (hm_get cl). ?P r' \<and> claim_order r' < claim_order r}"
      unfolding live by auto
    also have "r \<in> set (hm_values ?live) \<and> rumor_domain r = d \<longleftrightarrow> hm_get cl d = Some r \<and> ?P r"
      unfolding live using wf by (auto simp: ran_def hm_get_eq_Some dest: dom)
    then have "(r \<in> set (hm_values ?live) \<and> card {r' \<in> ran (hm_get cl). ?P r' \<and> claim_order r' < claim_order r} < 5) \<and>
        rumor_domain r = d \<longleftrightarrow> spec_kept ext g (hm_get cl) d = Some r"
      by (auto simp: spec_kept_def split: option.splits)
    finally show ?thesis .
  qed
  then show ?thesis by (rule option_ext)
qed

text \<open>One reconciliation, with the readings that decided.\<close>

lemma abs_reconcile:
  assumes except: "store_inv_except (Some q) s"
  shows "\<exists>g. (\<forall>d. g d \<in> range time) \<and> abs_store (reconcile_quota ext q time s) = spec_reconcile ext q g (abs_store s)"
proof (cases "hm_get (quota_claims s) q")
  case None
  then show ?thesis by (intro exI [of _ "\<lambda>_. time []"]) (simp add: reconcile_quota_absent spec_reconcile_def)
next
  case (Some cl)
  have "claims_ok q cl" by (rule store_inv_exceptD(5) [OF except Some])
  then have "distinct (map fst cl)" by (simp add: claims_ok_def hm_wf_def)
  from retain_live_reading [OF this, of time ext 0] obtain g where g: "\<forall>d. g d \<in> range time"
    "retain_live ext time 0 cl = filter (\<lambda>(d, r). is_authorized ext r \<and> lease_is_live r (frozen (g d))) cl" by blast
  let ?s' = "reconcile_quota ext q time s"
  note kept = reconciled_claims_spec [OF except Some g(2)]
  have wf: "hm_wf (registrations s)" by (rule store_inv_exceptD(1) [OF except])
  have claims: "hm_get (quota_claims ?s') q = Some (claims_of ?s' q)"
    by (simp add: claims_of_def reconcile_quota_present [OF Some])
  have "abs_store ?s' = spec_reconcile ext q g (abs_store s)"
  proof (rule spec_eqI)
    show "spec_regs (abs_store ?s') d = spec_regs (spec_reconcile ext q g (abs_store s)) d" for d
      using Some reconcile_get [OF except Some, of ext time d]
      by (simp add: spec_reconcile_def Let_def kept spec_install_def other_regs_def hm_get_retain [OF wf]
          split: option.splits)
    show "spec_claims (abs_store ?s') q' = spec_claims (spec_reconcile ext q g (abs_store s)) q'" for q'
    proof (cases "q' = q")
      case True
      then show ?thesis using Some claims kept by (simp add: spec_reconcile_def Let_def fun_eq_iff)
    next
      case False
      then show ?thesis using Some by (simp add: spec_reconcile_def Let_def reconcile_quota_present)
    qed
  qed (use Some in \<open>simp_all add: spec_reconcile_def Let_def\<close>)
  with g(1) show ?thesis by blast
qed

lemma abs_reconcile_all:
  assumes "store_inv s" "distinct qs"
  shows "\<exists>f. (\<forall>q d. f q d \<in> range time) \<and>
    abs_store (reconcile_all ext time i qs s) = foldl (\<lambda>S q. spec_reconcile ext q (f q) S) (abs_store s) qs"
  using assms
proof (induction qs arbitrary: s i)
  case Nil
  show ?case by (intro exI [of _ "\<lambda>_ _. time []"]) simp
next
  case (Cons q qs)
  let ?s = "reconcile_quota ext q (call i time) s"
  obtain g where g: "\<forall>d. g d \<in> range (call i time)" "abs_store ?s = spec_reconcile ext q g (abs_store s)"
    using abs_reconcile [OF store_inv_weaken [OF Cons.prems(1)]] by blast
  have "distinct qs" using Cons.prems(2) by simp
  from Cons.IH [of ?s "Suc i", OF reconcile_inv [OF Cons.prems(1)] this] obtain f where f: "\<forall>q d. f q d \<in> range time"
    "abs_store (reconcile_all ext time (Suc i) qs ?s) = foldl (\<lambda>S q. spec_reconcile ext q (f q) S) (abs_store ?s) qs"
    by blast
  have range: "range (call i time) \<subseteq> range time" by (auto simp: call_def)
  have "foldl (\<lambda>S q. spec_reconcile ext q (f q) S) S qs = foldl (\<lambda>S k. spec_reconcile ext k ((f(q := g)) k) S) S qs" for S
    by (rule foldl_cong [OF refl refl]) (use Cons.prems(2) in auto)
  moreover have "\<forall>k d. (f(q := g)) k d \<in> range time" using f(1) g(1) range by (simp add: subset_iff)
  ultimately show ?case using f(2) g(2) by (intro exI [of _ "f(q := g)"]) simp
qed


section \<open>Operations\<close>

lemma range_call: "range (call i time) \<subseteq> range time"
  by (auto simp: call_def)

lemma now_call_in: "now_millis (call i time) \<in> range time" "now_millis time \<in> range time"
  by (simp_all add: now_millis_def call_def)

lemma abs_drop:
  assumes "store_inv s"
  shows "abs_store (drop_hosts (expired_clients (liveness s) time) s) = spec_drop (now_millis time) (abs_store s)"
proof -
  note D = store_inv_exceptD [OF assms [unfolded store_inv_def]]
  have "set (expired_clients (liveness s) time) = spec_dead (now_millis time) (abs_store s)"
    using expired_clients_iff [OF D(4)] by (auto simp: spec_dead_def)
  then show ?thesis
    by (intro spec_eqI) (simp_all add: drop_hosts_def spec_drop_def hm_get_retain [OF D(1)] fold_forget split: option.splits)
qed

lemma abs_reclaim:
  assumes "store_inv s"
  shows "\<exists>f. (\<forall>q d. f q d \<in> range time) \<and> abs_store (reclaim_stale ext time s) =
    foldl (\<lambda>S q. spec_reconcile ext q (f q) S) (spec_drop (now_millis (call 0 time)) (abs_store s)) (hm_keys (quota_claims s))"
proof -
  have "distinct (hm_keys (quota_claims s))"
    using store_inv_exceptD(2) [OF assms [unfolded store_inv_def]] by (simp add: hm_wf_def hm_keys_def)
  then obtain f where f: "\<forall>q d. f q d \<in> range (call 1 time)" "abs_store (reclaim_stale ext time s) =
      foldl (\<lambda>S q. spec_reconcile ext q (f q) S)
        (abs_store (drop_hosts (expired_clients (liveness s) (call 0 time)) s)) (hm_keys (quota_claims s))"
    unfolding reclaim_stale_eq using abs_reconcile_all [OF drop_hosts_inv [OF assms]] by blast
  have "\<forall>q d. f q d \<in> range time" using f(1) range_call [of 1 time] by blast
  with f(2) show ?thesis unfolding abs_drop [OF assms] by blast
qed

lemma abs_insert_claim:
  "abs_store (insert_claim q r s) = spec_add_claim q r (abs_store s)"
  by (intro spec_eqI) (auto simp: insert_claim_def spec_add_claim_def Let_def fun_eq_iff split: option.splits)

lemma abs_claim:
  assumes "store_inv s"
  shows "\<exists>g. (\<forall>d. g d \<in> range time) \<and>
    abs_store (reconcile_quota ext (quota_key (rumor_rdns r)) time (insert_claim (quota_key (rumor_rdns r)) r s)) =
      spec_reconcile ext (quota_key (rumor_rdns r)) g (spec_add_claim (quota_key (rumor_rdns r)) r (abs_store s))"
  using abs_reconcile [OF insert_claim_inv [OF assms refl, of r]] unfolding abs_insert_claim by blast

lemma abs_spec_live: "is_live (liveness s) c time = spec_live (now_millis time) c (abs_store s)"
  by (simp add: is_live_iff spec_live_def)

lemma abs_set_records: "abs_store (snd (set_records d c recs s)) = spec_set_records d c recs (abs_store s)"
  by (auto simp: set_records_def spec_set_records_def fun_eq_iff intro!: spec_eqI split: option.splits)

lemma abs_refresh: "abs_store (refresh_probe_evidence ck t sg s) = spec_refresh ck t sg (abs_store s)"
proof (rule spec_eqI)
  show "spec_claims (abs_store (refresh_probe_evidence ck t sg s)) q = spec_claims (spec_refresh ck t sg (abs_store s)) q" for q
    by (cases "hm_get (quota_claims s) q") (simp_all add: refresh_probe_evidence_def spec_refresh_def fun_eq_iff)
qed (simp_all add: refresh_probe_evidence_def spec_refresh_def)

lemma abs_record_evidence:
  "abs_store (attach_record_evidence d ck t sg s) = spec_record_evidence d ck t sg (abs_store s)"
proof (rule spec_eqI)
  show "spec_claims (abs_store (attach_record_evidence d ck t sg s)) q = spec_claims (spec_record_evidence d ck t sg (abs_store s)) q" for q
    by (cases "hm_get (quota_claims s) q")
      (auto simp: attach_record_evidence_def spec_record_evidence_def fun_eq_iff split: option.splits)
qed (auto simp: attach_record_evidence_def spec_record_evidence_def split: option.splits)

lemma abs_probe:
  "abs_store (probe_with_evidence c time t sg s) = spec_probe c (now_millis time) t sg (abs_store s)"
  by (intro spec_eqI) (simp_all add: probe_with_evidence_def probe_def spec_probe_def)


section \<open>The store implements the specification\<close>

text \<open>The clock of an event, and the choices its readings allow: readings of that clock, and every host with
  claims, each once.\<close>

fun event_clock :: "store_event \<Rightarrow> time_source option" where
  "event_clock (EvProbe c time t sg) = Some time"
| "event_clock (EvRegister drawn d c time) = Some time"
| "event_clock (EvAttachRumor r time) = Some time"
| "event_clock (EvAdopt r time) = Some time"
| "event_clock (EvReclaim time) = Some time"
| "event_clock _ = None"

definition allowed_choice :: "time_source \<Rightarrow> registry_spec \<Rightarrow> spec_choice \<Rightarrow> bool" where
  "allowed_choice time S ch \<longleftrightarrow> (\<forall>i. choice_now ch i \<in> range time) \<and> (\<forall>q d. choice_claim ch q d \<in> range time) \<and>
    distinct (choice_order ch) \<and> set (choice_order ch) = dom (spec_claims S)"

lemma host_order: "store_inv s \<Longrightarrow> distinct (hm_keys (quota_claims s)) \<and> set (hm_keys (quota_claims s)) = dom (spec_claims (abs_store s))"
  using store_inv_exceptD(2) [of None s]
  by (auto simp: store_inv_def hm_wf_def hm_keys_def dom_def hm_get_None_iff simp flip: not_None_eq)

lemma allowed_choiceI:
  assumes "store_inv s" "\<And>i. now i \<in> range time" "\<And>q d. f q d \<in> range time"
  shows "allowed_choice time (abs_store s) \<lparr>choice_now = now, choice_claim = f, choice_order = hm_keys (quota_claims s)\<rparr>"
  using assms host_order [OF assms(1)] by (simp add: allowed_choice_def)

lemma register_refines:
  assumes inv: "store_inv s"
  shows "\<exists>ch. allowed_choice time (abs_store s) ch \<and>
    abs_store (snd (register ext drawn d c time s)) = spec_register ext ch drawn d c (abs_store s)"
proof -
  from abs_reclaim [OF inv, of "call 1 time" ext] obtain f where f: "\<forall>q d. f q d \<in> range (call 1 time)"
    "abs_store (reclaim_stale ext (call 1 time) s) = foldl (\<lambda>S q. spec_reconcile ext q (f q) S)
      (spec_drop (now_millis (call 0 (call 1 time))) (abs_store s)) (hm_keys (quota_claims s))" by blast
  define now where "now = (\<lambda>i. if i = 1 then now_millis (call 0 (call 1 time)) else now_millis (call i time))"
  let ?ch = "\<lparr>choice_now = now, choice_claim = f, choice_order = hm_keys (quota_claims s)\<rparr>"
  have "now i \<in> range time" for i
    using now_call_in(1) [of 0 "call 1 time"] now_call_in(1) [of i time] range_call [of 1 time] by (auto simp: now_def)
  then have "allowed_choice time (abs_store s) ?ch"
    using f(1) range_call [of 1 time] by (intro allowed_choiceI [OF inv]) blast+
  moreover have "abs_store (snd (register ext drawn d c time s)) = spec_register ext ?ch drawn d c (abs_store s)"
  proof -
    define s1 where "s1 = reclaim_stale ext (call 1 time) s"
    have r: "spec_reclaim ext (now 1) ?ch (abs_store s) = abs_store s1"
      unfolding spec_reclaim_def s1_def f(2) by (simp add: now_def)
    have live: "spec_live (now 0) c (abs_store s) = is_live (liveness s) c (call 0 time)"
      "spec_live (now 2) c (abs_store s1) = is_live (liveness s1) c (call 2 time)"
      by (simp_all add: abs_spec_live now_def)
    have insert: "abs_store (s1\<lparr>registrations := hm_insert d reg (registrations s1),
          liveness := increment_registration c (liveness s1)\<rparr>) =
        (abs_store s1)\<lparr>spec_regs := (spec_regs (abs_store s1))(d \<mapsto> reg),
          spec_counts := (spec_counts (abs_store s1))(client_quota_key c := Suc (count_of (liveness s1) (client_quota_key c)))\<rparr>" for reg
      by (intro spec_eqI) simp_all
    have "now 3 = now_millis (call 3 time)" by (simp add: now_def)
    then show ?thesis
      unfolding register_def spec_register_def Let_def s1_def [symmetric] spec_choice.select_convs r live
      using insert by (simp add: can_register_def registration_count_eq hm_contains_key_def max_registrations_per_client_def)
  qed
  ultimately show ?thesis by blast
qed

theorem store_step_refines:
  assumes inv: "store_inv s"
  shows "\<exists>ch. (\<forall>time. event_clock e = Some time \<longrightarrow> allowed_choice time (abs_store s) ch) \<and>
    abs_store (store_step ext s e) = spec_step ext ch (abs_store s) e"
proof -
  have claim: "\<exists>ch. allowed_choice time (abs_store s) ch \<and> choice_now ch 0 = now_millis (call 0 time) \<and>
      abs_store (reconcile_quota ext (quota_key (rumor_rdns r)) (call i time) (insert_claim (quota_key (rumor_rdns r)) r s))
        = spec_claim ext ch r (abs_store s)" for r time i
  proof -
    from abs_claim [OF inv, of "call i time" ext r] obtain g where g: "\<forall>d. g d \<in> range (call i time)"
      "abs_store (reconcile_quota ext (quota_key (rumor_rdns r)) (call i time) (insert_claim (quota_key (rumor_rdns r)) r s)) =
        spec_reconcile ext (quota_key (rumor_rdns r)) g (spec_add_claim (quota_key (rumor_rdns r)) r (abs_store s))" by blast
    let ?ch = "\<lparr>choice_now = (\<lambda>_. now_millis (call 0 time)), choice_claim = (\<lambda>_. g), choice_order = hm_keys (quota_claims s)\<rparr>"
    have "allowed_choice time (abs_store s) ?ch"
      using g(1) range_call [of i time] now_call_in by (intro allowed_choiceI [OF inv]) blast+
    with g(2) show ?thesis by (intro exI [of _ ?ch]) (simp add: spec_claim_def Let_def)
  qed
  show ?thesis
  proof (cases e)
    case (EvProbe c time t sg)
    then show ?thesis
      using allowed_choiceI [OF inv, of "\<lambda>_. now_millis time" time "\<lambda>_ _. now_millis time"] now_call_in(2)
      by (intro exI [of _ "\<lparr>choice_now = \<lambda>_. now_millis time, choice_claim = \<lambda>_ _. now_millis time,
        choice_order = hm_keys (quota_claims s)\<rparr>"]) (simp add: abs_probe)
  next
    case (EvRegister drawn d c time)
    then show ?thesis using register_refines [OF inv] by simp
  next
    case (EvAttachRumor r time)
    then show ?thesis
      using claim [of time r 0] by (auto simp: attach_rumor_def spec_attach_def Let_def split: option.splits)
  next
    case (EvAdopt r time)
    have "unat liveness_window_millis = 60000" by (simp add: liveness_window_millis_def)
    then have "(\<not> is_authorized ext r \<or> liveness_window_millis < saturating_sub (now_millis (call 0 time)) (probe_timestamp_millis r))
        \<longleftrightarrow> \<not> claim_valid ext (\<lambda>_. now_millis (call 0 time)) r"
      by (simp add: claim_valid_def word_less_nat_alt) arith
    then show ?thesis
      using claim [of time r 1] EvAdopt by (auto simp: adopt_rumor_def spec_adopt_def Let_def)
  next
    case (EvReclaim time)
    from abs_reclaim [OF inv, of time ext] obtain f where f: "\<forall>q d. f q d \<in> range time"
      "abs_store (reclaim_stale ext time s) = foldl (\<lambda>S q. spec_reconcile ext q (f q) S)
        (spec_drop (now_millis (call 0 time)) (abs_store s)) (hm_keys (quota_claims s))" by blast
    let ?ch = "\<lparr>choice_now = (\<lambda>_. now_millis (call 0 time)), choice_claim = f, choice_order = hm_keys (quota_claims s)\<rparr>"
    have "allowed_choice time (abs_store s) ?ch"
      using f(1) now_call_in by (intro allowed_choiceI [OF inv]) blast+
    with f(2) EvReclaim show ?thesis by (intro exI [of _ ?ch]) (simp add: spec_reclaim_def)
  qed (simp_all add: abs_set_records abs_refresh abs_record_evidence)
qed

text \<open>The runs the specification allows: from the empty registry, each event with some allowed choice.\<close>

definition spec_new :: registry_spec where
  "spec_new = \<lparr>spec_regs = Map.empty, spec_claims = Map.empty, spec_seen = Map.empty, spec_counts = (\<lambda>_. 0),
    spec_evidence = Map.empty\<rparr>"

inductive spec_run :: "externals \<Rightarrow> registry_spec \<Rightarrow> store_event list \<Rightarrow> registry_spec \<Rightarrow> bool" for ext where
  spec_run_Nil: "spec_run ext S [] S"
| spec_run_Cons: "(\<And>time. event_clock e = Some time \<Longrightarrow> allowed_choice time S ch) \<Longrightarrow>
    spec_run ext (spec_step ext ch S e) es S' \<Longrightarrow> spec_run ext S (e # es) S'"

lemma abs_store_new: "abs_store store_new = spec_new"
  by (intro spec_eqI) (simp_all add: spec_new_def store_new_def tracker_new_def count_of_def)

lemma store_run_refines:
  "store_inv s \<Longrightarrow> spec_run ext (abs_store s) es (abs_store (foldl (store_step ext) s es))"
proof (induction es arbitrary: s)
  case (Cons e es)
  from store_step_refines [OF Cons.prems, of e ext] obtain ch where ch:
    "\<forall>time. event_clock e = Some time \<longrightarrow> allowed_choice time (abs_store s) ch"
    "abs_store (store_step ext s e) = spec_step ext ch (abs_store s) e" by blast
  have "spec_run ext (spec_step ext ch (abs_store s) e) es (abs_store (foldl (store_step ext) (store_step ext s e) es))"
    using Cons.IH [OF store_step_inv [OF Cons.prems], of ext e] by (simp only: ch(2))
  with ch(1) show ?case by (auto intro: spec_run_Cons)
qed (simp add: spec_run_Nil)

end
