(* ===== verification/Contracts.thy ===== *)
theory Contracts
  imports Api
begin

text \<open>
  A contract on what the store holds: a condition on every registration, one on every claim and one on
  the probe evidence of every client. The locale says what the conditions must promise so that
  the operations which move claims and registrations around keep them; what a caller adds is a premise.
\<close>

definition store_holds ::
  "(domain_name \<Rightarrow> registration \<Rightarrow> bool) \<Rightarrow> (registration_rumor \<Rightarrow> bool) \<Rightarrow> (rstring \<Rightarrow> u64 \<Rightarrow> bytes \<Rightarrow> bool) \<Rightarrow>
    registry_store \<Rightarrow> bool" where
  "store_holds reg_ok claim_ok probe_ok s \<longleftrightarrow>
    (\<forall>d reg. hm_get (registrations s) d = Some reg \<longrightarrow> reg_ok d reg) \<and>
    (\<forall>q d c. hm_get (claims_of s q) d = Some c \<longrightarrow> claim_ok c) \<and>
    (\<forall>ck t sg. hm_get (probe_evidence s) ck = Some (t, sg) \<longrightarrow> probe_ok ck t sg)"

lemma store_holdsI:
  assumes "\<And>d reg. hm_get (registrations s) d = Some reg \<Longrightarrow> reg_ok d reg"
    "\<And>q d c. hm_get (claims_of s q) d = Some c \<Longrightarrow> claim_ok c"
    "\<And>ck t sg. hm_get (probe_evidence s) ck = Some (t, sg) \<Longrightarrow> probe_ok ck t sg"
  shows "store_holds reg_ok claim_ok probe_ok s"
  using assms unfolding store_holds_def by blast

lemma store_holdsD:
  assumes "store_holds reg_ok claim_ok probe_ok s"
  shows "\<And>d reg. hm_get (registrations s) d = Some reg \<Longrightarrow> reg_ok d reg"
    "\<And>q d c. hm_get (claims_of s q) d = Some c \<Longrightarrow> claim_ok c"
    "\<And>ck t sg. hm_get (probe_evidence s) ck = Some (t, sg) \<Longrightarrow> probe_ok ck t sg"
  using assms unfolding store_holds_def by blast+

lemma claims_of_regs: "claims_of (s\<lparr>registrations := regs\<rparr>) q = claims_of s q"
  by (simp add: claims_of_def)

lemma attach_record_evidence_other:
  "d' \<noteq> d \<Longrightarrow> hm_get (claims_of (attach_record_evidence d ck t sg s) q) d' = hm_get (claims_of s q) d'"
  by (auto simp: claims_of_def attach_record_evidence_def split: option.splits)

lemma attach_record_evidence_claimD:
  assumes "hm_get (claims_of (attach_record_evidence d ck t sg s) q) d' = Some c"
  shows "\<exists>old. hm_get (claims_of s q) d' = Some old \<and>
    (c = old \<or> c = old\<lparr>records_timestamp_millis := Some t, records_signature := Some sg\<rparr>)"
  using assms
  by (cases "d' = d") (auto simp: attach_record_evidence_claims attach_record_evidence_other split: if_splits)

lemma refresh_claimD:
  "hm_get (claims_of (refresh_probe_evidence ck t sg s) q) d = Some c \<Longrightarrow>
    \<exists>old. hm_get (claims_of s q) d = Some old \<and> c = (if rumor_client_key old = ck then refresh_rumor t sg old else old)"
  by (auto simp: refresh_probe_evidence_def claims_of_def split: option.splits)

lemma refresh_registrationD:
  "hm_get (registrations (refresh_probe_evidence ck t sg s)) d = Some reg \<Longrightarrow>
    \<exists>old. hm_get (registrations s) d = Some old \<and> reg = (if reg_client_key old = ck
      then old\<lparr>reg_rumor := map_option (refresh_rumor t sg) (reg_rumor old)\<rparr> else old)"
  by (auto simp: refresh_probe_evidence_def)

locale store_contract =
  fixes ext :: externals
    and reg_ok :: "domain_name \<Rightarrow> registration \<Rightarrow> bool"
    and claim_ok :: "registration_rumor \<Rightarrow> bool"
    and probe_ok :: "rstring \<Rightarrow> u64 \<Rightarrow> bytes \<Rightarrow> bool"
  assumes lease_ok: "is_authorized ext r \<Longrightarrow> claim_ok r \<Longrightarrow>
    reg_ok (rumor_domain r) (registration_from_rumor r (quota_key (rumor_rdns r)))"
begin

lemma reconcile_except:
  assumes except: "store_inv_except (Some q) s" and holds: "store_holds reg_ok claim_ok probe_ok s"
  shows "store_holds reg_ok claim_ok probe_ok (reconcile_quota ext q time s)"
proof (cases "hm_get (quota_claims s) q")
  case None
  with holds show ?thesis by (simp add: reconcile_quota_absent)
next
  case (Some cl)
  note D = store_inv_exceptD [OF except] and S = store_holdsD [OF holds]
  have old: "hm_get (claims_of s q) d = Some c" if "hm_get cl d = Some c" for d c
    using that Some by (simp add: claims_of_def)
  show ?thesis
  proof (rule store_holdsI)
    fix d reg
    assume "hm_get (registrations (reconcile_quota ext q time s)) d = Some reg"
    with D(1) Some show "reg_ok d reg"
    proof (cases rule: reconcile_reg_cases)
      case (winner r)
      note W = winner_claim [OF Some D(5) [OF Some] winner(1)]
      have "hm_get cl (rumor_domain r) = Some r" by (rule live_claims_ok(2) [OF Some D(5) [OF Some] W(1)])
      then have "claim_ok r" using old S(2) by blast
      with W(2,3) winner lease_ok show ?thesis by auto
    qed (rule S(1))
  next
    fix q' d c
    assume claim: "hm_get (claims_of (reconcile_quota ext q time s) q') d = Some c"
    show "claim_ok c"
    proof (cases "q' = q")
      case True
      with claim reconciled_claim(1) [OF except Some] old S(2) show ?thesis by blast
    next
      case False
      then have "claims_of (reconcile_quota ext q time s) q' = claims_of s q'"
        by (simp add: claims_of_def reconcile_quota_present [OF Some])
      with claim S(2) show ?thesis by simp
    qed
  qed (use S(3) in simp)
qed

lemma reconcile_all:
  "store_inv s \<Longrightarrow> store_holds reg_ok claim_ok probe_ok s \<Longrightarrow>
    store_holds reg_ok claim_ok probe_ok (reconcile_all ext time i qs s)"
  by (induction qs arbitrary: s i) (simp_all add: reconcile_inv reconcile_except store_inv_weaken)

lemma reclaim:
  assumes inv: "store_inv s" and holds: "store_holds reg_ok claim_ok probe_ok s"
  shows "store_holds reg_ok claim_ok probe_ok (reclaim_stale ext time s)"
proof -
  have wf: "hm_wf (registrations s)" using inv by (simp add: store_inv_def store_inv_except_def)
  have "store_holds reg_ok claim_ok probe_ok (drop_hosts (expired_clients (liveness s) (call 0 time)) s)"
    using store_holdsD [OF holds] by (intro store_holdsI) (auto simp: drop_hosts_def claims_of_def hm_get_retain_Some [OF wf])
  then show ?thesis unfolding reclaim_stale_eq by (rule reconcile_all [OF drop_hosts_inv [OF inv]])
qed

lemma registered:
  assumes inv: "store_inv s" and holds: "store_holds reg_ok claim_ok probe_ok s"
    and fresh: "\<And>now. reg_ok d \<lparr>reg_client_key = client_key c, reg_quota_key = client_quota_key c,
      reg_token = token_issue drawn now, reg_records = [], reg_rumor = None\<rparr>"
  shows "store_holds reg_ok claim_ok probe_ok (snd (register ext drawn d c time s))"
proof -
  note S = store_holdsD [OF reclaim [OF inv holds, of "call 1 time"]]
  have "store_holds reg_ok claim_ok probe_ok (add_registration d c (token_issue drawn now) (reclaim_stale ext (call 1 time) s))" for now
    using S fresh by (intro store_holdsI) (auto simp: add_registration_def claims_of_def split: if_splits)
  with holds reclaim [OF inv holds] show ?thesis
    by (auto simp: register_def Let_def add_registration_def)
qed

lemma claim_inserted:
  assumes "store_holds reg_ok claim_ok probe_ok s" "claim_ok r"
  shows "store_holds reg_ok claim_ok probe_ok (insert_claim q r s)"
proof (rule store_holdsI)
  fix q' d c
  assume "hm_get (claims_of (insert_claim q r s) q') d = Some c"
  with assms store_holdsD(2) [OF assms(1)] show "claim_ok c"
    by (cases "q' = q") (auto simp: insert_claim_def claims_of_def Let_def split: if_splits option.splits)
qed (use store_holdsD [OF assms(1)] in \<open>simp_all add: insert_claim_def Let_def\<close>)

lemma claimed:
  assumes "store_inv s" "store_holds reg_ok claim_ok probe_ok s" "claim_ok r"
  shows "store_holds reg_ok claim_ok probe_ok
    (reconcile_quota ext (quota_key (rumor_rdns r)) time (insert_claim (quota_key (rumor_rdns r)) r s))"
  using assms by (intro reconcile_except insert_claim_inv claim_inserted) simp_all

lemma attached:
  "store_inv s \<Longrightarrow> store_holds reg_ok claim_ok probe_ok s \<Longrightarrow> claim_ok r \<Longrightarrow>
    store_holds reg_ok claim_ok probe_ok (snd (attach_rumor ext r time s))"
  by (simp add: attach_rumor_def Let_def claimed split: option.splits)

lemma adopted:
  "store_inv s \<Longrightarrow> store_holds reg_ok claim_ok probe_ok s \<Longrightarrow> (is_authorized ext r \<Longrightarrow> claim_ok r) \<Longrightarrow>
    store_holds reg_ok claim_ok probe_ok (snd (adopt_rumor ext r time s))"
  by (simp add: adopt_rumor_def Let_def claimed)

lemma probed:
  assumes "store_holds reg_ok claim_ok probe_ok s" "probe_ok (client_key c) t sg"
  shows "store_holds reg_ok claim_ok probe_ok (probe_with_evidence c time t sg s)"
  using assms(2) store_holdsD [OF assms(1)]
  by (intro store_holdsI) (auto simp: probe_with_evidence_def probe_def claims_of_def split: if_splits)

end

lemma store_new_holds: "store_holds reg_ok claim_ok probe_ok store_new"
  by (rule store_holdsI) (simp_all add: store_new_def claims_of_def)

end
