(* ===== verification/Types.thy ===== *)
theory Types
  imports Contracts
begin

text \<open>
  The model writes a Rust \<open>String\<close> as a list of numbers and a nonce as a list of bytes, so its types are
  wider than the source's. Every value the store builds from typed values is typed: strings
  are sequences of Unicode scalar values, nonces have eight bytes.
\<close>

definition typed_record :: "zone_record \<Rightarrow> bool" where
  "typed_record r \<longleftrightarrow> valid_str (record_name r) \<and> valid_str (record_value r)"

definition typed_rumor :: "registration_rumor \<Rightarrow> bool" where
  "typed_rumor r \<longleftrightarrow> valid_str (as_str (rumor_domain r)) \<and> token_wf (rumor_token r) \<and>
    valid_str (rumor_client_key r) \<and> valid_str (rumor_rdns r) \<and> list_all typed_record (rumor_records r)"

definition typed_registration :: "domain_name \<Rightarrow> registration \<Rightarrow> bool" where
  "typed_registration d reg \<longleftrightarrow> valid_str (as_str d) \<and> valid_str (reg_client_key reg) \<and> valid_str (reg_quota_key reg) \<and>
    token_wf (reg_token reg) \<and> list_all typed_record (reg_records reg) \<and>
    (\<forall>r. reg_rumor reg = Some r \<longrightarrow> typed_rumor r)"

definition typed_probe :: "rstring \<Rightarrow> u64 \<Rightarrow> bytes \<Rightarrow> bool" where
  "typed_probe ck t sg \<longleftrightarrow> valid_str ck"

section \<open>The strings the store derives\<close>

lemma valid_lower: "valid_str s \<Longrightarrow> valid_str (to_ascii_lowercase s)"
  by (auto simp: valid_str_def list_all_iff to_ascii_lowercase_def ascii_lower_def scalar_def)

lemma valid_subset: "valid_str s \<Longrightarrow> set t \<subseteq> set s \<Longrightarrow> valid_str t"
  unfolding valid_str_def list_all_iff by blast

lemma valid_trim: "valid_str s \<Longrightarrow> valid_str (trim s)" "valid_str s \<Longrightarrow> valid_str (trim_end_matches c s)"
  by (rule valid_subset, assumption, auto simp: trim_def trim_end_matches_def dest!: set_dropWhileD)+

lemma valid_quota_key: "valid_str s \<Longrightarrow> valid_str (quota_key s)"
  unfolding quota_key_def by (intro valid_lower valid_trim)

lemma valid_client_quota_key: "valid_str (rdns c) \<Longrightarrow> valid_str (client_quota_key c)"
  unfolding client_quota_key_def by (intro valid_lower valid_trim)

lemma valid_hex: "valid_str (hex_encode bs)"
proof -
  have "scalar (hex_digit n)" if "n < 16" for n using that by (auto simp: hex_digit_def scalar_def)
  moreover have "unat b div 16 < 16" for b :: u8 using unat_lt_pow [of b] by simp
  ultimately show ?thesis by (auto simp: hex_encode_def hex_byte_def valid_str_def list_all_iff)
qed

lemma valid_client_key: "valid_str (rdns c) \<Longrightarrow> valid_str (client_key c)"
  using valid_hex [of "verifying_key c"] by (auto simp: client_key_def valid_str_def lit_def scalar_def)

section \<open>The store keeps its types\<close>

interpretation typed: store_contract ext typed_registration typed_rumor typed_probe for ext
  by unfold_locales (simp add: typed_registration_def registration_from_rumor_def typed_rumor_def valid_quota_key)

abbreviation store_typed :: "registry_store \<Rightarrow> bool" where
  "store_typed \<equiv> store_holds typed_registration typed_rumor typed_probe"

text \<open>What Rust's types say about the arguments of the operations.\<close>

fun typed_event :: "store_event \<Rightarrow> bool" where
  "typed_event (EvProbe c time t sg) = valid_str (rdns c)"
| "typed_event (EvRegister drawn d c time) = (length drawn = 8 \<and> valid_str (as_str d) \<and> valid_str (rdns c))"
| "typed_event (EvSetRecords d c recs) = list_all typed_record recs"
| "typed_event (EvAttachRumor r time) = typed_rumor r"
| "typed_event (EvAdopt r time) = typed_rumor r"
| "typed_event _ = True"

lemma refresh_typed: "typed_rumor (refresh_rumor t sg r) = typed_rumor r"
  by (simp add: typed_rumor_def refresh_rumor_def)

lemma store_step_typed:
  assumes inv: "store_inv s" and typed: "store_typed s" and e: "typed_event e"
  shows "store_typed (store_step ext s e)"
proof (cases e)
  case (EvRegister drawn d c time)
  have "store_typed (snd (register ext drawn d c time s))"
    using e EvRegister by (intro typed.registered [OF inv typed])
      (simp add: typed_registration_def token_wf_def token_issue_def valid_client_key valid_client_quota_key)
  with EvRegister show ?thesis by simp
next
  case (EvSetRecords d c recs)
  have "store_typed (snd (set_records d c recs s))"
    using e EvSetRecords store_holdsD [OF typed]
    by (intro store_holdsI)
      (auto simp: set_records_def typed_registration_def claims_of_regs split: option.splits if_splits, metis+)
  with EvSetRecords show ?thesis by simp
next
  case (EvRefreshProbe ck t sg)
  have "store_typed (refresh_probe_evidence ck t sg s)"
  proof (rule store_holdsI)
    fix d reg
    assume "hm_get (registrations (refresh_probe_evidence ck t sg s)) d = Some reg"
    with store_holdsD(1) [OF typed, of d] show "typed_registration d reg"
      by (auto simp: typed_registration_def refresh_typed dest!: refresh_registrationD split: if_splits)
  next
    fix q d c
    assume "hm_get (claims_of (refresh_probe_evidence ck t sg s) q) d = Some c"
    with store_holdsD(2) [OF typed, of q d] show "typed_rumor c" by (auto simp: refresh_typed dest!: refresh_claimD)
  qed (use store_holdsD(3) [OF typed] in \<open>simp add: refresh_probe_evidence_def\<close>)
  with EvRefreshProbe show ?thesis by simp
next
  case (EvRecordEvidence d ck t sg)
  have "store_typed (attach_record_evidence d ck t sg s)"
  proof (rule store_holdsI)
    fix d' reg
    assume "hm_get (registrations (attach_record_evidence d ck t sg s)) d' = Some reg"
    with store_holdsD(1) [OF typed] show "typed_registration d' reg"
      by (auto simp: attach_record_evidence_def typed_registration_def typed_rumor_def split: option.splits if_splits)
  next
    fix q d' c
    assume "hm_get (claims_of (attach_record_evidence d ck t sg s) q) d' = Some c"
    with store_holdsD(2) [OF typed, of q d'] show "typed_rumor c"
      by (auto simp: typed_rumor_def dest!: attach_record_evidence_claimD)
  qed (use store_holdsD(3) [OF typed] in \<open>simp add: attach_record_evidence_def\<close>)
  with EvRecordEvidence show ?thesis by simp
qed (use typed e inv in \<open>simp_all add: typed.probed typed.attached typed.adopted typed.reclaim typed_probe_def valid_client_key\<close>)

lemma typed_history:
  "list_all typed_event es \<Longrightarrow> store_inv s \<Longrightarrow> store_typed s \<Longrightarrow> store_typed (foldl (store_step ext) s es)"
  by (induction es arbitrary: s) (simp_all add: store_step_typed store_step_inv)

end
