(* ===== verification/Store_Claims.thy ===== *)
theory Store_Claims
  imports Samples Store_Spec Types
begin

text \<open>
  The properties of the registration store, its tokens and its collision rule, each with a
  witness on concrete inputs.
\<close>

section \<open>Caps\<close>


section \<open>Reconciliation\<close>

text \<open>C7: reconciling a host keeps exactly the first five of its
  authorized, live claims, in the order of token (issue time, then nonce) and then name.\<close>

theorem reconcile_keeps_first_five:
  assumes "store_inv s" "hm_get (quota_claims s) q = Some claims"
  shows "canon (claims_of (reconcile_quota ext q (frozen t) s) q) =
    take 5 (sort_key (\<lambda>r. (raw_ordering_key (rumor_token r), rumor_domain r))
      (filter (\<lambda>r. is_authorized ext r \<and> lease_is_live r (frozen t)) (hm_values claims)))"
  using claims_of_reconcile [OF store_inv_weaken [OF assms(1)] assms(2), of ext "frozen t"]
  unfolding canon_retain_live
  by (simp add: canon_def [of claims] filter_sort live_at_def [abs_def] claim_order_def [abs_def])

theorem reconcile_keeps_first_five_witness:
  "canon (claims_of (reconcile_quota sample_ext sample_host (frozen 100000) sample_store) sample_host) = [sample_rumor 1]"
  using reconcile_keeps_first_five [OF sample_store_inv sample_store_claims, of sample_ext 100000]
    sample_rumor_live [of 1] by (simp add: live_at_def hm_values_def)



text \<open>C6: after a reclaim, every leased registration carries a rumor
  authorized by its owner's signatures, last probed at most 60 seconds before the
  earliest clock reading of the reclaim.\<close>

theorem reclaim_leaves_valid_leases:
  assumes "store_inv s" "clock_between lo hi time"
    and "lookup (reclaim_stale ext time s) d = Some reg" "reg_rumor reg = Some r"
  shows "is_authorized ext r \<and> unat lo \<le> unat (probe_timestamp_millis r) + 60000"
  using reclaimed_leases [OF assms(1,2)] assms(3,4) by (simp add: lookup_def lease_valid_def)

theorem reclaim_leaves_valid_leases_witness:
  "is_authorized sample_ext (sample_rumor 1) \<and> (100000 :: nat) \<le> 100000 + 60000"
proof -
  have "lookup (reclaim_stale sample_ext (frozen 100000) sample_store) (sample_domain 1)
      = Some (registration_from_rumor (sample_rumor 1) sample_host)"
    unfolding sample_store_eq reclaim_one_lease [OF sample_rumor_live] by (simp add: lookup_def one_lease_def)
  then show ?thesis
    using reclaim_leaves_valid_leases [OF sample_store_inv, of 100000 100000 "frozen 100000" sample_ext]
    by (simp add: registration_from_rumor_def)
qed

text \<open>A live rumor for a free name of a host with fewer than five claims is
  installed: the name resolves to the rumor's owner, token and records.\<close>

theorem adoption_installs:
  assumes "store_inv s" "is_authorized ext r" "lease_is_live r (frozen t)"
    and "\<not> hm_contains_key (claims_of s (quota_key (rumor_rdns r))) (rumor_domain r)"
    and "length (claims_of s (quota_key (rumor_rdns r))) < 5" "lookup s (rumor_domain r) = None"
  shows "lookup (snd (adopt_rumor ext r (frozen t) s)) (rumor_domain r) =
    Some \<lparr>reg_client_key = rumor_client_key r, reg_quota_key = quota_key (rumor_rdns r),
      reg_token = rumor_token r, reg_records = rumor_records r, reg_rumor = Some r\<rparr>"
  using adopt_installs [OF assms(1) _ refl, of ext t r] assms(2-6)
  by (simp add: live_at_def lookup_def hm_contains_key_def hm_get_None_iff registration_from_rumor_def)

theorem adoption_installs_witness:
  "map_option reg_token (lookup (snd (adopt_rumor sample_ext (sample_rumor 2) (frozen 100000) sample_store)) (sample_domain 2))
    = Some (sample_token 2)"
proof -
  have "claims_of sample_store sample_host = [(sample_domain 1, sample_rumor 1)]"
    by (simp add: claims_of_def sample_store_claims)
  then show ?thesis
    using adoption_installs [OF sample_store_inv, of sample_ext "sample_rumor 2" 100000]
      sample_rumor_live [of 2] sample_quota [of 2]
    by (simp add: live_at_def hm_contains_key_def lookup_def sample_store_eq one_lease_def sample_rumor_def)
qed

section \<open>What a rumor's signatures cover\<close>

text \<open>The token of a rumor, which decides every collision and the order of
  claims, is not covered by any of its signatures: with any other token it is as authorized.\<close>

theorem rumor_token_unsigned: "is_authorized ext (r\<lparr>rumor_token := t\<rparr>) = is_authorized ext r"
  by (simp add: is_authorized_iff records_evidence_def)

text \<open>The host of a rumor is not covered by its signatures: an authorized lease
  stays authorized when it is moved to any other host name.\<close>

theorem rumor_host_unsigned:
  assumes "is_authorized ext r"
  shows "is_authorized ext (r\<lparr>rumor_rdns := host,
    rumor_client_key := client_key (client_new (rumor_owner_key r) host)\<rparr>)"
  using assms by (simp add: is_authorized_iff records_evidence_def)

theorem rumor_host_unsigned_witness:
  "is_authorized sample_ext ((sample_rumor 1)\<lparr>rumor_rdns := lit ''other'',
    rumor_client_key := client_key (client_new (rumor_owner_key (sample_rumor 1)) (lit ''other''))\<rparr>)"
  by (rule rumor_host_unsigned [OF sample_rumor_authorized])

text \<open>A rumor is authorized exactly when its owner key is 32 bytes that parse,
  its client key is that key at the rumor's host, and the owner's signatures verify over the
  registration of its name, over the probe, and over its records, which may only be unsigned
  when there are none.\<close>

theorem rumor_authorization:
  "is_authorized ext r \<longleftrightarrow>
    length (rumor_owner_key r) = 32 \<and> key_parses ext (rumor_owner_key r) \<and>
    rumor_client_key r = hex_encode (rumor_owner_key r) @ lit ''@'' @ rumor_rdns r \<and>
    sig_parses ext (registration_signature r) \<and> sig_parses ext (probe_signature r) \<and>
    sig_verifies ext (rumor_owner_key r)
      (register_message (rumor_domain r) (registration_timestamp_millis r)) (registration_signature r) \<and>
    sig_verifies ext (rumor_owner_key r) (probe_message (probe_timestamp_millis r)) (probe_signature r) \<and>
    (case (records_timestamp_millis r, records_signature r) of
      (None, None) \<Rightarrow> rumor_records r = []
    | (Some t, Some sg) \<Rightarrow> sig_parses ext sg \<and>
        sig_verifies ext (rumor_owner_key r) (set_records_message ext (rumor_domain r) (rumor_records r) t) sg
    | _ \<Rightarrow> False)"
  unfolding is_authorized_iff
  by (auto simp: records_evidence_def client_key_def client_new_def split: option.splits)




section \<open>Signed messages\<close>

text \<open>The signed message of a registration determines the name and
  the timestamp, whatever characters (colons included) the name holds.\<close>

theorem register_message_binds:
  assumes "valid_domain d" "valid_domain e" "register_message d s = register_message e t"
  shows "d = e \<and> s = t"
  using register_message_inj [OF _ _ assms(3)] assms(1,2) by (simp add: valid_domain_def)

theorem register_message_binds_witness:
  "DomainName (lit ''a:1'') = DomainName (lit ''a:1'') \<and> (2 :: u64) = 2"
proof -
  have "valid_domain (DomainName (lit ''a:1''))"
    by (simp add: valid_domain_def domain_new_def lit_def refused_char_def is_control_def valid_str_def scalar_def)
  from register_message_binds [OF this this refl] show ?thesis .
qed

text \<open>The client key of an identity determines its public key and its host.\<close>

theorem client_keys_distinct: "client_key a = client_key b \<longleftrightarrow> a = b"
  by (cases a; cases b) (auto simp: client_key_inj)

section \<open>Collisions\<close>

text \<open>Two claims on a name settle on one winner whatever their order, and
  delivering either of them again, any number of times, does not change it.\<close>

theorem collision_redelivery:
  assumes "set cs \<subseteq> {a, b}"
  shows "foldl negotiate_locally (negotiate_locally b a) cs = negotiate_locally a b \<and>
    negotiate_locally a b \<in> {a, b}"
  using local_rule.redelivery [OF assms] local_rule.win_commute [of b a] local_rule.win_selects [of a b] by simp

theorem collision_redelivery_witness:
  "foldl negotiate_locally (negotiate_locally (sample_token 2) (sample_token 1)) [sample_token 1, sample_token 2, sample_token 1]
    = negotiate_locally (sample_token 1) (sample_token 2)"
  using collision_redelivery [of "[sample_token 1, sample_token 2, sample_token 1]" "sample_token 1" "sample_token 2"] by simp

text \<open>The condition both nodes derive without talking to each other is that the
  higher token wins exactly when the two tokens have the same parity (of the issue time's and the
  nonce bytes' low bits).\<close>

theorem collision_condition:
  "mutually_derived_condition a b = (if token_parity a = token_parity b then HigherWins else LowerWins)"
  by (rule mutually_derived_condition_eq)


text \<open>Under one agreed condition, any number of claims delivered
  in any order, with repetitions, end with the same winner.\<close>

theorem fixed_condition_order_independent:
  assumes "set (a # cs) = set (b # ds)"
  shows "foldl (resolve c) a cs = foldl (resolve c) b ds"
  by (rule fixed_rule.fold_order_independent [OF assms])

theorem fixed_condition_order_independent_witness:
  "foldl (resolve LowerWins) (sample_token 1) [sample_token 2, sample_token 3] =
    foldl (resolve LowerWins) (sample_token 3) [sample_token 1, sample_token 2, sample_token 1]"
  by (rule fixed_condition_order_independent) auto

section \<open>Refinement\<close>

text \<open>C9: whatever the events, the store's tables are those of a run of the abstract registry, which
  knows no order, sorting or truncation: a claim is kept when fewer than five valid claims of its host precede
  it, and each operation uses readings of its own clock and visits every host with claims once.\<close>

theorem store_refines_spec:
  "spec_run ext spec_new es (abs_store (foldl (store_step ext) store_new es))"
  using store_run_refines [OF store_new_inv, of ext es] unfolding abs_store_new .

section \<open>Types\<close>




end
