(* ===== verification/Ntp.thy ===== *)
theory Ntp
  imports Liveness "HOL-Library.Signed_Division"
begin

text \<open>
  \<open>binda-core/src/ntp.rs\<close>: the clock offset measured against NTP servers. A reading of the
  operating system's clock is the number of nanoseconds since the Unix epoch (0 before it, as
  \<open>unwrap_or_default\<close> has it). \<open>i64\<close> values are integers, every operation followed by the wrap to
  64 bits; \<open>/\<close> truncates. What the network does in one exchange is a record.
\<close>

definition ntp_unix_epoch_delta_secs :: u64 where "ntp_unix_epoch_delta_secs = 2208988800"

definition default_ntp_servers :: "rstring list" where
  "default_ntp_servers =
    [lit ''pool.ntp.org:123'', lit ''time.cloudflare.com:123'', lit ''time.google.com:123'']"

definition default_poll_interval_secs :: nat where "default_poll_interval_secs = 300"

definition wrap_i64 :: "int \<Rightarrow> int" where "wrap_i64 x = signed_take_bit 63 x"

text \<open>\<open>Duration::as_millis() as i64\<close>.\<close>

definition millis_i64 :: "nat \<Rightarrow> int" where "millis_i64 nanos = wrap_i64 (int (nanos div 1000000))"

section \<open>Timestamps\<close>

definition write_ntp_timestamp :: "nat \<Rightarrow> bytes" where
  "write_ntp_timestamp nanos =
    (let secs = (of_nat (nanos div 1000000000) :: u64) + ntp_unix_epoch_delta_secs;
         frac = (push_bit 32 (of_nat (nanos mod 1000000000)) :: u64) div 1000000000
     in u32_be (ucast secs) @ u32_be (ucast frac))"

definition read_ntp_timestamp :: "bytes \<Rightarrow> nat" where
  "read_ntp_timestamp buf =
    (let secs = (ucast (u32_of_be (take 4 buf)) :: u64);
         frac = (ucast (u32_of_be (take 4 (drop 4 buf))) :: u64);
         unix_secs = saturating_sub secs ntp_unix_epoch_delta_secs;
         nanos = drop_bit 32 (frac * 1000000000)
     in unat unix_secs * 1000000000 + unat (ucast nanos :: u32))"

section \<open>One query\<close>

text \<open>The clock before sending and after receiving, and the datagram that answers a packet
  (\<open>None\<close> for every error of the socket calls, a timeout included).\<close>

record ntp_exchange =
  clock_before :: nat
  datagram :: "bytes \<Rightarrow> bytes option"
  clock_after :: nat

definition ntp_request :: "nat \<Rightarrow> bytes" where
  "ntp_request t1 = [0x23] @ replicate 39 0 @ write_ntp_timestamp t1"

definition offset_of :: "int \<Rightarrow> int \<Rightarrow> int \<Rightarrow> int \<Rightarrow> int" where
  "offset_of t1 t2 t3 t4 =
    wrap_i64 (wrap_i64 (wrap_i64 (t2 - t1) + wrap_i64 (t3 - t4)) sdiv 2)"

definition query_offset_millis :: "ntp_exchange \<Rightarrow> int option" where
  "query_offset_millis x =
    (case datagram x (ntp_request (clock_before x)) of
      None \<Rightarrow> None
    | Some reply \<Rightarrow>
        if length reply < 48 then None
        else
          let reply = take 48 reply;
              t2 = read_ntp_timestamp (take 8 (drop 32 reply));
              t3 = read_ntp_timestamp (take 8 (drop 40 reply))
          in Some (offset_of (millis_i64 (clock_before x)) (millis_i64 t2) (millis_i64 t3)
               (millis_i64 (clock_after x))))"

section \<open>The time source\<close>

record ntp_time_source =
  offset_millis :: int
  synced :: bool

definition ntp_new :: ntp_time_source where
  "ntp_new = \<lparr>offset_millis = 0, synced = False\<rparr>"

text \<open>\<open>sync_once\<close>: the exchanges with the servers, in the order of the list.\<close>

fun sync_once :: "ntp_exchange list \<Rightarrow> ntp_time_source \<Rightarrow> ntp_time_source" where
  "sync_once [] src = src"
| "sync_once (x # xs) src =
    (case query_offset_millis x of
      Some offset \<Rightarrow> src\<lparr>offset_millis := offset, synced := True\<rparr>
    | None \<Rightarrow> sync_once xs src)"

text \<open>\<open>spawn\<close>: one pass at once, then one after every poll interval by the background thread.\<close>

definition ntp_spawn :: "ntp_exchange list \<Rightarrow> ntp_time_source" where
  "ntp_spawn xs = sync_once xs ntp_new"

definition ntp_after_polls :: "ntp_exchange list \<Rightarrow> ntp_exchange list list \<Rightarrow> ntp_time_source" where
  "ntp_after_polls xs polls = foldl (\<lambda>src xs. sync_once xs src) (ntp_spawn xs) polls"

definition ntp_now_millis :: "ntp_time_source \<Rightarrow> nat \<Rightarrow> u64" where
  "ntp_now_millis src local_nanos =
    of_int (max (wrap_i64 (millis_i64 local_nanos + offset_millis src)) 0)"

section \<open>Facts\<close>

lemma wrap_i64_id: "- (2 ^ 63) \<le> x \<Longrightarrow> x < 2 ^ 63 \<Longrightarrow> wrap_i64 x = x"
  by (simp add: wrap_i64_def signed_take_bit_int_eq_self)

lemma millis_i64_id: "nanos div 1000000 < 2 ^ 63 \<Longrightarrow> millis_i64 nanos = int (nanos div 1000000)"
  unfolding millis_i64_def by (rule wrap_i64_id) simp_all

lemma offset_of_exact:
  assumes "0 \<le> t1" "t1 < 2 ^ 60" "0 \<le> t2" "t2 < 2 ^ 60" "0 \<le> t3" "t3 < 2 ^ 60" "0 \<le> t4" "t4 < 2 ^ 60"
  shows "offset_of t1 t2 t3 t4 = ((t2 - t1) + (t3 - t4)) sdiv 2"
proof -
  have s: "\<bar>x sdiv 2\<bar> \<le> \<bar>x\<bar>" for x :: int by (auto simp: signed_divide_int_def sgn_if)
  have "wrap_i64 (t2 - t1) = t2 - t1" "wrap_i64 (t3 - t4) = t3 - t4"
    "wrap_i64 ((t2 - t1) + (t3 - t4)) = (t2 - t1) + (t3 - t4)"
    using assms by (intro wrap_i64_id; simp)+
  moreover have "wrap_i64 (((t2 - t1) + (t3 - t4)) sdiv 2) = ((t2 - t1) + (t3 - t4)) sdiv 2"
  proof -
    have "\<bar>(t2 - t1) + (t3 - t4)\<bar> < 2 ^ 62" using assms by (simp add: abs_less_iff)
    with s have "\<bar>((t2 - t1) + (t3 - t4)) sdiv 2\<bar> < 2 ^ 62" by (rule le_less_trans)
    then show ?thesis by (intro wrap_i64_id) (simp_all add: abs_less_iff)
  qed
  ultimately show ?thesis by (simp add: offset_of_def)
qed

lemma sdiv_2: "\<bar>2 * (x sdiv 2) - x\<bar> \<le> (1 :: int)"
  by (auto simp: signed_divide_int_def sgn_if abs_if)

text \<open>The offset is the server's lead over the local clock, up to half the difference of the
  two network delays.\<close>

lemma offset_error:
  assumes "0 \<le> t1" "t1 < 2 ^ 59" "\<bar>lead\<bar> < 2 ^ 57" "0 \<le> out" "out < 2 ^ 57" "0 \<le> back" "back < 2 ^ 57"
    "0 \<le> stay" "stay < 2 ^ 57" "0 \<le> t1 + lead"
  shows "\<bar>2 * (offset_of t1 (t1 + lead + out) (t1 + lead + out + stay) (t1 + out + stay + back) - lead)\<bar>
    \<le> \<bar>out - back\<bar> + 1"
proof -
  let ?x = "((t1 + lead + out) - t1) + ((t1 + lead + out + stay) - (t1 + out + stay + back))"
  have x: "?x = 2 * lead + (out - back)" by simp
  have eq: "offset_of t1 (t1 + lead + out) (t1 + lead + out + stay) (t1 + out + stay + back) = ?x sdiv 2"
    using assms by (intro offset_of_exact) (simp_all add: abs_less_iff)
  have "\<bar>2 * y - (2 * lead + e)\<bar> \<le> 1 \<Longrightarrow> \<bar>2 * (y - lead)\<bar> \<le> \<bar>e\<bar> + 1" for y e :: int by arith
  then show ?thesis using sdiv_2 [of ?x] unfolding eq x .
qed

section \<open>Timestamps keep the time to a nanosecond, until 2036\<close>

lemma unat_secs:
  assumes "secs + 2208988800 < 2 ^ 64"
  shows "unat ((of_nat secs :: u64) + ntp_unix_epoch_delta_secs) = secs + 2208988800"
proof -
  have "(of_nat secs :: u64) + ntp_unix_epoch_delta_secs = of_nat (secs + 2208988800)"
    by (simp add: ntp_unix_epoch_delta_secs_def)
  then show ?thesis using assms by (simp only: unat_of_nat) simp
qed

lemma unat_frac:
  assumes "n < 1000000000"
  shows "unat ((push_bit 32 (of_nat n) :: u64) div 1000000000) = n * 4294967296 div 1000000000"
proof -
  have "(push_bit 32 (of_nat n) :: u64) = of_nat (n * 4294967296)"
    by (simp add: push_bit_eq_mult)
  moreover have "n * 4294967296 < 2 ^ 64" using assms by simp
  ultimately have "unat (push_bit 32 (of_nat n) :: u64) = n * 4294967296"
    by (simp only: unat_of_nat) simp
  then show ?thesis by (simp add: unat_div)
qed

lemma frac_less: "n < 1000000000 \<Longrightarrow> n * 4294967296 div 1000000000 < (4294967296 :: nat)"
  by (simp add: less_mult_imp_div_less)

lemma unat_ucast_u32: "unat (ucast (w :: u64) :: u32) = unat w mod 4294967296"
  by (simp add: unsigned_ucast_eq take_bit_eq_mod)

lemma unat_ucast_u64: "unat (ucast (w :: u32) :: u64) = unat w"
proof -
  have "unat w < 2 ^ 64" using unat_lt_pow [of w] by simp
  then show ?thesis by (simp add: unsigned_ucast_eq take_bit_eq_mod)
qed

lemma unat_nanos:
  assumes "f < 4294967296"
  shows "unat (ucast (drop_bit 32 ((of_nat f :: u64) * 1000000000)) :: u32) = f * 1000000000 div 4294967296"
proof -
  have "(of_nat f :: u64) * 1000000000 = of_nat (f * 1000000000)" by simp
  moreover have "f * 1000000000 < 2 ^ 64" using assms by simp
  ultimately have "unat ((of_nat f :: u64) * 1000000000) = f * 1000000000" by (simp only: unat_of_nat) simp
  moreover have "drop_bit 32 (w :: u64) = w div 4294967296" for w by (simp add: drop_bit_eq_div)
  ultimately have "unat (drop_bit 32 ((of_nat f :: u64) * 1000000000)) = f * 1000000000 div 4294967296"
    by (simp only: unat_div) simp
  moreover have "f * 1000000000 div 4294967296 < 4294967296" using assms by (simp add: less_mult_imp_div_less)
  ultimately show ?thesis by (simp add: unat_ucast_u32)
qed

lemma read_write_ntp_timestamp:
  assumes "nanos div 1000000000 + 2208988800 < 2 ^ 64"
  shows "read_ntp_timestamp (write_ntp_timestamp nanos) =
    ((nanos div 1000000000 + 2208988800) mod 4294967296 - 2208988800) * 1000000000 +
    nanos mod 1000000000 * 4294967296 div 1000000000 * 1000000000 div 4294967296"
proof -
  let ?n = "nanos mod 1000000000" and ?s = "nanos div 1000000000"
  let ?secs = "(of_nat ?s :: u64) + ntp_unix_epoch_delta_secs"
  let ?frac = "(push_bit 32 (of_nat ?n) :: u64) div 1000000000"
  let ?f = "?n * 4294967296 div 1000000000"
  have n: "?n < 1000000000" by simp
  have u32: "u32_of_be (take 4 (write_ntp_timestamp nanos)) = ucast ?secs"
    "u32_of_be (take 4 (drop 4 (write_ntp_timestamp nanos))) = ucast ?frac"
    by (simp_all add: write_ntp_timestamp_def Let_def)
  have frac: "(ucast (ucast ?frac :: u32) :: u64) = of_nat ?f"
  proof -
    have "unat (ucast (ucast ?frac :: u32) :: u64) = ?f"
      using unat_frac [OF n] frac_less [OF n] by (simp only: unat_ucast_u64 unat_ucast_u32) simp
    from arg_cong [OF this, of "of_nat :: nat \<Rightarrow> u64"] show ?thesis by simp
  qed
  have secs: "unat (saturating_sub (ucast (ucast ?secs :: u32) :: u64) ntp_unix_epoch_delta_secs)
      = (?s + 2208988800) mod 4294967296 - 2208988800"
    using unat_secs [OF assms]
    by (simp only: unat_saturating_sub unat_ucast_u64 unat_ucast_u32) (simp add: ntp_unix_epoch_delta_secs_def)
  show ?thesis
    unfolding read_ntp_timestamp_def Let_def u32 frac secs unat_nanos [OF frac_less [OF n]] ..
qed

lemma nanos_round:
  fixes n :: nat
  defines "f \<equiv> n * 4294967296 div 1000000000"
  shows "f * 1000000000 div 4294967296 \<le> n" "n \<le> f * 1000000000 div 4294967296 + 1"
proof -
  have "f * 1000000000 \<le> n * 4294967296" unfolding f_def by (rule div_times_less_eq_dividend)
  then have "f * 1000000000 div 4294967296 \<le> n * 4294967296 div 4294967296" by (rule div_le_mono)
  then show "f * 1000000000 div 4294967296 \<le> n" by simp
  have "n * 4294967296 = f * 1000000000 + n * 4294967296 mod 1000000000"
    unfolding f_def by (rule div_mult_mod_eq [symmetric])
  moreover have "n * 4294967296 mod 1000000000 < 1000000000" by simp
  ultimately have "(n - 1) * 4294967296 \<le> f * 1000000000" by (simp add: diff_mult_distrib)
  then have "n - 1 \<le> f * 1000000000 div 4294967296" by (simp add: less_eq_div_iff_mult_less_eq)
  then show "n \<le> f * 1000000000 div 4294967296 + 1" by simp
qed

lemma ntp_timestamp_error:
  assumes "nanos div 1000000000 < 2085978496"
  shows "read_ntp_timestamp (write_ntp_timestamp nanos) \<le> nanos"
    and "nanos \<le> read_ntp_timestamp (write_ntp_timestamp nanos) + 1"
proof -
  have "read_ntp_timestamp (write_ntp_timestamp nanos) = nanos div 1000000000 * 1000000000 +
      nanos mod 1000000000 * 4294967296 div 1000000000 * 1000000000 div 4294967296"
    using assms by (subst read_write_ntp_timestamp) simp_all
  moreover have "nanos = nanos div 1000000000 * 1000000000 + nanos mod 1000000000" by simp
  ultimately show "read_ntp_timestamp (write_ntp_timestamp nanos) \<le> nanos"
    "nanos \<le> read_ntp_timestamp (write_ntp_timestamp nanos) + 1"
    using nanos_round [of "nanos mod 1000000000"] by linarith+
qed

text \<open>From 7 February 2036, when the seconds of the format wrap, every timestamp of the next
  68 years is read as the first second of 1970.\<close>

lemma ntp_timestamp_wraps:
  assumes "2085978496 \<le> nanos div 1000000000" "nanos div 1000000000 < 4294967296"
  shows "read_ntp_timestamp (write_ntp_timestamp nanos) < 1000000000"
proof -
  have "(nanos div 1000000000 + 2208988800) mod 4294967296 = nanos div 1000000000 + 2208988800 - 4294967296"
    using assms by (simp add: le_mod_geq)
  then have "read_ntp_timestamp (write_ntp_timestamp nanos) =
      nanos mod 1000000000 * 4294967296 div 1000000000 * 1000000000 div 4294967296"
    using assms by (subst read_write_ntp_timestamp) simp_all
  moreover have "nanos mod 1000000000 < 1000000000" by simp
  ultimately show ?thesis using nanos_round(1) [of "nanos mod 1000000000"] by linarith
qed

section \<open>Synchronization\<close>

lemma sync_once_first:
  "sync_once xs src =
    (case filter (\<lambda>x. query_offset_millis x \<noteq> None) xs of
      [] \<Rightarrow> src
    | x # _ \<Rightarrow> src\<lparr>offset_millis := the (query_offset_millis x), synced := True\<rparr>)"
  by (induction xs) (auto split: option.splits)

lemma sync_once_synced: "synced src \<Longrightarrow> synced (sync_once xs src)"
  by (auto simp: sync_once_first split: list.splits)

lemma ntp_now_exact:
  assumes "int (local_nanos div 1000000) + offset_millis src < 2 ^ 63"
    "local_nanos div 1000000 < 2 ^ 62" "- (2 ^ 62) \<le> offset_millis src"
  shows "int (unat (ntp_now_millis src local_nanos)) = max (int (local_nanos div 1000000) + offset_millis src) 0"
proof -
  have m: "millis_i64 local_nanos = int (local_nanos div 1000000)" using assms(2) by (intro millis_i64_id) simp
  have "wrap_i64 (int (local_nanos div 1000000) + offset_millis src) = int (local_nanos div 1000000) + offset_millis src"
    using assms by (intro wrap_i64_id) simp_all
  moreover have "uint (of_int (max x 0) :: u64) = max x 0" if "x < 2 ^ 63" for x :: int
    using that by (simp add: unsigned_of_int take_bit_int_eq_self)
  ultimately show ?thesis using assms(1) by (simp add: ntp_now_millis_def m)
qed

end
