(* ===== verification/Codec_Claims.thy ===== *)
theory Codec_Claims
  imports Samples Ntp
begin

text \<open>
  The properties of names, of their encodings and of the lookup protocol, each with a witness on
  concrete inputs.
\<close>

section \<open>Names\<close>

text \<open>The constructor accepts exactly the non-empty names without control
  characters and ASCII spaces whose labels are all non-empty, and keeps them unchanged.\<close>

theorem domain_new_accepts:
  "domain_new raw = Inr d \<longleftrightarrow>
    d = DomainName raw \<and> raw \<noteq> [] \<and> list_all (\<lambda>c. \<not> is_control c \<and> c \<noteq> 0x20) raw \<and>
    \<not> List.member (split_on dot raw) []"
  using domain_new_Inr [of raw d] by (simp add: refused_char_def)

text \<open>A refused name reports the byte offset, in UTF-8, of its first refused
  character.\<close>

theorem domain_new_offset:
  assumes "list_all (\<lambda>c. \<not> refused_char c) p" "refused_char c"
  shows "domain_new (p @ c # rest) = Inl (NonPrintableChar (length (utf8 p)))"
proof -
  have "first_refused 0 (p @ c # rest) = Some (length (utf8 p))"
    using assms by (auto simp: first_refused_Some)
  then show ?thesis by (simp add: domain_new_def)
qed

theorem domain_new_offset_witness:
  "domain_new (233 # 32 # lit ''x'') = Inl (NonPrintableChar 2)"
  using domain_new_offset [of "[233]" 32 "lit ''x''"] by (simp add: refused_char_def is_control_def utf8_char_def)

text \<open>Names that consist of an invisible format character (U+200B) or of a Unicode
  space (U+3000) are accepted.\<close>

theorem invisible_names:
  "domain_new [0x200B] = Inr (DomainName [0x200B]) \<and> domain_new [0x3000] = Inr (DomainName [0x3000])"
  by (simp add: domain_new_Inr refused_char_def is_control_def)

text \<open>The order of names is the order of their UTF-8 bytes.\<close>

theorem domain_order_is_byte_order:
  assumes "valid_domain a" "valid_domain b"
  shows "a < b \<longleftrightarrow> utf8 (as_str a) < utf8 (as_str b)"
  by (rule domain_less_utf8 [OF assms])

lemma valid_sample: "valid_domain (DomainName [233])" "valid_domain (DomainName [98])"
  by (simp_all add: valid_domain_def domain_new_Inr refused_char_def is_control_def valid_str_def scalar_def)

theorem domain_order_is_byte_order_witness:
  "DomainName [98] < DomainName [233] \<and> utf8 [98] < utf8 [233]"
  using domain_order_is_byte_order [OF valid_sample(2) valid_sample(1)]
  by (simp add: less_domain_name_def)

text \<open>Two spellings of a host that differ in letter case and in trailing dots
  share one quota key, hence one quota.\<close>

theorem quota_key_canonical:
  assumes "host \<noteq> []" "\<not> is_whitespace (last host)" "to_ascii_lowercase host' = to_ascii_lowercase host"
  shows "client_quota_key (client_new k (host @ replicate n dot)) = client_quota_key (client_new k' host')"
proof -
  have "client_quota_key (client_new k (host @ replicate n dot)) = client_quota_key (client_new k host)"
    using assms(1,2) by (intro quota_key_trailing_dots) (simp_all add: client_new_def)
  also have "\<dots> = client_quota_key (client_new k' host')"
    using assms(3) by (intro quota_key_case) (simp add: client_new_def)
  finally show ?thesis .
qed

theorem quota_key_canonical_witness:
  "client_quota_key (client_new (sample_key 1) (lit ''Host..'')) = client_quota_key (client_new (sample_key 2) (lit ''hOST''))"
  using quota_key_canonical [of "lit ''Host''" "lit ''hOST''" "sample_key 1" "Suc (Suc 0)" "sample_key 2"]
  by (simp add: lit_def is_whitespace_def to_ascii_lowercase_def ascii_lower_def)

text \<open>Decoding accepts a byte list exactly when it is the UTF-8 encoding of a string
  of scalar values, and returns that string.\<close>

theorem utf8_decoding_exact: "from_utf8 bs = Some s \<longleftrightarrow> valid_str s \<and> utf8 s = bs"
  using from_utf8_Some [of bs s] from_utf8_utf8 [of s] by auto

section \<open>The lookup protocol\<close>

text \<open>A response parses back to the query it answers: identifier, name, type and class.\<close>

theorem response_echoes_query:
  assumes "valid_domain (dq_domain q)" "list_all (\<lambda>l. length (utf8 l) < 2 ^ 32) (labels (dq_domain q))"
  shows "parse_query (build_response q domain_exists recs) = Inr q"
  using assms by (intro parse_build_response) (simp only: wire_domain_def)

definition sample_query :: dns_query where
  "sample_query = \<lparr>dq_id = 7, dq_domain = DomainName (lit ''a.b''), dq_qtype = 255, dq_qclass = 1\<rparr>"

lemma sample_query_ok: "valid_domain (dq_domain sample_query)"
    "list_all (\<lambda>l. length (utf8 l) < 2 ^ 32) (labels (dq_domain sample_query))" "wire_domain (dq_domain sample_query)"
  by (simp_all add: wire_domain_def sample_query_def labels_def valid_domain_def domain_new_Inr lit_def refused_char_def
      is_control_def valid_str_def scalar_def utf8_char_def)

theorem response_echoes_query_witness:
  "parse_query (build_response sample_query False []) = Inr sample_query"
  by (rule response_echoes_query [OF sample_query_ok(1,2)])



definition txt_record :: zone_record where
  "txt_record = \<lparr>record_name = lit ''@'', record_type_of = RecTxt, ttl_secs = 60, record_value = lit ''x''\<rparr>"


text \<open>The answer count of the header is the number of answers modulo 65536.\<close>

theorem answer_count_wraps:
  "unat (u16_of_be (take 2 (drop 6 (build_response q e rs)))) = length (answers_of (dq_domain q) rs) mod 65536"
  unfolding ancount by (simp add: unat_of_nat)

text \<open>A message that parses as a query carries non-empty valid UTF-8 labels from byte 12
  on whose dotted concatenation is the name, and the name is one the constructor accepts.\<close>

theorem accepted_queries:
  assumes "parse_query bs = Inr q"
  shows "valid_domain (dq_domain q) \<and> (\<exists>ls rest. list_all label_ok ls \<and>
    as_str (dq_domain q) = join_with dot ls \<and> drop 12 bs = encode_labels ls @ rest)"
  using parse_query_Inr [OF assms] by simp

theorem accepted_queries_witness:
  "valid_domain (dq_domain sample_query)"
  using accepted_queries [OF parse_build_response [OF sample_query_ok(3)], of False "[]"] by simp

text \<open>Two different questions, one with the labels \<open>a\<close> and \<open>b\<close>, one with the single
  label \<open>a.b\<close>, parse to the same query, so the response to one of them does not echo its question.\<close>

theorem question_not_verbatim:
  "parse_query dotted_question = Inr (sample_query\<lparr>dq_qtype := 1\<rparr>) \<and>
    drop 12 dotted_question \<noteq> drop 12 (build_response (sample_query\<lparr>dq_qtype := 1\<rparr>) e [])"
proof -
  let ?q = "sample_query\<lparr>dq_qtype := 1\<rparr>"
  have ok: "\<forall>l\<in>set [lit ''a.b'']. label_ok l"
    by (simp add: label_ok_def lit_def valid_str_def scalar_def utf8_char_def)
  let ?header = "u16_be 7 @ u16_be 0 @ u16_be 1 @ u16_be 0 @ u16_be 0 @ u16_be 0"
  have header: "length ?header = 12" by simp
  have bs: "dotted_question = ?header @ encode_labels [lit ''a.b''] @ u16_be 1 @ u16_be 1"
    by (simp add: dotted_question_def)
  have len: "length (encode_labels [lit ''a.b'']) = 11"
    by (simp add: encode_labels_def encode_label_def lit_def utf8_char_def)
  have "parse_labels dotted_question 12 = Inr ([lit ''a.b''], 12 + 11)"
    using parse_labels_encode [OF ok, of ?header "u16_be 1 @ u16_be 1"] unfolding bs header len .
  moreover have "read_u16 dotted_question 23 = Inr 1"
    using read_u16_at [of "?header @ encode_labels [lit ''a.b'']" 23 1 "u16_be 1"] len by (simp add: bs)
  moreover have "read_u16 dotted_question 25 = Inr 1"
    using read_u16_at [of "?header @ encode_labels [lit ''a.b''] @ u16_be 1" 25 1 "[]"] len by (simp add: bs)
  moreover have "u16_of_be [dotted_question ! 0, dotted_question ! 1] = 7" "u16_of_be [dotted_question ! 4, dotted_question ! 5] = 1"
    using u16_of_be_pair [of 7] u16_of_be_pair [of 1] by (simp_all add: bs nth_append)
  moreover have "domain_new (join_with dot [lit ''a.b'']) = Inr (DomainName (lit ''a.b''))"
    using sample_query_ok(1) by (simp add: sample_query_def valid_domain_def)
  ultimately have "parse_query dotted_question = Inr ?q"
    using len by (simp add: parse_query_def Let_def bs sample_query_def)
  moreover have "drop 12 dotted_question \<noteq> drop 12 (build_response ?q e [])"
  proof
    assume eq: "drop 12 dotted_question = drop 12 (build_response ?q e [])"
    have response: "drop 12 (build_response ?q e []) = encode_labels [lit ''a'', lit ''b''] @ u16_be 1 @ u16_be 1"
      by (simp add: build_response_def Let_def encode_domain_labels_eq sample_query_def labels_def lit_def)
    have labels: "list_all label_ok [lit ''a.b'']" "list_all label_ok [lit ''a'', lit ''b'']"
      by (simp_all add: label_ok_def lit_def valid_str_def scalar_def utf8_char_def)
    have "drop 12 dotted_question = encode_labels [lit ''a.b''] @ u16_be 1 @ u16_be 1" by (simp add: bs)
    with eq response have "encode_labels [lit ''a.b''] @ u16_be 1 @ u16_be 1 = encode_labels [lit ''a'', lit ''b''] @ u16_be 1 @ u16_be 1"
      by simp
    from dns_name.enc_append_inj [OF labels this] show False by simp
  qed
  ultimately show ?thesis by blast
qed

text \<open>Text data, split into chunks of at most 255 bytes, is read back whole.\<close>

theorem text_data_round_trip:
  assumes "record_type_of r = RecTxt" "encode_rdata r = Inr rdata"
  shows "read_txt rdata = Some (utf8 (record_value r))"
  using assms read_encode_txt [of "utf8 (record_value r)"] by (auto simp: encode_rdata_def)

theorem text_data_round_trip_witness: "read_txt (encode_txt (utf8 (lit ''x''))) = Some (utf8 (lit ''x''))"
  using text_data_round_trip [of txt_record "encode_txt (utf8 (lit ''x''))"] by (simp add: txt_record_def encode_rdata_def)

end
