(* ===== verification/Name_Loop.thy ===== *)
theory Name_Loop
  imports Fcrdns "HOL-Library.While_Combinator"
begin

text \<open>
  The loop of \<open>read_name\<close> in \<open>binda-core/src/fcrdns.rs\<close> as it is written, with its mutable variables, and
  the number of iterations it takes at most. \<open>Fcrdns\<close> has the same function by recursion, as the
  parsers that call it need it.
\<close>

record name_loop =
  nl_labels :: "rstring list"
  nl_pos :: nat
  nl_end :: "nat option"
  nl_jumps :: nat

text \<open>After an iteration the loop goes on, is left by \<open>break\<close>, or the function has returned \<open>None\<close>.\<close>

datatype name_state = Running name_loop | Broke name_loop | Failed

definition read_name_body :: "bytes \<Rightarrow> name_loop \<Rightarrow> name_state" where
  "read_name_body buf v =
    (let pos = nl_pos v in
     if length buf \<le> pos then Failed
     else
       let len = buf ! pos
       in if len = 0 then Broke (if nl_end v = None then v\<lparr>nl_end := Some (pos + 1)\<rparr> else v)
          else if len AND 0xC0 = 0xC0 then
            if length buf \<le> pos + 1 then Failed
            else
              let second = unat (buf ! (pos + 1));
                  v = (if nl_end v = None then v\<lparr>nl_end := Some (pos + 2)\<rparr> else v);
                  v = v\<lparr>nl_jumps := nl_jumps v + 1\<rparr>
              in if 32 < nl_jumps v then Failed
                 else Running (v\<lparr>nl_pos := unat (len AND 0x3F) * 256 + second\<rparr>)
          else
            let pos = pos + 1
            in case get_range buf pos (unat len) of
              None \<Rightarrow> Failed
            | Some label \<Rightarrow>
                Running (v\<lparr>nl_labels := nl_labels v @ [from_utf8_lossy label], nl_pos := pos + unat len\<rparr>))"

fun read_name_iteration :: "bytes \<Rightarrow> name_state \<Rightarrow> name_state" where
  "read_name_iteration buf (Running v) = read_name_body buf v"
| "read_name_iteration buf s = s"

fun is_running :: "name_state \<Rightarrow> bool" where
  "is_running (Running _) = True"
| "is_running _ = False"

fun name_of_state :: "name_state \<Rightarrow> (rstring \<times> nat) option" where
  "name_of_state (Broke v) =
    Some (join_with dot (nl_labels v), case nl_end v of Some e \<Rightarrow> e | None \<Rightarrow> nl_pos v)"
| "name_of_state _ = None"

definition name_start :: "nat \<Rightarrow> name_state" where
  "name_start start = Running \<lparr>nl_labels = [], nl_pos = start, nl_end = None, nl_jumps = 0\<rparr>"

text \<open>The loop itself: \<open>None\<close> if it does not end.\<close>

definition read_name_while :: "bytes \<Rightarrow> nat \<Rightarrow> (rstring \<times> nat) option option" where
  "read_name_while buf start =
    map_option name_of_state (while_option is_running (read_name_iteration buf) (name_start start))"

section \<open>The loop ends\<close>

text \<open>Iterations left: every jump allows another walk over the message.\<close>

definition name_work :: "bytes \<Rightarrow> name_loop \<Rightarrow> nat" where
  "name_work buf v = (32 - nl_jumps v) * (length buf + 1) + (length buf - nl_pos v) + 1"

text \<open>What the loop's result has to do with the recursive \<open>read_labels\<close>.\<close>

definition name_result :: "rstring list \<Rightarrow> (rstring list \<times> nat) option \<Rightarrow> name_state \<Rightarrow> bool" where
  "name_result before r s \<longleftrightarrow>
    (case r of
      None \<Rightarrow> s = Failed
    | Some (ls, e) \<Rightarrow> \<exists>v. s = Broke v \<and> nl_labels v = before @ ls \<and> nl_end v = Some e)"

lemma jump_work:
  "(32 - Suc j) * Suc n + (n - p) + 2 \<le> (32 - j) * Suc n + (n - q) + 1" if "j < 32" for j n p q :: nat
proof -
  define i where "i = 31 - j"
  have "32 - j = Suc i" "32 - Suc j = i" using that by (simp_all add: i_def)
  then show ?thesis by simp
qed

lemma funpow_Suc_run: "(f ^^ k) (f s) = (f ^^ Suc k) s"
  by (simp add: funpow_swap1)

lemma read_name_runs:
  assumes "jumps = nl_jumps v" "pos = nl_pos v" "end_pos = nl_end v" "nl_jumps v \<le> 32"
  shows "\<exists>k \<le> name_work buf v.
    name_result (nl_labels v) (read_labels buf pos jumps end_pos) ((read_name_iteration buf ^^ k) (Running v))"
  using assms
proof (induction buf pos jumps end_pos arbitrary: v rule: read_labels.induct)
  case (1 buf pos jumps end_pos)
  note [simp] = "1.prems"(1-3)
  note IH = "1.IH" [unfolded "1.prems"(1-3)]
  let ?len = "buf ! nl_pos v" and ?n = "length buf"
  have one: "\<exists>k \<le> name_work buf v. name_result (nl_labels v) r ((read_name_iteration buf ^^ k) (Running v))"
    if "name_result (nl_labels v) r (read_name_body buf v)" for r
    using that by (intro exI [of _ 1]) (simp add: name_work_def)
  show ?case
  proof (cases "?n \<le> nl_pos v \<or> ?len = 0")
    case True
    then show ?thesis
      by (intro one, subst read_labels.simps) (auto simp: read_name_body_def name_result_def Let_def split: option.splits)
  next
    case more: False
    show ?thesis
    proof (cases "?len AND 0xC0 = 0xC0")
      case jump: True
      let ?p = "unat (?len AND 0x3F) * 256 + unat (buf ! (nl_pos v + 1))"
      let ?e = "Some (case nl_end v of None \<Rightarrow> nl_pos v + 2 | Some e \<Rightarrow> e)"
      let ?v = "v\<lparr>nl_end := ?e, nl_jumps := nl_jumps v + 1, nl_pos := ?p\<rparr>"
      show ?thesis
      proof (cases "?n \<le> nl_pos v + 1 \<or> 32 < nl_jumps v + 1")
        case True
        then show ?thesis
          using more jump by (intro one, subst read_labels.simps) (auto simp: read_name_body_def name_result_def Let_def)
      next
        case False
        have rec: "read_labels buf pos jumps end_pos = read_labels buf ?p (nl_jumps v + 1) ?e"
          unfolding "1.prems"(1-3) using more jump False by (subst read_labels.simps) (simp add: Let_def)
        have body: "read_name_body buf v = Running ?v"
          using more jump False by (auto simp: read_name_body_def Let_def split: option.splits)
        have "\<exists>k \<le> name_work buf ?v. name_result (nl_labels ?v) (read_labels buf ?p (nl_jumps v + 1) ?e)
            ((read_name_iteration buf ^^ k) (Running ?v))"
          using more jump False IH(1) [of ?len "unat (buf ! (nl_pos v + 1))" ?e ?v] by simp
        then obtain k where k: "k \<le> name_work buf ?v"
          "name_result (nl_labels v) (read_labels buf pos jumps end_pos) ((read_name_iteration buf ^^ k) (Running ?v))"
          unfolding rec by auto
        have "Suc (name_work buf ?v) \<le> name_work buf v"
          using jump_work [of "nl_jumps v" ?n ?p "nl_pos v"] False by (simp add: name_work_def add.commute)
        with k(1) have "Suc k \<le> name_work buf v" by linarith
        moreover have "(read_name_iteration buf ^^ Suc k) (Running v) = (read_name_iteration buf ^^ k) (Running ?v)"
          by (simp only: funpow_Suc_run [symmetric] read_name_iteration.simps body)
        ultimately show ?thesis using k(2) by metis
      qed
    next
      case label: False
      show ?thesis
      proof (cases "get_range buf (nl_pos v + 1) (unat ?len)")
        case None
        then show ?thesis
          using more label by (intro one, subst read_labels.simps) (auto simp: read_name_body_def name_result_def Let_def)
      next
        case (Some lb)
        let ?v = "v\<lparr>nl_labels := nl_labels v @ [from_utf8_lossy lb], nl_pos := nl_pos v + 1 + unat ?len\<rparr>"
        have rec: "read_labels buf pos jumps end_pos = (case read_labels buf (nl_pos v + 1 + unat ?len) (nl_jumps v) (nl_end v) of
            None \<Rightarrow> None | Some (ls, e) \<Rightarrow> Some (from_utf8_lossy lb # ls, e))"
          unfolding "1.prems"(1-3) using more label Some by (subst read_labels.simps) (simp add: Let_def)
        have body: "read_name_body buf v = Running ?v"
          using more label Some by (simp add: read_name_body_def Let_def)
        have "\<exists>k \<le> name_work buf ?v. name_result (nl_labels ?v)
            (read_labels buf (nl_pos v + 1 + unat ?len) (nl_jumps v) (nl_end v)) ((read_name_iteration buf ^^ k) (Running ?v))"
          using more label Some IH(2) [of ?len lb ?v] "1.prems"(4) by simp
        then obtain k where k: "k \<le> name_work buf ?v"
          "name_result (nl_labels ?v) (read_labels buf (nl_pos v + 1 + unat ?len) (nl_jumps v) (nl_end v))
            ((read_name_iteration buf ^^ k) (Running ?v))" by blast
        have "nl_pos v + 1 + unat ?len \<le> ?n" using Some by (simp add: get_range_def split: if_splits)
        then have "Suc (name_work buf ?v) \<le> name_work buf v" by (simp add: name_work_def) 
        with k(1) have "Suc k \<le> name_work buf v" by linarith
        moreover have "(read_name_iteration buf ^^ Suc k) (Running v) = (read_name_iteration buf ^^ k) (Running ?v)"
          by (simp only: funpow_Suc_run [symmetric] read_name_iteration.simps body)
        moreover have "name_result (nl_labels v) (read_labels buf pos jumps end_pos) ((read_name_iteration buf ^^ k) (Running ?v))"
          using k(2) unfolding rec by (auto simp: name_result_def split: option.splits)
        ultimately show ?thesis by metis
      qed
    qed
  qed
qed

lemma read_name_ends:
  "\<exists>k \<le> 33 * (length buf + 1). \<not> is_running ((read_name_iteration buf ^^ k) (name_start start)) \<and>
    name_of_state ((read_name_iteration buf ^^ k) (name_start start)) = read_name buf start"
proof -
  let ?v = "\<lparr>nl_labels = [], nl_pos = start, nl_end = None, nl_jumps = 0\<rparr>"
  from read_name_runs [of 0 ?v start None buf] obtain k where k: "k \<le> name_work buf ?v"
    "name_result [] (read_labels buf start 0 None) ((read_name_iteration buf ^^ k) (name_start start))"
    by (auto simp: name_start_def)
  have "name_work buf ?v \<le> 33 * (length buf + 1)" by (simp add: name_work_def)
  with k show ?thesis
    by (intro exI [of _ k]) (auto simp: name_result_def read_name_def split: option.splits)
qed

lemma read_name_while_eq: "read_name_while buf start = Some (read_name buf start)"
proof -
  let ?f = "read_name_iteration buf" and ?s = "name_start start"
  from read_name_ends [of buf start] obtain k where k: "\<not> is_running ((?f ^^ k) ?s)"
    "name_of_state ((?f ^^ k) ?s) = read_name buf start" by blast
  let ?least = "LEAST j. \<not> is_running ((?f ^^ j) ?s)"
  have w: "while_option is_running ?f ?s = Some ((?f ^^ ?least) ?s)"
    using k(1) unfolding while_option_def by auto
  have stop: "(?f ^^ (j + i)) ?s = (?f ^^ i) ?s" if "\<not> is_running ((?f ^^ i) ?s)" for i j
  proof -
    have "?f s = s" if "\<not> is_running s" for s using that by (cases s) auto
    then have "(?f ^^ j) ((?f ^^ i) ?s) = (?f ^^ i) ?s" using that by (induction j) auto
    then show ?thesis by (simp add: funpow_add)
  qed
  have least: "\<not> is_running ((?f ^^ ?least) ?s)" using k(1) by (rule LeastI)
  have "?least \<le> k" using k(1) by (rule Least_le)
  then have "(?f ^^ k) ?s = (?f ^^ ?least) ?s" using stop [OF least, of "k - ?least"] by simp
  with w k(2) show ?thesis by (simp add: read_name_while_def)
qed

end
