(* ===== verification/Network_Claims.thy ===== *)
theory Network_Claims
  imports Samples Ntp Name_Loop
begin

text \<open>
  The properties of the host verification, of the clock, of the rate limiter, of the frames and of
  the command line, each with a witness on concrete inputs.
\<close>

section \<open>Host verification\<close>

text \<open>The name queried for an address in the reverse lookup belongs to no
  other address, of either family.\<close>

theorem reverse_name_determines_address:
  assumes "ip_wf a" "ip_wf b" "ptr_query_name a = ptr_query_name b"
  shows "a = b"
  by (rule ptr_query_name_inj [OF assms])

theorem reverse_name_determines_address_witness:
  "IpV4 [1, 2, 3, 4] = IpV4 [1, 2, 3, 4]"
  using reverse_name_determines_address [of "IpV4 [1, 2, 3, 4]" "IpV4 [1, 2, 3, 4]"] by (simp add: ip_wf_def)

text \<open>A compression pointer to itself is given up after 32 jumps.\<close>

lemma self_pointer_labels:
  assumes "pos + 1 < length buf" "buf ! pos AND 0xC0 = 0xC0"
    "unat (buf ! pos AND 0x3F) * 256 + unat (buf ! (pos + 1)) = pos"
  shows "read_labels buf pos jumps e = None"
proof (induction "32 - jumps" arbitrary: jumps e)
  case 0
  have "buf ! pos \<noteq> 0" using assms(2) by auto
  with 0 assms show ?case by (subst read_labels.simps) (simp add: Let_def)
next
  case (Suc k)
  then have "k = 32 - (jumps + 1)" by simp
  from Suc.hyps(1) [OF this] have "read_labels buf pos (jumps + 1) e' = None" for e' .
  moreover have "buf ! pos \<noteq> 0" using assms(2) by auto
  ultimately show ?case using assms by (subst read_labels.simps) (simp add: Let_def)
qed

lemma self_pointer_refused:
  assumes "pos + 1 < length buf" "buf ! pos AND 0xC0 = 0xC0"
    "unat (buf ! pos AND 0x3F) * 256 + unat (buf ! (pos + 1)) = pos"
  shows "read_name buf pos = None"
  using self_pointer_labels [OF assms] by (simp add: read_name_def)

text \<open>C31: the loop that expands a compressed name returns on every packet and every position, compression
  pointers that run in circles included, after at most 33 iterations for each byte of the packet and 33 more, and
  what it returns is what the recursive form used by the parsers computes.\<close>

theorem read_name_terminates:
  "(\<exists>k. k \<le> 33 * (length buf + 1) \<and> \<not> is_running ((read_name_iteration buf ^^ k) (name_start start))) \<and>
    read_name_while buf start = Some (read_name buf start)"
  using read_name_ends [of buf start] read_name_while_eq [of buf start] by blast

section \<open>The clock\<close>

text \<open>C33: until 7 February 2036 a time written as an NTP timestamp is read back at
  most one nanosecond early, and never late.\<close>

theorem ntp_timestamp_accuracy:
  assumes "nanos div 1000000000 < 2085978496"
  shows "read_ntp_timestamp (write_ntp_timestamp nanos) \<le> nanos \<and>
    nanos \<le> read_ntp_timestamp (write_ntp_timestamp nanos) + 1"
  using ntp_timestamp_error [OF assms] by simp

theorem ntp_timestamp_accuracy_witness:
  "read_ntp_timestamp (write_ntp_timestamp 1700000000000000001) \<le> 1700000000000000001"
  using ntp_timestamp_accuracy [of 1700000000000000001] by simp

text \<open>C35: from 7 February 2036 on, for 68 years, every NTP timestamp is read as the first second of 1970.\<close>

theorem ntp_wraps_2036:
  assumes "2085978496 \<le> nanos div 1000000000" "nanos div 1000000000 < 4294967296"
  shows "read_ntp_timestamp (write_ntp_timestamp nanos) < 1000000000"
  by (rule ntp_timestamp_wraps [OF assms])

theorem ntp_wraps_2036_witness:
  "read_ntp_timestamp (write_ntp_timestamp 2085978496000000000) < 1000000000"
  by (rule ntp_wraps_2036) simp_all



text \<open>A pass over the servers keeps the old offset when none of them answers.\<close>

lemma sync_without_answers:
  "list_all (\<lambda>x. query_offset_millis x = None) xs \<Longrightarrow> sync_once xs src = src"
  by (induction xs) auto

section \<open>Rate limiting\<close>

text \<open>Of the requests a fresh sender makes at one instant, exactly the burst size are
  allowed and all later ones refused, whatever the rounding of the floating-point format.\<close>

theorem burst_exact:
  assumes "rounding rnd" "0 < cap" "\<not> hm_contains_key (buckets l) key" "capacity l = real (unat (cap :: u32))"
  shows "fst (allow_burst rnd key now n l) = replicate (min (unat cap) n) True @ replicate (n - unat cap) False"
proof -
  have "unat cap < 2 ^ 32" "0 < unat cap" using unat_lt_pow [of cap] assms(2) by (simp_all add: word_less_nat_alt)
  then show ?thesis by (intro allow_burst_fresh [OF assms(1) _ assms(4,3)]) simp_all
qed

theorem burst_exact_witness:
  "fst (allow_burst (\<lambda>x. x) (lit ''a'') 5 4 (limiter_new 3 1 100)) = replicate 3 True @ replicate 1 False"
proof -
  have "rounding (\<lambda>x. x)" by (simp add: rounding_def mono_def)
  then show ?thesis
    using burst_exact [of "\<lambda>x. x" 3 "limiter_new 3 1 100" "lit ''a''" 5 4]
    by (simp add: limiter_new_def hm_contains_key_def)
qed




section \<open>Frames and the command line\<close>

text \<open>A message that encodes to a frame is decoded from it, when the JSON crate reads what it prints.\<close>

lemma frame_round_trip:
  assumes "encode to_vec m = Inr bs" "\<And>m bs. to_vec m = Inr bs \<Longrightarrow> from_slice bs = Inr m"
  shows "decode from_slice bs = Inr m \<and> length bs \<le> 65507"
  using decode_encode [OF assms] encode_bound [OF assms(1)] by simp

text \<open>A node started from the command line verifies host names unless the flag
  \<open>--insecure-skip-rdns-verification\<close> is among the arguments.\<close>

theorem insecure_only_by_flag:
  assumes "parse_args_from ts = Some a"
  shows "node_verifier (main_node a) = FcrdnsVerifier \<or>
    List.member ts (lit ''--insecure-skip-rdns-verification'')"
proof -
  obtain g r p where "parse_flags ts \<lparr>gossip_addr = g, resolver_addr = r, api_addr = p, dns_addr = None,
      peers_arg = [], insecure_skip_rdns_verification = False\<rparr> = Some a"
    using assms by (auto simp: parse_args_from_def split: option.splits)
  from parse_flags_secure [OF this] show ?thesis
    by (cases "insecure_skip_rdns_verification a")
      (auto simp: main_node_def node_new_def new_with_verifier_def insecure_flag_def)
qed

lemma read_ipv4_addr_eq: "read_ipv4_addr s = read_octets (Suc (Suc (Suc (Suc 0)))) 0 s"
  by (simp add: read_ipv4_addr_def numeral_eq_Suc)

lemmas read_v4_eval = parse_socket_addr_def parse_with_def read_socket_addr_v4_def read_ipv4_addr_eq
  read_separator_def read_given_char_def read_number_def to_digit_def digits_value_def read_port_def Let_def

definition default_args :: args where
  "default_args =
    \<lparr>gossip_addr = socket_addr_new (IpV4 [0, 0, 0, 0]) 9530, resolver_addr = socket_addr_new (IpV4 [0, 0, 0, 0]) 9531,
     api_addr = socket_addr_new (IpV4 [0, 0, 0, 0]) 9532, dns_addr = None, peers_arg = [],
     insecure_skip_rdns_verification = False\<rparr>"

lemma no_arguments: "parse_args_from [] = Some default_args"
  by (simp add: parse_args_from_def default_args_def lit_def read_v4_eval)

lemma peer_argument: "parse_args_from [lit ''--peer'', lit ''10.0.0.7:53''] =
    Some (default_args\<lparr>peers_arg := [socket_addr_new (IpV4 [10, 0, 0, 7]) 53]\<rparr>)"
  by (simp add: parse_args_from_def default_args_def lit_def read_v4_eval)

theorem insecure_only_by_flag_witness:
  "node_verifier (main_node (default_args\<lparr>peers_arg := [socket_addr_new (IpV4 [10, 0, 0, 7]) 53]\<rparr>)) = FcrdnsVerifier"
  using insecure_only_by_flag [OF peer_argument] by (simp add: lit_def)

end
