(* ===== verification/Client_Flow.thy ===== *)
theory Client_Flow
  imports Samples
begin

text \<open>
  The signed requests of one client, for any host and any key pair, and what a registry with no
  registration yet answers to them: the probe is acknowledged, the registration granted and leased,
  the records published. The example client (\<open>Demo\<close>) and the translated tests are instances.
\<close>

section \<open>Signed requests\<close>

definition probe_datagram :: "bytes \<Rightarrow> (bytes \<Rightarrow> bytes) \<Rightarrow> rstring \<Rightarrow> u64 \<Rightarrow> client_request" where
  "probe_datagram pk sign host t = Probe
    \<lparr>env_verifying_key = pk, env_rdns = host, env_timestamp_millis = t,
     env_signature = sign (probe_message t), env_body = ProbeBody\<rparr>"

definition register_datagram :: "bytes \<Rightarrow> (bytes \<Rightarrow> bytes) \<Rightarrow> rstring \<Rightarrow> domain_name \<Rightarrow> u64 \<Rightarrow> client_request" where
  "register_datagram pk sign host d t = Register
    \<lparr>env_verifying_key = pk, env_rdns = host, env_timestamp_millis = t,
     env_signature = sign (register_message d t), env_body = \<lparr>register_domain = d\<rparr>\<rparr>"

definition set_records_datagram ::
  "externals \<Rightarrow> bytes \<Rightarrow> (bytes \<Rightarrow> bytes) \<Rightarrow> rstring \<Rightarrow> domain_name \<Rightarrow> zone_record list \<Rightarrow> u64 \<Rightarrow> client_request" where
  "set_records_datagram ext pk sign host d recs t = SetRecords
    \<lparr>env_verifying_key = pk, env_rdns = host, env_timestamp_millis = t,
     env_signature = sign (set_records_message ext d recs t),
     env_body = \<lparr>records_domain = d, records_records = recs\<rparr>\<rparr>"

section \<open>The registry they build\<close>

text \<open>Nothing is registered and no host but \<open>host\<close>, probed at \<open>t\<close>, was ever seen.\<close>

definition only_probed :: "rstring \<Rightarrow> u64 \<Rightarrow> registry_store \<Rightarrow> bool" where
  "only_probed host t s \<longleftrightarrow> registrations s = [] \<and> quota_claims s = [] \<and>
    liveness s = \<lparr>last_seen_millis = [(quota_key host, t)], registration_counts = []\<rparr>"

definition client_lease ::
  "bytes \<Rightarrow> (bytes \<Rightarrow> bytes) \<Rightarrow> rstring \<Rightarrow> domain_name \<Rightarrow> registration_token \<Rightarrow> u64 \<Rightarrow> u64 \<Rightarrow> registration_rumor" where
  "client_lease pk sign host d token t1 t2 = \<lparr>rumor_domain = d, rumor_token = token,
    rumor_client_key = client_key (client_new pk host), rumor_owner_key = pk, rumor_rdns = host,
    registration_timestamp_millis = t2, registration_signature = sign (register_message d t2),
    probe_timestamp_millis = t1, probe_signature = sign (probe_message t1),
    rumor_records = [], records_timestamp_millis = None, records_signature = None\<rparr>"

definition registered_store :: "registration_rumor \<Rightarrow> registry_store \<Rightarrow> u64 \<Rightarrow> registry_store" where
  "registered_store r s t = s\<lparr>
    registrations := [(rumor_domain r, registration_from_rumor r (quota_key (rumor_rdns r)))],
    quota_claims := [(quota_key (rumor_rdns r), [(rumor_domain r, r)])],
    liveness := \<lparr>last_seen_millis = [(quota_key (rumor_rdns r), t)],
                 registration_counts = [(quota_key (rumor_rdns r), 1)]\<rparr>\<rparr>"

definition published_store :: "registration_rumor \<Rightarrow> registry_store \<Rightarrow> zone_record list \<Rightarrow> u64 \<Rightarrow> bytes \<Rightarrow> registry_store" where
  "published_store r s recs t sg = s\<lparr>
    registrations := [(rumor_domain r, (registration_from_rumor r (quota_key (rumor_rdns r)))\<lparr>reg_records := recs,
      reg_rumor := Some (r\<lparr>rumor_records := recs, records_timestamp_millis := Some t, records_signature := Some sg\<rparr>)\<rparr>)],
    quota_claims := [(quota_key (rumor_rdns r), [(rumor_domain r,
      r\<lparr>records_timestamp_millis := Some t, records_signature := Some sg\<rparr>)])]\<rparr>"

lemma client_lease_sel [simp]:
  "rumor_domain (client_lease pk sign host d token t1 t2) = d"
  "rumor_rdns (client_lease pk sign host d token t1 t2) = host"
  "rumor_token (client_lease pk sign host d token t1 t2) = token"
  "rumor_client_key (client_lease pk sign host d token t1 t2) = client_key (client_new pk host)"
  by (simp_all add: client_lease_def)

lemma registered_store_sel [simp]:
  "probe_evidence (registered_store r s t) = probe_evidence s"
  "registrations (registered_store r s t) = [(rumor_domain r, registration_from_rumor r (quota_key (rumor_rdns r)))]"
  by (simp_all add: registered_store_def)

section \<open>The flow\<close>

text \<open>A probe of a host that is the only one seen, or the first.\<close>

lemma probe_ack:
  assumes "signs ext pk sign" "is_fresh t1 t" "registrations s = []" "quota_claims s = []"
    "liveness s = tracker_new \<or> only_probed host t s"
  shows "handle_client_request ext drawn s (frozen t) (probe_datagram pk sign host t1) verified =
    (Some ProbeAck, s\<lparr>
      liveness := \<lparr>last_seen_millis = [(quota_key host, t)], registration_counts = []\<rparr>,
      probe_evidence := hm_insert (client_key (client_new pk host)) (t1, sign (probe_message t1)) (probe_evidence s)\<rparr>)"
proof -
  let ?e = "\<lparr>env_verifying_key = pk, env_rdns = host, env_timestamp_millis = t1,
     env_signature = sign (probe_message t1), env_body = ProbeBody\<rparr>"
  have "authenticate ext ?e (probe_message (env_timestamp_millis ?e)) t = Inr (client_new pk host)"
    using assms by (simp add: authenticate_Inr signs_def)
  from probe_accepted [OF this] show ?thesis
    using assms(3-) by (auto simp: probe_datagram_def handle_client_request_def probe_with_evidence_def probe_def
        record_probe_def refresh_probe_evidence_def tracker_new_def hm_map_values_def quota_key_client only_probed_def)
qed

lemma client_lease_live:
  assumes "signs ext pk sign" "is_fresh t1 t"
  shows "live_at ext t (client_lease pk sign host d token t1 t2)"
proof -
  have "lease_is_live (client_lease pk sign host d token t1 t2) (frozen t)"
    using assms(2) by (simp add: is_fresh_iff lease_is_live_def client_lease_def liveness_window_millis_def word_le_nat_alt) arith
  then show ?thesis
    using assms(1) by (simp add: live_at_def is_authorized_iff client_lease_def signs_def records_evidence_def)
qed

text \<open>A host's only claim, of a name held without a lease by the same client: the lease is installed.\<close>

lemma reconcile_new_claim:
  assumes "live_at ext t r" "registrations s = [(rumor_domain r, reg)]" "reg_rumor reg = None"
    "reg_token reg = rumor_token r" "quota_claims s = [(q, [(rumor_domain r, r)])]"
  shows "reconcile_quota ext q (frozen t) s = s\<lparr>registrations := [(rumor_domain r, registration_from_rumor r q)]\<rparr>"
  using assms
  by (simp add: reconcile_quota_def Let_def live_at_def hm_values_def hm_retain_def local_rule.win_idem)

lemma only_probed_registers:
  assumes "only_probed host t s"
  shows "register ext drawn d (client_new pk host) (frozen t) s =
    (Inr (token_issue drawn t), add_registration d (client_new pk host) (token_issue drawn t) s)"
proof -
  have "reclaim_stale ext (frozen t) s = s"
    using assms by (simp add: reclaim_stale_eq drop_hosts_def only_probed_def expired_clients_def hm_keys_def hm_retain_def
        liveness_window_millis_def saturating_sub_def)
  with assms show ?thesis
    by (simp add: register_def Let_def only_probed_def is_live_iff quota_key_client can_register_def
        registration_count_eq count_of_def max_registrations_per_client_def hm_contains_key_def add_registration_def)
qed

lemma register_granted_lease:
  fixes drawn :: bytes and t :: u64
  assumes signs: "signs ext pk sign" and fresh: "is_fresh t1 t" "is_fresh t2 t" and s: "only_probed host t s"
    and evidence: "hm_get (probe_evidence s) (client_key (client_new pk host)) = Some (t1, sign (probe_message t1))"
  defines "token \<equiv> token_issue drawn t"
  shows "handle_client_request ext drawn s (frozen t) (register_datagram pk sign host d t2) True =
    (Some (Registered token), registered_store (client_lease pk sign host d token t1 t2) s t)"
proof -
  let ?id = "client_new pk host" and ?r = "client_lease pk sign host d token t1 t2"
  let ?e = "\<lparr>env_verifying_key = pk, env_rdns = host, env_timestamp_millis = t2,
     env_signature = sign (register_message d t2), env_body = \<lparr>register_domain = d\<rparr>\<rparr>"
  have auth: "authenticate ext ?e (register_message d t2) t = Inr ?id"
    using signs fresh by (simp add: authenticate_Inr signs_def)
  let ?s' = "add_registration d ?id token s"
  let ?reg = "\<lparr>reg_client_key = client_key ?id, reg_quota_key = quota_key host, reg_token = token,
    reg_records = [], reg_rumor = None\<rparr>"
  have reg: "register ext drawn d ?id (frozen t) s = (Inr token, ?s')"
    unfolding token_def by (rule only_probed_registers [OF s])
  have rumor: "registration_rumor_of ?e ?id token t1 (sign (probe_message t1)) = ?r"
    by (simp add: registration_rumor_of_def client_lease_def)
  have last: "last_probe_evidence ?s' ?id = Some (t1, sign (probe_message t1))"
    using evidence by (simp add: last_probe_evidence_def add_registration_def)
  have "snd (attach_rumor ext ?r (frozen t) ?s') = reconcile_quota ext (quota_key host) (frozen t)
      (insert_claim (quota_key host) ?r ?s')"
    by (simp add: attach_rumor_def Let_def add_registration_def)
  also have "\<dots> = registered_store ?r s t"
    using client_lease_live [OF signs fresh(1), of host d token t2] s
    by (subst reconcile_new_claim [of ext t ?r _ ?reg])
      (simp_all add: insert_claim_def add_registration_def registered_store_def only_probed_def
        increment_registration_def quota_key_client)
  finally show ?thesis
    using auth by (simp add: register_datagram_def handle_client_request_def handle_register_def reg last rumor)
qed

lemma records_set:
  assumes "signs ext pk sign" "is_fresh t3 t"
  shows "handle_client_request ext drawn (registered_store (client_lease pk sign host d token t1 t2) s t') (frozen t)
      (set_records_datagram ext pk sign host d recs t3) verified =
    (Some RecordsSet, published_store (client_lease pk sign host d token t1 t2)
      (registered_store (client_lease pk sign host d token t1 t2) s t') recs t3
      (sign (set_records_message ext d recs t3)))"
proof -
  let ?e = "\<lparr>env_verifying_key = pk, env_rdns = host, env_timestamp_millis = t3,
     env_signature = sign (set_records_message ext d recs t3),
     env_body = \<lparr>records_domain = d, records_records = recs\<rparr>\<rparr>"
  have "authenticate ext ?e (set_records_message ext d recs t3) t = Inr (client_new pk host)"
    using assms by (simp add: authenticate_Inr signs_def)
  then show ?thesis
    by (simp add: set_records_datagram_def handle_client_request_def handle_set_records_def set_records_def
        registered_store_def registration_from_rumor_def client_lease_def attach_record_evidence_def
        published_store_def hm_map_values_def)
qed

section \<open>Refusals\<close>

lemma register_unconfirmed:
  assumes "signs ext pk sign" "is_fresh t2 t"
  shows "handle_client_request ext drawn s (frozen t) (register_datagram pk sign host d t2) False =
    (Some (ErrorResponse (lit ''claimed rdns hostname does not forward-confirm against the request's source address'')), s)"
  using assms by (simp add: handle_client_request_def register_datagram_def handle_register_def authenticate_def signs_def
      client_verify_def client_new_def)

lemma records_of_free_name:
  assumes "signs ext pk sign" "is_fresh t3 t" "lookup s d = None"
  shows "handle_client_request ext drawn s (frozen t) (set_records_datagram ext pk sign host d recs t3) verified =
    (Some (ErrorResponse (lit ''client does not own this domain'')), s)"
  using assms by (simp add: handle_client_request_def set_records_datagram_def handle_set_records_def authenticate_def signs_def
      client_verify_def client_new_def set_records_def lookup_def)

end
