(* ===== verification/Node_Props.thy ===== *)
theory Node_Props
  imports Node
begin

text \<open>
  The steps of a node as a relation, the invariant every reachable node satisfies, and the facts
  about single steps: what gossip may change, that a challenge is answered once, what the
  lookup listener answers, what stops the client API.
\<close>

section \<open>Bounded tables\<close>

lemma pending_room:
  assumes "hm_wf m" "\<not> hm_contains_key m k" "length m \<le> 10000"
  shows "length (case hm_min_by_key f m of Some (oldest, _) \<Rightarrow> hm_remove oldest m | None \<Rightarrow> m) < 10000 \<or> m = []"
proof (cases "hm_min_by_key f m")
  case (Some e)
  then have "e \<in> set m" by (rule hm_min_by_key_in)
  then have "hm_contains_key m (fst e)" by (force simp: hm_contains_key_def hm_get_None_iff)
  from length_hm_remove_less [OF this] Some assms(3) show ?thesis by (cases e) simp
qed simp

interpretation pending_table: bounded_table 10000 admit_pending
proof unfold_locales
  fix m :: "(socket_addr, pending_challenge) hash_map" and e :: "socket_addr \<times> pending_challenge"
  let ?f = "\<lambda>(_, _, issued_at). issued_at"
  let ?m = "if \<not> hm_contains_key m (fst e) \<and> max_pending_challenges \<le> length m
      then case hm_min_by_key ?f m of Some (oldest, _) \<Rightarrow> hm_remove oldest m | None \<Rightarrow> m else m"
  have admit: "admit_pending m e = hm_insert (fst e) (snd e) ?m" by (simp add: admit_pending_def Let_def)
  assume wf: "hm_wf m"
  then show "hm_wf (admit_pending m e)" unfolding admit by (auto split: option.splits)
  assume len: "length m \<le> 10000"
  show "length (admit_pending m e) \<le> 10000"
  proof (cases "hm_contains_key m (fst e)")
    case True
    then show ?thesis using len by (simp add: admit length_hm_insert)
  next
    case False
    then have "length ?m < 10000"
      using pending_room [OF wf False len, of ?f] len by (auto simp: max_pending_challenges_def)
    then show ?thesis unfolding admit length_hm_insert by auto
  qed
qed

section \<open>The invariant of a node\<close>

definition standard_limiter :: "socket_addr rate_limiter \<Rightarrow> bool" where
  "standard_limiter l \<longleftrightarrow> limiter_ok l \<and> max_tracked_keys l = 100000 \<and> capacity l = 20 \<and> refill_per_sec l = 10"

definition node_inv :: "node \<Rightarrow> bool" where
  "node_inv n \<longleftrightarrow> store_inv (node_store n) \<and> distinct (snapshot (node_peers n)) \<and>
    standard_limiter (gossip_limiter n) \<and> standard_limiter (resolver_limiter n) \<and>
    standard_limiter (api_limiter n) \<and> standard_limiter (dns_limiter n) \<and>
    hm_wf (pending_challenges n) \<and> length (pending_challenges n) \<le> 10000"

lemma new_rate_limiter_standard: "standard_limiter new_rate_limiter"
proof -
  have "\<exists>k < 2 ^ 32. (20 :: real) = real k" by (rule exI [of _ 20]) simp
  then show ?thesis
    by (simp add: standard_limiter_def new_rate_limiter_def limiter_new_def limiter_ok_def limiter_wf_def
        rate_limit_burst_def rate_limit_per_sec_def rate_limit_max_tracked_keys_def)
qed

lemma standard_limiter_allow:
  "rounding rnd \<Longrightarrow> standard_limiter l \<Longrightarrow> standard_limiter (snd (allow_at rnd key now l))"
  by (simp add: standard_limiter_def allow_at_ok)

lemma standard_limiter_prune: "standard_limiter l \<Longrightarrow> standard_limiter (prune_older_than age now l)"
  by (simp add: standard_limiter_def prune_ok)

lemma node_inv_limiters:
  assumes "node_inv n" "standard_limiter l"
  shows "node_inv (n\<lparr>gossip_limiter := l\<rparr>)" "node_inv (n\<lparr>resolver_limiter := l\<rparr>)"
    "node_inv (n\<lparr>api_limiter := l\<rparr>)" "node_inv (n\<lparr>dns_limiter := l\<rparr>)"
  using assms by (simp_all add: node_inv_def)

lemma new_node_inv: "distinct peers \<Longrightarrow> node_inv (new_with_verifier peers verifier)"
  by (simp add: node_inv_def new_with_verifier_def new_rate_limiter_standard store_new_inv
      snapshot_def peers_new_def)

lemma adopt_rumors_inv: "store_inv s \<Longrightarrow> store_inv (adopt_rumors ext time i rumors s)"
  by (induction rumors arbitrary: s i) (simp_all add: adopt_rumor_inv)

lemma handle_gossip_message_inv:
  assumes "node_inv n" shows "node_inv (fst (handle_gossip_message env draws time sender msg n))"
proof (cases msg)
  case (Digest entries)
  with assms show ?thesis
    using pending_table.admit_wf pending_table.admit_bound by (simp add: node_inv_def Let_def)
next
  case (Request domains challenge)
  with assms show ?thesis by simp
next
  case (Rumors rumors answer)
  have "length (hm_remove sender (pending_challenges n)) \<le> 10000"
    unfolding hm_remove_def
    by (rule le_trans [OF length_filter_le]) (use assms in \<open>simp add: node_inv_def\<close>)
  with assms Rumors show ?thesis
    by (auto simp: node_inv_def Let_def adopt_rumors_inv split: option.splits prod.splits)
qed

lemma allow_at_split: "allow_at rnd k now l = (ok, l') \<Longrightarrow> l' = snd (allow_at rnd k now l)"
  by simp

lemma gossip_recv_inv:
  assumes "rounding (env_round env)" "node_inv n"
  shows "node_inv (fst (gossip_recv env now draws time sender packet n))"
proof -
  obtain ok l where l: "allow_at (env_round env) sender now (gossip_limiter n) = (ok, l)" by fastforce
  then have "standard_limiter l"
    using standard_limiter_allow [OF assms(1), of "gossip_limiter n" sender now] assms(2) by (simp add: node_inv_def)
  with assms(2) have n: "node_inv (n\<lparr>gossip_limiter := l\<rparr>)" by (rule node_inv_limiters)
  then have "node_inv (n\<lparr>gossip_limiter := l, node_peers := learn sender (node_peers n)\<rparr>)"
    by (simp add: node_inv_def learn_distinct)
  with n show ?thesis
    by (simp add: gossip_recv_def Let_def l handle_gossip_message_inv split: sum.splits)
qed

lemma resolver_recv_inv:
  assumes "rounding (env_round env)" "node_inv n"
  shows "node_inv (fst (resolver_recv env now sender packet n))"
proof -
  obtain ok l where l: "allow_at (env_round env) sender now (resolver_limiter n) = (ok, l)" by fastforce
  then have "standard_limiter l"
    using standard_limiter_allow [OF assms(1), of "resolver_limiter n" sender now] assms(2) by (simp add: node_inv_def)
  with assms(2) have "node_inv (n\<lparr>resolver_limiter := l\<rparr>)" by (rule node_inv_limiters)
  then show ?thesis by (simp add: resolver_recv_def Let_def l split: sum.splits)
qed

lemma dns_recv_inv:
  assumes "rounding (env_round env)" "node_inv n"
  shows "node_inv (fst (dns_recv env now sender packet n))"
proof -
  obtain ok l where l: "allow_at (env_round env) sender now (dns_limiter n) = (ok, l)" by fastforce
  then have "standard_limiter l"
    using standard_limiter_allow [OF assms(1), of "dns_limiter n" sender now] assms(2) by (simp add: node_inv_def)
  with assms(2) have "node_inv (n\<lparr>dns_limiter := l\<rparr>)" by (rule node_inv_limiters)
  then show ?thesis by (simp add: dns_recv_def Let_def l split: sum.splits)
qed

lemma client_api_recv_inv:
  assumes "rounding (env_round env)" "node_inv n"
  shows "node_inv (fst (client_api_recv env now net drawn time sender packet n))"
proof -
  obtain ok l where l: "allow_at (env_round env) sender now (api_limiter n) = (ok, l)" by fastforce
  then have "standard_limiter l"
    using standard_limiter_allow [OF assms(1), of "api_limiter n" sender now] assms(2) by (simp add: node_inv_def)
  with assms(2) have n: "node_inv (n\<lparr>api_limiter := l\<rparr>)" by (rule node_inv_limiters)
  have s: "store_inv s'" if "handle_client_request ext drawn (node_store n) time request v = (r, s')" for ext request v r s'
    using handle_client_request_inv [of "node_store n" ext drawn time request v] assms(2) that by (simp add: node_inv_def)
  have "node_inv (n\<lparr>api_limiter := l, node_store := s'\<rparr>)"
    "node_inv (n\<lparr>api_limiter := l, node_store := s', api_running := False\<rparr>)" if "store_inv s'" for s'
    using n that by (simp_all add: node_inv_def)
  with n s assms(2) show ?thesis
    by (auto simp: client_api_recv_def Let_def l split: prod.splits sum.splits option.splits)
qed

lemma prune_limiter_inv: "node_inv n \<Longrightarrow> node_inv (prune_limiter which now n)"
  by (cases which) (simp_all add: node_inv_def standard_limiter_prune)

lemma prune_pending_inv: "node_inv n \<Longrightarrow> node_inv (prune_pending now n)"
  using length_hm_retain_le [of _ "pending_challenges n"]
  by (force simp: node_inv_def prune_pending_def intro: le_trans)

section \<open>Steps and reachable nodes\<close>

text \<open>Each rule is one iteration of one task. The maintenance task takes one lock at a time, so its
  tick is five steps. \<open>out\<close> is what the step sends.\<close>

inductive node_step :: "node_env \<Rightarrow> node \<Rightarrow> datagrams \<Rightarrow> node \<Rightarrow> bool" for env where
  push: "node_step env n (gossip_push env pick n) n"
| gossip: "gossip_recv env now draws time sender packet n = (n', out) \<Longrightarrow> node_step env n out n'"
| resolver: "resolver_recv env now sender packet n = (n', out) \<Longrightarrow> node_step env n out n'"
| client_api: "client_api_recv env now net drawn time sender packet n = (n', out) \<Longrightarrow> node_step env n out n'"
| dns: "dns_recv env now sender packet n = (n', out) \<Longrightarrow> node_step env n out n'"
| prune_limiter: "node_step env n [] (prune_limiter which now n)"
| prune_pending: "node_step env n [] (prune_pending now n)"

inductive reachable :: "node_env \<Rightarrow> socket_addr list \<Rightarrow> rdns_verifier \<Rightarrow> node \<Rightarrow> bool"
  for env peers verifier where
  start: "reachable env peers verifier (new_with_verifier peers verifier)"
| step: "reachable env peers verifier n \<Longrightarrow> node_step env n out n' \<Longrightarrow> reachable env peers verifier n'"

inductive_cases node_stepE: "node_step env n out n'"

lemma node_step_inv:
  assumes "rounding (env_round env)" "node_inv n" "node_step env n out n'"
  shows "node_inv n'"
  using assms(3)
proof (cases rule: node_step.cases)
  case (gossip now draws time sender packet)
  then show ?thesis using gossip_recv_inv [OF assms(1,2), of now draws time sender packet] by simp
next
  case (resolver now sender packet)
  then show ?thesis using resolver_recv_inv [OF assms(1,2), of now sender packet] by simp
next
  case (client_api now net drawn time sender packet)
  then show ?thesis using client_api_recv_inv [OF assms(1,2), of now net drawn time sender packet] by simp
next
  case (dns now sender packet)
  then show ?thesis using dns_recv_inv [OF assms(1,2), of now sender packet] by simp
qed (use assms(2) prune_limiter_inv prune_pending_inv in auto)

lemma reachable_inv:
  "reachable env peers verifier n \<Longrightarrow> rounding (env_round env) \<Longrightarrow> distinct peers \<Longrightarrow> node_inv n"
  by (induction rule: reachable.induct) (auto intro: new_node_inv node_step_inv)

section \<open>Gossip\<close>

lemma rumors_step:
  "fst (handle_gossip_message env draws time sender (Rumors rumors answer) n) =
    n\<lparr>pending_challenges := hm_remove sender (pending_challenges n),
      node_store :=
        (case hm_get (pending_challenges n) sender of
          Some (challenge, requested, _) \<Rightarrow>
            if answer = expected_answer challenge \<and> is_valid_rumor_response requested rumors
            then adopt_rumors (env_ext env) time 0 rumors (node_store n) else node_store n
        | None \<Rightarrow> node_store n)\<rparr>"
  by (auto simp: Let_def split: option.splits prod.splits)

lemma rumors_accepted:
  assumes "node_store (fst (handle_gossip_message env draws time sender (Rumors rumors answer) n)) \<noteq> node_store n"
  shows "\<exists>challenge requested instant. hm_get (pending_challenges n) sender = Some (challenge, requested, instant) \<and>
    answer = expected_answer challenge \<and> distinct (map rumor_domain rumors) \<and>
    set (map rumor_domain rumors) \<subseteq> set requested"
proof (cases "hm_get (pending_challenges n) sender")
  case None
  with assms show ?thesis unfolding rumors_step by simp
next
  case (Some p)
  obtain challenge requested instant where p: "p = (challenge, requested, instant)" by (cases p)
  have "answer = expected_answer challenge \<and> is_valid_rumor_response requested rumors"
    using assms unfolding rumors_step Some p by (simp split: if_splits)
  with Some p show ?thesis by (auto simp: is_valid_rumor_response_def list_all_iff)
qed

lemma rumors_once:
  "node_store (fst (handle_gossip_message env draws' time' sender (Rumors rumors' answer')
      (fst (handle_gossip_message env draws time sender (Rumors rumors answer) n)))) =
    node_store (fst (handle_gossip_message env draws time sender (Rumors rumors answer) n))"
  unfolding rumors_step by simp

text \<open>One exchange: the digest of a peer, this node's request, the peer's rumors.\<close>

lemma digest_requests:
  assumes "lookup (node_store b) d = None"
  shows "handle_gossip_message env draws time sender (Digest [\<lparr>entry_domain = d, entry_issued_at_millis = issued\<rparr>]) b =
    (b\<lparr>pending_challenges := admit_pending (pending_challenges b)
        (sender, challenge_random (draw_nonce_a draws) (draw_nonce_b draws) (draw_coin draws) (now_millis time), [d],
         draw_instant draws)\<rparr>,
     send_encoded (gossip_to_vec env)
       (Request [d] (challenge_random (draw_nonce_a draws) (draw_nonce_b draws) (draw_coin draws) (now_millis time))) sender)"
  using assms by (simp add: missing_domains_def Let_def)

lemma admit_pending_get: "hm_get (admit_pending m e) (fst e) = Some (snd e)"
  by (simp add: admit_pending_def Let_def)

lemma requested_rumors_one:
  assumes "store_inv s" "lookup s d = Some reg" "reg_rumor reg = Some r"
  shows "requested_rumors s [d] = [r]"
proof -
  have "rumor_domain r = d"
    using store_inv_exceptD(7) [OF assms(1) [unfolded store_inv_def], of d reg r] assms(2,3)
    by (simp add: leased_ok_def lookup_def)
  then show ?thesis using assms by (simp add: requested_rumors_def List.map_filter_def)
qed

lemma exchange_installs:
  assumes b: "store_inv (node_store b)" and r: "live_at (env_ext env) t r" "rumor_domain r = d"
    and q: "quota_key (rumor_rdns r) = q" and none: "lookup (node_store b) d = None"
    and fresh: "d \<notin> fst ` set (claims_of (node_store b) q)" and room: "length (claims_of (node_store b) q) < 5"
    and pending: "hm_get (pending_challenges b) sender = Some (challenge, [d], instant)"
  shows "lookup (node_store (fst (handle_gossip_message env draws (\<lambda>_. t) sender
      (Rumors [r] (expected_answer challenge)) b))) d = Some (registration_from_rumor r q)"
proof -
  have frozen: "call 0 (\<lambda>_. t) = frozen t" by (simp add: call_def frozen_def)
  have "node_store (fst (handle_gossip_message env draws (\<lambda>_. t) sender (Rumors [r] (expected_answer challenge)) b))
      = snd (adopt_rumor (env_ext env) r (frozen t) (node_store b))"
    unfolding rumors_step using pending r(2) by (simp add: is_valid_rumor_response_def frozen)
  then show ?thesis
    using adopt_installs [OF b r(1) q] fresh room none r(2) by (simp add: lookup_def)
qed

text \<open>A digest of more names than a message may carry.\<close>

lemma push_digest_size: "\<exists>entries. push_digest s = Digest entries \<and> length entries = length (registrations s)"
  by (simp add: push_digest_def all_rumors_def)

lemma large_digest_refused:
  "4096 < length (registrations s) \<Longrightarrow> \<not> is_well_formed (push_digest s)"
  using push_digest_size [of s] by (auto simp: max_digest_entries_def)

lemma push_digest_domains: "push_digest s = Digest entries \<Longrightarrow> map entry_domain entries = hm_keys (registrations s)"
  by (auto simp: push_digest_def all_rumors_def hm_keys_def)

lemma push_digest_well_formed:
  assumes "store_inv s" shows "is_well_formed (push_digest s) \<longleftrightarrow> length (registrations s) \<le> 4096"
proof -
  have "distinct (hm_keys (registrations s))"
    using assms by (simp add: store_inv_def store_inv_except_def hm_wf_def hm_keys_def)
  then show ?thesis
    using push_digest_size [of s] push_digest_domains [of s] by (auto simp: max_digest_entries_def)
qed

section \<open>Lookups\<close>

lemma dns_recv_query:
  assumes allowed: "fst (allow_at (env_round env) sender now (dns_limiter n))"
    and q: "wire_domain (dq_domain q)" and size: "length (native_query q) \<le> 65507"
  shows "snd (dns_recv env now sender (native_query q) n) = [(sender, dns_response_for (node_store n) q)]"
proof -
  obtain l where l: "allow_at (env_round env) sender now (dns_limiter n) = (True, l)"
    using allowed by (metis prod.collapse)
  have "parse_query (native_query q) = Inr q" using parse_native_query [OF q, of "[]"] by simp
  then show ?thesis using size by (simp add: dns_recv_def Let_def l max_datagram_bytes_def)
qed

lemma dns_response_read:
  assumes "wire_domain (dq_domain q)" "lookup s (dq_domain q) = Some reg"
    and "length (reg_records reg) < 65536"
    and "list_all (\<lambda>r. case encode_rdata r of Inr rdata \<Rightarrow> length rdata < 2 ^ 32 | Inl _ \<Rightarrow> True) (reg_records reg)"
  shows "read_response (dns_response_for s q) =
      Some (answers_of (dq_domain q) (filter (\<lambda>r. record_matches_qtype r (dq_qtype q)) (reg_records reg)))"
proof -
  let ?rs = "filter (\<lambda>r. record_matches_qtype r (dq_qtype q)) (reg_records reg)"
  have "length (answers_of d rs) \<le> length rs" for d rs
    by (induction rs) (auto split: sum.splits intro: le_SucI)
  from this [of "dq_domain q" ?rs] have "length (answers_of (dq_domain q) ?rs) < 65536"
    using assms(3) length_filter_le [of "\<lambda>r. record_matches_qtype r (dq_qtype q)" "reg_records reg"] by linarith
  moreover have "list_all (\<lambda>r. case encode_rdata r of Inr rdata \<Rightarrow> length rdata < 2 ^ 32 | Inl _ \<Rightarrow> True) ?rs"
    using assms(4) by (auto simp: list_all_iff)
  ultimately show ?thesis
    using read_build_response [OF assms(1)] assms(2) by (simp add: dns_response_for_def)
qed

lemma dns_response_code:
  "u16_of_be (take 2 (drop 2 (dns_response_for s q))) = (if lookup s (dq_domain q) = None then 0x8403 else 0x8400)"
  by (auto simp: dns_response_for_def build_response_def Let_def rcode_nxdomain_def split: option.splits)

section \<open>Client API\<close>

lemma client_api_step:
  assumes "api_running n" "allow_at (env_round env) sender now (api_limiter n) = (True, l)"
    and "decode (request_from_slice env) (take max_datagram_bytes packet) = Inr request"
  shows "client_api_recv env now net drawn time sender packet n =
    (case handle_client_request (env_ext env) drawn (node_store n) time request
        (case request of Register e \<Rightarrow> verify net (node_verifier n) (sock_ip sender) (env_rdns e) | _ \<Rightarrow> True) of
      (Some response, s) \<Rightarrow>
        (n\<lparr>api_limiter := l, node_store := s\<rparr>, send_encoded (response_to_vec env) response sender)
    | (None, s) \<Rightarrow> (n\<lparr>api_limiter := l, node_store := s, api_running := False\<rparr>, []))"
  using assms by (simp add: client_api_recv_def Let_def split: client_request.splits)

lemma api_stopped: "\<not> api_running n \<Longrightarrow> client_api_recv env now net drawn time sender packet n = (n, [])"
  by (simp add: client_api_recv_def)

text \<open>A datagram that changes the store holds a request whose handling changes it.\<close>

lemma client_api_changes:
  assumes "node_store (fst (client_api_recv env now net drawn time sender packet n)) \<noteq> node_store n"
  shows "\<exists>request verified. decode (request_from_slice env) (take max_datagram_bytes packet) = Inr request \<and>
    snd (handle_client_request (env_ext env) drawn (node_store n) time request verified) \<noteq> node_store n"
proof -
  have running: "api_running n"
    using assms api_stopped [of n env now net drawn time sender packet] by (cases "api_running n") simp_all
  from assms obtain l where l: "allow_at (env_round env) sender now (api_limiter n) = (True, l)"
    by (cases "allow_at (env_round env) sender now (api_limiter n)")
      (auto simp: client_api_recv_def Let_def running split: if_splits)
  from assms obtain request where request: "decode (request_from_slice env) (take max_datagram_bytes packet) = Inr request"
    by (cases "decode (request_from_slice env) (take max_datagram_bytes packet)")
      (simp_all add: client_api_recv_def Let_def running l)
  let ?v = "case request of Register e \<Rightarrow> verify net (node_verifier n) (sock_ip sender) (env_rdns e) | _ \<Rightarrow> True"
  have "snd (handle_client_request (env_ext env) drawn (node_store n) time request ?v) \<noteq> node_store n"
    using assms unfolding client_api_step [OF running l request]
    by (cases "handle_client_request (env_ext env) drawn (node_store n) time request ?v")
      (auto split: option.splits)
  with request show ?thesis by blast
qed

lemma resolver_store: "resolver_recv env now sender packet n = (n', out) \<Longrightarrow> node_store n' = node_store n"
  by (auto simp add: resolver_recv_def Let_def split: prod.splits sum.splits if_splits)

lemma dns_store: "dns_recv env now sender packet n = (n', out) \<Longrightarrow> node_store n' = node_store n"
  by (auto simp add: dns_recv_def Let_def split: prod.splits sum.splits if_splits)

lemma maintenance_store: "node_store (prune_limiter which now n) = node_store n"
    "node_store (prune_pending now n) = node_store n"
  by (cases which) (simp_all add: prune_pending_def)

text \<open>Only two of the listeners write to the store.\<close>

lemma store_writers:
  assumes "node_step env n out n'" "node_store n' \<noteq> node_store n"
  obtains (gossip) now draws time sender packet where "gossip_recv env now draws time sender packet n = (n', out)"
  | (client_api) now net drawn time sender packet where "client_api_recv env now net drawn time sender packet n = (n', out)"
  using assms
  by (cases rule: node_stepE)
    (auto simp: maintenance_store dest: resolver_store dns_store)

lemma gossip_change:
  assumes "node_store (fst (gossip_recv env now draws time sender packet n)) \<noteq> node_store n"
  shows "\<exists>rumors challenge requested instant.
    decode (gossip_from_slice env) (take max_datagram_bytes packet) = Inr (Rumors rumors (expected_answer challenge)) \<and>
    hm_get (pending_challenges n) sender = Some (challenge, requested, instant) \<and>
    distinct (map rumor_domain rumors) \<and> set (map rumor_domain rumors) \<subseteq> set requested \<and>
    hm_get (pending_challenges (fst (gossip_recv env now draws time sender packet n))) sender = None"
proof -
  from assms obtain l msg where l: "allow_at (env_round env) sender now (gossip_limiter n) = (True, l)"
    and msg: "decode (gossip_from_slice env) (take max_datagram_bytes packet) = Inr msg" "is_well_formed msg"
    by (auto simp: gossip_recv_def Let_def split: prod.splits if_splits sum.splits)
  let ?n = "n\<lparr>gossip_limiter := l, node_peers := learn sender (node_peers n)\<rparr>"
  have recv: "gossip_recv env now draws time sender packet n = handle_gossip_message env draws time sender msg ?n"
    using msg by (simp add: gossip_recv_def Let_def l)
  from assms have change: "node_store (fst (handle_gossip_message env draws time sender msg ?n)) \<noteq> node_store ?n"
    by (simp add: recv)
  then obtain rumors answer where m: "msg = Rumors rumors answer"
    by (cases msg) (auto simp: Let_def)
  from rumors_accepted [OF change [unfolded m]] show ?thesis
    unfolding recv m rumors_step using msg m by auto
qed

text \<open>Every step sends at most one datagram, and every handler only to the sender.\<close>

lemma send_encoded_one: "length (send_encoded f m a) \<le> 1" "out \<in> set (send_encoded f m a) \<Longrightarrow> fst out = a"
  "out \<in> set (send_encoded f m a) \<Longrightarrow> length (snd out) \<le> 65507"
  by (cases "encode f m"; auto simp: send_encoded_def dest: encode_bound)+

lemma gossip_replies:
  "length (snd (handle_gossip_message env draws time sender msg n)) \<le> 1 \<and>
    (\<forall>out\<in>set (snd (handle_gossip_message env draws time sender msg n)). fst out = sender)"
  by (cases msg) (auto simp: Let_def send_encoded_one [unfolded One_nat_def] split: option.splits prod.splits)

text \<open>How the peer list grows: every sender of a well-formed message is added, nobody is dropped.\<close>

lemma gossip_learns:
  assumes "fst (allow_at (env_round env) sender now (gossip_limiter n))"
    "decode (gossip_from_slice env) (take max_datagram_bytes packet) = Inr (Digest [])"
  shows "snapshot (node_peers (fst (gossip_recv env now draws time sender packet n))) =
      snapshot (learn sender (node_peers n))"
proof -
  obtain l where l: "allow_at (env_round env) sender now (gossip_limiter n) = (True, l)"
    using assms(1) by (metis prod.collapse)
  show ?thesis by (simp add: gossip_recv_def Let_def l assms(2) missing_domains_def)
qed

end
