(* ===== verification/Demo.thy ===== *)
theory Demo
  imports Client_Flow Node_Props "HOL-Library.Monad_Syntax"
begin

text \<open>
  \<open>binda/examples/client_demo.rs\<close>: the example client, as a program over whatever answers its
  datagrams, and the node's listeners as what answers them. A panic of \<open>expect\<close>, a missing answer
  included (the socket has a read timeout), is \<open>None\<close>.
\<close>

section \<open>The client\<close>

text \<open>\<open>socket.send_to(bytes, addr)\<close> and the following \<open>recv_from\<close>: the reply and the new state of the
  other side.\<close>

type_synonym 's exchange = "rstring \<Rightarrow> bytes \<Rightarrow> 's \<Rightarrow> (bytes \<times> 's) option"

text \<open>The serializers of the client's side of the three protocols.\<close>

record demo_codec =
  request_to_vec :: "client_request \<Rightarrow> rstring + bytes"
  response_from_slice :: "bytes \<Rightarrow> rstring + client_response"
  query_to_vec :: "resolve_query \<Rightarrow> rstring + bytes"
  answer_from_slice :: "bytes \<Rightarrow> rstring + resolve_answer"

definition send_recv ::
  "('q \<Rightarrow> rstring + bytes) \<Rightarrow> (bytes \<Rightarrow> rstring + 'a) \<Rightarrow> 's exchange \<Rightarrow> rstring \<Rightarrow> 'q \<Rightarrow> 's \<Rightarrow> ('a \<times> 's) option" where
  "send_recv to_vec from_slice ex addr request s =
    (case encode to_vec request of
      Inl _ \<Rightarrow> None
    | Inr bs \<Rightarrow>
        (case ex addr bs s of
          None \<Rightarrow> None
        | Some (reply, s) \<Rightarrow>
            (case decode from_slice (take max_datagram_bytes reply) of
              Inl _ \<Rightarrow> None
            | Inr response \<Rightarrow> Some (response, s))))"

text \<open>\<open>str::replace\<close> with a pattern that is not empty.\<close>

function str_replace :: "rstring \<Rightarrow> rstring \<Rightarrow> rstring \<Rightarrow> rstring" where
  "str_replace pat to [] = []"
| "str_replace pat to (c # s) =
    (if pat \<noteq> [] \<and> take (length pat) (c # s) = pat
     then to @ str_replace pat to (drop (length pat) (c # s))
     else c # str_replace pat to s)"
  by pat_completeness auto
termination by (relation "measure (\<lambda>(pat, to, s). length s)") auto

definition demo_api_addr :: rstring where "demo_api_addr = lit ''127.0.0.1:9532''"

definition demo_dns_addr :: rstring where "demo_dns_addr = lit ''127.0.0.1:9533''"

definition demo_rdns :: rstring where "demo_rdns = lit ''client-demo.example.net''"

text \<open>The name of the demo starts with a character outside ASCII (U+1F525).\<close>

definition demo_name :: rstring where "demo_name = 128293 # lit ''demo.binda''"

definition demo_records :: "zone_record list" where
  "demo_records = [\<lparr>record_name = lit ''@'', record_type_of = RecA, ttl_secs = 300, record_value = lit ''203.0.113.42''\<rparr>]"

definition demo_probe :: "bytes \<Rightarrow> (bytes \<Rightarrow> bytes) \<Rightarrow> u64 \<Rightarrow> client_request" where
  "demo_probe pk sign t = Probe
    \<lparr>env_verifying_key = pk, env_rdns = demo_rdns, env_timestamp_millis = t,
     env_signature = sign (probe_message t), env_body = ProbeBody\<rparr>"

definition demo_register :: "bytes \<Rightarrow> (bytes \<Rightarrow> bytes) \<Rightarrow> domain_name \<Rightarrow> u64 \<Rightarrow> client_request" where
  "demo_register pk sign d t = Register
    \<lparr>env_verifying_key = pk, env_rdns = demo_rdns, env_timestamp_millis = t,
     env_signature = sign (register_message d t), env_body = \<lparr>register_domain = d\<rparr>\<rparr>"

definition demo_set_records :: "externals \<Rightarrow> bytes \<Rightarrow> (bytes \<Rightarrow> bytes) \<Rightarrow> domain_name \<Rightarrow> u64 \<Rightarrow> client_request" where
  "demo_set_records ext pk sign d t = SetRecords
    \<lparr>env_verifying_key = pk, env_rdns = demo_rdns, env_timestamp_millis = t,
     env_signature = sign (set_records_message ext d demo_records t),
     env_body = \<lparr>records_domain = d, records_records = demo_records\<rparr>\<rparr>"

definition demo_native_query :: "domain_name \<Rightarrow> bytes" where
  "demo_native_query d =
    u16_be 0x1234 @ u16_be 0x0100 @ u16_be 1 @ replicate 6 0 @
    concat (map (\<lambda>l. u32_be (of_nat (length (utf8 l))) @ utf8 l) (labels d)) @ u32_be 0 @ u16_be 1 @ u16_be 1"

text \<open>What the demo prints.\<close>

record demo_report =
  probe_reply :: client_response
  register_reply :: client_response
  records_reply :: client_response
  resolve_reply :: resolve_answer
  native_ancount :: u16
  native_length :: nat
  echoed_domain :: "domain_name option"

text \<open>\<open>main\<close>. The key pair and the three readings of the system clock are arguments.\<close>

definition demo_main ::
  "demo_codec \<Rightarrow> externals \<Rightarrow> bytes \<Rightarrow> (bytes \<Rightarrow> bytes) \<Rightarrow> u64 \<times> u64 \<times> u64 \<Rightarrow> 's exchange \<Rightarrow> 's \<Rightarrow>
    (demo_report \<times> 's) option" where
  "demo_main cli ext pk sign clocks ex s = do {
    let (t1, t2, t3) = clocks;
    let call_api = send_recv (request_to_vec cli) (response_from_slice cli) ex demo_api_addr;
    (probe_resp, s) \<leftarrow> call_api (demo_probe pk sign t1) s;
    d \<leftarrow> (case domain_new demo_name of Inr d \<Rightarrow> Some d | Inl _ \<Rightarrow> None);
    (register_resp, s) \<leftarrow> call_api (demo_register pk sign d t2) s;
    (set_records_resp, s) \<leftarrow> call_api (demo_set_records ext pk sign d t3) s;
    (answer, s) \<leftarrow> send_recv (query_to_vec cli) (answer_from_slice cli) ex
      (str_replace (lit ''9532'') (lit ''9531'') demo_api_addr) \<lparr>query_domain = d\<rparr> s;
    (reply, s) \<leftarrow> ex demo_dns_addr (demo_native_query d) s;
    let response = take max_datagram_bytes reply;
    if length response < 8 then None
    else Some
      (\<lparr>probe_reply = probe_resp, register_reply = register_resp, records_reply = set_records_resp,
        resolve_reply = answer, native_ancount = u16_of_be [response ! 6, response ! 7],
        native_length = length response,
        echoed_domain = (case parse_query (demo_native_query d) of Inr parsed \<Rightarrow> Some (dq_domain parsed) | Inl _ \<Rightarrow> None)\<rparr>, s)
  }"

section \<open>The node behind the sockets\<close>

text \<open>The listeners of a node started as the demo's documentation says, at one instant: each datagram is
  handled before the next one is sent, and the client receives the first reply.\<close>

definition serve_node ::
  "node_env \<Rightarrow> dns_network \<Rightarrow> socket_addr \<Rightarrow> nat \<Rightarrow> bytes \<Rightarrow> u64 \<Rightarrow> node exchange" where
  "serve_node env net sender now drawn t addr packet n =
    (let (n', out) =
       (if addr = lit ''127.0.0.1:9532'' then client_api_recv env now net drawn (frozen t) sender packet n
        else if addr = lit ''127.0.0.1:9531'' then resolver_recv env now sender packet n
        else if addr = lit ''127.0.0.1:9533'' then dns_recv env now sender packet n
        else (n, []))
     in case out of [] \<Rightarrow> None | (_, reply) # _ \<Rightarrow> Some (reply, n'))"

lemma demo_resolver_addr: "str_replace (lit ''9532'') (lit ''9531'') demo_api_addr = lit ''127.0.0.1:9531''"
  by (simp add: demo_api_addr_def lit_def)

lemma serve_step: "serve_node env net sender now drawn t addr packet n = Some (reply, n') \<Longrightarrow> \<exists>out. node_step env n out n'"
  by (auto simp: serve_node_def Let_def split: prod.splits list.splits if_splits
      dest: node_step.client_api node_step.resolver node_step.dns)

section \<open>The requests against an empty registry\<close>

lemma demo_requests:
  "demo_probe pk sign t = probe_datagram pk sign demo_rdns t"
  "demo_register pk sign d t = register_datagram pk sign demo_rdns d t"
  "demo_set_records ext pk sign d t = set_records_datagram ext pk sign demo_rdns d demo_records t"
  by (simp_all add: demo_probe_def demo_register_def demo_set_records_def probe_datagram_def register_datagram_def
      set_records_datagram_def)

definition demo_probed :: "bytes \<Rightarrow> (bytes \<Rightarrow> bytes) \<Rightarrow> u64 \<Rightarrow> u64 \<Rightarrow> registry_store" where
  "demo_probed pk sign t1 t = store_new\<lparr>
    liveness := \<lparr>last_seen_millis = [(quota_key demo_rdns, t)], registration_counts = []\<rparr>,
    probe_evidence := [(client_key (client_new pk demo_rdns), t1, sign (probe_message t1))]\<rparr>"

abbreviation demo_lease ::
  "bytes \<Rightarrow> (bytes \<Rightarrow> bytes) \<Rightarrow> domain_name \<Rightarrow> registration_token \<Rightarrow> u64 \<Rightarrow> u64 \<Rightarrow> registration_rumor" where
  "demo_lease pk sign d token t1 t2 \<equiv> client_lease pk sign demo_rdns d token t1 t2"

lemma demo_probe_ack:
  assumes "signs ext pk sign" "is_fresh t1 t"
  shows "handle_client_request ext drawn store_new (frozen t) (demo_probe pk sign t1) verified =
    (Some ProbeAck, demo_probed pk sign t1 t)"
  using probe_ack [OF assms, of store_new demo_rdns drawn verified] by (simp add: demo_requests demo_probed_def)

lemma demo_register_granted:
  fixes drawn :: bytes and t :: u64
  assumes signs: "signs ext pk sign" and fresh: "is_fresh t1 t" "is_fresh t2 t"
  defines "token \<equiv> token_issue drawn t"
  shows "handle_client_request ext drawn (demo_probed pk sign t1 t) (frozen t) (demo_register pk sign d t2) True =
    (Some (Registered token), registered_store (demo_lease pk sign d token t1 t2) (demo_probed pk sign t1 t) t)"
  unfolding token_def demo_requests
  by (rule register_granted_lease [OF assms(1-3)]) (simp_all add: only_probed_def demo_probed_def)

lemma demo_records_set:
  assumes "signs ext pk sign" "is_fresh t3 t"
  shows "handle_client_request ext drawn (registered_store (demo_lease pk sign d token t1 t2) s t) (frozen t)
      (demo_set_records ext pk sign d t3) verified =
    (Some RecordsSet, published_store (demo_lease pk sign d token t1 t2)
      (registered_store (demo_lease pk sign d token t1 t2) s t) demo_records t3
      (sign (set_records_message ext d demo_records t3)))"
  unfolding demo_requests by (rule records_set [OF assms])

section \<open>The demo against a fresh node\<close>

text \<open>What the two sides rely on of the serializers: this message fits a datagram and is read back.\<close>

definition delivers :: "('m \<Rightarrow> 'e + bytes) \<Rightarrow> (bytes \<Rightarrow> 'e + 'm) \<Rightarrow> 'm \<Rightarrow> bool" where
  "delivers to_vec from_slice m \<longleftrightarrow> (\<exists>bs. to_vec m = Inr bs \<and> length bs \<le> 65507 \<and> from_slice bs = Inr m)"

lemma deliversE:
  assumes "delivers to_vec from_slice m"
  obtains bs where "encode to_vec m = Inr bs" "decode from_slice (take max_datagram_bytes bs) = Inr m"
    "send_encoded to_vec m a = [(a, bs)]"
  using assms by (auto simp: delivers_def encode_def decode_def send_encoded_def max_datagram_bytes_def)

lemma send_recv_api:
  assumes request: "delivers (request_to_vec cli) (request_from_slice env) request"
    and response: "delivers (response_to_vec env) (response_from_slice cli) response"
    and allowed: "api_running n" "allow_at (env_round env) sender now (api_limiter n) = (True, l)"
    and handled: "handle_client_request (env_ext env) drawn (node_store n) (frozen t) request
      (case request of Register e \<Rightarrow> verify net (node_verifier n) (sock_ip sender) (env_rdns e) | _ \<Rightarrow> True) = (Some response, s)"
  shows "send_recv (request_to_vec cli) (response_from_slice cli) (serve_node env net sender now drawn t) demo_api_addr request n =
    Some (response, n\<lparr>api_limiter := l, node_store := s\<rparr>)"
proof -
  from request obtain bs where bs: "encode (request_to_vec cli) request = Inr bs"
    "decode (request_from_slice env) (take max_datagram_bytes bs) = Inr request"
    by (rule deliversE)
  from response obtain reply where reply: "send_encoded (response_to_vec env) response sender = [(sender, reply)]"
    "decode (response_from_slice cli) (take max_datagram_bytes reply) = Inr response"
    by (rule deliversE)
  show ?thesis
    using reply client_api_step [OF allowed bs(2), of net drawn "frozen t"] handled
    by (simp add: send_recv_def bs(1) serve_node_def demo_api_addr_def)
qed

lemma send_recv_resolver:
  assumes query: "delivers (query_to_vec cli) (query_from_slice env) q"
    and answer: "delivers (answer_to_vec env) (answer_from_slice cli) (resolve_answer_for (node_store n) (query_domain q))"
    and allowed: "allow_at (env_round env) sender now (resolver_limiter n) = (True, l)"
  shows "send_recv (query_to_vec cli) (answer_from_slice cli) (serve_node env net sender now drawn t) (lit ''127.0.0.1:9531'') q n =
    Some (resolve_answer_for (node_store n) (query_domain q), n\<lparr>resolver_limiter := l\<rparr>)"
proof -
  from query obtain bs where bs: "encode (query_to_vec cli) q = Inr bs"
    "decode (query_from_slice env) (take max_datagram_bytes bs) = Inr q"
    by (rule deliversE)
  let ?a = "resolve_answer_for (node_store n) (query_domain q)"
  from answer obtain reply where reply: "send_encoded (answer_to_vec env) ?a sender = [(sender, reply)]"
    "decode (answer_from_slice cli) (take max_datagram_bytes reply) = Inr ?a"
    by (rule deliversE)
  show ?thesis
    using reply bs by (simp add: send_recv_def serve_node_def resolver_recv_def allowed lit_def)
qed

lemma serve_dns:
  assumes "allow_at (env_round env) sender now (dns_limiter n) = (True, l)" "parse_query bs = Inr q" "length bs \<le> 65507"
  shows "serve_node env net sender now drawn t demo_dns_addr bs n =
    Some (dns_response_for (node_store n) q, n\<lparr>dns_limiter := l\<rparr>)"
  using assms by (simp add: serve_node_def dns_recv_def max_datagram_bytes_def demo_dns_addr_def lit_def)

lemma limiter_allows_three:
  fixes k :: socket_addr
  assumes "rounding rnd"
  obtains l1 l2 l3 where "allow_at rnd k now new_rate_limiter = (True, l1)"
    "allow_at rnd k now l1 = (True, l2)" "allow_at rnd k now l2 = (True, l3)"
proof -
  have new: "capacity (new_rate_limiter :: socket_addr rate_limiter) = real 20"
    "\<not> hm_contains_key (buckets new_rate_limiter) k"
    by (simp_all add: new_rate_limiter_def limiter_new_def rate_limit_burst_def hm_contains_key_def)
  let ?l1 = "snd (allow_at rnd k now new_rate_limiter)"
  have b1: "hm_get (buckets ?l1) k = Some \<lparr>tokens = real (20 - 1), last_refill = now\<rparr>"
    by (rule allow_at_fresh(2) [OF assms _ new]) simp_all
  have "fst (allow_at rnd k now new_rate_limiter)"
    by (rule allow_at_fresh(1) [OF assms _ new]) simp_all
  then have s1: "allow_at rnd k now new_rate_limiter = (True, ?l1)" by (metis (full_types) prod.collapse)
  let ?l2 = "?l1\<lparr>buckets := hm_insert k \<lparr>tokens = real (20 - 1 - 1), last_refill = now\<rparr> (buckets ?l1)\<rparr>"
  have s2: "allow_at rnd k now ?l1 = (True, ?l2)"
    using allow_at_known [OF assms _ _ b1, of 20] new(1) by simp
  have b2: "hm_get (buckets ?l2) k = Some \<lparr>tokens = real (20 - 1 - 1), last_refill = now\<rparr>" by simp
  have "capacity ?l2 = real 20" using new(1) by simp
  then have "allow_at rnd k now ?l2 =
      (True, ?l2\<lparr>buckets := hm_insert k \<lparr>tokens = real (20 - 1 - 1 - 1), last_refill = now\<rparr> (buckets ?l2)\<rparr>)"
    using allow_at_known [OF assms _ _ b2, of 20] by simp
  with s1 s2 that show thesis by blast
qed

definition demo_domain :: domain_name where "demo_domain = DomainName demo_name"

lemma demo_domain_ok: "domain_new demo_name = Inr demo_domain" "wire_domain demo_domain"
  by (simp_all add: demo_domain_def demo_name_def wire_domain_def labels_def valid_domain_def domain_new_Inr lit_def
      refused_char_def is_control_def valid_str_def scalar_def utf8_char_def)

definition demo_query :: dns_query where
  "demo_query = \<lparr>dq_id = 0x1234, dq_domain = demo_domain, dq_qtype = 1, dq_qclass = 1\<rparr>"

lemma demo_native_query_parses: "parse_query (demo_native_query demo_domain) = Inr demo_query"
  using parse_query_shape [OF demo_domain_ok(2), of "u16_be 0x0100" "replicate 6 0" "0x1234" 1 1 "[]"]
  by (simp add: demo_native_query_def demo_query_def encode_domain_labels_def encode_label_def cong: map_cong)

lemma demo_native_query_length: "length (demo_native_query demo_domain) \<le> 65507"
  by (simp add: demo_native_query_def demo_domain_def demo_name_def labels_def lit_def utf8_char_def)

lemma demo_record_encodes: "encode_rdata (hd demo_records) = Inr [203, 0, 113, 42]"
  by code_simp

lemma response_count:
  "8 \<le> length (build_response q e rs)"
  "u16_of_be [build_response q e rs ! 6, build_response q e rs ! 7] = of_nat (length (answers_of (dq_domain q) rs))"
proof -
  let ?bs = "build_response q e rs"
  show long: "8 \<le> length ?bs" by (simp add: build_response_def Let_def)
  then have "take 2 (drop 6 ?bs) = [?bs ! 6, ?bs ! 7]"
    by (simp add: take_Suc_conv_app_nth numeral_2_eq_2)
  then show "u16_of_be [?bs ! 6, ?bs ! 7] = of_nat (length (answers_of (dq_domain q) rs))"
    using ancount [of q e rs] by simp
qed

text \<open>Every message the demo and the node exchange, with the responses \<open>as\<close> and the answer \<open>a\<close>.\<close>

definition demo_delivered ::
  "demo_codec \<Rightarrow> node_env \<Rightarrow> bytes \<Rightarrow> (bytes \<Rightarrow> bytes) \<Rightarrow> u64 \<times> u64 \<times> u64 \<Rightarrow> client_response list \<Rightarrow> resolve_answer \<Rightarrow> bool" where
  "demo_delivered cli env pk sign clocks as a \<longleftrightarrow>
    list_all (delivers (request_to_vec cli) (request_from_slice env))
      [demo_probe pk sign (fst clocks), demo_register pk sign demo_domain (fst (snd clocks)),
       demo_set_records (env_ext env) pk sign demo_domain (snd (snd clocks))] \<and>
    list_all (delivers (response_to_vec env) (response_from_slice cli)) as \<and>
    delivers (query_to_vec cli) (query_from_slice env) \<lparr>query_domain = demo_domain\<rparr> \<and>
    delivers (answer_to_vec env) (answer_from_slice cli) a"

definition matching_records :: "registry_store \<Rightarrow> dns_query \<Rightarrow> zone_record list" where
  "matching_records s q = (case lookup s (dq_domain q) of
    Some reg \<Rightarrow> filter (\<lambda>r. record_matches_qtype r (dq_qtype q)) (reg_records reg) | None \<Rightarrow> [])"

lemma dns_response_matching:
  "dns_response_for s q = build_response q (lookup s (dq_domain q) \<noteq> None) (matching_records s q)"
  by (simp add: dns_response_for_def matching_records_def split: option.split)

lemma demo_flow:
  fixes sender :: socket_addr
  assumes rnd: "rounding (env_round env)"
    and probe: "handle_client_request (env_ext env) drawn store_new (frozen t) (demo_probe pk sign t1) True = (Some a1, s1)"
    and reg: "handle_client_request (env_ext env) drawn s1 (frozen t) (demo_register pk sign demo_domain t2)
      (verify net verifier (sock_ip sender) demo_rdns) = (Some a2, s2)"
    and set: "handle_client_request (env_ext env) drawn s2 (frozen t)
      (demo_set_records (env_ext env) pk sign demo_domain t3) True = (Some a3, s3)"
    and link: "demo_delivered cli env pk sign (t1, t2, t3) [a1, a2, a3] (resolve_answer_for s3 demo_domain)"
  shows "\<exists>report n'. demo_main cli (env_ext env) pk sign (t1, t2, t3) (serve_node env net sender now drawn t)
      (new_with_verifier peers verifier) = Some (report, n') \<and> node_store n' = s3 \<and>
    probe_reply report = a1 \<and> register_reply report = a2 \<and> records_reply report = a3 \<and>
    resolve_reply report = resolve_answer_for s3 demo_domain \<and>
    native_ancount report = of_nat (length (answers_of demo_domain (matching_records s3 demo_query))) \<and>
    echoed_domain report = Some demo_domain"
proof -
  let ?n0 = "new_with_verifier peers verifier" and ?serve = "serve_node env net sender now drawn t"
  let ?api = "send_recv (request_to_vec cli) (response_from_slice cli) ?serve demo_api_addr"
  obtain l1 l2 l3 where l: "allow_at (env_round env) sender now new_rate_limiter = (True, l1)"
    "allow_at (env_round env) sender now l1 = (True, l2)" "allow_at (env_round env) sender now l2 = (True, l3)"
    by (rule limiter_allows_three [OF rnd])
  note [simp] = new_with_verifier_def
  let ?n1 = "?n0\<lparr>api_limiter := l1, node_store := s1\<rparr>"
  let ?n2 = "?n0\<lparr>api_limiter := l2, node_store := s2\<rparr>"
  let ?n3 = "?n0\<lparr>api_limiter := l3, node_store := s3\<rparr>"
  let ?n4 = "?n3\<lparr>resolver_limiter := l1\<rparr>"
  let ?n5 = "?n4\<lparr>dns_limiter := l1\<rparr>"
  have step1: "?api (demo_probe pk sign t1) ?n0 = Some (a1, ?n1)"
    using link probe l(1) send_recv_api [of cli env "demo_probe pk sign t1" a1 ?n0 sender now l1 drawn t net s1]
    by (simp add: demo_delivered_def demo_probe_def)
  have step2: "?api (demo_register pk sign demo_domain t2) ?n1 = Some (a2, ?n2)"
    using link reg l(2) send_recv_api [of cli env "demo_register pk sign demo_domain t2" a2 ?n1 sender now l2 drawn t net s2]
    by (simp add: demo_delivered_def demo_register_def)
  have step3: "?api (demo_set_records (env_ext env) pk sign demo_domain t3) ?n2 = Some (a3, ?n3)"
    using link set l(3)
      send_recv_api [of cli env "demo_set_records (env_ext env) pk sign demo_domain t3" a3 ?n2 sender now l3 drawn t net s3]
    by (simp add: demo_delivered_def demo_set_records_def)
  have step4: "send_recv (query_to_vec cli) (answer_from_slice cli) ?serve (lit ''127.0.0.1:9531'')
      \<lparr>query_domain = demo_domain\<rparr> ?n3 = Some (resolve_answer_for s3 demo_domain, ?n4)"
    using link l(1) send_recv_resolver [of cli env "\<lparr>query_domain = demo_domain\<rparr>" ?n3 sender now l1 net drawn t]
    by (simp add: demo_delivered_def)
  have step5: "?serve demo_dns_addr (demo_native_query demo_domain) ?n4 = Some (dns_response_for s3 demo_query, ?n5)"
    using l(1) serve_dns [OF _ demo_native_query_parses demo_native_query_length, of env sender now ?n4 l1 net drawn t] by simp
  note reply = dns_response_matching [of s3 demo_query]
  have "\<not> length (take max_datagram_bytes (dns_response_for s3 demo_query)) < 8"
    "u16_of_be [take max_datagram_bytes (dns_response_for s3 demo_query) ! 6,
        take max_datagram_bytes (dns_response_for s3 demo_query) ! 7] =
      of_nat (length (answers_of demo_domain (matching_records s3 demo_query)))"
    unfolding reply using response_count [of demo_query "lookup s3 (dq_domain demo_query) \<noteq> None" "matching_records s3 demo_query"]
    by (simp_all add: max_datagram_bytes_def not_less) (simp add: demo_query_def)
  then show ?thesis
    unfolding demo_main_def prod.case Let_def step1 option.case bind.bind_lunit
    by (simp add: step1 step2 step3 demo_domain_ok step4 demo_resolver_addr step5 demo_native_query_parses del: new_with_verifier_def)
      (simp add: demo_query_def)
qed

section \<open>The registry the demo leaves\<close>

lemma published_lookup:
  "lookup (published_store r s recs t3 sg) (rumor_domain r) =
    Some ((registration_from_rumor r (quota_key (rumor_rdns r)))\<lparr>reg_records := recs,
      reg_rumor := Some (r\<lparr>rumor_records := recs, records_timestamp_millis := Some t3, records_signature := Some sg\<rparr>)\<rparr>)"
  by (simp add: lookup_def published_store_def)

lemma demo_records_match: "filter (\<lambda>r. record_matches_qtype r (dq_qtype demo_query)) demo_records = demo_records"
  by (simp add: demo_records_def demo_query_def record_matches_qtype_def type_a_def)

lemma demo_answer_count: "length (answers_of demo_domain demo_records) = 1"
  using demo_record_encodes by (simp add: demo_records_def)

text \<open>Without a confirmed host the registration and the update of the records are refused.\<close>

lemma demo_register_refused:
  assumes "signs ext pk sign" "is_fresh t2 t"
  shows "handle_client_request ext drawn s (frozen t) (demo_register pk sign d t2) False =
    (Some (ErrorResponse (lit ''claimed rdns hostname does not forward-confirm against the request's source address'')), s)"
  unfolding demo_requests by (rule register_unconfirmed [OF assms])

lemma demo_records_refused:
  assumes "signs ext pk sign" "is_fresh t3 t" "lookup s d = None"
  shows "handle_client_request ext drawn s (frozen t) (demo_set_records ext pk sign d t3) verified =
    (Some (ErrorResponse (lit ''client does not own this domain'')), s)"
  unfolding demo_requests by (rule records_of_free_name [OF assms])

lemma send_recv_SomeD:
  "send_recv to_vec from_slice ex addr q s = Some (a, s') \<Longrightarrow> \<exists>bs reply. ex addr bs s = Some (reply, s')"
  by (simp add: send_recv_def split: sum.splits option.splits prod.splits) blast

lemma demo_main_reachable:
  assumes "demo_main cli ext pk sign clocks (serve_node env net sender now drawn t) n = Some (report, n')"
    and "reachable env peers verifier n"
  shows "reachable env peers verifier n'"
proof -
  have step: "reachable env peers verifier m'"
    if "serve_node env net sender now drawn t addr bs m = Some (reply, m')" "reachable env peers verifier m" for addr bs m reply m'
    using serve_step [OF that(1)] that(2) reachable.step by blast
  from assms show ?thesis
    unfolding demo_main_def Let_def
    by (auto simp: bind_eq_Some_conv split: prod.splits if_splits option.splits sum.splits dest!: send_recv_SomeD) (meson step)+
qed

end
