(* ===== verification/Signed.thy ===== *)
theory Signed
  imports Contracts Node_Props
begin

text \<open>
  What the store holds is signed. Every claim carries its owner's signature over the registration and
  over the last probe, every leased name serves the records its owner signed, and the probe evidence
  of a client verifies under the key of that client. Each operation keeps this under the condition
  its caller has checked, so every node that runs from an empty store has it.
\<close>

section \<open>Signed leases\<close>

text \<open>The conditions of \<open>is_authorized\<close> apart from the one on the records.\<close>

definition lease_signed :: "externals \<Rightarrow> registration_rumor \<Rightarrow> bool" where
  "lease_signed ext r \<longleftrightarrow>
    length (rumor_owner_key r) = 32 \<and> key_parses ext (rumor_owner_key r) \<and>
    rumor_client_key r = client_key (client_new (rumor_owner_key r) (rumor_rdns r)) \<and>
    sig_parses ext (registration_signature r) \<and> sig_parses ext (probe_signature r) \<and>
    sig_verifies ext (rumor_owner_key r)
      (register_message (rumor_domain r) (registration_timestamp_millis r)) (registration_signature r) \<and>
    sig_verifies ext (rumor_owner_key r) (probe_message (probe_timestamp_millis r)) (probe_signature r)"

lemma is_authorized_split: "is_authorized ext r \<longleftrightarrow> lease_signed ext r \<and> records_evidence ext r"
  by (auto simp: is_authorized_iff lease_signed_def)

definition signed_probe :: "externals \<Rightarrow> rstring \<Rightarrow> u64 \<Rightarrow> bytes \<Rightarrow> bool" where
  "signed_probe ext ck t sg \<longleftrightarrow>
    (\<exists>key host. ck = client_key (client_new key host) \<and> length key = 32 \<and> key_parses ext key \<and>
      sig_parses ext sg \<and> sig_verifies ext key (probe_message t) sg)"

text \<open>The records of the registration are those of its rumor, and the rumor would be accepted from a peer.\<close>

definition registration_signed :: "externals \<Rightarrow> registration \<Rightarrow> bool" where
  "registration_signed ext reg \<longleftrightarrow>
    (\<forall>r. reg_rumor reg = Some r \<longrightarrow> is_authorized ext r \<and> reg_records reg = rumor_records r)"

definition store_signed :: "externals \<Rightarrow> registry_store \<Rightarrow> bool" where
  "store_signed ext = store_holds (\<lambda>_. registration_signed ext) (lease_signed ext) (signed_probe ext)"

lemmas store_signedI = store_holdsI [of _ "\<lambda>_. registration_signed ext" "lease_signed ext" "signed_probe ext" for ext, folded store_signed_def]
lemmas store_signedD = store_holdsD [of "\<lambda>_. registration_signed ext" "lease_signed ext" "signed_probe ext" for ext, folded store_signed_def]

interpretation signed: store_contract ext "\<lambda>_. registration_signed ext" "lease_signed ext" "signed_probe ext" for ext
  by unfold_locales (simp add: registration_signed_def registration_from_rumor_def)

section \<open>Every operation keeps them signed\<close>

lemmas signed_operations = signed.reclaim [folded store_signed_def] signed.claimed [folded store_signed_def]
  signed.attached [folded store_signed_def] signed.probed [folded store_signed_def] store_new_holds [of
    "\<lambda>_. registration_signed ext" "lease_signed ext" "signed_probe ext" for ext, folded store_signed_def]

lemma register_signed:
  "store_inv s \<Longrightarrow> store_signed ext s \<Longrightarrow> store_signed ext (snd (register ext drawn d c time s))"
  unfolding store_signed_def by (rule signed.registered) (simp_all add: registration_signed_def)

lemma adopt_signed:
  "store_inv s \<Longrightarrow> store_signed ext s \<Longrightarrow> store_signed ext (snd (adopt_rumor ext r time s))"
  unfolding store_signed_def by (rule signed.adopted) (simp_all add: is_authorized_split)

lemma adopt_rumors_signed:
  "store_inv s \<Longrightarrow> store_signed ext s \<Longrightarrow> store_signed ext (adopt_rumors ext time i rumors s)"
  by (induction rumors arbitrary: s i) (simp_all add: adopt_rumor_inv adopt_signed)

text \<open>A new probe of a key renews every lease of that key.\<close>

lemma refresh_rumor_signed:
  assumes "signed_probe ext ck t sg" "lease_signed ext r" "rumor_client_key r = ck"
  shows "lease_signed ext (refresh_rumor t sg r)"
  using assms client_key_inj by (auto simp: signed_probe_def lease_signed_def refresh_rumor_def client_new_def)

lemma refresh_signed:
  assumes inv: "store_inv s" and signed: "store_signed ext s" and probe: "signed_probe ext ck t sg"
  shows "store_signed ext (refresh_probe_evidence ck t sg s)"
proof (rule store_signedI)
  note S = store_signedD [OF signed]
  fix d reg
  assume "hm_get (registrations (refresh_probe_evidence ck t sg s)) d = Some reg"
  then obtain old where old: "hm_get (registrations s) d = Some old"
    "reg = (if reg_client_key old = ck then old\<lparr>reg_rumor := map_option (refresh_rumor t sg) (reg_rumor old)\<rparr> else old)"
    using refresh_registrationD by blast
  have "is_authorized ext (refresh_rumor t sg r) \<and> reg_records old = rumor_records (refresh_rumor t sg r)"
    if "reg_rumor old = Some r" "reg_client_key old = ck" for r
  proof -
    have "rumor_client_key r = ck"
      using store_inv_exceptD(7) [OF inv [unfolded store_inv_def] old(1) that(1)] that(2) by (simp add: leased_ok_def)
    moreover have "is_authorized ext r" "reg_records old = rumor_records r"
      using S(1) [OF old(1)] that(1) by (simp_all add: registration_signed_def)
    ultimately show ?thesis
      using refresh_rumor_signed [OF probe] by (simp add: is_authorized_split records_evidence_def refresh_rumor_def)
  qed
  then show "registration_signed ext reg" using S(1) [OF old(1)] old(2) by (auto simp: registration_signed_def)
next
  fix q d c
  assume "hm_get (claims_of (refresh_probe_evidence ck t sg s) q) d = Some c"
  from refresh_claimD [OF this] obtain old where "hm_get (claims_of s q) d = Some old"
    "c = (if rumor_client_key old = ck then refresh_rumor t sg old else old)" by blast
  with store_signedD(2) [OF signed] refresh_rumor_signed [OF probe] show "lease_signed ext c" by auto
qed (use store_signedD(3) [OF signed] in \<open>simp add: refresh_probe_evidence_def\<close>)

section \<open>The handlers\<close>

lemma authenticated_probe:
  "authenticate ext e (probe_message t) now = Inr identity \<Longrightarrow> signed_probe ext (client_key identity) t (env_signature e)"
  by (auto simp: authenticate_Inr signed_probe_def)

lemma handle_probe_signed:
  assumes "store_inv s" "store_signed ext s"
  shows "store_signed ext (snd (handle_probe ext s time now e))"
  using assms
  by (auto simp: handle_probe_def Let_def split: sum.splits
      intro!: refresh_signed probe_with_evidence_inv signed_operations(4) dest: authenticated_probe)

lemma registration_rumor_signed:
  assumes auth: "authenticate ext e (register_message (register_domain (env_body e)) (env_timestamp_millis e)) now = Inr identity"
    and probe: "signed_probe ext (client_key identity) t sg"
  shows "lease_signed ext (registration_rumor_of e identity token t sg)"
proof -
  have id: "identity = client_new (env_verifying_key e) (env_rdns e)" using auth by (simp add: authenticate_Inr)
  from probe obtain key host where "client_key identity = client_key (client_new key host)"
    and key: "sig_parses ext sg" "sig_verifies ext key (probe_message t) sg" by (auto simp: signed_probe_def)
  then have "key = env_verifying_key e" by (simp add: id client_key_inj client_new_def)
  with key auth id show ?thesis by (simp add: lease_signed_def registration_rumor_of_def authenticate_Inr)
qed

lemma handle_register_signed:
  assumes inv: "store_inv s" and signed: "store_signed ext s"
  shows "store_signed ext (snd (handle_register ext drawn s time now e verified))"
proof (cases "authenticate ext e (register_message (register_domain (env_body e)) (env_timestamp_millis e)) now")
  case (Inl err)
  with signed show ?thesis by (simp add: handle_register_def)
next
  case (Inr identity)
  let ?r = "register ext drawn (register_domain (env_body e)) identity (call 0 time) s"
  have s1: "store_inv (snd ?r)" "store_signed ext (snd ?r)"
    using inv signed by (simp_all add: register_inv register_signed)
  have "store_signed ext (snd (attach_rumor ext (registration_rumor_of e identity token t sg) (call 1 time) (snd ?r)))"
    if "last_probe_evidence (snd ?r) identity = Some (t, sg)" for token t sg
    using that s1 registration_rumor_signed [OF Inr] store_signedD(3) [OF s1(2)]
    by (intro signed_operations(3)) (auto simp: last_probe_evidence_def)
  with Inr signed s1 show ?thesis
    by (cases ?r; cases "fst ?r") (auto simp: handle_register_def Let_def split: option.splits)
qed

text \<open>Publishing records: the registration's own rumor gets the records with the signature over them,
  the claims keep the signatures they had.\<close>

lemma handle_set_records_signed:
  assumes inv: "store_inv s" and signed: "store_signed ext s"
  shows "store_signed ext (snd (handle_set_records ext s now e))"
proof (cases "fst (handle_set_records ext s now e) = Some RecordsSet")
  case False
  then show ?thesis using signed by (simp add: set_records_refused)
next
  case True
  let ?d = "records_domain (env_body e)" and ?recs = "records_records (env_body e)"
  let ?id = "client_new (env_verifying_key e) (env_rdns e)"
  let ?t = "env_timestamp_millis e" and ?sg = "env_signature e"
  obtain reg where reg: "hm_get (registrations s) ?d = Some reg" "reg_client_key reg = client_key ?id"
    and auth: "sig_parses ext ?sg" "sig_verifies ext (env_verifying_key e) (set_records_message ext ?d ?recs ?t) ?sg"
    and s': "snd (handle_set_records ext s now e) = attach_record_evidence ?d (client_key ?id) ?t ?sg
      (s\<lparr>registrations := hm_insert ?d (reg\<lparr>reg_records := ?recs\<rparr>) (registrations s)\<rparr>)"
    using True by (auto simp: handle_set_records_def Let_def set_records_def authenticate_Inr
        split: sum.splits option.splits if_splits)
  note S = store_signedD [OF signed]
  have rumor: "is_authorized ext (r\<lparr>rumor_records := ?recs, records_timestamp_millis := Some ?t, records_signature := Some ?sg\<rparr>)"
    if "reg_rumor reg = Some r" for r
  proof -
    have "leased_ok ?d reg r" using store_inv_exceptD(7) [OF inv [unfolded store_inv_def] reg(1) that] .
    moreover have "is_authorized ext r" using S(1) [OF reg(1)] that by (simp add: registration_signed_def)
    ultimately have "rumor_owner_key r = env_verifying_key e" "rumor_domain r = ?d" "lease_signed ext r"
      using reg(2) by (auto simp: leased_ok_def is_authorized_split lease_signed_def client_key_inj client_new_def)
    then show ?thesis using auth by (simp add: is_authorized_split lease_signed_def records_evidence_def)
  qed
  show ?thesis
    unfolding s'
  proof (rule store_signedI, goal_cases)
    case (1 d reg')
    then show ?case using S(1) reg rumor
      by (cases "d = ?d") (auto simp: attach_record_evidence_def registration_signed_def)
  next
    case (2 q d c)
    from attach_record_evidence_claimD [OF this] obtain old where "hm_get (claims_of s q) d = Some old"
      "c = old \<or> c = old\<lparr>records_timestamp_millis := Some ?t, records_signature := Some ?sg\<rparr>"
      unfolding claims_of_regs by blast
    with S(2) [of q d old] show ?case by (auto simp: lease_signed_def)
  next
    case (3 ck t sg)
    then show ?case using S(3) by (simp add: attach_record_evidence_def)
  qed
qed

lemma handle_client_request_signed:
  "store_inv s \<Longrightarrow> store_signed ext s \<Longrightarrow> store_signed ext (snd (handle_client_request ext drawn s time request verified))"
  by (simp add: handle_client_request_def Let_def handle_probe_signed handle_register_signed
      handle_set_records_signed split: client_request.splits)

section \<open>Nodes\<close>

lemma client_api_recv_signed:
  assumes "store_inv (node_store n)" "store_signed (env_ext env) (node_store n)"
  shows "store_signed (env_ext env) (node_store (fst (client_api_recv env now net drawn time sender packet n)))"
  using assms handle_client_request_signed [OF assms]
  by (auto simp: client_api_recv_def Let_def split: prod.splits sum.splits option.splits) (metis snd_conv)+

lemma gossip_recv_signed:
  assumes "store_inv (node_store n)" "store_signed (env_ext env) (node_store n)"
  shows "store_signed (env_ext env) (node_store (fst (gossip_recv env now draws time sender packet n)))"
proof -
  have "store_signed (env_ext env) (node_store (fst (handle_gossip_message env draws time sender msg m)))"
    if "node_store m = node_store n" for msg m
    using assms that by (cases msg) (auto simp: rumors_step Let_def adopt_rumors_signed simp del: handle_gossip_message.simps(3) split: option.splits)
  with assms(2) show ?thesis
    by (auto simp: gossip_recv_def Let_def split: prod.splits sum.splits)
qed

lemma node_step_signed:
  assumes "node_step env n out n'" "store_inv (node_store n)" "store_signed (env_ext env) (node_store n)"
  shows "store_signed (env_ext env) (node_store n')"
proof (cases "node_store n' = node_store n")
  case False
  with assms(1) show ?thesis
  proof (cases rule: store_writers)
    case (gossip now draws time sender packet)
    with gossip_recv_signed [OF assms(2,3), of now draws time sender packet] show ?thesis by simp
  next
    case (client_api now net drawn time sender packet)
    with client_api_recv_signed [OF assms(2,3), of now net drawn time sender packet] show ?thesis by simp
  qed
qed (use assms(3) in simp)

lemma reachable_signed:
  assumes "reachable env peers verifier n" "rounding (env_round env)" "distinct peers"
  shows "store_signed (env_ext env) (node_store n)"
  using assms(1)
proof (induction rule: reachable.induct)
  case start
  show ?case by (simp add: new_with_verifier_def signed_operations(5))
next
  case (step n out n')
  then show ?case
    using node_step_signed reachable_inv [OF step.hyps(1) assms(2,3)] by (simp add: node_inv_def)
qed

end
