(* ===== verification/Bootstrap.thy ===== *)
theory Bootstrap
  imports Store_Spec Signed
begin

text \<open>
  A node that starts empty and the first exchange with a peer: the digest of everything the peer holds, the
  request for all of it, the leases, their adoption. The adoption of many leases is followed on the
  abstract specification of the store.
\<close>

section \<open>Adopting a set of leases\<close>

abbreviation host_of :: "registration_rumor \<Rightarrow> rstring" where
  "host_of r \<equiv> quota_key (rumor_rdns r)"

text \<open>The registry holds exactly the leases of a map from names to rumors.\<close>

definition holds_leases :: "(domain_name \<rightharpoonup> registration_rumor) \<Rightarrow> registry_spec \<Rightarrow> bool" where
  "holds_leases M S \<longleftrightarrow>
    (\<forall>d. spec_regs S d = map_option (\<lambda>r. registration_from_rumor r (host_of r)) (M d)) \<and>
    (\<forall>q d. (case spec_claims S q of None \<Rightarrow> None | Some m \<Rightarrow> m d) =
      (case M d of Some r \<Rightarrow> if host_of r = q then Some r else None | None \<Rightarrow> None))"

text \<open>A map of valid claims of hosts that have at most five of them.\<close>

definition leases_ok :: "externals \<Rightarrow> u64 \<Rightarrow> (domain_name \<rightharpoonup> registration_rumor) \<Rightarrow> bool" where
  "leases_ok ext t M \<longleftrightarrow> finite (dom M) \<and>
    (\<forall>d r. M d = Some r \<longrightarrow> rumor_domain r = d \<and> claim_valid ext (\<lambda>_. t) r) \<and>
    (\<forall>q. card {r \<in> ran M. host_of r = q} \<le> 5)"

lemma spec_kept_all:
  assumes "finite (ran m)" "\<And>r. r \<in> ran m \<Longrightarrow> claim_valid ext g r" "card (ran m) \<le> 5"
  shows "spec_kept ext g m = m"
proof
  fix d
  show "spec_kept ext g m d = m d"
  proof (cases "m d")
    case (Some r)
    then have r: "r \<in> ran m" by (rule ranI)
    have "{r' \<in> ran m. claim_valid ext g r' \<and> claim_order r' < claim_order r} \<subset> ran m" using r by blast
    from psubset_card_mono [OF assms(1) this] have "card {r' \<in> ran m. claim_valid ext g r' \<and> claim_order r' < claim_order r} < 5"
      using assms(3) by linarith
    with Some assms(2) [OF r] show ?thesis by (simp add: spec_kept_def)
  qed (simp add: spec_kept_def)
qed

lemma spec_adopt_holds:
  assumes holds: "holds_leases M S" and ok: "leases_ok ext t (M(rumor_domain r \<mapsto> r))"
    and fresh: "M (rumor_domain r) = None" and now: "\<And>i. choice_now ch i = t" "\<And>q d. choice_claim ch q d = t"
  shows "holds_leases (M(rumor_domain r \<mapsto> r)) (spec_adopt ext ch r S)"
proof -
  let ?d = "rumor_domain r" and ?q = "host_of r"
  define N where "N = M(?d \<mapsto> r)"
  define m where "m = (case spec_claims S ?q of None \<Rightarrow> Map.empty | Some m \<Rightarrow> m)(?d \<mapsto> r)"
  have H: "spec_regs S d = map_option (\<lambda>r. registration_from_rumor r (host_of r)) (M d)"
    "(case spec_claims S q of None \<Rightarrow> None | Some m \<Rightarrow> m d) =
      (case M d of Some r \<Rightarrow> if host_of r = q then Some r else None | None \<Rightarrow> None)" for q d
    using holds unfolding holds_leases_def by blast+
  have m: "m d = (case N d of Some w \<Rightarrow> if host_of w = ?q then Some w else None | None \<Rightarrow> None)" for d
    using H(2) [of d ?q] by (auto simp: m_def N_def split: option.splits)
  have mN: "N d = Some w \<and> host_of w = ?q" if "m d = Some w" for d w
    using that unfolding m by (simp split: option.splits if_splits)
  have ok: "finite (dom N)" "N d = Some w \<Longrightarrow> claim_valid ext (\<lambda>_. t) w" "card {r \<in> ran N. host_of r = q} \<le> 5" for d w q
    using ok unfolding leases_ok_def N_def by blast+
  have ran: "ran m \<subseteq> {w \<in> ran N. host_of w = ?q}" using mN by (auto simp: ran_def)
  have fin: "finite {w \<in> ran N. host_of w = ?q}" by (rule rev_finite_subset [OF finite_ran [OF ok(1)]]) blast
  have small: "card (ran m) \<le> 5" using card_mono [OF fin ran] ok(3) [of ?q] by linarith
  have valid: "claim_valid ext (\<lambda>_. t) w" if "w \<in> ran m" for w
    using that mN ok(2) by (auto simp: ran_def)
  have reading: "choice_claim ch ?q = (\<lambda>_. t)" using now(2) by blast
  have kept: "spec_kept ext (choice_claim ch ?q) m = m"
    unfolding reading by (rule spec_kept_all [OF finite_subset [OF ran fin] valid small])
  have "claim_valid ext (\<lambda>_. t) r" by (rule ok(2) [of ?d]) (simp add: N_def)
  then have adopt: "spec_adopt ext ch r S =
      S\<lparr>spec_claims := (spec_claims S)(?q \<mapsto> m), spec_regs := spec_install ?q m (spec_regs S)\<rparr>"
    using kept by (simp add: spec_adopt_def spec_claim_def Let_def spec_reconcile_def spec_add_claim_def now(1) flip: m_def)
  have regs: "spec_install ?q m (spec_regs S) d = map_option (\<lambda>r. registration_from_rumor r (host_of r)) (N d)" for d
    unfolding spec_install_def m using H(1) [of d] fresh
    by (cases "M d") (auto simp: N_def Let_def registration_from_rumor_def)
  have claims: "(case ((spec_claims S)(?q \<mapsto> m)) q of None \<Rightarrow> None | Some m \<Rightarrow> m d) =
      (case N d of Some w \<Rightarrow> if host_of w = q then Some w else None | None \<Rightarrow> None)" for q d
  proof (cases "q = ?q")
    case True
    show ?thesis unfolding True using m [of d] by simp
  next
    case False
    then show ?thesis using H(2) [of d q] fresh by (simp add: N_def split: option.splits)
  qed
  show ?thesis unfolding N_def [symmetric] holds_leases_def adopt using regs claims by simp
qed

lemma adopt_holds:
  assumes inv: "store_inv s" and holds: "holds_leases M (abs_store s)"
    and ok: "leases_ok ext t (M(rumor_domain r \<mapsto> r))" and fresh: "M (rumor_domain r) = None"
  shows "holds_leases (M(rumor_domain r \<mapsto> r)) (abs_store (snd (adopt_rumor ext r (frozen t) s)))"
proof -
  from store_step_refines [OF inv, of "EvAdopt r (frozen t)" ext] obtain ch where
    ch: "allowed_choice (frozen t) (abs_store s) ch"
    "abs_store (snd (adopt_rumor ext r (frozen t) s)) = spec_adopt ext ch r (abs_store s)" by auto
  have "choice_now ch i = t" "choice_claim ch q d = t" for i q d
    using ch(1) by (auto simp: allowed_choice_def frozen_def image_def)
  then show ?thesis unfolding ch(2) by (intro spec_adopt_holds [OF holds ok fresh])
qed

definition add_leases :: "registration_rumor list \<Rightarrow> (domain_name \<rightharpoonup> registration_rumor) \<Rightarrow> domain_name \<rightharpoonup> registration_rumor" where
  "add_leases rs M = foldl (\<lambda>M r. M(rumor_domain r \<mapsto> r)) M rs"

lemma add_leases_Some:
  "distinct (map rumor_domain rs) \<Longrightarrow> add_leases rs M d = Some r \<longleftrightarrow>
    r \<in> set rs \<and> rumor_domain r = d \<or> d \<notin> rumor_domain ` set rs \<and> M d = Some r"
  unfolding add_leases_def by (induction rs arbitrary: M) auto

lemma leases_ok_sub:
  assumes "leases_ok ext t N" "M \<subseteq>\<^sub>m N"
  shows "leases_ok ext t M"
proof -
  have sub: "M d = Some r \<Longrightarrow> N d = Some r" for d r using assms(2) by (auto simp: map_le_def dom_def)
  then have ran: "{r \<in> ran M. host_of r = q} \<subseteq> {r \<in> ran N. host_of r = q}" for q by (auto simp: ran_def)
  have fin: "finite (ran N)" using assms(1) by (simp add: leases_ok_def finite_ran)
  have "card {r \<in> ran M. host_of r = q} \<le> card {r \<in> ran N. host_of r = q}" for q
    using fin by (intro card_mono [OF _ ran]) simp
  moreover have "finite (dom M)"
    using assms finite_subset [OF map_le_implies_dom_le [OF assms(2)]] by (simp add: leases_ok_def)
  ultimately show ?thesis using assms(1) sub unfolding leases_ok_def by (meson le_trans)
qed

lemma adopt_rumors_holds:
  assumes "store_inv s" "holds_leases M (abs_store s)" "leases_ok ext t (add_leases rs M)"
    and "distinct (map rumor_domain rs)" "\<And>r. r \<in> set rs \<Longrightarrow> M (rumor_domain r) = None"
  shows "holds_leases (add_leases rs M) (abs_store (adopt_rumors ext (frozen t) i rs s))"
  using assms
proof (induction rs arbitrary: s M i)
  case Nil
  then show ?case by (simp add: add_leases_def)
next
  case (Cons r rs)
  let ?M = "M(rumor_domain r \<mapsto> r)"
  have add: "add_leases (r # rs) M = add_leases rs ?M" by (simp add: add_leases_def)
  have fresh: "?M (rumor_domain r') = None" if "r' \<in> set rs" for r'
  proof -
    have "rumor_domain r' \<in> set (map rumor_domain rs)" using that by simp
    then have "rumor_domain r' \<noteq> rumor_domain r" using Cons.prems(4) by (metis distinct.simps(2) list.simps(9))
    then show ?thesis using Cons.prems(5) [of r'] that by simp
  qed
  have "add_leases rs ?M d = Some w" if "?M d = Some w" for d w
  proof -
    have "d \<notin> rumor_domain ` set rs" using that fresh by (metis imageE option.distinct(1))
    then show ?thesis using that Cons.prems(4) add_leases_Some [of rs ?M d w] by simp
  qed
  then have "?M \<subseteq>\<^sub>m add_leases rs ?M" unfolding map_le_def by (metis domD)
  then have "leases_ok ext t ?M" using Cons.prems(3) leases_ok_sub unfolding add by blast
  then have "holds_leases ?M (abs_store (snd (adopt_rumor ext r (frozen t) s)))"
    using Cons.prems by (intro adopt_holds) simp_all
  moreover have "distinct (map rumor_domain rs)" using Cons.prems(4) by simp
  ultimately show ?case
    unfolding add adopt_rumors.simps call_frozen
    using Cons.prems(3) fresh by (intro Cons.IH [OF adopt_rumor_inv [OF Cons.prems(1)]]) (simp_all only: add)
qed

section \<open>The first exchange\<close>

text \<open>A store whose every name is a lease that is live at \<open>t\<close>.\<close>

definition all_leased :: "u64 \<Rightarrow> registry_store \<Rightarrow> bool" where
  "all_leased t s \<longleftrightarrow> (\<forall>d reg. lookup s d = Some reg \<longrightarrow> (\<exists>r. reg_rumor reg = Some r \<and> lease_is_live r (frozen t)))"

definition leases_of :: "registry_store \<Rightarrow> registration_rumor list" where
  "leases_of s = requested_rumors s (hm_keys (registrations s))"

lemma requested_rumors_all:
  assumes "\<And>d. d \<in> set ds \<Longrightarrow> \<exists>reg r. lookup s d = Some reg \<and> reg_rumor reg = Some r \<and> rumor_domain r = d"
  shows "map rumor_domain (requested_rumors s ds) = ds"
    and "r \<in> set (requested_rumors s ds) \<longleftrightarrow> (\<exists>d\<in>set ds. \<exists>reg. lookup s d = Some reg \<and> reg_rumor reg = Some r)"
proof -
  have "map rumor_domain (requested_rumors s ds) = ds \<and>
    (r \<in> set (requested_rumors s ds) \<longleftrightarrow> (\<exists>d\<in>set ds. \<exists>reg. lookup s d = Some reg \<and> reg_rumor reg = Some r))"
    using assms
  proof (induction ds)
    case (Cons d ds)
    then obtain reg w where w: "lookup s d = Some reg" "reg_rumor reg = Some w" "rumor_domain w = d"
      by (metis list.set_intros(1))
    then have "requested_rumors s (d # ds) = w # requested_rumors s ds"
      by (simp add: requested_rumors_def List.map_filter_def)
    with Cons w show ?case by auto
  qed (simp add: requested_rumors_def List.map_filter_def)
  then show "map rumor_domain (requested_rumors s ds) = ds"
    "r \<in> set (requested_rumors s ds) \<longleftrightarrow> (\<exists>d\<in>set ds. \<exists>reg. lookup s d = Some reg \<and> reg_rumor reg = Some r)" by blast+
qed

lemma lookup_key: "lookup s d = Some reg \<Longrightarrow> d \<in> set (hm_keys (registrations s))"
  by (force simp: lookup_def hm_keys_def dest: hm_get_SomeD)

lemma leases_of_store:
  assumes inv: "store_inv s" and leased: "all_leased t s"
  shows "map rumor_domain (leases_of s) = hm_keys (registrations s)" "distinct (map rumor_domain (leases_of s))"
    "r \<in> set (leases_of s) \<longleftrightarrow> (\<exists>reg. lookup s (rumor_domain r) = Some reg \<and> reg_rumor reg = Some r)"
proof -
  note D = store_inv_exceptD [OF inv [unfolded store_inv_def]]
  have dom: "leased_ok d reg w" if "lookup s d = Some reg" "reg_rumor reg = Some w" for d reg w
    using D(7) that by (simp add: lookup_def)
  have keys: "\<exists>reg w. lookup s d = Some reg \<and> reg_rumor reg = Some w \<and> rumor_domain w = d"
    if d: "d \<in> set (hm_keys (registrations s))" for d
  proof -
    obtain reg where reg: "lookup s d = Some reg"
      using d hm_get_eq_Some [OF D(1)] by (auto simp: lookup_def hm_keys_def)
    then obtain w where "reg_rumor reg = Some w" using leased by (auto simp: all_leased_def)
    with reg dom show ?thesis unfolding leased_ok_def by blast
  qed
  show "map rumor_domain (leases_of s) = hm_keys (registrations s)"
    unfolding leases_of_def by (rule requested_rumors_all(1) [OF keys])
  then show "distinct (map rumor_domain (leases_of s))" using D(1) by (simp add: hm_wf_def hm_keys_def)
  show "r \<in> set (leases_of s) \<longleftrightarrow> (\<exists>reg. lookup s (rumor_domain r) = Some reg \<and> reg_rumor reg = Some r)"
  proof -
    have "r \<in> set (leases_of s) \<longleftrightarrow> (\<exists>d\<in>set (hm_keys (registrations s)). \<exists>reg. lookup s d = Some reg \<and> reg_rumor reg = Some r)"
      unfolding leases_of_def by (rule requested_rumors_all(2) [OF keys])
    moreover have "rumor_domain r = d" if "lookup s d = Some reg" "reg_rumor reg = Some r" for d reg
      using dom [OF that] by (simp add: leased_ok_def)
    ultimately show ?thesis using lookup_key by blast
  qed
qed

lemma leases_of_ok:
  assumes inv: "store_inv s" and signed: "store_signed ext s" and leased: "all_leased t s"
  shows "leases_ok ext t (add_leases (leases_of s) Map.empty)"
proof -
  let ?M = "add_leases (leases_of s) Map.empty"
  note L = leases_of_store [OF inv leased]
  have M: "?M d = Some r \<longleftrightarrow> r \<in> set (leases_of s) \<and> rumor_domain r = d" for d r
    using add_leases_Some [OF L(2), of Map.empty d r] by simp
  have valid: "claim_valid ext (\<lambda>_. t) r" if "r \<in> set (leases_of s)" for r
  proof -
    from that obtain reg where reg: "lookup s (rumor_domain r) = Some reg" "reg_rumor reg = Some r" unfolding L(3) by blast
    then have "is_authorized ext r" using store_signedD(1) [OF signed] by (auto simp: lookup_def registration_signed_def)
    moreover have "lease_is_live r (frozen t)" using leased reg unfolding all_leased_def by fastforce
    ultimately show ?thesis by (simp add: claim_valid_iff)
  qed
  have few: "card {r \<in> ran ?M. host_of r = q} \<le> 5" for q
  proof -
    have set: "{r \<in> ran ?M. host_of r = q} = {r \<in> set (leases_of s). host_of r = q}" by (auto simp: ran_def M)
    have "inj_on rumor_domain (set (leases_of s))" using L(2) by (simp add: distinct_map)
    then have "inj_on rumor_domain {r \<in> set (leases_of s). host_of r = q}" by (rule inj_on_subset) blast
    moreover have "rumor_domain r \<in> leased_names s (host_of r)" if "r \<in> set (leases_of s)" for r
    proof -
      from that obtain reg where reg: "lookup s (rumor_domain r) = Some reg" "reg_rumor reg = Some r" unfolding L(3) by blast
      with store_inv_exceptD(7) [OF inv [unfolded store_inv_def], of "rumor_domain r" reg r]
      show ?thesis by (simp add: leased_names_def lookup_def leased_ok_def)
    qed
    then have "rumor_domain ` {r \<in> set (leases_of s). host_of r = q} \<subseteq> leased_names s q" by blast
    ultimately have "card {r \<in> set (leases_of s). host_of r = q} \<le> card (leased_names s q)"
      by (rule card_inj_on_le) simp
    with caps(1) [OF inv, of q] show ?thesis unfolding set by linarith
  qed
  have "dom ?M \<subseteq> rumor_domain ` set (leases_of s)" by (auto simp: dom_def M)
  then have "finite (dom ?M)" by (rule finite_subset) simp
  with valid few show ?thesis unfolding leases_ok_def by (auto simp: M)
qed

lemma holds_no_leases: "holds_leases Map.empty (abs_store store_new)"
  by (simp add: holds_leases_def store_new_def)

lemma adopt_leases_of:
  assumes "store_inv s" "store_signed ext s" "all_leased t s"
  shows "lookup (adopt_rumors ext (frozen t) i (leases_of s) store_new) d =
    map_option (\<lambda>r. registration_from_rumor r (host_of r)) (add_leases (leases_of s) Map.empty d)"
proof -
  have "holds_leases (add_leases (leases_of s) Map.empty) (abs_store (adopt_rumors ext (frozen t) i (leases_of s) store_new))"
    by (rule adopt_rumors_holds [OF store_new_inv holds_no_leases leases_of_ok [OF assms] leases_of_store(2) [OF assms(1,3)]]) simp
  then show ?thesis by (simp add: holds_leases_def lookup_def)
qed

text \<open>What a lookup of a name depends on.\<close>

definition served :: "registration \<Rightarrow> rstring \<times> rstring \<times> registration_token \<times> zone_record list" where
  "served reg = (reg_client_key reg, reg_quota_key reg, reg_token reg, reg_records reg)"

lemma adopted_store_serves:
  assumes "store_inv s" "store_signed ext s" "all_leased t s"
  shows "map_option served (lookup (adopt_rumors ext (frozen t) i (leases_of s) store_new) d) = map_option served (lookup s d)"
proof -
  note L = leases_of_store [OF assms(1,3)]
  have M: "add_leases (leases_of s) Map.empty d = Some r \<longleftrightarrow> r \<in> set (leases_of s) \<and> rumor_domain r = d" for r
    using add_leases_Some [OF L(2), of Map.empty d r] by simp
  show ?thesis
  proof (cases "lookup s d")
    case None
    then have "add_leases (leases_of s) Map.empty d = None" using M unfolding L(3) by (metis not_None_eq)
    then show ?thesis unfolding adopt_leases_of [OF assms] None by simp
  next
    case (Some reg)
    then obtain r where r: "reg_rumor reg = Some r" using assms(3) unfolding all_leased_def by blast
    have ok: "leased_ok d reg r"
      using store_inv_exceptD(7) [OF assms(1) [unfolded store_inv_def]] Some r by (simp add: lookup_def)
    moreover have "reg_records reg = rumor_records r"
      using store_signedD(1) [OF assms(2)] Some r by (auto simp: lookup_def registration_signed_def)
    moreover have "add_leases (leases_of s) Map.empty d = Some r"
      using ok Some r unfolding M L(3) leased_ok_def by blast
    ultimately show ?thesis
      unfolding adopt_leases_of [OF assms] Some by (simp add: served_def registration_from_rumor_def leased_ok_def)
  qed
qed

end
