(* ===== verification/History.thy ===== *)
theory History
  imports Node_Props
begin

text \<open>
  The store of a node changes only by the store's own operations: every step of a node performs a
  sequence of the events of \<open>Store_Props\<close>, so what holds of every history of events holds of
  the store of every reachable node.
\<close>

definition runs_events :: "externals \<Rightarrow> registry_store \<Rightarrow> registry_store \<Rightarrow> bool" where
  "runs_events ext s s' \<longleftrightarrow> (\<exists>es. s' = foldl (store_step ext) s es)"

lemma runs_none [simp, intro]: "runs_events ext s s"
  unfolding runs_events_def by (rule exI [of _ "[]"]) simp

lemma runs_trans [trans]: "runs_events ext s s1 \<Longrightarrow> runs_events ext s1 s2 \<Longrightarrow> runs_events ext s s2"
  unfolding runs_events_def by (metis foldl_append)

lemma runs_one: "runs_events ext s (store_step ext s e)"
  unfolding runs_events_def by (rule exI [of _ "[e]"]) simp

lemma runs_then: "runs_events ext s s1 \<Longrightarrow> runs_events ext s (store_step ext s1 e)"
  using runs_one runs_trans by blast

lemma adopt_rumors_runs: "runs_events ext s (adopt_rumors ext time i rumors s)"
proof (induction rumors arbitrary: s i)
  case (Cons r rumors)
  have "runs_events ext s (snd (adopt_rumor ext r (call i time) s))"
    using runs_one [of ext s "EvAdopt r (call i time)"] by simp
  from runs_trans [OF this Cons.IH] show ?case by simp
qed simp

lemma handle_probe_runs: "runs_events ext s (snd (handle_probe ext s time now e))"
proof (cases "authenticate ext e (probe_message (env_timestamp_millis e)) now")
  case (Inr identity)
  then show ?thesis
    using runs_then [OF runs_one, of ext s "EvProbe identity time (env_timestamp_millis e) (env_signature e)"
        "EvRefreshProbe (client_key identity) (env_timestamp_millis e) (env_signature e)"]
    by (simp add: probe_accepted)
qed (simp add: handle_probe_def)

lemma handle_register_runs: "runs_events ext s (snd (handle_register ext drawn s time now e verified))"
proof (cases "authenticate ext e (register_message (register_domain (env_body e)) (env_timestamp_millis e)) now")
  case (Inr identity)
  let ?r = "register ext drawn (register_domain (env_body e)) identity (call 0 time) s"
  have reg: "runs_events ext s (snd ?r)"
    using runs_one [of ext s "EvRegister drawn (register_domain (env_body e)) identity (call 0 time)"] by simp
  moreover have "runs_events ext s (snd (attach_rumor ext rumor (call 1 time) (snd ?r)))" for rumor
    using runs_then [OF reg, of "EvAttachRumor rumor (call 1 time)"] by simp
  ultimately show ?thesis
    using Inr by (cases ?r; cases "fst ?r") (auto simp: handle_register_def Let_def split: option.splits)
qed (simp add: handle_register_def)

lemma handle_set_records_runs: "runs_events ext s (snd (handle_set_records ext s now e))"
proof (cases "authenticate ext e (set_records_message ext (records_domain (env_body e)) (records_records (env_body e))
    (env_timestamp_millis e)) now")
  case (Inr identity)
  let ?r = "set_records (records_domain (env_body e)) identity (records_records (env_body e)) s"
  have set: "runs_events ext s (snd ?r)"
    using runs_one [of ext s "EvSetRecords (records_domain (env_body e)) identity (records_records (env_body e))"] by simp
  moreover have "runs_events ext s (attach_record_evidence d ck t sg (snd ?r))" for d ck t sg
    using runs_then [OF set, of "EvRecordEvidence d ck t sg"] by simp
  ultimately show ?thesis
    using Inr by (cases ?r; cases "fst ?r") (auto simp: handle_set_records_def Let_def)
qed (simp add: handle_set_records_def)

lemma handle_client_request_runs: "runs_events ext s (snd (handle_client_request ext drawn s time request verified))"
  by (simp add: handle_client_request_def Let_def handle_probe_runs handle_register_runs handle_set_records_runs
      split: client_request.splits)

lemma gossip_recv_runs:
  "runs_events (env_ext env) (node_store n) (node_store (fst (gossip_recv env now draws time sender packet n)))"
proof -
  have "runs_events (env_ext env) (node_store m) (node_store (fst (handle_gossip_message env draws time sender msg m)))" for msg m
    by (cases msg) (auto simp: rumors_step Let_def adopt_rumors_runs simp del: handle_gossip_message.simps(3) split: option.splits)
  from this [of "n\<lparr>gossip_limiter := l, node_peers := p\<rparr>" for l p] show ?thesis
    by (simp add: gossip_recv_def Let_def split: prod.splits sum.splits)
qed

lemma client_api_recv_runs:
  "runs_events (env_ext env) (node_store n) (node_store (fst (client_api_recv env now net drawn time sender packet n)))"
  using handle_client_request_runs [of "env_ext env" "node_store n" drawn time]
  by (auto simp: client_api_recv_def Let_def split: prod.splits sum.splits option.splits) (metis snd_conv)+

lemma node_step_runs:
  assumes "node_step env n out n'"
  shows "runs_events (env_ext env) (node_store n) (node_store n')"
proof (cases "node_store n' = node_store n")
  case False
  with assms show ?thesis
  proof (cases rule: store_writers)
    case (gossip now draws time sender packet)
    with gossip_recv_runs [of env n now draws time sender packet] show ?thesis by simp
  next
    case (client_api now net drawn time sender packet)
    with client_api_recv_runs [of env n now net drawn time sender packet] show ?thesis by simp
  qed
qed simp

lemma reachable_history:
  "reachable env peers verifier n \<Longrightarrow> runs_events (env_ext env) store_new (node_store n)"
proof (induction rule: reachable.induct)
  case start
  show ?case by (simp add: new_with_verifier_def)
next
  case (step n out n')
  from runs_trans [OF step.IH node_step_runs [OF step.hyps(2)]] show ?case .
qed

end
