(* ===== verification/Availability.thy ===== *)
theory Availability
  imports Store_Spec History
begin

text \<open>
  What becomes possible again: a sender that pauses is served, and a name whose holder has stopped
  probing can be registered by someone else.
\<close>

section \<open>A sender that pauses\<close>

lemma rounding_ge_one: "rounding rnd \<Longrightarrow> 1 \<le> x \<Longrightarrow> 1 \<le> rnd x"
  using roundingD(1) [of rnd 1 x] roundingD(2) [of rnd 1] by simp

lemma one_second: "rounding rnd \<Longrightarrow> 1000000000 \<le> n \<Longrightarrow> 1 \<le> as_secs_f64 rnd n"
proof -
  assume rnd: "rounding rnd" and n: "1000000000 \<le> n"
  have "1 \<le> n div 1000000000" using n by (simp add: div_greater_zero_iff Suc_le_eq)
  then have "1 \<le> rnd (real (n div 1000000000))" by (intro rounding_ge_one [OF rnd]) simp
  moreover have "0 \<le> rnd (real (n mod 1000000000) / 1000000000)" by (intro roundingD(4) [OF rnd]) simp
  ultimately show ?thesis unfolding as_secs_f64_def by (intro rounding_ge_one [OF rnd]) simp
qed

lemma refill_after_pause:
  assumes rnd: "rounding rnd" and "1 \<le> per_sec" "1 \<le> cap" "0 \<le> tokens b"
    and full: "last_refill b + 1000000000 \<le> now \<or> tokens b = cap"
  shows "1 \<le> refill rnd cap per_sec now b"
proof -
  have nonneg: "0 \<le> rnd (as_secs_f64 rnd (now - last_refill b) * per_sec)"
    using as_secs_f64_nonneg [OF rnd] assms(2) by (intro roundingD(4) [OF rnd]) simp
  have "1 \<le> tokens b + rnd (as_secs_f64 rnd (now - last_refill b) * per_sec)"
  proof (cases "tokens b = cap")
    case True
    then show ?thesis using nonneg assms(3) by simp
  next
    case False
    then have "1 \<le> as_secs_f64 rnd (now - last_refill b)" using full by (intro one_second [OF rnd]) simp
    then have "1 * 1 \<le> as_secs_f64 rnd (now - last_refill b) * per_sec" using assms(2) by (intro mult_mono) simp_all
    then have "1 \<le> rnd (as_secs_f64 rnd (now - last_refill b) * per_sec)" by (intro rounding_ge_one [OF rnd]) simp
    then show ?thesis using assms(4) by simp
  qed
  then show ?thesis using assms(3) by (simp add: refill_def rounding_ge_one [OF rnd])
qed

lemma allowed_after_pause:
  assumes rnd: "rounding rnd" and ok: "limiter_ok l" and "1 \<le> capacity l" "1 \<le> refill_per_sec l"
    and pause: "\<And>b. hm_get (buckets l) key = Some b \<Longrightarrow> last_refill b + 1000000000 \<le> now"
  shows "fst (allow_at rnd key now l)"
proof -
  let ?b = "case hm_get (tracked l key) key of Some b \<Rightarrow> b | None \<Rightarrow> \<lparr>tokens = capacity l, last_refill = now\<rparr>"
  have known: "last_refill b + 1000000000 \<le> now \<and> 0 \<le> tokens b" if "hm_get (tracked l key) key = Some b" for b
  proof -
    have "hm_get (buckets l) key = Some b" using that by (auto simp: tracked_def dest: evict_get split: if_splits)
    then show ?thesis using pause ok by (auto simp: limiter_ok_def)
  qed
  have "1 \<le> refill rnd (capacity l) (refill_per_sec l) now ?b"
    using known assms(3,4) by (intro refill_after_pause [OF rnd]) (auto split: option.splits)
  then show ?thesis by (simp add: allow_at_def Let_def tracked_def)
qed

section \<open>A name whose holder is gone\<close>

text \<open>No host has a claim of the name that is valid at \<open>t\<close>.\<close>

definition unclaimed :: "externals \<Rightarrow> u64 \<Rightarrow> domain_name \<Rightarrow> registry_spec \<Rightarrow> bool" where
  "unclaimed ext t d S \<longleftrightarrow> (\<forall>q m r. spec_claims S q = Some m \<longrightarrow> m d = Some r \<longrightarrow>
    rumor_domain r = d \<and> \<not> claim_valid ext (\<lambda>_. t) r)"

text \<open>The name is at most a lease of a host outside \<open>K\<close>.\<close>

definition foreign_lease :: "rstring set \<Rightarrow> domain_name \<Rightarrow> registry_spec \<Rightarrow> bool" where
  "foreign_lease K d S \<longleftrightarrow>
    (\<forall>reg. spec_regs S d = Some reg \<longrightarrow> reg_rumor reg \<noteq> None \<and> reg_quota_key reg \<notin> K)"

lemma reconcile_unclaimed:
  assumes "unclaimed ext t d S" "foreign_lease K d S"
  shows "unclaimed ext t d (spec_reconcile ext q (\<lambda>_. t) S)"
    and "q \<in> dom (spec_claims S) \<Longrightarrow> foreign_lease (insert q K) d (spec_reconcile ext q (\<lambda>_. t) S)"
    and "dom (spec_claims (spec_reconcile ext q (\<lambda>_. t) S)) = dom (spec_claims S)"
proof -
  have kept: "spec_kept ext (\<lambda>_. t) m d = None" if "spec_claims S q = Some m" for m
    using assms(1) that by (auto simp: unclaimed_def spec_kept_def claim_valid_def split: option.splits)
  show "unclaimed ext t d (spec_reconcile ext q (\<lambda>_. t) S)"
    using assms(1) kept by (auto simp: unclaimed_def spec_reconcile_def Let_def split: option.splits if_splits)
  show "foreign_lease (insert q K) d (spec_reconcile ext q (\<lambda>_. t) S)" if "q \<in> dom (spec_claims S)"
    using assms(2) that kept
    by (auto simp: foreign_lease_def spec_reconcile_def spec_install_def Let_def split: option.splits if_splits)
  show "dom (spec_claims (spec_reconcile ext q (\<lambda>_. t) S)) = dom (spec_claims S)"
    by (auto simp: spec_reconcile_def Let_def split: option.splits)
qed

lemma reconcile_hosts_unclaimed:
  assumes "unclaimed ext t d S" "foreign_lease K d S" "set qs \<subseteq> dom (spec_claims S)"
  shows "foreign_lease (K \<union> set qs) d (foldl (\<lambda>S q. spec_reconcile ext q (\<lambda>_. t) S) S qs)"
  using assms
proof (induction qs arbitrary: S K)
  case (Cons q qs)
  note R = reconcile_unclaimed [OF Cons.prems(1,2), of q]
  have "q \<in> dom (spec_claims S)" "set qs \<subseteq> dom (spec_claims S)" using Cons.prems(3) by simp_all
  from Cons.IH [OF R(1) R(2) [OF this(1)]] this(2) R(3) show ?case by simp
qed simp

lemma reclaim_releases:
  assumes inv: "store_inv s"
    and unheld: "\<And>q. d \<in> local_names s q \<Longrightarrow> q \<in> spec_dead t (abs_store s)"
    and unclaimed: "\<And>q c. hm_get (claims_of s q) d = Some c \<Longrightarrow> \<not> live_at ext t c"
  shows "hm_get (registrations (reclaim_stale ext (frozen t) s)) d = None"
proof (cases "hm_get (registrations (reclaim_stale ext (frozen t) s)) d")
  case (Some reg)
  from abs_reclaim [OF inv, of "frozen t" ext] obtain f where f: "\<forall>q d. f q d \<in> range (frozen t)"
    "abs_store (reclaim_stale ext (frozen t) s) = foldl (\<lambda>S q. spec_reconcile ext q (f q) S)
      (spec_drop t (abs_store s)) (hm_keys (quota_claims s))" by auto
  have "f q = (\<lambda>_. t)" for q using f(1) by (auto simp: frozen_def)
  then have abs: "abs_store (reclaim_stale ext (frozen t) s) = foldl (\<lambda>S q. spec_reconcile ext q (\<lambda>_. t) S)
      (spec_drop t (abs_store s)) (hm_keys (quota_claims s))" using f(2) by simp
  have valid: "claim_valid ext (\<lambda>_. t) c \<longleftrightarrow> live_at ext t c" for c
    by (simp add: claim_valid_iff live_at_def)
  have "rumor_domain c = d" if "hm_get (claims_of s q) d = Some c" for q c
    using claims_of_ok [OF inv] that by (simp add: claims_ok_def)
  then have none: "unclaimed ext t d (spec_drop t (abs_store s))"
    using unclaimed by (fastforce simp: unclaimed_def spec_drop_def valid claims_of_def split: option.splits)
  have lease: "foreign_lease {} d (spec_drop t (abs_store s))"
    unfolding foreign_lease_def
  proof (intro allI impI conjI)
    fix reg
    assume "spec_regs (spec_drop t (abs_store s)) d = Some reg"
    then have reg: "hm_get (registrations s) d = Some reg" "reg_quota_key reg \<notin> spec_dead t (abs_store s)"
      by (simp_all add: spec_drop_def split: option.splits if_splits)
    show "reg_rumor reg \<noteq> None"
    proof
      assume "reg_rumor reg = None"
      with reg(1) have "d \<in> local_names s (reg_quota_key reg)" by (simp add: local_names_def)
      with unheld reg(2) show False by blast
    qed
  qed simp
  have keys: "set (hm_keys (quota_claims s)) = dom (spec_claims (spec_drop t (abs_store s)))"
    using host_order [OF inv] by (simp add: spec_drop_def)
  have "foreign_lease (set (hm_keys (quota_claims s))) d (abs_store (reclaim_stale ext (frozen t) s))"
    using reconcile_hosts_unclaimed [OF none lease, of "hm_keys (quota_claims s)"] keys unfolding abs by simp
  then have reg: "reg_rumor reg \<noteq> None" "reg_quota_key reg \<notin> set (hm_keys (quota_claims s))"
    using Some by (simp_all add: foreign_lease_def)
  then have "backed (reclaim_stale ext (frozen t) s) d reg"
    using store_inv_exceptD(8) [OF reclaim_stale_inv [OF inv, unfolded store_inv_def] Some] by auto
  then have "reg_quota_key reg \<in> set (hm_keys (quota_claims (reclaim_stale ext (frozen t) s)))"
    by (force simp: backed_def hm_keys_def dest: hm_get_SomeD)
  with reg(2) show ?thesis by (simp add: reclaim_stale_eq reconcile_all_keys drop_hosts_def)
qed simp

lemma reclaim_keeps_live_host:
  assumes inv: "store_inv s" and live: "is_live (liveness s) c (frozen t)"
  shows "is_live (liveness (reclaim_stale ext (frozen t) s)) c (frozen t)"
    and "registration_count (liveness (reclaim_stale ext (frozen t) s)) c = registration_count (liveness s) c"
proof -
  have "tracker_wf (liveness s)" using store_inv_exceptD(4) [OF inv [unfolded store_inv_def]] .
  from expired_clients_iff [OF this] live
  have "client_quota_key c \<notin> set (expired_clients (liveness s) (frozen t))" by (auto simp: is_live_iff)
  then show "is_live (liveness (reclaim_stale ext (frozen t) s)) c (frozen t)"
    "registration_count (liveness (reclaim_stale ext (frozen t) s)) c = registration_count (liveness s) c"
    using live by (simp_all add: reclaim_stale_eq reconcile_all_sel drop_hosts_def is_live_iff registration_count_eq fold_forget)
qed

lemma register_released:
  assumes inv: "store_inv s" and live: "is_live (liveness s) c (frozen t)" "registration_count (liveness s) c < 5"
    and unheld: "\<And>q. d \<in> local_names s q \<Longrightarrow> q \<in> spec_dead t (abs_store s)"
    and unclaimed: "\<And>q c. hm_get (claims_of s q) d = Some c \<Longrightarrow> \<not> live_at ext t c"
  shows "register ext drawn d c (frozen t) s = (Inr (token_issue drawn t),
    add_registration d c (token_issue drawn t) (reclaim_stale ext (frozen t) s))"
proof -
  have "\<not> hm_contains_key (registrations (reclaim_stale ext (frozen t) s)) d"
    using reclaim_releases [OF inv unheld unclaimed] by (simp add: hm_contains_key_def)
  moreover have "can_register (liveness (reclaim_stale ext (frozen t) s)) c (frozen t)"
    using reclaim_keeps_live_host [OF inv live(1)] live(2) by (simp add: can_register_def max_registrations_per_client_def)
  ultimately show ?thesis using live(1) by (simp add: register_def Let_def add_registration_def)
qed

text \<open>A host that holds a name without a lease has probed, and its last probe is on record.\<close>

definition holders_seen :: "registry_store \<Rightarrow> bool" where
  "holders_seen s \<longleftrightarrow> (\<forall>q. local_names s q \<noteq> {} \<longrightarrow> hm_get (last_seen_millis (liveness s)) q \<noteq> None)"

lemma holders_seen_mono:
  assumes "holders_seen s" "\<And>q. local_names s' q \<subseteq> local_names s q"
    and "\<And>q. hm_get (last_seen_millis (liveness s)) q \<noteq> None \<Longrightarrow> hm_get (last_seen_millis (liveness s')) q \<noteq> None"
  shows "holders_seen s'"
  using assms unfolding holders_seen_def by blast

lemma reclaim_holders_seen:
  assumes inv: "store_inv s" and seen: "holders_seen s"
  shows "holders_seen (reclaim_stale ext time s)"
proof -
  let ?ks = "expired_clients (liveness s) (call 0 time)"
  let ?s = "drop_hosts ?ks s"
  have wf: "hm_wf (registrations s)" using store_inv_exceptD(1) [OF inv [unfolded store_inv_def]] .
  have names: "local_names ?s q \<subseteq> local_names s q" "q \<in> set ?ks \<Longrightarrow> local_names ?s q = {}" for q
    by (auto simp: local_names_def drop_hosts_def hm_get_retain_Some [OF wf])
  have dropped: "holders_seen ?s"
    unfolding holders_seen_def
  proof (intro allI impI)
    fix q
    assume held: "local_names ?s q \<noteq> {}"
    with names(2) have "q \<notin> set ?ks" by blast
    moreover have "local_names s q \<noteq> {}" using names(1) held by blast
    then have "hm_get (last_seen_millis (liveness s)) q \<noteq> None" using seen unfolding holders_seen_def by blast
    ultimately show "hm_get (last_seen_millis (liveness ?s)) q \<noteq> None" by (simp add: drop_hosts_def fold_forget)
  qed
  have "local_names (reclaim_stale ext time s) q \<subseteq> local_names ?s q" for q
    unfolding reclaim_stale_eq by (rule reconcile_all_local [OF drop_hosts_inv [OF inv]])
  then show ?thesis
    by (rule holders_seen_mono [OF dropped]) (simp add: reclaim_stale_eq reconcile_all_sel)
qed

lemma register_holders_seen:
  assumes inv: "store_inv s" and seen: "holders_seen s"
  shows "holders_seen (snd (register ext drawn d c time s))"
proof -
  let ?s = "reclaim_stale ext (call 1 time) s"
  note seen' = reclaim_holders_seen [OF inv seen, of ext "call 1 time"]
  have "holders_seen (add_registration d c token ?s)" if "can_register (liveness ?s) c (call 2 time)" for token
  proof -
    have "hm_get (last_seen_millis (liveness ?s)) (client_quota_key c) \<noteq> None"
      using that by (auto simp: can_register_def is_live_iff)
    moreover have "local_names (add_registration d c token ?s) q \<subseteq> local_names ?s q" if "q \<noteq> client_quota_key c" for q
      using that by (auto simp: local_names_def add_registration_def split: if_splits)
    moreover have "liveness (add_registration d c token ?s) = increment_registration c (liveness ?s)"
      by (simp add: add_registration_def)
    ultimately show ?thesis using seen' unfolding holders_seen_def by (metis last_seen_ops(3) subset_empty)
  qed
  then show ?thesis using seen seen' by (auto simp: register_def Let_def add_registration_def)
qed

lemma reconcile_holders_seen:
  assumes "holders_seen s" "hm_wf (registrations s)" "\<And>q. local_names s' q = local_names s q" "liveness s' = liveness s"
    "hm_wf (registrations s')"
  shows "holders_seen (reconcile_quota ext q time s')"
  using reconcile_local_subset [OF assms(5), of ext q time] assms(3,4) by (intro holders_seen_mono [OF assms(1)]) auto

lemma insert_claim_local: "local_names (insert_claim q r s) q' = local_names s q'"
    "liveness (insert_claim q r s) = liveness s" "registrations (insert_claim q r s) = registrations s"
  by (simp_all add: local_names_def insert_claim_def Let_def)

lemma store_step_holders_seen:
  assumes inv: "store_inv s" and seen: "holders_seen s"
  shows "holders_seen (store_step ext s e)"
proof -
  have wf: "hm_wf (registrations s)" using store_inv_exceptD(1) [OF inv [unfolded store_inv_def]] .
  have claim: "holders_seen (reconcile_quota ext q time (insert_claim q r s))" for q r time
    using wf by (intro reconcile_holders_seen [OF seen wf]) (simp_all add: insert_claim_local)
  show ?thesis
  proof (cases e)
    case (EvProbe c time t sg)
    then show ?thesis
      using seen by (simp add: probe_with_evidence_def probe_def holders_seen_def local_names_def)
  next
    case (EvSetRecords d c recs)
    have "local_names (snd (set_records d c recs s)) q \<subseteq> local_names s q" for q
      by (auto simp: set_records_def local_names_def split: option.splits if_splits)
    then have "holders_seen (snd (set_records d c recs s))"
      by (rule holders_seen_mono [OF seen]) (simp add: set_records_def split: option.splits)
    with EvSetRecords show ?thesis by simp
  next
    case (EvRefreshProbe ck t sg)
    have "local_names (refresh_probe_evidence ck t sg s) q \<subseteq> local_names s q" for q
      by (auto simp: refresh_probe_evidence_def local_names_def split: if_splits)
    then have "holders_seen (refresh_probe_evidence ck t sg s)"
      by (rule holders_seen_mono [OF seen]) (simp add: refresh_probe_evidence_def)
    with EvRefreshProbe show ?thesis by simp
  next
    case (EvRecordEvidence d ck t sg)
    have "local_names (attach_record_evidence d ck t sg s) q \<subseteq> local_names s q" for q
      by (auto simp: attach_record_evidence_def local_names_def split: option.splits if_splits)
    then have "holders_seen (attach_record_evidence d ck t sg s)"
      by (rule holders_seen_mono [OF seen]) (simp add: attach_record_evidence_def)
    with EvRecordEvidence show ?thesis by simp
  next
    case (EvAttachRumor r time)
    then show ?thesis using seen claim by (simp add: attach_rumor_def Let_def split: option.splits)
  next
    case (EvAdopt r time)
    then show ?thesis using seen claim by (simp add: adopt_rumor_def Let_def)
  qed (use inv seen reclaim_holders_seen register_holders_seen in simp_all)
qed

lemma store_new_holders_seen: "holders_seen store_new"
  by (simp add: holders_seen_def local_names_def store_new_def)

interpretation seen_machine: state_machine "store_step ext" store_new "\<lambda>s. store_inv s \<and> holders_seen s" for ext
  by unfold_locales (auto intro: store_new_inv store_step_inv store_new_holders_seen store_step_holders_seen)

lemma reachable_holders_seen:
  "reachable env peers verifier n \<Longrightarrow> store_inv (node_store n) \<and> holders_seen (node_store n)"
  using reachable_history [of env peers verifier n] seen_machine.inv_from_init [of "env_ext env"]
  by (auto simp: runs_events_def)

end
