(* ===== verification/Node_Serving.thy ===== *)
theory Node_Serving
  imports Node_Props
begin

text \<open>
  What a sender can count on: as long as it has credit left in its bucket, a listener handles its
  datagram, whenever it arrives. A bucket starts with twenty tokens, each datagram takes one, and time
  only adds to it.
\<close>

section \<open>Credit\<close>

definition ready :: "'k rate_limiter \<Rightarrow> 'k \<Rightarrow> nat \<Rightarrow> bool" where
  "ready l key m \<longleftrightarrow> (case hm_get (buckets l) key of Some b \<Rightarrow> real m \<le> tokens b | None \<Rightarrow> True)"

lemma refill_keeps:
  assumes "rounding rnd" "real m \<le> tokens b" "m \<le> c" "c < 2 ^ 32" "0 \<le> per_sec"
  shows "real m \<le> refill rnd (real c) per_sec now b"
proof -
  have "0 \<le> rnd (as_secs_f64 rnd (now - last_refill b) * per_sec)"
    using assms(5) by (intro roundingD(4) [OF assms(1)] mult_nonneg_nonneg as_secs_f64_nonneg [OF assms(1)])
  then have "rnd (real m) \<le> rnd (tokens b + rnd (as_secs_f64 rnd (now - last_refill b) * per_sec))"
    using assms(2) by (intro roundingD(1) [OF assms(1)]) simp
  with roundingD(2) [OF assms(1), of m] assms(3,4) show ?thesis by (simp add: refill_def)
qed

lemma allow_ready:
  assumes rnd: "rounding rnd" and l: "standard_limiter l" and ready: "ready l key (Suc m)" "m < 20"
  shows "fst (allow_at rnd key now l)" "ready (snd (allow_at rnd key now l)) key m"
proof -
  have cap: "capacity l = 20" "refill_per_sec l = 10" using l by (simp_all add: standard_limiter_def)
  define b where "b = (case hm_get (tracked l key) key of Some b \<Rightarrow> b | None \<Rightarrow> \<lparr>tokens = 20, last_refill = now\<rparr>)"
  have same: "tracked l key = buckets l" if "hm_get (buckets l) key \<noteq> None"
    using that by (simp add: tracked_def hm_contains_key_def)
  have untracked: "hm_get (tracked l key) key = None" if "hm_get (buckets l) key = None"
    using that evict_get [of "buckets l" key] by (cases "hm_get (tracked l key) key") (auto simp: tracked_def split: if_splits)
  have "real (Suc m) \<le> tokens b"
    using ready same untracked by (cases "hm_get (buckets l) key") (auto simp: b_def ready_def)
  then have full: "real (Suc m) \<le> refill rnd 20 10 now b"
    using refill_keeps [OF rnd, of "Suc m" b 20 10 now] ready(2) by simp
  then have spent: "real m \<le> rnd (refill rnd 20 10 now b - 1)"
    using roundingD(1) [OF rnd, of "real m" "refill rnd 20 10 now b - 1"] roundingD(2) [OF rnd, of m] ready(2) by simp
  have "allow_at rnd key now l =
      (True, l\<lparr>buckets := hm_insert key \<lparr>tokens = rnd (refill rnd 20 10 now b - 1), last_refill = now\<rparr> (tracked l key)\<rparr>)"
    unfolding allow_at_def Let_def tracked_def [symmetric] cap b_def [symmetric] using full by simp
  then show "fst (allow_at rnd key now l)" "ready (snd (allow_at rnd key now l)) key m"
    using spent by (simp_all add: ready_def)
qed

lemma allow_ready_obtain:
  assumes "rounding rnd" "standard_limiter l" "ready l key (Suc m)" "m < 20"
  obtains l' where "allow_at rnd key now l = (True, l')" "standard_limiter l'" "ready l' key m"
  using allow_ready [OF assms] standard_limiter_allow [OF assms(1,2)] by (metis prod.collapse)

lemma new_ready [simp]: "ready new_rate_limiter key m"
  by (simp add: ready_def new_rate_limiter_def limiter_new_def)

text \<open>What other senders do takes no credit away: at worst it evicts the bucket, and the next one is full.\<close>

lemma ready_other: "ready l key m \<Longrightarrow> other \<noteq> key \<Longrightarrow> ready (snd (allow_at rnd other now l)) key m"
proof -
  assume ready: "ready l key m" and other: "other \<noteq> key"
  obtain b where b: "buckets (snd (allow_at rnd other now l)) = hm_insert other b (tracked l other)"
    using allow_at_buckets [of rnd other now l] ..
  have "hm_get (tracked l other) key = Some c \<Longrightarrow> hm_get (buckets l) key = Some c" for c
    by (auto simp: tracked_def dest: evict_get split: if_splits)
  then show ?thesis using ready other unfolding ready_def b by (auto split: option.splits)
qed

text \<open>A limiter after datagrams of any senders, at the instants given.\<close>

definition limiter_after :: "(real \<Rightarrow> real) \<Rightarrow> ('k \<times> nat) list \<Rightarrow> 'k rate_limiter \<Rightarrow> 'k rate_limiter" where
  "limiter_after rnd es l = foldl (\<lambda>l (key, now). snd (allow_at rnd key now l)) l es"

lemma ready_after:
  assumes "rounding rnd" "standard_limiter l" "ready l key m" "m \<le> 20" "length (filter (\<lambda>e. fst e = key) es) \<le> m"
  shows "standard_limiter (limiter_after rnd es l) \<and>
    ready (limiter_after rnd es l) key (m - length (filter (\<lambda>e. fst e = key) es))"
  using assms(2-)
proof (induction es arbitrary: l m)
  case (Cons e es)
  obtain k now where e: "e = (k, now)" by (cases e)
  have std: "standard_limiter (snd (allow_at rnd k now l))" by (rule standard_limiter_allow [OF assms(1) Cons.prems(1)])
  show ?case
  proof (cases "k = key")
    case True
    with Cons.prems e obtain m' where m: "m = Suc m'" by (cases m) auto
    then have "ready (snd (allow_at rnd k now l)) key m'"
      using allow_ready(2) [OF assms(1) Cons.prems(1), of k m' now] Cons.prems(2,3) True by simp
    from Cons.IH [OF std this] show ?thesis using Cons.prems(3,4) True m e by (simp add: limiter_after_def)
  next
    case False
    from Cons.IH [OF std ready_other [OF Cons.prems(2) False]] Cons.prems(3,4) False e show ?thesis
      by (simp add: limiter_after_def)
  qed
qed (simp add: limiter_after_def)

section \<open>The listeners\<close>

text \<open>A limiter that would let \<open>m\<close> datagrams of the sender pass.\<close>

definition serves :: "socket_addr rate_limiter \<Rightarrow> socket_addr \<Rightarrow> nat \<Rightarrow> bool" where
  "serves l sender m \<longleftrightarrow> standard_limiter l \<and> ready l sender m"

lemma serves_new [simp]: "serves new_rate_limiter sender m"
  by (simp add: serves_def new_rate_limiter_standard)

lemma serves_obtain:
  assumes "rounding rnd" "serves l sender (Suc m)" "m < 20"
  obtains l' where "allow_at rnd sender now l = (True, l')" "serves l' sender m"
  using allow_ready_obtain [OF assms(1) _ _ assms(3), of l sender now] assms(2) by (auto simp: serves_def)

lemma gossip_served:
  assumes "rounding (env_round env)" "serves (gossip_limiter n) sender (Suc m)" "m < 20"
  shows "\<exists>l. serves l sender m \<and> gossip_recv env now draws time sender packet n =
    (case decode (gossip_from_slice env) (take max_datagram_bytes packet) of
      Inl _ \<Rightarrow> (n\<lparr>gossip_limiter := l\<rparr>, [])
    | Inr msg \<Rightarrow>
        if \<not> is_well_formed msg then (n\<lparr>gossip_limiter := l\<rparr>, [])
        else handle_gossip_message env draws time sender msg
          (n\<lparr>gossip_limiter := l, node_peers := learn sender (node_peers n)\<rparr>))"
proof -
  obtain l where "allow_at (env_round env) sender now (gossip_limiter n) = (True, l)" "serves l sender m"
    by (rule serves_obtain [OF assms])
  then show ?thesis by (intro exI [of _ l]) (simp add: gossip_recv_def Let_def split: sum.split)
qed

lemma resolver_served:
  assumes "rounding (env_round env)" "serves (resolver_limiter n) sender (Suc m)" "m < 20"
  shows "\<exists>l. serves l sender m \<and> resolver_recv env now sender packet n =
    (case decode (query_from_slice env) (take max_datagram_bytes packet) of
      Inl _ \<Rightarrow> (n\<lparr>resolver_limiter := l\<rparr>, [])
    | Inr query \<Rightarrow> (n\<lparr>resolver_limiter := l\<rparr>,
        send_encoded (answer_to_vec env) (resolve_answer_for (node_store n) (query_domain query)) sender))"
proof -
  obtain l where "allow_at (env_round env) sender now (resolver_limiter n) = (True, l)" "serves l sender m"
    by (rule serves_obtain [OF assms])
  then show ?thesis by (intro exI [of _ l]) (simp add: resolver_recv_def Let_def split: sum.split)
qed

lemma api_served:
  assumes "rounding (env_round env)" "serves (api_limiter n) sender (Suc m)" "m < 20" "api_running n"
  shows "\<exists>l. serves l sender m \<and> client_api_recv env now net drawn time sender packet n =
    (case decode (request_from_slice env) (take max_datagram_bytes packet) of
      Inl _ \<Rightarrow> (n\<lparr>api_limiter := l\<rparr>, [])
    | Inr request \<Rightarrow>
        (case handle_client_request (env_ext env) drawn (node_store n) time request
            (case request of Register envelope \<Rightarrow> verify net (node_verifier n) (sock_ip sender) (env_rdns envelope)
              | _ \<Rightarrow> True) of
          (Some response, s) \<Rightarrow> (n\<lparr>api_limiter := l, node_store := s\<rparr>, send_encoded (response_to_vec env) response sender)
        | (None, s) \<Rightarrow> (n\<lparr>api_limiter := l, node_store := s, api_running := False\<rparr>, [])))"
proof -
  obtain l where "allow_at (env_round env) sender now (api_limiter n) = (True, l)" "serves l sender m"
    by (rule serves_obtain [OF assms(1-3)])
  then show ?thesis using assms(4) by (intro exI [of _ l]) (simp add: client_api_recv_def Let_def split: sum.split client_request.split)
qed

lemma dns_served:
  assumes "rounding (env_round env)" "serves (dns_limiter n) sender (Suc m)" "m < 20"
  shows "\<exists>l. serves l sender m \<and> dns_recv env now sender packet n =
    (n\<lparr>dns_limiter := l\<rparr>,
     case parse_query (take max_datagram_bytes packet) of
       Inl _ \<Rightarrow>
         if 2 \<le> length (take max_datagram_bytes packet)
         then [(sender, build_error_response (u16_of_be [packet ! 0, packet ! 1]) rcode_format_error)]
         else []
     | Inr query \<Rightarrow> [(sender, dns_response_for (node_store n) query)])"
proof -
  obtain l where "allow_at (env_round env) sender now (dns_limiter n) = (True, l)" "serves l sender m"
    by (rule serves_obtain [OF assms])
  then show ?thesis
    by (intro exI [of _ l]) (simp add: dns_recv_def Let_def max_datagram_bytes_def split: sum.splits)
qed

section \<open>Frames that arrive\<close>

text \<open>A message that fits a frame and is read back as it was printed.\<close>

definition carries :: "('m \<Rightarrow> rstring + bytes) \<Rightarrow> (bytes \<Rightarrow> rstring + 'm) \<Rightarrow> 'm \<Rightarrow> bool" where
  "carries to_vec from_slice m =
    (case encode to_vec m of Inr bs \<Rightarrow> decode from_slice bs = Inr m | Inl _ \<Rightarrow> False)"

lemma carriesE:
  assumes "carries to_vec from_slice m"
  obtains bs where "encode to_vec m = Inr bs" "decode from_slice bs = Inr m" "take max_datagram_bytes bs = bs"
    "send_encoded to_vec m addr = [(addr, bs)]"
proof -
  from assms obtain bs where bs: "encode to_vec m = Inr bs" "decode from_slice bs = Inr m"
    by (auto simp: carries_def split: sum.splits)
  from encode_bound [OF bs(1)] have "take max_datagram_bytes bs = bs" by (simp add: max_datagram_bytes_def)
  with bs show thesis by (intro that) (simp_all add: send_encoded_def)
qed

lemma carried_read:
  assumes "carries to_vec from_slice m" "encode to_vec m = Inr bs"
  shows "decode from_slice (take max_datagram_bytes bs) = Inr m"
  using assms by (auto elim!: carriesE)

lemma carried_sent:
  assumes "carries to_vec from_slice m"
  obtains bs where "send_encoded to_vec m addr = [(addr, bs)]" "decode from_slice (take max_datagram_bytes bs) = Inr m"
  using carriesE [OF assms, where addr = addr] by metis

end
