(* ===== verification/System_Claims.thy ===== *)
theory System_Claims
  imports Demo Samples Bootstrap Availability Node_Serving
begin

text \<open>
  Properties of whole nodes: the example client against a node, what a node serves, how a new node
  learns what a peer holds.
\<close>

section \<open>The example client\<close>

text \<open>C12: the example client completes against a fresh node that confirms its host. Its probe is
  acknowledged, its name registered, its records published; the resolver then names it as the owner and returns
  the records, and the lookup listener answers with exactly one record.\<close>

theorem demo_succeeds:
  fixes drawn :: bytes and sender :: socket_addr
  assumes "rounding (env_round env)" "signs (env_ext env) pk sign"
    and "is_fresh t1 t" "is_fresh t2 t" "is_fresh t3 t" "verify net verifier (sock_ip sender) demo_rdns"
    and link: "demo_delivered cli env pk sign (t1, t2, t3) [ProbeAck, Registered (token_issue drawn t), RecordsSet]
      \<lparr>owner_client_key = Some (client_key (client_new pk demo_rdns)), answer_records = demo_records\<rparr>"
  shows "\<exists>report n'. demo_main cli (env_ext env) pk sign (t1, t2, t3) (serve_node env net sender now drawn t)
      (new_with_verifier peers verifier) = Some (report, n') \<and>
    probe_reply report = ProbeAck \<and> register_reply report = Registered (token_issue drawn t) \<and>
    records_reply report = RecordsSet \<and>
    resolve_reply report =
      \<lparr>owner_client_key = Some (client_key (client_new pk demo_rdns)), answer_records = demo_records\<rparr> \<and>
    native_ancount report = 1 \<and> echoed_domain report = Some demo_domain"
proof -
  let ?r = "demo_lease pk sign demo_domain (token_issue drawn t) t1 t2"
  let ?s3 = "published_store ?r (registered_store ?r (demo_probed pk sign t1 t) t) demo_records t3
    (sign (set_records_message (env_ext env) demo_domain demo_records t3))"
  have look: "lookup ?s3 demo_domain = Some ((registration_from_rumor ?r (quota_key demo_rdns))\<lparr>reg_records := demo_records,
      reg_rumor := Some (?r\<lparr>rumor_records := demo_records, records_timestamp_millis := Some t3,
        records_signature := Some (sign (set_records_message (env_ext env) demo_domain demo_records t3))\<rparr>)\<rparr>)"
    using published_lookup [of ?r] by (simp add: client_lease_def)
  have answer: "resolve_answer_for ?s3 demo_domain =
      \<lparr>owner_client_key = Some (client_key (client_new pk demo_rdns)), answer_records = demo_records\<rparr>"
    by (simp add: resolve_answer_for_def look registration_from_rumor_def)
  have count: "length (answers_of demo_domain (matching_records ?s3 demo_query)) = 1"
    using look demo_records_match demo_answer_count by (simp add: matching_records_def demo_query_def)
  have reg: "handle_client_request (env_ext env) drawn (demo_probed pk sign t1 t) (frozen t)
      (demo_register pk sign demo_domain t2) (verify net verifier (sock_ip sender) demo_rdns) =
    (Some (Registered (token_issue drawn t)), registered_store ?r (demo_probed pk sign t1 t) t)"
    using demo_register_granted [OF assms(2-4)] assms(6) by simp
  have "demo_delivered cli env pk sign (t1, t2, t3) [ProbeAck, Registered (token_issue drawn t), RecordsSet]
      (resolve_answer_for ?s3 demo_domain)"
    using link by (simp only: answer)
  from demo_flow [OF assms(1) demo_probe_ack [OF assms(2,3)] reg demo_records_set [OF assms(2,5)] this, of now peers]
  show ?thesis unfolding answer count of_nat_1 by blast
qed

text \<open>A codec of the messages of one run: each is sent as one byte.\<close>

definition sample_demo_requests :: "client_request list" where
  "sample_demo_requests = [demo_probe (sample_key 1) id 100000, demo_register (sample_key 1) id demo_domain 100001,
    demo_set_records sample_ext (sample_key 1) id demo_domain 100002]"

definition sample_demo_answer :: "bool \<Rightarrow> resolve_answer" where
  "sample_demo_answer ok =
    (if ok then \<lparr>owner_client_key = Some (client_key (client_new (sample_key 1) demo_rdns)), answer_records = demo_records\<rparr>
     else \<lparr>owner_client_key = None, answer_records = []\<rparr>)"

fun sample_request_tag :: "client_request \<Rightarrow> bytes" where
  "sample_request_tag (Probe _) = [1]"
| "sample_request_tag (Register _) = [2]"
| "sample_request_tag (SetRecords _) = [3]"

definition sample_demo_responses :: "bool \<Rightarrow> client_response list" where
  "sample_demo_responses ok = (if ok then [ProbeAck, Registered (token_issue (replicate 8 0) 100005), RecordsSet]
    else [ProbeAck,
      ErrorResponse (lit ''claimed rdns hostname does not forward-confirm against the request's source address''),
      ErrorResponse (lit ''client does not own this domain'')])"

definition sample_response_tag :: "bool \<Rightarrow> client_response \<Rightarrow> bytes" where
  "sample_response_tag ok a = (if a = sample_demo_responses ok ! 0 then [0] else if a = sample_demo_responses ok ! 1 then [1] else [2])"

definition sample_demo_codec :: "bool \<Rightarrow> demo_codec" where
  "sample_demo_codec ok = \<lparr>request_to_vec = (\<lambda>q. Inr (sample_request_tag q)),
    response_from_slice = (\<lambda>bs. Inr (sample_demo_responses ok ! unat (hd bs))),
    query_to_vec = (\<lambda>_. Inr []), answer_from_slice = (\<lambda>_. Inr (sample_demo_answer ok))\<rparr>"

definition sample_demo_env :: "bool \<Rightarrow> node_env" where
  "sample_demo_env ok = \<lparr>env_ext = sample_ext, env_round = (\<lambda>x. x), gossip_to_vec = (\<lambda>_. Inr []),
    gossip_from_slice = (\<lambda>_. Inl []), query_from_slice = (\<lambda>_. Inr \<lparr>query_domain = demo_domain\<rparr>),
    answer_to_vec = (\<lambda>_. Inr []),
    request_from_slice = (\<lambda>bs. Inr (sample_demo_requests ! (unat (hd bs) - 1))),
    response_to_vec = (\<lambda>a. Inr (sample_response_tag ok a))\<rparr>"

lemma sample_signs: "signs sample_ext (sample_key k) id"
  by (simp add: signs_def sample_ext_def sample_key_def)

lemma sample_delivered: "demo_delivered (sample_demo_codec ok) (sample_demo_env ok) (sample_key 1) id
    (100000, 100001, 100002) (sample_demo_responses ok) (sample_demo_answer ok)"
proof (cases ok)
  case True
  then show ?thesis
    by (simp add: demo_delivered_def delivers_def sample_demo_codec_def sample_demo_env_def sample_demo_requests_def
        sample_demo_responses_def sample_response_tag_def)
      (simp add: demo_probe_def demo_register_def demo_set_records_def)
next
  case False
  then show ?thesis
    by (simp add: demo_delivered_def delivers_def sample_demo_codec_def sample_demo_env_def sample_demo_requests_def
        sample_demo_responses_def sample_response_tag_def lit_def)
      (simp add: demo_probe_def demo_register_def demo_set_records_def)
qed

lemma sample_demo_rounding: "rounding (env_round (sample_demo_env ok))"
  by (simp add: sample_demo_env_def rounding_def mono_def)

definition no_network :: dns_network where
  "no_network = \<lparr>exchange = (\<lambda>_ _ _. None), drawn_id = (\<lambda>_. 0)\<rparr>"

definition demo_addr :: socket_addr where "demo_addr = socket_addr_new (IpV4 [127, 0, 0, 1]) 40000"

theorem demo_succeeds_witness:
  "\<exists>report n'. demo_main (sample_demo_codec True) sample_ext (sample_key 1) id (100000, 100001, 100002)
      (serve_node (sample_demo_env True) no_network demo_addr 0 (replicate 8 0) 100005) (new_allowing_any_rdns []) =
        Some (report, n') \<and> native_ancount report = 1"
  using demo_succeeds [OF sample_demo_rounding [of True], where pk = "sample_key 1" and sign = id and ?t1.0 = 100000
      and ?t2.0 = 100001 and ?t3.0 = 100002 and t = 100005 and verifier = AllowAllVerifier and sender = demo_addr
      and cli = "sample_demo_codec True" and drawn = "replicate 8 0" and net = no_network and now = 0 and peers = "[]"] sample_signs sample_delivered [of True]
  by (auto simp: sample_demo_env_def is_fresh_iff sample_demo_responses_def sample_demo_answer_def new_allowing_any_rdns_def)

text \<open>C13: against a node that does not confirm the client's host the example completes too, and ends
  as its documentation says: the registration and then the records are refused, the name is not found, and the
  lookup listener answers with no record.\<close>

theorem demo_refused:
  fixes drawn :: bytes and sender :: socket_addr
  assumes "rounding (env_round env)" "signs (env_ext env) pk sign"
    and "is_fresh t1 t" "is_fresh t2 t" "is_fresh t3 t" "\<not> verify net verifier (sock_ip sender) demo_rdns"
    and link: "demo_delivered cli env pk sign (t1, t2, t3) [ProbeAck,
      ErrorResponse (lit ''claimed rdns hostname does not forward-confirm against the request's source address''),
      ErrorResponse (lit ''client does not own this domain'')] \<lparr>owner_client_key = None, answer_records = []\<rparr>"
  shows "\<exists>report n'. demo_main cli (env_ext env) pk sign (t1, t2, t3) (serve_node env net sender now drawn t)
      (new_with_verifier peers verifier) = Some (report, n') \<and>
    register_reply report =
      ErrorResponse (lit ''claimed rdns hostname does not forward-confirm against the request's source address'') \<and>
    records_reply report = ErrorResponse (lit ''client does not own this domain'') \<and>
    resolve_reply report = \<lparr>owner_client_key = None, answer_records = []\<rparr> \<and> native_ancount report = 0 \<and>
    registrations (node_store n') = []"
proof -
  let ?s = "demo_probed pk sign t1 t"
  have none: "registrations ?s = []" "lookup ?s demo_domain = None"
    by (simp_all add: demo_probed_def lookup_def)
  have answer: "resolve_answer_for ?s demo_domain = \<lparr>owner_client_key = None, answer_records = []\<rparr>"
    by (simp add: resolve_answer_for_def none)
  have count: "length (answers_of demo_domain (matching_records ?s demo_query)) = 0"
    using none by (simp add: matching_records_def demo_query_def)
  have reg: "handle_client_request (env_ext env) drawn ?s (frozen t)
      (demo_register pk sign demo_domain t2) (verify net verifier (sock_ip sender) demo_rdns) = (Some (ErrorResponse
        (lit ''claimed rdns hostname does not forward-confirm against the request's source address'')), ?s)"
    using demo_register_refused [OF assms(2,4)] assms(6) by simp
  have "demo_delivered cli env pk sign (t1, t2, t3) [ProbeAck,
      ErrorResponse (lit ''claimed rdns hostname does not forward-confirm against the request's source address''),
      ErrorResponse (lit ''client does not own this domain'')] (resolve_answer_for ?s demo_domain)"
    using link by (simp only: answer)
  from demo_flow [OF assms(1) demo_probe_ack [OF assms(2,3)] reg demo_records_refused [OF assms(2,5) none(2)] this, of now peers]
  show ?thesis
    unfolding answer count of_nat_0 by (elim exE conjE, intro exI conjI) (assumption | simp add: none)+
qed

theorem demo_refused_witness:
  "\<exists>report n'. demo_main (sample_demo_codec False) sample_ext (sample_key 1) id (100000, 100001, 100002)
      (serve_node (sample_demo_env False) no_network demo_addr 0 (replicate 8 0) 100005) (node_new []) =
        Some (report, n') \<and> native_ancount report = 0"
proof -
  have "\<not> verify no_network FcrdnsVerifier (sock_ip demo_addr) demo_rdns"
    by (simp add: no_network_def reverse_lookup_def dns_query_network_def send_and_receive_def net_call_def
      is_forward_confirmed_def default_resolvers_def)
  from demo_refused [OF sample_demo_rounding [of False], where pk = "sample_key 1" and sign = id and ?t1.0 = 100000
      and ?t2.0 = 100001 and ?t3.0 = 100002 and t = 100005 and cli = "sample_demo_codec False" and drawn = "replicate 8 0"
      and now = 0 and peers = "[]", OF _ _ _ _ this] sample_signs sample_delivered [of False]
  show ?thesis
    by (auto simp: sample_demo_env_def is_fresh_iff sample_demo_responses_def sample_demo_answer_def node_new_def)
qed

section \<open>What a node serves\<close>

text \<open>C10: whatever a node has received, a name it holds by lease is served with records the
  name's owner signed for this name, or with none: the registration names the owner's key and host, the lease
  carries the owner's signatures of the registration and of a probe, and the records served are the signed ones.\<close>

theorem served_records_signed:
  assumes "reachable env peers verifier n" "rounding (env_round env)" "distinct peers"
    and reg: "lookup (node_store n) d = Some reg" "reg_rumor reg = Some r"
  shows "reg_client_key reg = client_key (client_new (rumor_owner_key r) (rumor_rdns r)) \<and>
    sig_verifies (env_ext env) (rumor_owner_key r) (register_message d (registration_timestamp_millis r)) (registration_signature r) \<and>
    sig_verifies (env_ext env) (rumor_owner_key r) (probe_message (probe_timestamp_millis r)) (probe_signature r) \<and>
    (reg_records reg = [] \<or> (\<exists>t sg. records_timestamp_millis r = Some t \<and> records_signature r = Some sg \<and>
      sig_verifies (env_ext env) (rumor_owner_key r) (set_records_message (env_ext env) d (reg_records reg) t) sg))"
proof -
  have "store_inv (node_store n)" using reachable_inv [OF assms(1-3)] by (simp add: node_inv_def)
  from store_inv_exceptD(7) [OF this [unfolded store_inv_def], of d reg r]
  have "leased_ok d reg r" using reg by (simp add: lookup_def)
  moreover have "registration_signed (env_ext env) reg"
    using store_signedD(1) [OF reachable_signed [OF assms(1-3)]] reg(1) by (simp add: lookup_def)
  ultimately show ?thesis
    using reg(2) by (auto simp: leased_ok_def registration_signed_def is_authorized_iff records_evidence_def)
qed

text \<open>The node the demo leaves.\<close>

definition sample_demo_lease :: registration_rumor where
  "sample_demo_lease = demo_lease (sample_key 1) id demo_domain (token_issue (replicate 8 0) 100005) 100000 100001"

definition sample_demo_store :: registry_store where
  "sample_demo_store = published_store sample_demo_lease
    (registered_store sample_demo_lease (demo_probed (sample_key 1) id 100000 100005) 100005) demo_records 100002
    (set_records_message sample_ext demo_domain demo_records 100002)"

definition sample_published :: registration_rumor where
  "sample_published = sample_demo_lease\<lparr>rumor_records := demo_records, records_timestamp_millis := Some 100002,
    records_signature := Some (set_records_message sample_ext demo_domain demo_records 100002)\<rparr>"

lemma sample_demo_domain: "rumor_domain sample_demo_lease = demo_domain"
  "rumor_rdns sample_demo_lease = demo_rdns"
  by (simp_all add: sample_demo_lease_def)

lemma sample_demo_lookup: "lookup sample_demo_store d = (if d = demo_domain
    then Some ((registration_from_rumor sample_demo_lease (quota_key demo_rdns))\<lparr>reg_records := demo_records,
      reg_rumor := Some sample_published\<rparr>) else None)"
  unfolding sample_demo_store_def sample_published_def
  by (simp add: lookup_def published_store_def sample_demo_domain)

lemma sample_demo_node: "\<exists>n. reachable (sample_demo_env True) [] AllowAllVerifier n \<and> node_store n = sample_demo_store"
proof -
  let ?env = "sample_demo_env True" and ?pk = "sample_key 1"
  have ext: "env_ext ?env = sample_ext" by (simp add: sample_demo_env_def)
  have fresh: "is_fresh 100000 100005" "is_fresh 100001 100005" "is_fresh 100002 100005" by (simp_all add: is_fresh_iff)
  note probe = demo_probe_ack [OF sample_signs [of 1] fresh(1), where drawn = "replicate 8 0" and verified = True, folded ext]
  have reg: "handle_client_request sample_ext (replicate 8 0) (demo_probed ?pk id 100000 100005) (frozen 100005)
      (demo_register ?pk id demo_domain 100001) (verify no_network AllowAllVerifier (sock_ip demo_addr) demo_rdns) =
    (Some (Registered (token_issue (replicate 8 0) 100005)),
     registered_store sample_demo_lease (demo_probed ?pk id 100000 100005) 100005)"
    using demo_register_granted [OF sample_signs fresh(1,2)] by (simp add: sample_demo_lease_def)
  have set: "handle_client_request sample_ext (replicate 8 0)
      (registered_store sample_demo_lease (demo_probed ?pk id 100000 100005) 100005) (frozen 100005)
      (demo_set_records sample_ext ?pk id demo_domain 100002) True = (Some RecordsSet, sample_demo_store)"
    using demo_records_set [OF sample_signs fresh(3)] by (simp add: sample_demo_store_def sample_demo_lease_def)
  have "resolve_answer_for sample_demo_store demo_domain = sample_demo_answer True"
    unfolding resolve_answer_for_def sample_demo_lookup
    by (simp add: registration_from_rumor_def sample_demo_lease_def client_lease_sel sample_demo_answer_def)
  then have link: "demo_delivered (sample_demo_codec True) ?env ?pk id (100000, 100001, 100002)
      [ProbeAck, Registered (token_issue (replicate 8 0) 100005), RecordsSet] (resolve_answer_for sample_demo_store demo_domain)"
    using sample_delivered [of True] by (simp only: sample_demo_responses_def if_True)
  from demo_flow [OF sample_demo_rounding probe reg [folded ext] set [folded ext] link, of 0 "[]"]
  obtain report n where n: "demo_main (sample_demo_codec True) (env_ext ?env) ?pk id (100000, 100001, 100002)
      (serve_node ?env no_network demo_addr 0 (replicate 8 0) 100005) (new_with_verifier [] AllowAllVerifier) = Some (report, n)"
    "node_store n = sample_demo_store" by blast
  have "reachable ?env [] AllowAllVerifier n" by (rule demo_main_reachable [OF n(1) reachable.start])
  with n(2) show ?thesis by blast
qed

theorem served_records_signed_witness:
  "\<exists>n reg r t sg. reachable (sample_demo_env True) [] AllowAllVerifier n \<and> lookup (node_store n) demo_domain = Some reg \<and>
    reg_rumor reg = Some r \<and> reg_records reg = demo_records \<and>
    sig_verifies sample_ext (rumor_owner_key r) (set_records_message sample_ext demo_domain (reg_records reg) t) sg"
proof -
  obtain n where n: "reachable (sample_demo_env True) [] AllowAllVerifier n" "node_store n = sample_demo_store"
    using sample_demo_node by blast
  obtain reg where reg: "lookup (node_store n) demo_domain = Some reg" "reg_rumor reg = Some sample_published"
    "reg_records reg = demo_records"
    unfolding n(2) sample_demo_lookup by simp
  have "demo_records \<noteq> []" by (simp add: demo_records_def)
  with served_records_signed [OF n(1) sample_demo_rounding distinct.simps(1) [THEN iffD2, OF TrueI] reg(1,2)] reg(3)
  have "\<exists>t sg. sig_verifies sample_ext (rumor_owner_key sample_published)
      (set_records_message sample_ext demo_domain (reg_records reg) t) sg"
    by (auto simp: sample_demo_env_def)
  with n(1) reg show ?thesis by blast
qed

section \<open>A new node\<close>




section \<open>What becomes possible again\<close>

text \<open>C14: a name is not lost with its holder. When every host that holds the name without a lease last probed
  more than a minute ago, and every lease of the name is of a probe more than a minute old, a live client with
  fewer than five registrations that asks a reachable node for the name is granted it, empty of records.\<close>

theorem name_released:
  assumes "reachable env peers verifier n"
    and live: "is_live (liveness (node_store n)) c (frozen t)" "registration_count (liveness (node_store n)) c < 5"
    and gone: "\<forall>q seen. d \<in> local_names (node_store n) q \<longrightarrow>
      hm_get (last_seen_millis (liveness (node_store n))) q = Some seen \<longrightarrow> unat seen + 60000 < unat t"
    and expired: "\<forall>q r. hm_get (claims_of (node_store n) q) d = Some r \<longrightarrow> unat (probe_timestamp_millis r) + 60000 < unat t"
  shows "\<exists>s'. register (env_ext env) drawn d c (frozen t) (node_store n) = (Inr (token_issue drawn t), s') \<and>
    lookup s' d = Some \<lparr>reg_client_key = client_key c, reg_quota_key = client_quota_key c, reg_token = token_issue drawn t,
      reg_records = [], reg_rumor = None\<rparr>"
proof -
  let ?s = "node_store n"
  have inv: "store_inv ?s" and seen: "holders_seen ?s" using reachable_holders_seen [OF assms(1)] by simp_all
  have "q \<in> spec_dead t (abs_store ?s)" if "d \<in> local_names ?s q" for q
  proof -
    have "hm_get (last_seen_millis (liveness ?s)) q \<noteq> None" using seen that unfolding holders_seen_def by blast
    then obtain ms where "hm_get (last_seen_millis (liveness ?s)) q = Some ms" by blast
    with gone that show ?thesis by (auto simp: spec_dead_def)
  qed
  moreover have "\<not> live_at (env_ext env) t r" if "hm_get (claims_of ?s q) d = Some r" for q r
  proof -
    have "unat (probe_timestamp_millis r) + 60000 < unat t" using expired that by blast
    then have "\<not> claim_valid (env_ext env) (\<lambda>_. t) r" by (simp add: claim_valid_def)
    then show ?thesis by (simp add: claim_valid_iff live_at_def)
  qed
  ultimately have "register (env_ext env) drawn d c (frozen t) ?s = (Inr (token_issue drawn t),
      add_registration d c (token_issue drawn t) (reclaim_stale (env_ext env) (frozen t) ?s))"
    by (rule register_released [OF inv live])
  then show ?thesis by (simp add: add_registration_def lookup_def)
qed

lemma sample_demo_claims: "hm_get (claims_of sample_demo_store q) demo_domain = Some r \<Longrightarrow> probe_timestamp_millis r = 100000"
  by (auto simp: claims_of_def sample_demo_store_def published_store_def sample_demo_lease_def client_lease_def
      split: option.splits if_splits)

theorem name_released_witness:
  "\<exists>s'. register sample_ext (replicate 8 0) demo_domain (client_new (sample_key 1) demo_rdns) (frozen 160003) sample_demo_store =
    (Inr (token_issue (replicate 8 0) 160003), s')"
proof -
  obtain n where n: "reachable (sample_demo_env True) [] AllowAllVerifier n" "node_store n = sample_demo_store"
    using sample_demo_node by blast
  let ?c = "client_new (sample_key 1) demo_rdns"
  have tracker: "liveness sample_demo_store =
      \<lparr>last_seen_millis = [(quota_key demo_rdns, 100005)], registration_counts = [(quota_key demo_rdns, 1)]\<rparr>"
    by (simp add: sample_demo_store_def published_store_def registered_store_def sample_demo_domain)
  have live: "is_live (liveness (node_store n)) ?c (frozen 160003)" "registration_count (liveness (node_store n)) ?c < 5"
    by (simp_all add: n(2) tracker is_live_iff registration_count_def quota_key_client)
  have "d \<notin> local_names sample_demo_store q" if "d = demo_domain" for d q
    using that by (simp add: local_names_def sample_demo_store_def published_store_def sample_demo_domain)
  then have gone: "\<forall>q seen. demo_domain \<in> local_names (node_store n) q \<longrightarrow>
      hm_get (last_seen_millis (liveness (node_store n))) q = Some seen \<longrightarrow> unat seen + 60000 < unat (160003 :: u64)"
    unfolding n(2) by blast
  have "unat (probe_timestamp_millis r) + 60000 < unat (160003 :: u64)"
    if "hm_get (claims_of (node_store n) q) demo_domain = Some r" for q r
    using sample_demo_claims that unfolding n(2) by simp
  then have "\<forall>q r. hm_get (claims_of (node_store n) q) demo_domain = Some r \<longrightarrow>
      unat (probe_timestamp_millis r) + 60000 < unat (160003 :: u64)" by blast
  from name_released [OF n(1) live gone this, of "replicate 8 0"] show ?thesis
    unfolding n(2) by (auto simp: sample_demo_env_def)
qed



text \<open>C16: whatever datagrams arrive at a listener, from however many senders and in whatever order
  and time, none of the first twenty of a sender is turned away.\<close>

theorem first_twenty_served:
  assumes "rounding rnd" "i < length arrivals"
    and "length (filter (\<lambda>e. fst e = fst (arrivals ! i)) (take i arrivals)) < 20"
  shows "fst (allow_at rnd (fst (arrivals ! i)) (snd (arrivals ! i)) (limiter_after rnd (take i arrivals) new_rate_limiter))"
proof -
  let ?key = "fst (arrivals ! i)"
  obtain m where m: "20 - length (filter (\<lambda>e. fst e = ?key) (take i arrivals)) = Suc m" "m < 20"
    using assms(3) by (cases "20 - length (filter (\<lambda>e. fst e = ?key) (take i arrivals))") auto
  have "standard_limiter (limiter_after rnd (take i arrivals) new_rate_limiter)"
    "ready (limiter_after rnd (take i arrivals) new_rate_limiter) ?key (Suc m)"
    using ready_after [OF assms(1) new_rate_limiter_standard new_ready, of 20 ?key "take i arrivals"] assms(3) m(1) by simp_all
  then show ?thesis by (rule allow_ready(1) [OF assms(1)]) (rule m(2))
qed

theorem first_twenty_served_witness:
  "fst (allow_at (\<lambda>x. x) demo_addr 0
    (limiter_after (\<lambda>x. x) [(demo_addr, 0), (demo_addr\<lparr>sock_port := 1\<rparr>, 5), (demo_addr, 7)] new_rate_limiter))"
  using first_twenty_served [of "\<lambda>x. x" 3 "[(demo_addr, 0), (demo_addr\<lparr>sock_port := 1\<rparr>, 5), (demo_addr, 7), (demo_addr, 0)]"]
  by (simp add: rounding_def mono_def)

end
