(* ===== verification/Traffic_Claims.thy ===== *)
theory Traffic_Claims
  imports System_Claims Node_Serving
begin

text \<open>
  Properties of what passes between nodes and their clients: any packet at the lookup listener, requests sent
  again, leases that travel over several nodes.
\<close>

section \<open>Any packet at the lookup listener\<close>

lemma take_two: "2 \<le> length bs \<Longrightarrow> take 2 bs = [bs ! 0, bs ! 1]"
  by (cases bs; cases "tl bs") (auto simp: numeral_2_eq_2)

lemma parse_query_id:
  assumes "parse_query bs = Inr q"
  shows "12 \<le> length bs \<and> u16_be (dq_id q) = take 2 bs"
proof -
  from assms have long: "12 \<le> length bs" and id: "dq_id q = u16_of_be [bs ! 0, bs ! 1]"
    by (auto simp: parse_query_def Let_def split: if_splits sum.splits prod.splits)
  from long have "take 2 bs = [bs ! 0, bs ! 1]" by (intro take_two) simp
  with long show ?thesis by (simp add: id u16_be_pair)
qed

lemma error_response_bytes:
  "take 2 (build_error_response i rcode) = u16_be i" "length (build_error_response i rcode) = 12"
  "take 2 (drop 2 (build_error_response i rcode)) = u16_be (0x8000 OR rcode)"
  by (simp_all add: build_error_response_def)

lemma dns_response_bytes:
  "take 2 (dns_response_for s q) = u16_be (dq_id q)" "12 \<le> length (dns_response_for s q)"
  by (simp_all add: dns_response_for_def build_response_def Let_def split: option.split)

text \<open>The flags of the reply to a packet: format error, unknown name, or found.\<close>

definition reply_flags :: "registry_store \<Rightarrow> bytes \<Rightarrow> u16" where
  "reply_flags s buf = (case parse_query buf of
      Inl _ \<Rightarrow> 0x8001
    | Inr q \<Rightarrow> if lookup s (dq_domain q) = None then 0x8403 else 0x8400)"

text \<open>C29: the lookup listener has an answer to anything. Within the rate limit, a packet of fewer
  than two bytes is dropped; any other, well-formed or not, gets exactly one reply, to its sender, with
  the packet's identifier and the code that fits: format error, unknown name or found. The registry
  stays as it is.\<close>

theorem lookup_listener_total:
  assumes "fst (allow_at (env_round env) sender now (dns_limiter n))"
  shows "node_store (fst (dns_recv env now sender packet n)) = node_store n \<and>
    (if length packet < 2 then snd (dns_recv env now sender packet n) = []
     else \<exists>reply. snd (dns_recv env now sender packet n) = [(sender, reply)] \<and> take 2 reply = take 2 packet \<and>
       12 \<le> length reply \<and> u16_of_be (take 2 (drop 2 reply)) = reply_flags (node_store n) (take max_datagram_bytes packet))"
proof -
  let ?buf = "take max_datagram_bytes packet"
  obtain l where l: "allow_at (env_round env) sender now (dns_limiter n) = (True, l)"
    using assms by (metis prod.collapse)
  have two: "2 \<le> length ?buf \<longleftrightarrow> 2 \<le> length packet" "take 2 ?buf = take 2 packet"
    by (auto simp: max_datagram_bytes_def min_def)
  show ?thesis
  proof (cases "parse_query ?buf")
    case (Inr q)
    from parse_query_id [OF Inr] have long: "12 \<le> length packet" "u16_be (dq_id q) = take 2 packet"
      unfolding two by simp_all
    then show ?thesis
      using dns_response_bytes [of "node_store n" q] dns_response_code [of "node_store n" q]
      by (simp add: dns_recv_def Let_def l Inr reply_flags_def)
  next
    case (Inl e)
    show ?thesis
    proof (cases "length packet < 2")
      case True
      then show ?thesis using two(1) unfolding dns_recv_def Let_def l prod.case Inl sum.case by simp
    next
      case False
      then have buf: "[?buf ! 0, ?buf ! 1] = take 2 packet" "u16_be (u16_of_be (take 2 packet)) = take 2 packet"
        using take_two [of packet] u16_be_pair [of "packet ! 0" "packet ! 1"] by (simp_all add: max_datagram_bytes_def)
      have "dns_recv env now sender packet n =
          (n\<lparr>dns_limiter := l\<rparr>, [(sender, build_error_response (u16_of_be (take 2 packet)) 1)])"
        using False two(1) unfolding dns_recv_def Let_def l prod.case Inl sum.case buf
        by (simp add: rcode_format_error_def rcode_formerr_def)
      then show ?thesis
        using False buf(2) error_response_bytes [of "u16_of_be (take 2 packet)" 1] by (simp add: reply_flags_def Inl)
    qed
  qed
qed

theorem lookup_listener_total_witness:
  "\<exists>reply. snd (dns_recv (sample_demo_env True) 0 demo_addr [1, 2, 3] (node_new [])) = [(demo_addr, reply)] \<and> take 2 reply = [1, 2]"
proof -
  have "fst (allow_at (env_round (sample_demo_env True)) demo_addr 0 (dns_limiter (node_new [])))"
    using allow_ready(1) [OF sample_demo_rounding [of True] new_rate_limiter_standard new_ready, of 0 demo_addr]
    by (simp add: node_new_def new_with_verifier_def)
  from lookup_listener_total [OF this, of "[1, 2, 3]"] show ?thesis by auto
qed

section \<open>Captured requests\<close>

text \<open>C19: a captured update of records works again, for whoever sends it, exactly while its timestamp is
  fresh. If the client that signed it still holds the name then, it puts its records back, whatever was published in
  between; afterwards it is refused as stale and changes nothing.\<close>

theorem replay_rolls_back:
  assumes first: "handle_client_request ext drawn s (frozen t) (SetRecords e) v = (Some RecordsSet, s1)"
    and holder: "lookup s d = Some reg" "lookup s' d = Some reg'" "reg_client_key reg' = reg_client_key reg"
    and d: "d = records_domain (env_body e)"
    and again: "handle_client_request ext drawn' s' (frozen t') (SetRecords e) v' = (response, s2)"
  shows "if is_fresh (env_timestamp_millis e) t'
    then response = Some RecordsSet \<and> resolve_answer_for s2 d =
      \<lparr>owner_client_key = Some (reg_client_key reg), answer_records = records_records (env_body e)\<rparr>
    else s2 = s' \<and> response = Some (ErrorResponse (request_auth_error_text Stale))"
proof -
  let ?msg = "set_records_message ext d (records_records (env_body e)) (env_timestamp_millis e)"
  from first obtain identity where auth: "authenticate ext e ?msg t = Inr identity" "client_key identity = reg_client_key reg"
    using holder(1) unfolding d
    by (auto simp: handle_client_request_def handle_set_records_def Let_def set_records_def lookup_def split: sum.splits if_splits option.splits)
  have auth': "authenticate ext e ?msg t' = (if is_fresh (env_timestamp_millis e) t' then Inr identity else Inl Stale)"
    using auth(1) by (auto simp: authenticate_def split: if_splits)
  show ?thesis
  proof (cases "is_fresh (env_timestamp_millis e) t'")
    case False
    then show ?thesis using again auth' unfolding d
      by (auto simp: handle_client_request_def handle_set_records_def Let_def)
  next
    case True
    have "hm_get (registrations s') d = Some reg'" using holder(2) by (simp add: lookup_def)
    then show ?thesis using again auth' True auth(2) holder(3) unfolding d
      by (auto simp: handle_client_request_def handle_set_records_def Let_def set_records_def attach_record_evidence_def
          resolve_answer_for_def lookup_def)
  qed
qed


theorem replay_rolls_back_witness:
  "\<exists>s2. handle_client_request sample_ext (replicate 8 0)
      (registered_store sample_demo_lease (demo_probed (sample_key 1) id 100000 100005) 100005) (frozen 110000)
      (demo_set_records sample_ext (sample_key 1) id demo_domain 100002) True = (Some RecordsSet, s2) \<and>
    answer_records (resolve_answer_for s2 demo_domain) = demo_records"
proof -
  let ?s = "registered_store sample_demo_lease (demo_probed (sample_key 1) id 100000 100005) 100005"
  have fresh: "is_fresh 100002 100005" "is_fresh 100002 110000" by (simp_all add: is_fresh_iff)
  have first: "handle_client_request sample_ext (replicate 8 0) ?s (frozen 100005)
      (demo_set_records sample_ext (sample_key 1) id demo_domain 100002) True = (Some RecordsSet, sample_demo_store)"
    using demo_records_set [OF sample_signs fresh(1)] by (simp add: sample_demo_store_def sample_demo_lease_def)
  obtain reg where reg: "lookup ?s demo_domain = Some reg"
    by (simp add: lookup_def sample_demo_lease_def)
  obtain response s2 where again: "handle_client_request sample_ext (replicate 8 0) ?s (frozen 110000)
      (demo_set_records sample_ext (sample_key 1) id demo_domain 100002) True = (response, s2)"
    by fastforce
  show ?thesis
    using replay_rolls_back [OF first [unfolded demo_set_records_def] reg reg refl _ again [unfolded demo_set_records_def]] fresh(2) again
    by simp
qed

section \<open>Leases that travel\<close>








end
