(* ===== verification/Interleaving.thy ===== *)
theory Interleaving
  imports Node_Props
begin

text \<open>
  The tasks of a node (\<open>binda/src/node.rs\<close>) as they run side by side. A task gives up the processor
  wherever it waits for a lock, so a handler is a sequence of pieces, each under one lock, and the pieces of
  the four listeners, the push loop and the maintenance task alternate in any order. A piece is the code
  between two locks; the value it leaves in the local variables is the state of its task. \<open>Serial_Runs\<close>
  relates these runs to those of the whole handlers in \<open>Node\<close>.
\<close>

section \<open>Tasks\<close>

text \<open>Where the gossip listener can be between two locks.\<close>

datatype gossip_task =
    GossipIdle
  | GossipAllowed socket_addr gossip_message
  | GossipLearned socket_addr gossip_message
  | GossipMissing socket_addr "domain_name list" conformance_challenge
  | GossipAnswered socket_addr "registration_rumor list"

text \<open>The other listeners: idle, or past the rate limiter with a decoded datagram of a sender.\<close>

datatype 'q listener_state = Idle | Allowed socket_addr 'q

datatype push_task = PushIdle | PushPicked socket_addr

record node_tasks =
  shared :: node
  gossip_at :: gossip_task
  resolver_at :: "resolve_query listener_state"
  api_at :: "client_request listener_state"
  dns_at :: "dns_query listener_state"
  push_at :: push_task

definition quiet_tasks :: "node \<Rightarrow> node_tasks" where
  "quiet_tasks n = \<lparr>shared = n, gossip_at = GossipIdle, resolver_at = Idle, api_at = Idle, dns_at = Idle, push_at = PushIdle\<rparr>"

definition quiescent :: "node_tasks \<Rightarrow> bool" where
  "quiescent s \<longleftrightarrow> gossip_at s = GossipIdle \<and> resolver_at s = Idle \<and> api_at s = Idle \<and> dns_at s = Idle"

section \<open>Pieces\<close>

text \<open>The pieces of the gossip listener.\<close>

definition gossip_charge :: "node_env \<Rightarrow> nat \<Rightarrow> socket_addr \<Rightarrow> bytes \<Rightarrow> node \<Rightarrow> node \<times> gossip_task" where
  "gossip_charge env now sender packet n =
    (let (ok, limiter) = allow_at (env_round env) sender now (gossip_limiter n);
         n = n\<lparr>gossip_limiter := limiter\<rparr>
     in if \<not> ok then (n, GossipIdle)
        else case decode (gossip_from_slice env) (take max_datagram_bytes packet) of
          Inl _ \<Rightarrow> (n, GossipIdle)
        | Inr msg \<Rightarrow> if \<not> is_well_formed msg then (n, GossipIdle) else (n, GossipAllowed sender msg))"

definition gossip_learn :: "socket_addr \<Rightarrow> gossip_message \<Rightarrow> node \<Rightarrow> node \<times> gossip_task" where
  "gossip_learn sender msg n = (n\<lparr>node_peers := learn sender (node_peers n)\<rparr>, GossipLearned sender msg)"

definition digest_missing :: "gossip_draws \<Rightarrow> time_source \<Rightarrow> socket_addr \<Rightarrow> digest_entry list \<Rightarrow> node \<Rightarrow> gossip_task" where
  "digest_missing draws time sender entries n =
    (let missing = missing_domains (node_store n) entries
     in if missing = [] then GossipIdle
        else GossipMissing sender missing
          (challenge_random (draw_nonce_a draws) (draw_nonce_b draws) (draw_coin draws) (now_millis time)))"

definition digest_admit ::
  "node_env \<Rightarrow> nat \<Rightarrow> socket_addr \<Rightarrow> domain_name list \<Rightarrow> conformance_challenge \<Rightarrow> node \<Rightarrow> node \<times> datagrams" where
  "digest_admit env instant sender missing challenge n =
    (n\<lparr>pending_challenges := admit_pending (pending_challenges n) (sender, challenge, missing, instant)\<rparr>,
     send_encoded (gossip_to_vec env) (Request missing challenge) sender)"

definition rumors_settle :: "socket_addr \<Rightarrow> registration_rumor list \<Rightarrow> registration_token \<Rightarrow> node \<Rightarrow> node \<times> gossip_task" where
  "rumors_settle sender rumors answer n =
    (let expected = hm_get (pending_challenges n) sender;
         n = n\<lparr>pending_challenges := hm_remove sender (pending_challenges n)\<rparr>
     in case expected of
       None \<Rightarrow> (n, GossipIdle)
     | Some (challenge, requested, _) \<Rightarrow>
         if answer \<noteq> expected_answer challenge then (n, GossipIdle)
         else if \<not> is_valid_rumor_response requested rumors then (n, GossipIdle)
         else (n, GossipAnswered sender rumors))"

text \<open>The rate limiter and the decoder of the other three listeners.\<close>

definition resolver_charge :: "node_env \<Rightarrow> nat \<Rightarrow> socket_addr \<Rightarrow> bytes \<Rightarrow> node \<Rightarrow> node \<times> resolve_query listener_state" where
  "resolver_charge env now sender packet n =
    (let (ok, limiter) = allow_at (env_round env) sender now (resolver_limiter n);
         n = n\<lparr>resolver_limiter := limiter\<rparr>
     in if \<not> ok then (n, Idle)
        else case decode (query_from_slice env) (take max_datagram_bytes packet) of
          Inl _ \<Rightarrow> (n, Idle) | Inr query \<Rightarrow> (n, Allowed sender query))"

definition api_charge :: "node_env \<Rightarrow> nat \<Rightarrow> socket_addr \<Rightarrow> bytes \<Rightarrow> node \<Rightarrow> node \<times> client_request listener_state" where
  "api_charge env now sender packet n =
    (let (ok, limiter) = allow_at (env_round env) sender now (api_limiter n);
         n = n\<lparr>api_limiter := limiter\<rparr>
     in if \<not> ok then (n, Idle)
        else case decode (request_from_slice env) (take max_datagram_bytes packet) of
          Inl _ \<Rightarrow> (n, Idle) | Inr request \<Rightarrow> (n, Allowed sender request))"

definition dns_charge :: "node_env \<Rightarrow> nat \<Rightarrow> socket_addr \<Rightarrow> bytes \<Rightarrow> node \<Rightarrow> node \<times> dns_query listener_state \<times> datagrams" where
  "dns_charge env now sender packet n =
    (let (ok, limiter) = allow_at (env_round env) sender now (dns_limiter n);
         n = n\<lparr>dns_limiter := limiter\<rparr>;
         buf = take max_datagram_bytes packet
     in if \<not> ok then (n, Idle, [])
        else case parse_query buf of
          Inl _ \<Rightarrow>
            if 2 \<le> length buf
            then (n, Idle, [(sender, build_error_response (u16_of_be [buf ! 0, buf ! 1]) rcode_format_error)])
            else (n, Idle, [])
        | Inr query \<Rightarrow> (n, Allowed sender query, []))"

definition api_handle ::
  "node_env \<Rightarrow> dns_network \<Rightarrow> bytes \<Rightarrow> time_source \<Rightarrow> socket_addr \<Rightarrow> client_request \<Rightarrow> node \<Rightarrow> node \<times> datagrams" where
  "api_handle env net drawn time sender request n =
    (let rdns_verified = (case request of
           Register envelope \<Rightarrow> verify net (node_verifier n) (sock_ip sender) (env_rdns envelope)
         | _ \<Rightarrow> True)
     in case handle_client_request (env_ext env) drawn (node_store n) time request rdns_verified of
       (Some response, s) \<Rightarrow> (n\<lparr>node_store := s\<rparr>, send_encoded (response_to_vec env) response sender)
     | (None, s) \<Rightarrow> (n\<lparr>node_store := s, api_running := False\<rparr>, []))"

section \<open>Runs\<close>

text \<open>One piece of one task: the replies it sends, and what the push loop sends.\<close>

inductive piece :: "node_env \<Rightarrow> node_tasks \<Rightarrow> datagrams \<Rightarrow> datagrams \<Rightarrow> node_tasks \<Rightarrow> bool" for env where
  gossip_receive: "gossip_at s = GossipIdle \<Longrightarrow> gossip_charge env now sender packet (shared s) = (n, g) \<Longrightarrow>
    piece env s [] [] (s\<lparr>shared := n, gossip_at := g\<rparr>)"
| gossip_learns: "gossip_at s = GossipAllowed sender msg \<Longrightarrow> gossip_learn sender msg (shared s) = (n, g) \<Longrightarrow>
    piece env s [] [] (s\<lparr>shared := n, gossip_at := g\<rparr>)"
| gossip_digest: "gossip_at s = GossipLearned sender (Digest entries) \<Longrightarrow> digest_missing draws time sender entries (shared s) = g \<Longrightarrow>
    piece env s [] [] (s\<lparr>gossip_at := g\<rparr>)"
| gossip_admit: "gossip_at s = GossipMissing sender missing challenge \<Longrightarrow>
    digest_admit env instant sender missing challenge (shared s) = (n, out) \<Longrightarrow>
    piece env s out [] (s\<lparr>shared := n, gossip_at := GossipIdle\<rparr>)"
| gossip_request: "gossip_at s = GossipLearned sender (Request domains challenge) \<Longrightarrow>
    piece env s (send_encoded (gossip_to_vec env)
      (Rumors (requested_rumors (node_store (shared s)) domains) (expected_answer challenge)) sender) []
      (s\<lparr>gossip_at := GossipIdle\<rparr>)"
| gossip_rumors: "gossip_at s = GossipLearned sender (Rumors rumors answer) \<Longrightarrow>
    rumors_settle sender rumors answer (shared s) = (n, g) \<Longrightarrow> piece env s [] [] (s\<lparr>shared := n, gossip_at := g\<rparr>)"
| gossip_adopt: "gossip_at s = GossipAnswered sender rumors \<Longrightarrow>
    piece env s [] [] (s\<lparr>shared := (shared s)\<lparr>node_store := adopt_rumors (env_ext env) time 0 rumors (node_store (shared s))\<rparr>,
      gossip_at := GossipIdle\<rparr>)"
| resolver_receive: "resolver_at s = Idle \<Longrightarrow> resolver_charge env now sender packet (shared s) = (n, r) \<Longrightarrow>
    piece env s [] [] (s\<lparr>shared := n, resolver_at := r\<rparr>)"
| resolver_read: "resolver_at s = Allowed sender query \<Longrightarrow>
    piece env s (send_encoded (answer_to_vec env) (resolve_answer_for (node_store (shared s)) (query_domain query)) sender) []
      (s\<lparr>resolver_at := Idle\<rparr>)"
| api_receive: "api_at s = Idle \<Longrightarrow> api_running (shared s) \<Longrightarrow> api_charge env now sender packet (shared s) = (n, a) \<Longrightarrow>
    piece env s [] [] (s\<lparr>shared := n, api_at := a\<rparr>)"
| api_handles: "api_at s = Allowed sender request \<Longrightarrow> api_handle env net drawn time sender request (shared s) = (n, out) \<Longrightarrow>
    piece env s out [] (s\<lparr>shared := n, api_at := Idle\<rparr>)"
| dns_receive: "dns_at s = Idle \<Longrightarrow> dns_charge env now sender packet (shared s) = (n, d, out) \<Longrightarrow>
    piece env s out [] (s\<lparr>shared := n, dns_at := d\<rparr>)"
| dns_read: "dns_at s = Allowed sender query \<Longrightarrow>
    piece env s [(sender, dns_response_for (node_store (shared s)) query)] [] (s\<lparr>dns_at := Idle\<rparr>)"
| push_pick: "push_at s = PushIdle \<Longrightarrow> random_peer pick (node_peers (shared s)) = Some peer \<Longrightarrow>
    piece env s [] [] (s\<lparr>push_at := PushPicked peer\<rparr>)"
| push_read: "push_at s = PushPicked peer \<Longrightarrow>
    piece env s [] (send_encoded (gossip_to_vec env) (push_digest (node_store (shared s))) peer) (s\<lparr>push_at := PushIdle\<rparr>)"
| prune_limiter: "piece env s [] [] (s\<lparr>shared := prune_limiter which now (shared s)\<rparr>)"
| prune_pending: "piece env s [] [] (s\<lparr>shared := prune_pending now (shared s)\<rparr>)"

text \<open>A run of pieces, with all the replies.\<close>

inductive interleaved :: "node_env \<Rightarrow> node_tasks \<Rightarrow> datagrams \<Rightarrow> node_tasks \<Rightarrow> bool" for env s where
  start: "interleaved env s [] s"
| piece: "interleaved env s replies s' \<Longrightarrow> piece env s' out pushed s'' \<Longrightarrow> interleaved env s (replies @ out) s''"

text \<open>A whole handler: the steps of a node but for the push loop, which changes nothing.\<close>

inductive handler_step :: "node_env \<Rightarrow> node \<Rightarrow> datagrams \<Rightarrow> node \<Rightarrow> bool" for env where
  gossip: "gossip_recv env now draws time sender packet n = (n', out) \<Longrightarrow> handler_step env n out n'"
| resolver: "resolver_recv env now sender packet n = (n', out) \<Longrightarrow> handler_step env n out n'"
| client_api: "client_api_recv env now net drawn time sender packet n = (n', out) \<Longrightarrow> handler_step env n out n'"
| dns: "dns_recv env now sender packet n = (n', out) \<Longrightarrow> handler_step env n out n'"
| prune_limiter: "handler_step env n [] (prune_limiter which now n)"
| prune_pending: "handler_step env n [] (prune_pending now n)"

text \<open>A run of whole handlers.\<close>

inductive handled_run :: "node_env \<Rightarrow> node \<Rightarrow> datagrams \<Rightarrow> node \<Rightarrow> bool" for env n where
  start: "handled_run env n [] n"
| step: "handled_run env n replies n' \<Longrightarrow> handler_step env n' out n'' \<Longrightarrow> handled_run env n (replies @ out) n''"

lemma handler_node_step: "handler_step env n out n' \<Longrightarrow> node_step env n out n'"
  by (induction rule: handler_step.induct) (auto intro: node_step.intros)

lemma handled_reachable: "handled_run env n replies n' \<Longrightarrow> reachable env peers verifier n \<Longrightarrow> reachable env peers verifier n'"
  by (induction rule: handled_run.induct) (auto intro: reachable.step handler_node_step)

section \<open>The invariant between any two pieces\<close>

lemma gossip_charge_node:
  "fst (gossip_charge env now sender packet n) = n\<lparr>gossip_limiter := snd (allow_at (env_round env) sender now (gossip_limiter n))\<rparr>"
  by (simp add: gossip_charge_def Let_def split: prod.splits sum.splits)

lemma resolver_charge_node:
  "fst (resolver_charge env now sender packet n) = n\<lparr>resolver_limiter := snd (allow_at (env_round env) sender now (resolver_limiter n))\<rparr>"
  by (simp add: resolver_charge_def Let_def split: prod.splits sum.splits)

lemma api_charge_node:
  "fst (api_charge env now sender packet n) = n\<lparr>api_limiter := snd (allow_at (env_round env) sender now (api_limiter n))\<rparr>"
  by (simp add: api_charge_def Let_def split: prod.splits sum.splits)

lemma dns_charge_node:
  "fst (dns_charge env now sender packet n) = n\<lparr>dns_limiter := snd (allow_at (env_round env) sender now (dns_limiter n))\<rparr>"
  by (simp add: dns_charge_def Let_def split: prod.splits sum.splits)

lemma charged_inv:
  assumes "rounding (env_round env)" "node_inv n"
  shows "node_inv (fst (gossip_charge env now sender packet n))" "node_inv (fst (resolver_charge env now sender packet n))"
    "node_inv (fst (api_charge env now sender packet n))" "node_inv (fst (dns_charge env now sender packet n))"
  using assms standard_limiter_allow [OF assms(1)]
  by (simp_all add: gossip_charge_node resolver_charge_node api_charge_node dns_charge_node node_inv_def)

lemma digest_admit_inv: "node_inv n \<Longrightarrow> node_inv (fst (digest_admit env instant sender missing challenge n))"
  using pending_table.admit_wf pending_table.admit_bound by (simp add: digest_admit_def node_inv_def)

lemma rumors_settle_inv: "node_inv n \<Longrightarrow> node_inv (fst (rumors_settle sender rumors answer n))"
proof -
  assume "node_inv n"
  moreover have "length (hm_remove sender (pending_challenges n)) \<le> length (pending_challenges n)"
    by (simp add: hm_remove_def)
  ultimately show ?thesis
    by (auto simp: rumors_settle_def node_inv_def Let_def split: option.splits prod.splits)
qed

lemma api_handle_inv: "node_inv n \<Longrightarrow> node_inv (fst (api_handle env net drawn time sender request n))"
proof -
  assume n: "node_inv n"
  have "store_inv s'" if "handle_client_request ext drawn (node_store n) time request v = (r, s')" for ext v r s'
    using handle_client_request_inv [of "node_store n" ext drawn time request v] n that by (simp add: node_inv_def)
  with n show ?thesis
    by (auto simp: api_handle_def Let_def node_inv_def split: prod.splits option.splits)
qed

lemma piece_inv:
  assumes "rounding (env_round env)" "piece env s out pushed s'" "node_inv (shared s)"
  shows "node_inv (shared s')"
  using assms(2)
proof cases
  case (gossip_receive now sender packet n g)
  then show ?thesis using charged_inv(1) [OF assms(1,3), of now sender packet] by simp
next
  case (gossip_learns sender msg n g)
  then show ?thesis using assms(3) by (auto simp: gossip_learn_def node_inv_def learn_distinct)
next
  case (gossip_admit sender missing challenge instant n)
  then show ?thesis using digest_admit_inv [OF assms(3), of env instant sender missing challenge] by simp
next
  case (gossip_rumors sender rumors answer n g)
  then show ?thesis using rumors_settle_inv [OF assms(3), of sender rumors answer] by simp
next
  case (gossip_adopt sender rumors time)
  then show ?thesis using assms(3) by (simp add: node_inv_def adopt_rumors_inv)
next
  case (resolver_receive now sender packet n r)
  then show ?thesis using charged_inv(2) [OF assms(1,3), of now sender packet] by simp
next
  case (api_receive now sender packet n a)
  then show ?thesis using charged_inv(3) [OF assms(1,3), of now sender packet] by simp
next
  case (api_handles sender request net drawn time n)
  then show ?thesis using api_handle_inv [OF assms(3), of env net drawn time sender request] by simp
next
  case (dns_receive now sender packet n d)
  then show ?thesis using charged_inv(4) [OF assms(1,3), of now sender packet] by simp
qed (use assms(3) in \<open>simp_all add: prune_limiter_inv prune_pending_inv\<close>)

lemma interleaved_inv:
  "interleaved env s0 replies s \<Longrightarrow> rounding (env_round env) \<Longrightarrow> node_inv (shared s0) \<Longrightarrow> node_inv (shared s)"
  by (induction rule: interleaved.induct) (auto intro: piece_inv)

end
