(* ===== verification/Serial_Runs.thy ===== *)
theory Serial_Runs
  imports Interleaving "HOL-Library.Multiset"
begin

text \<open>
  Interleaved runs are serial: a run of pieces that ends with no handler under way ends in the state of
  a run of whole handlers, one after the other, which sends the same replies. A handler takes its place
  in that run where it accesses the registry. What it did before (its charge to the rate limiter, the
  sender learned) and what it does after (the challenge of a digest admitted) is seen by no other
  task but the maintenance, and that can prune later: \<open>sim_with\<close> relates the two states. The push loop changes
  nothing and is left out of the serial run; the peer it picks may be one whose datagram is not handled yet.
\<close>

section \<open>Deferred pruning\<close>

definition prunes :: "nat list \<Rightarrow> socket_addr rate_limiter \<Rightarrow> socket_addr rate_limiter" where
  "prunes ps l = foldl (\<lambda>l now. prune_older_than rate_limit_prune_age_nanos now l) l ps"

definition drops :: "nat list \<Rightarrow> (socket_addr, pending_challenge) hash_map \<Rightarrow> (socket_addr, pending_challenge) hash_map" where
  "drops ks p = foldl (\<lambda>p now. hm_retain (\<lambda>_ (_, _, issued_at). now - issued_at < pending_challenge_timeout_nanos) p) p ks"

lemma prunes_snoc: "prunes (ps @ [now]) l = prune_older_than rate_limit_prune_age_nanos now (prunes ps l)"
  by (simp add: prunes_def)

lemma prunes_Nil [simp]: "prunes [] l = l"
  by (simp add: prunes_def)

lemma drops_snoc: "drops (ks @ [now]) p = hm_retain (\<lambda>_ (_, _, issued_at). now - issued_at < pending_challenge_timeout_nanos) (drops ks p)"
  by (simp add: drops_def)

lemma drops_Cons: "drops (now # ks) p = drops ks (hm_retain (\<lambda>_ (_, _, issued_at). now - issued_at < pending_challenge_timeout_nanos) p)"
  by (simp add: drops_def)

lemma drops_Nil [simp]: "drops [] p = p"
  by (simp add: drops_def)

lemma handled_prunes:
  assumes "handled_run env n replies m"
  shows "handled_run env n replies (m\<lparr>gossip_limiter := prunes ps (gossip_limiter m)\<rparr>)"
    "handled_run env n replies (m\<lparr>resolver_limiter := prunes ps (resolver_limiter m)\<rparr>)"
    "handled_run env n replies (m\<lparr>api_limiter := prunes ps (api_limiter m)\<rparr>)"
    "handled_run env n replies (m\<lparr>dns_limiter := prunes ps (dns_limiter m)\<rparr>)"
    "handled_run env n replies (m\<lparr>pending_challenges := drops ks (pending_challenges m)\<rparr>)"
proof -
  have silent: "handled_run env n replies m''" if "handled_run env n replies m'" "handler_step env m' [] m''" for m' m''
    using handled_run.step [OF that] by simp
  have "handled_run env n replies (m\<lparr>gossip_limiter := prunes ps (gossip_limiter m)\<rparr>) \<and>
    handled_run env n replies (m\<lparr>resolver_limiter := prunes ps (resolver_limiter m)\<rparr>) \<and>
    handled_run env n replies (m\<lparr>api_limiter := prunes ps (api_limiter m)\<rparr>) \<and>
    handled_run env n replies (m\<lparr>dns_limiter := prunes ps (dns_limiter m)\<rparr>)"
  proof (induction ps rule: rev_induct)
    case (snoc now ps)
    then have L: "handled_run env n replies (m\<lparr>gossip_limiter := prunes ps (gossip_limiter m)\<rparr>)"
      "handled_run env n replies (m\<lparr>resolver_limiter := prunes ps (resolver_limiter m)\<rparr>)"
      "handled_run env n replies (m\<lparr>api_limiter := prunes ps (api_limiter m)\<rparr>)"
      "handled_run env n replies (m\<lparr>dns_limiter := prunes ps (dns_limiter m)\<rparr>)" by blast+
    from silent [OF L(1) handler_step.prune_limiter [of env _ GossipLimiter now]]
      silent [OF L(2) handler_step.prune_limiter [of env _ ResolverLimiter now]]
      silent [OF L(3) handler_step.prune_limiter [of env _ ApiLimiter now]]
      silent [OF L(4) handler_step.prune_limiter [of env _ DnsLimiter now]]
    show ?case by (simp add: prunes_snoc)
  qed (use assms in simp)
  then show "handled_run env n replies (m\<lparr>gossip_limiter := prunes ps (gossip_limiter m)\<rparr>)"
    "handled_run env n replies (m\<lparr>resolver_limiter := prunes ps (resolver_limiter m)\<rparr>)"
    "handled_run env n replies (m\<lparr>api_limiter := prunes ps (api_limiter m)\<rparr>)"
    "handled_run env n replies (m\<lparr>dns_limiter := prunes ps (dns_limiter m)\<rparr>)" by blast+
  show "handled_run env n replies (m\<lparr>pending_challenges := drops ks (pending_challenges m)\<rparr>)"
  proof (induction ks rule: rev_induct)
    case (snoc now ks)
    from silent [OF snoc handler_step.prune_pending [of env _ now]] show ?case by (simp add: drops_snoc prune_pending_def)
  qed (use assms in simp)
qed

section \<open>The handler an unfinished task will turn out to be\<close>

text \<open>What the limiter was before the task charged it, given what it is now.\<close>

fun listener_rel :: "node_env \<Rightarrow> (bytes \<Rightarrow> 'q \<Rightarrow> bool) \<Rightarrow> 'q listener_state \<Rightarrow>
    socket_addr rate_limiter \<Rightarrow> socket_addr rate_limiter \<Rightarrow> bool" where
  "listener_rel env reads Idle before l \<longleftrightarrow> before = l"
| "listener_rel env reads (Allowed sender q) before l \<longleftrightarrow>
    (\<exists>now packet charged ps. allow_at (env_round env) sender now before = (True, charged) \<and> reads packet q \<and>
      l = prunes ps charged)"

lemma listener_allowed:
  "allow_at (env_round env) sender now before = (True, l) \<Longrightarrow> reads packet q \<Longrightarrow>
    listener_rel env reads (Allowed sender q) before l"
  unfolding listener_rel.simps using prunes_Nil [symmetric] by blast

definition reads_with :: "(bytes \<Rightarrow> 'e + 'q) \<Rightarrow> bytes \<Rightarrow> 'q \<Rightarrow> bool" where
  "reads_with parse packet q \<longleftrightarrow> parse (take max_datagram_bytes packet) = Inr q"

definition gossip_reads :: "node_env \<Rightarrow> bytes \<Rightarrow> gossip_message \<Rightarrow> bool" where
  "gossip_reads env packet msg \<longleftrightarrow> reads_with (decode (gossip_from_slice env)) packet msg \<and> is_well_formed msg"

text \<open>The same for the gossip task: its limiter, its peers and its pending challenges. A task that has
  yet to admit a challenge counts as handled.\<close>

fun gossip_rel :: "node_env \<Rightarrow> gossip_task \<Rightarrow>
    socket_addr rate_limiter \<times> peer_book \<times> (socket_addr, pending_challenge) hash_map \<Rightarrow>
    socket_addr rate_limiter \<times> peer_book \<times> (socket_addr, pending_challenge) hash_map \<Rightarrow> bool" where
  "gossip_rel env GossipIdle before (l, peers, pending) \<longleftrightarrow> before = (l, peers, pending)"
| "gossip_rel env (GossipAllowed sender msg) (l0, peers0, pending0) (l, peers, pending) \<longleftrightarrow>
    listener_rel env (gossip_reads env) (Allowed sender msg) l0 l \<and> peers0 = peers \<and> pending0 = pending"
| "gossip_rel env (GossipLearned sender msg) (l0, peers0, pending0) (l, peers, pending) \<longleftrightarrow>
    listener_rel env (gossip_reads env) (Allowed sender msg) l0 l \<and> peers = learn sender peers0 \<and> pending0 = pending"
| "gossip_rel env (GossipMissing sender missing challenge) (l0, peers0, pending0) (l, peers, pending) \<longleftrightarrow>
    l0 = l \<and> peers0 = peers"
| "gossip_rel env (GossipAnswered sender rumors) (l0, peers0, pending0) (l, peers, pending) \<longleftrightarrow>
    (\<exists>answer challenge requested issued ks.
      listener_rel env (gossip_reads env) (Allowed sender (Rumors rumors answer)) l0 l \<and> peers = learn sender peers0 \<and>
      hm_get pending0 sender = Some (challenge, requested, issued) \<and> answer = expected_answer challenge \<and>
      is_valid_rumor_response requested rumors \<and> pending = drops ks (hm_remove sender pending0))"

text \<open>The pending challenges the handlers may have left: when a challenge is yet to be admitted, all that
  the time of its admission can lead to.\<close>

fun settled :: "gossip_task \<Rightarrow> (socket_addr, pending_challenge) hash_map \<Rightarrow> (socket_addr, pending_challenge) hash_map \<Rightarrow>
    (socket_addr, pending_challenge) hash_map \<Rightarrow> bool" where
  "settled (GossipMissing sender missing challenge) before pending x \<longleftrightarrow>
    (\<exists>ks instant. x = admit_pending (drops ks pending) (sender, challenge, missing, instant))"
| "settled g before pending x \<longleftrightarrow> x = before"

fun owed :: "node_env \<Rightarrow> gossip_task \<Rightarrow> datagrams" where
  "owed env (GossipMissing sender missing challenge) = send_encoded (gossip_to_vec env) (Request missing challenge) sender"
| "owed env g = []"

definition sim_with :: "node_env \<Rightarrow> node \<Rightarrow> datagrams \<Rightarrow> node_tasks \<Rightarrow> node \<Rightarrow> datagrams \<Rightarrow> bool" where
  "sim_with env n0 replies s m rs \<longleftrightarrow>
    node_store m = node_store (shared s) \<and> node_verifier m = node_verifier (shared s) \<and> api_running m = api_running (shared s) \<and>
    gossip_rel env (gossip_at s) (gossip_limiter m, node_peers m, pending_challenges m)
      (gossip_limiter (shared s), node_peers (shared s), pending_challenges (shared s)) \<and>
    listener_rel env (reads_with (decode (query_from_slice env))) (resolver_at s) (resolver_limiter m) (resolver_limiter (shared s)) \<and>
    listener_rel env (reads_with (decode (request_from_slice env))) (api_at s) (api_limiter m) (api_limiter (shared s)) \<and>
    listener_rel env (reads_with parse_query) (dns_at s) (dns_limiter m) (dns_limiter (shared s)) \<and>
    (api_at s = Idle \<or> api_running (shared s)) \<and>
    (\<forall>x. settled (gossip_at s) (pending_challenges m) (pending_challenges (shared s)) x \<longrightarrow>
      handled_run env n0 rs (m\<lparr>pending_challenges := x\<rparr>)) \<and>
    mset rs = mset replies + mset (owed env (gossip_at s))"

text \<open>The pending challenges as the last of the updates of a node.\<close>

lemma pending_last:
  "m\<lparr>pending_challenges := x, gossip_limiter := l\<rparr> = m\<lparr>gossip_limiter := l, pending_challenges := x\<rparr>"
  "m\<lparr>pending_challenges := x, resolver_limiter := l\<rparr> = m\<lparr>resolver_limiter := l, pending_challenges := x\<rparr>"
  "m\<lparr>pending_challenges := x, api_limiter := l\<rparr> = m\<lparr>api_limiter := l, pending_challenges := x\<rparr>"
  "m\<lparr>pending_challenges := x, dns_limiter := l\<rparr> = m\<lparr>dns_limiter := l, pending_challenges := x\<rparr>"
  "m\<lparr>pending_challenges := x, node_peers := b\<rparr> = m\<lparr>node_peers := b, pending_challenges := x\<rparr>"
  "m\<lparr>pending_challenges := x, node_store := t\<rparr> = m\<lparr>node_store := t, pending_challenges := x\<rparr>"
  "m\<lparr>pending_challenges := x, api_running := c\<rparr> = m\<lparr>api_running := c, pending_challenges := x\<rparr>"
  by simp_all

lemma pending_same: "pending_challenges m = x \<Longrightarrow> m\<lparr>pending_challenges := x\<rparr> = m"
  by auto

section \<open>The resolver\<close>

lemma resolver_dropped:
  assumes "resolver_charge env now sender packet n = (n', Idle)" "resolver_limiter m = resolver_limiter n"
  shows "resolver_recv env now sender packet m = (m\<lparr>resolver_limiter := resolver_limiter n'\<rparr>, [])"
    "n' = n\<lparr>resolver_limiter := resolver_limiter n'\<rparr>"
  using assms by (auto simp: resolver_charge_def resolver_recv_def Let_def split: prod.splits if_splits sum.splits)

lemma resolver_allowed:
  assumes "resolver_charge env now sender packet n = (n', Allowed caller q)"
  obtains l where "caller = sender" "allow_at (env_round env) sender now (resolver_limiter n) = (True, l)"
    "reads_with (decode (query_from_slice env)) packet q" "n' = n\<lparr>resolver_limiter := l\<rparr>"
  using assms by (auto simp: resolver_charge_def reads_with_def Let_def split: prod.splits if_splits sum.splits)

lemma resolver_whole:
  assumes "allow_at (env_round env) sender now (resolver_limiter m) = (True, l)"
    "reads_with (decode (query_from_slice env)) packet q"
  shows "resolver_recv env now sender packet m = (m\<lparr>resolver_limiter := l\<rparr>,
    send_encoded (answer_to_vec env) (resolve_answer_for (node_store m) (query_domain q)) sender)"
  using assms by (simp add: resolver_recv_def reads_with_def)

lemma sim_resolver_receive:
  assumes S: "sim_with env n0 replies s m rs" and I: "resolver_at s = Idle"
    and C: "resolver_charge env now sender packet (shared s) = (n, r)"
  shows "\<exists>m' rs'. sim_with env n0 replies (s\<lparr>shared := n, resolver_at := r\<rparr>) m' rs'"
proof (cases r)
  case Idle
  from S I have L: "resolver_limiter m = resolver_limiter (shared s)" by (simp add: sim_with_def)
  note D = resolver_dropped [OF C [unfolded Idle]]
  have "handled_run env n0 rs (m\<lparr>resolver_limiter := resolver_limiter n, pending_challenges := x\<rparr>)"
    if "handled_run env n0 rs (m\<lparr>pending_challenges := x\<rparr>)" for x
    using handled_run.step [OF that handler_step.resolver [OF D(1)]] L by (simp add: pending_last)
  moreover from D(2) [OF L] obtain l where "n = (shared s)\<lparr>resolver_limiter := l\<rparr>" by blast
  ultimately have "sim_with env n0 replies (s\<lparr>shared := n, resolver_at := r\<rparr>) (m\<lparr>resolver_limiter := resolver_limiter n\<rparr>) rs"
    using S I Idle unfolding sim_with_def by simp
  then show ?thesis by blast
next
  case (Allowed caller q)
  from resolver_allowed [OF C [unfolded Allowed]] obtain l where
    A: "caller = sender" "allow_at (env_round env) sender now (resolver_limiter (shared s)) = (True, l)"
    "reads_with (decode (query_from_slice env)) packet q" "n = (shared s)\<lparr>resolver_limiter := l\<rparr>" .
  from listener_allowed [OF A(2), of "reads_with (decode (query_from_slice env))", OF A(3)] S I Allowed A(1,4)
  have "sim_with env n0 replies (s\<lparr>shared := n, resolver_at := r\<rparr>) m rs"
    unfolding sim_with_def by (simp del: listener_rel.simps(2))
  then show ?thesis by blast
qed

lemma sim_resolver_read:
  assumes S: "sim_with env n0 replies s m rs" and A: "resolver_at s = Allowed sender q"
  shows "\<exists>m' rs'. sim_with env n0
    (replies @ send_encoded (answer_to_vec env) (resolve_answer_for (node_store (shared s)) (query_domain q)) sender)
    (s\<lparr>resolver_at := Idle\<rparr>) m' rs'"
proof -
  let ?out = "send_encoded (answer_to_vec env) (resolve_answer_for (node_store (shared s)) (query_domain q)) sender"
  from S A obtain now packet l ps where R: "allow_at (env_round env) sender now (resolver_limiter m) = (True, l)"
    "reads_with (decode (query_from_slice env)) packet q" "resolver_limiter (shared s) = prunes ps l"
    by (auto simp: sim_with_def)
  have "handled_run env n0 (rs @ ?out) (m\<lparr>resolver_limiter := resolver_limiter (shared s), pending_challenges := x\<rparr>)"
    if H: "handled_run env n0 rs (m\<lparr>pending_challenges := x\<rparr>)" for x
  proof -
    have W: "resolver_recv env now sender packet (m\<lparr>pending_challenges := x\<rparr>) =
      (m\<lparr>pending_challenges := x, resolver_limiter := l\<rparr>, ?out)"
      using R S by (subst resolver_whole) (auto simp: sim_with_def)
    from handled_prunes(2) [OF handled_run.step [OF H handler_step.resolver [OF W]], of ps] R(3) show ?thesis
      by (simp add: pending_last)
  qed
  with S have "sim_with env n0 (replies @ ?out) (s\<lparr>resolver_at := Idle\<rparr>)
    (m\<lparr>resolver_limiter := resolver_limiter (shared s)\<rparr>) (rs @ ?out)"
    unfolding sim_with_def by simp
  then show ?thesis by blast
qed

section \<open>The client API\<close>

lemma api_dropped:
  assumes "api_charge env now sender packet n = (n', Idle)" "api_limiter m = api_limiter n"
  shows "\<exists>net drawn time. client_api_recv env now net drawn time sender packet m =
      (if api_running m then m\<lparr>api_limiter := api_limiter n'\<rparr> else m, [])"
    "n' = n\<lparr>api_limiter := api_limiter n'\<rparr>"
  using assms by (auto simp: api_charge_def client_api_recv_def Let_def split: prod.splits if_splits sum.splits)

lemma api_allowed:
  assumes "api_charge env now sender packet n = (n', Allowed caller q)"
  obtains l where "caller = sender" "allow_at (env_round env) sender now (api_limiter n) = (True, l)"
    "reads_with (decode (request_from_slice env)) packet q" "n' = n\<lparr>api_limiter := l\<rparr>"
  using assms by (auto simp: api_charge_def reads_with_def Let_def split: prod.splits if_splits sum.splits)

lemma api_whole:
  assumes "allow_at (env_round env) sender now (api_limiter m) = (True, l)"
    "reads_with (decode (request_from_slice env)) packet q" "api_running m"
  shows "client_api_recv env now net drawn time sender packet m =
    api_handle env net drawn time sender q (m\<lparr>api_limiter := l\<rparr>)"
  using assms by (simp add: client_api_recv_def api_handle_def reads_with_def Let_def)

lemma api_handle_frame:
  assumes "api_handle env net drawn time sender q n = (n', out)" "node_store m = node_store n" "node_verifier m = node_verifier n"
    "api_running m = api_running n"
  shows "api_handle env net drawn time sender q m =
      (m\<lparr>node_store := node_store n', api_running := api_running n'\<rparr>, out)"
    "n' = n\<lparr>node_store := node_store n', api_running := api_running n'\<rparr>"
proof -
  let ?verified = "case q of Register e \<Rightarrow> verify net (node_verifier n) (sock_ip sender) (env_rdns e) | _ \<Rightarrow> True"
  obtain r t where "handle_client_request (env_ext env) drawn (node_store n) time q ?verified = (r, t)" by fastforce
  then have H: "api_handle env net drawn time sender q k =
      (case r of Some response \<Rightarrow> (k\<lparr>node_store := t\<rparr>, send_encoded (response_to_vec env) response sender)
       | None \<Rightarrow> (k\<lparr>node_store := t, api_running := False\<rparr>, []))"
    if "node_store k = node_store n" "node_verifier k = node_verifier n" for k
    using that by (simp only: api_handle_def Let_def prod.case)
  from H [OF refl refl] assms(1) have N: "n' = (case r of Some _ \<Rightarrow> n\<lparr>node_store := t\<rparr> | None \<Rightarrow> n\<lparr>node_store := t, api_running := False\<rparr>)"
    "out = (case r of Some response \<Rightarrow> send_encoded (response_to_vec env) response sender | None \<Rightarrow> [])"
    by (simp_all split: option.splits)
  from H [OF assms(2,3)] N assms(4) show "api_handle env net drawn time sender q m =
      (m\<lparr>node_store := node_store n', api_running := api_running n'\<rparr>, out)"
    by (simp split: option.splits)
  from N show "n' = n\<lparr>node_store := node_store n', api_running := api_running n'\<rparr>"
    by (simp split: option.splits)
qed

lemma sim_api_receive:
  assumes S: "sim_with env n0 replies s m rs" and I: "api_at s = Idle" and R: "api_running (shared s)"
    and C: "api_charge env now sender packet (shared s) = (n, r)"
  shows "\<exists>m' rs'. sim_with env n0 replies (s\<lparr>shared := n, api_at := r\<rparr>) m' rs'"
proof (cases r)
  case Idle
  from S I R have L: "api_limiter m = api_limiter (shared s)" "api_running m" by (auto simp: sim_with_def)
  note D = api_dropped [OF C [unfolded Idle]]
  have "handled_run env n0 rs (m\<lparr>api_limiter := api_limiter n, pending_challenges := x\<rparr>)"
    if H: "handled_run env n0 rs (m\<lparr>pending_challenges := x\<rparr>)" for x
  proof -
    from D(1) [of "m\<lparr>pending_challenges := x\<rparr>"] L obtain net drawn time where
      "client_api_recv env now net drawn time sender packet (m\<lparr>pending_challenges := x\<rparr>) =
        (m\<lparr>pending_challenges := x, api_limiter := api_limiter n\<rparr>, [])" by auto
    from handled_run.step [OF H handler_step.client_api [OF this]] show ?thesis by (simp add: pending_last)
  qed
  moreover from D(2) [OF L(1)] obtain l where "n = (shared s)\<lparr>api_limiter := l\<rparr>" by blast
  ultimately have "sim_with env n0 replies (s\<lparr>shared := n, api_at := r\<rparr>) (m\<lparr>api_limiter := api_limiter n\<rparr>) rs"
    using S I Idle unfolding sim_with_def by simp
  then show ?thesis by blast
next
  case (Allowed caller q)
  from api_allowed [OF C [unfolded Allowed]] obtain l where
    A: "caller = sender" "allow_at (env_round env) sender now (api_limiter (shared s)) = (True, l)"
    "reads_with (decode (request_from_slice env)) packet q" "n = (shared s)\<lparr>api_limiter := l\<rparr>" .
  from listener_allowed [OF A(2), of "reads_with (decode (request_from_slice env))", OF A(3)] S I R Allowed A(1,4)
  have "sim_with env n0 replies (s\<lparr>shared := n, api_at := r\<rparr>) m rs"
    unfolding sim_with_def by (simp del: listener_rel.simps(2))
  then show ?thesis by blast
qed

lemma sim_api_handles:
  assumes S: "sim_with env n0 replies s m rs" and A: "api_at s = Allowed sender q"
    and C: "api_handle env net drawn time sender q (shared s) = (n, out)"
  shows "\<exists>m' rs'. sim_with env n0 (replies @ out) (s\<lparr>shared := n, api_at := Idle\<rparr>) m' rs'"
proof -
  let ?m = "\<lambda>l. m\<lparr>node_store := node_store n, api_running := api_running n, api_limiter := l\<rparr>"
  from S A obtain now packet l ps where R: "allow_at (env_round env) sender now (api_limiter m) = (True, l)"
    "reads_with (decode (request_from_slice env)) packet q" "api_limiter (shared s) = prunes ps l"
    by (auto simp: sim_with_def)
  from S A have E: "node_store m = node_store (shared s)" "node_verifier m = node_verifier (shared s)"
    "api_running m = api_running (shared s)" "api_running m" by (auto simp: sim_with_def)
  have "handled_run env n0 (rs @ out) ((?m (api_limiter (shared s)))\<lparr>pending_challenges := x\<rparr>)"
    if H: "handled_run env n0 rs (m\<lparr>pending_challenges := x\<rparr>)" for x
  proof -
    have W: "client_api_recv env now net drawn time sender packet (m\<lparr>pending_challenges := x\<rparr>) =
      (m\<lparr>pending_challenges := x, api_limiter := l, node_store := node_store n, api_running := api_running n\<rparr>, out)"
      using R E api_handle_frame(1) [OF C, of "m\<lparr>pending_challenges := x, api_limiter := l\<rparr>"] by (simp add: api_whole)
    from handled_prunes(3) [OF handled_run.step [OF H handler_step.client_api [OF W]], of ps] R(3) show ?thesis
      by (simp add: pending_last)
  qed
  moreover from api_handle_frame(2) [OF C refl refl refl] obtain t c where "n = (shared s)\<lparr>node_store := t, api_running := c\<rparr>" by blast
  ultimately have "sim_with env n0 (replies @ out) (s\<lparr>shared := n, api_at := Idle\<rparr>) (?m (api_limiter (shared s))) (rs @ out)"
    using S unfolding sim_with_def by simp
  then show ?thesis by blast
qed

section \<open>The lookup protocol\<close>

lemma dns_dropped:
  assumes "dns_charge env now sender packet n = (n', Idle, out)" "dns_limiter m = dns_limiter n"
  shows "dns_recv env now sender packet m = (m\<lparr>dns_limiter := dns_limiter n'\<rparr>, out)"
    "n' = n\<lparr>dns_limiter := dns_limiter n'\<rparr>"
  using assms by (auto simp: dns_charge_def dns_recv_def Let_def split: prod.splits if_splits sum.splits)

lemma dns_allowed:
  assumes "dns_charge env now sender packet n = (n', Allowed caller q, out)"
  obtains l where "caller = sender" "allow_at (env_round env) sender now (dns_limiter n) = (True, l)"
    "reads_with parse_query packet q" "n' = n\<lparr>dns_limiter := l\<rparr>" "out = []"
  using assms by (auto simp: dns_charge_def reads_with_def Let_def split: prod.splits if_splits sum.splits)

lemma dns_whole:
  assumes "allow_at (env_round env) sender now (dns_limiter m) = (True, l)" "reads_with parse_query packet q"
  shows "dns_recv env now sender packet m = (m\<lparr>dns_limiter := l\<rparr>, [(sender, dns_response_for (node_store m) q)])"
  using assms by (simp add: dns_recv_def reads_with_def)

lemma sim_dns_receive:
  assumes S: "sim_with env n0 replies s m rs" and I: "dns_at s = Idle"
    and C: "dns_charge env now sender packet (shared s) = (n, r, out)"
  shows "\<exists>m' rs'. sim_with env n0 (replies @ out) (s\<lparr>shared := n, dns_at := r\<rparr>) m' rs'"
proof (cases r)
  case Idle
  from S I have L: "dns_limiter m = dns_limiter (shared s)" by (simp add: sim_with_def)
  note D = dns_dropped [OF C [unfolded Idle]]
  have "handled_run env n0 (rs @ out) (m\<lparr>dns_limiter := dns_limiter n, pending_challenges := x\<rparr>)"
    if "handled_run env n0 rs (m\<lparr>pending_challenges := x\<rparr>)" for x
    using handled_run.step [OF that handler_step.dns [OF D(1)]] L by (simp add: pending_last)
  moreover from D(2) [OF L] obtain l where "n = (shared s)\<lparr>dns_limiter := l\<rparr>" by blast
  ultimately have "sim_with env n0 (replies @ out) (s\<lparr>shared := n, dns_at := r\<rparr>) (m\<lparr>dns_limiter := dns_limiter n\<rparr>) (rs @ out)"
    using S I Idle unfolding sim_with_def by simp
  then show ?thesis by blast
next
  case (Allowed caller q)
  from dns_allowed [OF C [unfolded Allowed]] obtain l where
    A: "caller = sender" "allow_at (env_round env) sender now (dns_limiter (shared s)) = (True, l)"
    "reads_with parse_query packet q" "n = (shared s)\<lparr>dns_limiter := l\<rparr>" "out = []" .
  from listener_allowed [OF A(2), of "reads_with parse_query", OF A(3)] S I Allowed A(1,4,5)
  have "sim_with env n0 (replies @ out) (s\<lparr>shared := n, dns_at := r\<rparr>) m rs"
    unfolding sim_with_def by (simp del: listener_rel.simps(2))
  then show ?thesis by blast
qed

lemma sim_dns_read:
  assumes S: "sim_with env n0 replies s m rs" and A: "dns_at s = Allowed sender q"
  shows "\<exists>m' rs'. sim_with env n0 (replies @ [(sender, dns_response_for (node_store (shared s)) q)]) (s\<lparr>dns_at := Idle\<rparr>) m' rs'"
proof -
  let ?out = "[(sender, dns_response_for (node_store (shared s)) q)]"
  from S A obtain now packet l ps where R: "allow_at (env_round env) sender now (dns_limiter m) = (True, l)"
    "reads_with parse_query packet q" "dns_limiter (shared s) = prunes ps l"
    by (auto simp: sim_with_def)
  have "handled_run env n0 (rs @ ?out) (m\<lparr>dns_limiter := dns_limiter (shared s), pending_challenges := x\<rparr>)"
    if H: "handled_run env n0 rs (m\<lparr>pending_challenges := x\<rparr>)" for x
  proof -
    have W: "dns_recv env now sender packet (m\<lparr>pending_challenges := x\<rparr>) =
      (m\<lparr>pending_challenges := x, dns_limiter := l\<rparr>, ?out)"
      using R S by (subst dns_whole) (auto simp: sim_with_def)
    from handled_prunes(4) [OF handled_run.step [OF H handler_step.dns [OF W]], of ps] R(3) show ?thesis
      by (simp add: pending_last)
  qed
  with S have "sim_with env n0 (replies @ ?out) (s\<lparr>dns_at := Idle\<rparr>)
    (m\<lparr>dns_limiter := dns_limiter (shared s)\<rparr>) (rs @ ?out)"
    unfolding sim_with_def by simp
  then show ?thesis by blast
qed

section \<open>Gossip\<close>

lemma gossip_dropped:
  assumes "gossip_charge env now sender packet n = (n', GossipIdle)" "gossip_limiter m = gossip_limiter n"
  shows "gossip_recv env now draws time sender packet m = (m\<lparr>gossip_limiter := gossip_limiter n'\<rparr>, [])"
    "n' = n\<lparr>gossip_limiter := gossip_limiter n'\<rparr>"
  using assms by (auto simp: gossip_charge_def gossip_recv_def Let_def split: prod.splits if_splits sum.splits)

lemma gossip_charged:
  assumes "gossip_charge env now sender packet n = (n', g)" "g \<noteq> GossipIdle"
  obtains l msg where "g = GossipAllowed sender msg" "allow_at (env_round env) sender now (gossip_limiter n) = (True, l)"
    "gossip_reads env packet msg" "n' = n\<lparr>gossip_limiter := l\<rparr>"
  using assms
  by (auto simp: gossip_charge_def gossip_reads_def reads_with_def Let_def split: prod.splits if_splits sum.splits)

lemma gossip_message_frame:
  assumes "handle_gossip_message env draws time sender msg m = (m', out)"
  shows "handle_gossip_message env draws time sender msg (m\<lparr>gossip_limiter := l, node_peers := b\<rparr>) =
    (m'\<lparr>gossip_limiter := l, node_peers := b\<rparr>, out)"
  using assms by (cases msg) (auto simp: Let_def split: option.splits prod.splits if_splits)

lemma gossip_message_parts:
  assumes "handle_gossip_message env draws time sender msg n = (n', out)"
    "node_store n = node_store m" "pending_challenges n = pending_challenges m"
  shows "handle_gossip_message env draws time sender msg m =
    (m\<lparr>node_store := node_store n', pending_challenges := pending_challenges n'\<rparr>, out)"
  using assms by (cases msg) (auto simp: Let_def split: option.splits prod.splits if_splits)

lemma gossip_whole:
  assumes "allow_at (env_round env) sender now (gossip_limiter m) = (True, l)" "gossip_reads env packet msg"
    "handle_gossip_message env draws time sender msg m = (m', out)"
  shows "gossip_recv env now draws time sender packet m =
    (m'\<lparr>gossip_limiter := l, node_peers := learn sender (node_peers m)\<rparr>, out)"
  using assms(1,2) gossip_message_frame [OF assms(3)] by (simp add: gossip_recv_def gossip_reads_def reads_with_def)

lemma gossip_commit:
  assumes H: "handled_run env n0 rs m" and R: "listener_rel env (gossip_reads env) (Allowed sender msg) (gossip_limiter m) gl"
    and M: "handle_gossip_message env draws time sender msg m = (m', out)"
  shows "handled_run env n0 (rs @ out) (m'\<lparr>node_peers := learn sender (node_peers m), gossip_limiter := gl\<rparr>)"
proof -
  from R obtain now packet l ps where L: "allow_at (env_round env) sender now (gossip_limiter m) = (True, l)"
    "gossip_reads env packet msg" "gl = prunes ps l" by auto
  from handled_prunes(1) [OF handled_run.step [OF H handler_step.gossip [OF gossip_whole [OF L(1,2) M]]], of ps] L(3)
  show ?thesis by simp
qed

lemma sim_gossip_receive:
  assumes S: "sim_with env n0 replies s m rs" and I: "gossip_at s = GossipIdle"
    and C: "gossip_charge env now sender packet (shared s) = (n, g)"
  shows "\<exists>m' rs'. sim_with env n0 replies (s\<lparr>shared := n, gossip_at := g\<rparr>) m' rs'"
proof (cases "g = GossipIdle")
  case True
  from S I have L: "gossip_limiter m = gossip_limiter (shared s)" by (simp add: sim_with_def)
  note D = gossip_dropped [OF C [unfolded True]]
  from S I have H: "handled_run env n0 rs (m\<lparr>pending_challenges := pending_challenges (shared s)\<rparr>)"
    by (simp add: sim_with_def pending_same)
  have "handled_run env n0 rs (m\<lparr>gossip_limiter := gossip_limiter n, pending_challenges := pending_challenges (shared s)\<rparr>)"
    using handled_run.step [OF H handler_step.gossip [OF D(1)]] L by (simp add: pending_last)
  moreover from D(2) [OF L] obtain l where "n = (shared s)\<lparr>gossip_limiter := l\<rparr>" by blast
  ultimately have "sim_with env n0 replies (s\<lparr>shared := n, gossip_at := g\<rparr>) (m\<lparr>gossip_limiter := gossip_limiter n\<rparr>) rs"
    using S I True unfolding sim_with_def by simp
  then show ?thesis by blast
next
  case False
  from gossip_charged [OF C False] obtain l msg where
    A: "g = GossipAllowed sender msg" "allow_at (env_round env) sender now (gossip_limiter (shared s)) = (True, l)"
    "gossip_reads env packet msg" "n = (shared s)\<lparr>gossip_limiter := l\<rparr>" .
  from listener_allowed [OF A(2), of "gossip_reads env", OF A(3)] S I A(1,4)
  have "sim_with env n0 replies (s\<lparr>shared := n, gossip_at := g\<rparr>) m rs"
    unfolding sim_with_def by (simp add: pending_same del: listener_rel.simps(2))
  then show ?thesis by blast
qed

lemma sim_gossip_learns:
  assumes "sim_with env n0 replies s m rs" "gossip_at s = GossipAllowed sender msg"
    "gossip_learn sender msg (shared s) = (n, g)"
  shows "sim_with env n0 replies (s\<lparr>shared := n, gossip_at := g\<rparr>) m rs"
  using assms unfolding sim_with_def gossip_learn_def
  by (clarsimp simp: pending_same simp del: listener_rel.simps(2))

text \<open>A message that is settled in one piece.\<close>

lemma sim_gossip_settles:
  assumes S: "sim_with env n0 replies s m rs" and A: "gossip_at s = GossipLearned sender msg"
    and M: "handle_gossip_message env draws time sender msg (shared s) = (n, out)"
    and N: "n = (shared s)\<lparr>pending_challenges := p\<rparr>"
  shows "\<exists>m' rs'. sim_with env n0 (replies @ out) (s\<lparr>shared := n, gossip_at := GossipIdle\<rparr>) m' rs'"
proof -
  let ?m = "m\<lparr>node_peers := node_peers (shared s), gossip_limiter := gossip_limiter (shared s), pending_challenges := p\<rparr>"
  from S A have R: "listener_rel env (gossip_reads env) (Allowed sender msg) (gossip_limiter m) (gossip_limiter (shared s))"
    "node_peers (shared s) = learn sender (node_peers m)" "pending_challenges m = pending_challenges (shared s)"
    "node_store m = node_store (shared s)" "handled_run env n0 rs m"
    by (auto simp: sim_with_def simp del: listener_rel.simps(2))
  from gossip_message_parts [OF M R(4,3) [symmetric]] N R(4) [symmetric]
  have "handle_gossip_message env draws time sender msg m = (m\<lparr>pending_challenges := p\<rparr>, out)" by simp
  from gossip_commit [OF R(5,1) this] R(2) have "handled_run env n0 (rs @ out) ?m" by (simp add: pending_last)
  with S A N have "sim_with env n0 (replies @ out) (s\<lparr>shared := n, gossip_at := GossipIdle\<rparr>) ?m (rs @ out)"
    unfolding sim_with_def by (simp del: listener_rel.simps(2))
  then show ?thesis by blast
qed

lemma sim_gossip_request:
  assumes S: "sim_with env n0 replies s m rs" and A: "gossip_at s = GossipLearned sender (Request domains challenge)"
  shows "\<exists>m' rs'. sim_with env n0 (replies @ send_encoded (gossip_to_vec env)
    (Rumors (requested_rumors (node_store (shared s)) domains) (expected_answer challenge)) sender)
    (s\<lparr>gossip_at := GossipIdle\<rparr>) m' rs'"
  using sim_gossip_settles [OF S A, of undefined undefined "shared s" _ "pending_challenges (shared s)"] by simp

text \<open>A digest is handled when its names are looked up; when its challenge will be admitted is still open.\<close>

lemma sim_gossip_digest:
  assumes S: "sim_with env n0 replies s m rs" and A: "gossip_at s = GossipLearned sender (Digest entries)"
    and D: "digest_missing draws time sender entries (shared s) = g"
  shows "\<exists>m' rs'. sim_with env n0 replies (s\<lparr>gossip_at := g\<rparr>) m' rs'"
proof (cases "missing_domains (node_store (shared s)) entries = []")
  case True
  with D have "g = GossipIdle" by (simp add: digest_missing_def)
  with True sim_gossip_settles [OF S A, of draws time "shared s" "[]" "pending_challenges (shared s)"] show ?thesis by simp
next
  case False
  let ?missing = "missing_domains (node_store (shared s)) entries"
  define c where "c = challenge_random (draw_nonce_a draws) (draw_nonce_b draws) (draw_coin draws) (now_millis time)"
  let ?request = "send_encoded (gossip_to_vec env) (Request ?missing c) sender"
  let ?m = "m\<lparr>node_peers := node_peers (shared s), gossip_limiter := gossip_limiter (shared s)\<rparr>"
  from S A have R: "listener_rel env (gossip_reads env) (Allowed sender (Digest entries)) (gossip_limiter m) (gossip_limiter (shared s))"
    "node_peers (shared s) = learn sender (node_peers m)" "pending_challenges m = pending_challenges (shared s)"
    "node_store m = node_store (shared s)" "handled_run env n0 rs m"
    by (auto simp: sim_with_def pending_same simp del: listener_rel.simps(2))
  have "handled_run env n0 (rs @ ?request)
    (?m\<lparr>pending_challenges := admit_pending (drops ks (pending_challenges (shared s))) (sender, c, ?missing, i)\<rparr>)" for ks i
  proof -
    let ?k = "m\<lparr>pending_challenges := drops ks (pending_challenges m)\<rparr>"
    from False R(4) have "handle_gossip_message env (draws\<lparr>draw_instant := i\<rparr>) time sender (Digest entries) ?k =
      (m\<lparr>pending_challenges := admit_pending (drops ks (pending_challenges m)) (sender, c, ?missing, i)\<rparr>, ?request)"
      by (simp add: c_def Let_def)
    from gossip_commit [OF handled_prunes(5) [OF R(5)] _ this] R show ?thesis by (simp add: pending_last)
  qed
  moreover from D False have "g = GossipMissing sender ?missing c" by (simp add: digest_missing_def c_def)
  ultimately have "sim_with env n0 replies (s\<lparr>gossip_at := g\<rparr>) ?m (rs @ ?request)"
    using S A unfolding sim_with_def by (auto simp del: listener_rel.simps(2))
  then show ?thesis by blast
qed

lemma sim_gossip_admit:
  assumes S: "sim_with env n0 replies s m rs" and A: "gossip_at s = GossipMissing sender missing challenge"
    and C: "digest_admit env instant sender missing challenge (shared s) = (n, out)"
  shows "\<exists>m' rs'. sim_with env n0 (replies @ out) (s\<lparr>shared := n, gossip_at := GossipIdle\<rparr>) m' rs'"
proof -
  let ?p = "admit_pending (pending_challenges (shared s)) (sender, challenge, missing, instant)"
  from C have N: "n = (shared s)\<lparr>pending_challenges := ?p\<rparr>" "out = owed env (gossip_at s)"
    using A by (auto simp: digest_admit_def)
  have "settled (gossip_at s) (pending_challenges m) (pending_challenges (shared s)) ?p"
    unfolding A settled.simps by (intro exI [of _ "[]"] exI [of _ instant]) simp
  with S have "handled_run env n0 rs (m\<lparr>pending_challenges := ?p\<rparr>)" by (simp add: sim_with_def)
  with S A N have "sim_with env n0 (replies @ out) (s\<lparr>shared := n, gossip_at := GossipIdle\<rparr>) (m\<lparr>pending_challenges := ?p\<rparr>) rs"
    unfolding sim_with_def by simp
  then show ?thesis by blast
qed

lemma sim_gossip_rumors:
  assumes S: "sim_with env n0 replies s m rs" and A: "gossip_at s = GossipLearned sender (Rumors rumors answer)"
    and C: "rumors_settle sender rumors answer (shared s) = (n, g)"
  shows "\<exists>m' rs'. sim_with env n0 replies (s\<lparr>shared := n, gossip_at := g\<rparr>) m' rs'"
proof (cases "g = GossipIdle")
  case True
  let ?n = "(shared s)\<lparr>pending_challenges := hm_remove sender (pending_challenges (shared s))\<rparr>"
  from C True have N: "n = ?n" by (auto simp: rumors_settle_def Let_def split: option.splits if_splits prod.splits)
  from C True have "handle_gossip_message env undefined undefined sender (Rumors rumors answer) (shared s) = (?n, [])"
    by (auto simp: rumors_settle_def Let_def split: option.splits if_splits prod.splits)
  from sim_gossip_settles [OF S A this refl] N True show ?thesis by simp
next
  case False
  with C obtain challenge requested issued where
    "hm_get (pending_challenges (shared s)) sender = Some (challenge, requested, issued)"
    "answer = expected_answer challenge" "is_valid_rumor_response requested rumors" "g = GossipAnswered sender rumors"
    "n = (shared s)\<lparr>pending_challenges := hm_remove sender (pending_challenges (shared s))\<rparr>"
    by (auto simp: rumors_settle_def Let_def split: option.splits if_splits prod.splits)
  note G = this
  from S A have R: "listener_rel env (gossip_reads env) (Allowed sender (Rumors rumors answer)) (gossip_limiter m) (gossip_limiter (shared s))"
    "node_peers (shared s) = learn sender (node_peers m)" "pending_challenges m = pending_challenges (shared s)"
    by (auto simp: sim_with_def simp del: listener_rel.simps(2))
  have "gossip_rel env g (gossip_limiter m, node_peers m, pending_challenges m) (gossip_limiter n, node_peers n, pending_challenges n)"
    unfolding G(4) gossip_rel.simps
    by (intro exI [of _ answer] exI [of _ challenge] exI [of _ requested] exI [of _ issued] exI [of _ "[]"])
      (use G R in \<open>simp del: listener_rel.simps(2)\<close>)
  with S A G(4,5) R(3) have "sim_with env n0 replies (s\<lparr>shared := n, gossip_at := g\<rparr>) m rs"
    unfolding sim_with_def by (simp add: pending_same del: listener_rel.simps(2) gossip_rel.simps)
  then show ?thesis by blast
qed

lemma sim_gossip_adopt:
  assumes S: "sim_with env n0 replies s m rs" and A: "gossip_at s = GossipAnswered sender rumors"
  shows "\<exists>m' rs'. sim_with env n0 replies (s\<lparr>shared := (shared s)\<lparr>node_store :=
    adopt_rumors (env_ext env) time 0 rumors (node_store (shared s))\<rparr>, gossip_at := GossipIdle\<rparr>) m' rs'"
proof -
  let ?t = "adopt_rumors (env_ext env) time 0 rumors (node_store (shared s))"
  let ?m = "m\<lparr>node_store := ?t, node_peers := node_peers (shared s), gossip_limiter := gossip_limiter (shared s),
    pending_challenges := pending_challenges (shared s)\<rparr>"
  from S A obtain answer challenge requested issued ks where
    R: "listener_rel env (gossip_reads env) (Allowed sender (Rumors rumors answer)) (gossip_limiter m) (gossip_limiter (shared s))"
    and E: "node_peers (shared s) = learn sender (node_peers m)" "hm_get (pending_challenges m) sender = Some (challenge, requested, issued)"
    "answer = expected_answer challenge" "is_valid_rumor_response requested rumors"
    "pending_challenges (shared s) = drops ks (hm_remove sender (pending_challenges m))"
    and H: "handled_run env n0 rs m" "node_store m = node_store (shared s)"
    by (auto simp: sim_with_def simp del: listener_rel.simps(2))
  from E H(2) have "handle_gossip_message env undefined time sender (Rumors rumors answer) m =
    (m\<lparr>pending_challenges := hm_remove sender (pending_challenges m), node_store := ?t\<rparr>, [])" by simp
  from handled_prunes(5) [OF gossip_commit [OF H(1) R this], of ks] E
  have "handled_run env n0 rs ?m" by (simp add: pending_last)
  with S A have "sim_with env n0 replies (s\<lparr>shared := (shared s)\<lparr>node_store := ?t\<rparr>, gossip_at := GossipIdle\<rparr>) ?m rs"
    unfolding sim_with_def by (simp del: listener_rel.simps(2))
  then show ?thesis by blast
qed

section \<open>Maintenance\<close>

text \<open>A limiter pruned while its task is between two pieces: the handler has yet to come.\<close>

lemma listener_pruned:
  assumes "listener_rel env reads (Allowed sender q) before l"
  shows "listener_rel env reads (Allowed sender q) before (prune_older_than rate_limit_prune_age_nanos now l)"
  using assms prunes_snoc [symmetric] unfolding listener_rel.simps by metis

lemma listener_prune:
  assumes "listener_rel env reads st before l"
  shows "listener_rel env reads st (if st = Idle then prune_older_than rate_limit_prune_age_nanos now before else before)
    (prune_older_than rate_limit_prune_age_nanos now l)"
  using assms listener_pruned by (cases st) (auto simp del: listener_rel.simps(2))

definition charging :: "gossip_task \<Rightarrow> bool" where
  "charging g \<longleftrightarrow> (case g of GossipIdle \<Rightarrow> False | GossipMissing _ _ _ \<Rightarrow> False | _ \<Rightarrow> True)"

lemma gossip_rel_prune:
  assumes "gossip_rel env g (l0, peers0, pending0) (l, peers, pending)"
  shows "gossip_rel env g ((if charging g then l0 else prune_older_than rate_limit_prune_age_nanos now l0), peers0, pending0)
    (prune_older_than rate_limit_prune_age_nanos now l, peers, pending)"
  using assms by (cases g) (fastforce simp: charging_def intro: listener_pruned simp del: listener_rel.simps(2))+

text \<open>What the handlers do meanwhile: the same, unless the task has yet to be handled.\<close>

fun prune_handled :: "node_tasks \<Rightarrow> limiter_name \<Rightarrow> nat \<Rightarrow> node \<Rightarrow> node" where
  "prune_handled s GossipLimiter now m = (if charging (gossip_at s) then m else prune_limiter GossipLimiter now m)"
| "prune_handled s ResolverLimiter now m = (if resolver_at s = Idle then prune_limiter ResolverLimiter now m else m)"
| "prune_handled s ApiLimiter now m = (if api_at s = Idle then prune_limiter ApiLimiter now m else m)"
| "prune_handled s DnsLimiter now m = (if dns_at s = Idle then prune_limiter DnsLimiter now m else m)"

lemma prune_pending_last:
  "prune_handled s which now (m\<lparr>pending_challenges := x\<rparr>) = (prune_handled s which now m)\<lparr>pending_challenges := x\<rparr>"
  by (cases which) (simp_all add: pending_last)

lemma handled_prune: "handled_run env n0 rs m \<Longrightarrow> handled_run env n0 rs (prune_handled s which now m)"
  using handled_run.step [of env n0 rs m "[]" "prune_limiter which now m"] handler_step.prune_limiter [of env m which now]
  by (cases which) auto

lemma sim_prune_limiter:
  assumes S: "sim_with env n0 replies s m rs"
  shows "sim_with env n0 replies (s\<lparr>shared := prune_limiter which now (shared s)\<rparr>) (prune_handled s which now m) rs"
proof -
  have "\<forall>x. settled (gossip_at s) (pending_challenges m) (pending_challenges (shared s)) x \<longrightarrow>
      handled_run env n0 rs ((prune_handled s which now m)\<lparr>pending_challenges := x\<rparr>)"
    using S handled_prune [of env n0 rs] unfolding sim_with_def prune_pending_last [symmetric] by blast
  with S show ?thesis
    unfolding sim_with_def using gossip_rel_prune [of env "gossip_at s", where now = now]
      listener_prune [where now = now and st = "resolver_at s"] listener_prune [where now = now and st = "api_at s"]
      listener_prune [where now = now and st = "dns_at s"]
    by (cases which) (auto simp del: listener_rel.simps gossip_rel.simps)
qed

lemma sim_prune_pending:
  assumes S: "sim_with env n0 replies s m rs"
  shows "\<exists>m' rs'. sim_with env n0 replies (s\<lparr>shared := prune_pending now (shared s)\<rparr>) m' rs'"
proof -
  have step: "handled_run env n0 rs (prune_pending now k)" if "handled_run env n0 rs k" for k
    using handled_run.step [OF that handler_step.prune_pending [of env k now]] by simp
  show ?thesis
  proof (cases "gossip_at s")
    case (GossipMissing sender missing challenge)
    have "settled (gossip_at s) (pending_challenges m) (pending_challenges (shared s)) x"
      if "settled (gossip_at s) (pending_challenges m) (pending_challenges (prune_pending now (shared s))) x" for x
      using that drops_Cons [of now, symmetric] GossipMissing by (auto simp: prune_pending_def)
    with S GossipMissing have "sim_with env n0 replies (s\<lparr>shared := prune_pending now (shared s)\<rparr>) m rs"
      unfolding sim_with_def by (simp add: prune_pending_def)
    then show ?thesis by blast
  next
    case (GossipAnswered sender rumors)
    with S have "sim_with env n0 replies (s\<lparr>shared := prune_pending now (shared s)\<rparr>) m rs"
      unfolding sim_with_def using drops_snoc [symmetric]
      by (auto simp: prune_pending_def simp del: listener_rel.simps(2))
    then show ?thesis by blast
  next
    case GossipIdle
    with S step [of m] have "sim_with env n0 replies (s\<lparr>shared := prune_pending now (shared s)\<rparr>) (prune_pending now m) rs"
      unfolding sim_with_def by (simp add: prune_pending_def pending_same)
    then show ?thesis by blast
  next
    case (GossipAllowed sender msg)
    with S step [of m] have "sim_with env n0 replies (s\<lparr>shared := prune_pending now (shared s)\<rparr>) (prune_pending now m) rs"
      unfolding sim_with_def by (simp add: prune_pending_def pending_same del: listener_rel.simps(2))
    then show ?thesis by blast
  next
    case (GossipLearned sender msg)
    with S step [of m] have "sim_with env n0 replies (s\<lparr>shared := prune_pending now (shared s)\<rparr>) (prune_pending now m) rs"
      unfolding sim_with_def by (simp add: prune_pending_def pending_same del: listener_rel.simps(2))
    then show ?thesis by blast
  qed
qed

section \<open>Every interleaving\<close>

lemma sim_piece:
  assumes "piece env s out pushed s'" and S: "sim_with env n0 replies s m rs"
  shows "\<exists>m' rs'. sim_with env n0 (replies @ out) s' m' rs'"
  using assms(1)
proof cases
  case (gossip_receive now sender packet n g)
  with sim_gossip_receive [OF S] show ?thesis by simp
next
  case (gossip_learns sender msg n g)
  with sim_gossip_learns [OF S, of sender msg] show ?thesis by auto
next
  case (gossip_digest sender entries draws time g)
  with sim_gossip_digest [OF S] show ?thesis by simp
next
  case (gossip_admit sender missing challenge instant n)
  with sim_gossip_admit [OF S] show ?thesis by simp
next
  case (gossip_request sender domains challenge)
  with sim_gossip_request [OF S] show ?thesis by simp
next
  case (gossip_rumors sender rumors answer n g)
  with sim_gossip_rumors [OF S] show ?thesis by simp
next
  case (gossip_adopt sender rumors time)
  with sim_gossip_adopt [OF S] show ?thesis by simp
next
  case (resolver_receive now sender packet n r)
  with sim_resolver_receive [OF S] show ?thesis by simp
next
  case (resolver_read sender query)
  with sim_resolver_read [OF S] show ?thesis by simp
next
  case (api_receive now sender packet n a)
  with sim_api_receive [OF S] show ?thesis by simp
next
  case (api_handles sender request net drawn time n)
  with sim_api_handles [OF S] show ?thesis by simp
next
  case (dns_receive now sender packet n d)
  with sim_dns_receive [OF S] show ?thesis by simp
next
  case (dns_read sender query)
  with sim_dns_read [OF S] show ?thesis by simp
next
  case (prune_limiter which now)
  with sim_prune_limiter [OF S] show ?thesis by auto
next
  case (prune_pending now)
  with sim_prune_pending [OF S] show ?thesis by simp
qed (use S in \<open>auto simp: sim_with_def\<close>)

lemma sim_interleaved:
  "interleaved env (quiet_tasks n) replies s \<Longrightarrow> \<exists>m rs. sim_with env n replies s m rs"
proof (induction rule: interleaved.induct)
  case start
  have "sim_with env n [] (quiet_tasks n) n []"
    by (simp add: sim_with_def quiet_tasks_def handled_run.start)
  then show ?case by blast
next
  case (piece replies s out pushed s')
  then show ?case using sim_piece by blast
qed

lemma interleaved_store:
  assumes "interleaved env (quiet_tasks n) replies s"
  obtains m rs where "handled_run env n rs m" "node_store m = node_store (shared s)"
    "mset rs = mset replies + mset (owed env (gossip_at s))"
proof -
  from sim_interleaved [OF assms] obtain m rs where S: "sim_with env n replies s m rs" by blast
  obtain x where "settled (gossip_at s) (pending_challenges m) (pending_challenges (shared s)) x"
    by (cases "gossip_at s") auto
  with S have "handled_run env n rs (m\<lparr>pending_challenges := x\<rparr>)"
    "node_store (m\<lparr>pending_challenges := x\<rparr>) = node_store (shared s)"
    "mset rs = mset replies + mset (owed env (gossip_at s))" by (auto simp: sim_with_def)
  then show ?thesis by (rule that)
qed

lemma interleaved_handled:
  assumes "interleaved env (quiet_tasks n) replies s" "quiescent s"
  shows "\<exists>rs. handled_run env n rs (shared s) \<and> mset rs = mset replies"
proof -
  from sim_interleaved [OF assms(1)] obtain m rs where S: "sim_with env n replies s m rs" by blast
  with assms(2) have "m = shared s"
    unfolding sim_with_def quiescent_def by (simp add: node.equality)
  with S assms(2) show ?thesis by (auto simp: sim_with_def quiescent_def pending_same)
qed

section \<open>Every run of whole handlers is an interleaving\<close>

lemma quiet_fields [simp]:
  "shared (quiet_tasks n) = n" "gossip_at (quiet_tasks n) = GossipIdle" "resolver_at (quiet_tasks n) = Idle"
  "api_at (quiet_tasks n) = Idle" "dns_at (quiet_tasks n) = Idle" "quiescent (quiet_tasks n)"
  by (simp_all add: quiet_tasks_def quiescent_def)

lemma quiet_update [simp]:
  "(quiet_tasks n)\<lparr>gossip_at := GossipIdle\<rparr> = quiet_tasks n"
  "(quiet_tasks n)\<lparr>resolver_at := Idle\<rparr> = quiet_tasks n"
  "(quiet_tasks n)\<lparr>api_at := Idle\<rparr> = quiet_tasks n"
  "(quiet_tasks n)\<lparr>dns_at := Idle\<rparr> = quiet_tasks n"
  "(quiet_tasks n)\<lparr>shared := n'\<rparr> = quiet_tasks n'"
  by (simp_all add: quiet_tasks_def)

lemma silent_piece: "interleaved env s0 rs s \<Longrightarrow> piece env s [] pushed s' \<Longrightarrow> interleaved env s0 rs s'"
  using interleaved.piece [of env s0 rs s "[]"] by simp

lemma gossip_message_pieces:
  assumes I: "interleaved env s0 rs ((quiet_tasks n0)\<lparr>shared := n, gossip_at := GossipLearned sender msg\<rparr>)"
    and M: "handle_gossip_message env draws time sender msg n = (n', out)"
  shows "interleaved env s0 (rs @ out) (quiet_tasks n')"
proof (cases msg)
  case (Digest entries)
  define c where "c = challenge_random (draw_nonce_a draws) (draw_nonce_b draws) (draw_coin draws) (now_millis time)"
  let ?missing = "missing_domains (node_store n) entries"
  have D: "digest_missing draws time sender entries n = (if ?missing = [] then GossipIdle else GossipMissing sender ?missing c)"
    by (simp add: digest_missing_def c_def)
  from silent_piece [OF I piece.gossip_digest [of _ sender entries draws time]] Digest D
  have L: "interleaved env s0 rs ((quiet_tasks n0)\<lparr>shared := n, gossip_at := if ?missing = [] then GossipIdle else GossipMissing sender ?missing c\<rparr>)"
    by simp
  show ?thesis
  proof (cases "?missing = []")
    case False
    with M Digest have "digest_admit env (draw_instant draws) sender ?missing c n = (n', out)"
      by (auto simp: digest_admit_def c_def Let_def)
    with False interleaved.piece [OF L piece.gossip_admit [of _ sender ?missing c]] show ?thesis by simp
  qed (use L M Digest in auto)
next
  case (Request domains challenge)
  with interleaved.piece [OF I piece.gossip_request [of _ sender domains challenge]] M show ?thesis by auto
next
  case (Rumors rumors answer)
  obtain n1 g where R: "rumors_settle sender rumors answer n = (n1, g)" by fastforce
  with Rumors silent_piece [OF I piece.gossip_rumors [of _ sender rumors answer]]
  have L: "interleaved env s0 rs ((quiet_tasks n0)\<lparr>shared := n1, gossip_at := g\<rparr>)" by simp
  show ?thesis
  proof (cases "g = GossipIdle")
    case True
    with L R M Rumors show ?thesis
      by (auto simp: rumors_settle_def Let_def split: option.splits if_splits prod.splits)
  next
    case False
    with R M Rumors have G: "g = GossipAnswered sender rumors" "out = []"
      "n' = n1\<lparr>node_store := adopt_rumors (env_ext env) time 0 rumors (node_store n1)\<rparr>"
      by (auto simp: rumors_settle_def Let_def split: option.splits if_splits prod.splits)
    with silent_piece [OF L piece.gossip_adopt [of _ sender rumors env time]] show ?thesis by simp
  qed
qed

lemma gossip_pieces:
  assumes I: "interleaved env s0 rs (quiet_tasks n)" and M: "gossip_recv env now draws time sender packet n = (n', out)"
  shows "interleaved env s0 (rs @ out) (quiet_tasks n')"
proof -
  obtain n1 g where C: "gossip_charge env now sender packet n = (n1, g)" by fastforce
  from silent_piece [OF I piece.gossip_receive [where s = "quiet_tasks n" and env = env and now = now and sender = sender and
      packet = packet and n = n1 and g = g]] C
  have L: "interleaved env s0 rs ((quiet_tasks n)\<lparr>shared := n1, gossip_at := g\<rparr>)" by simp
  show ?thesis
  proof (cases "g = GossipIdle")
    case True
    with gossip_dropped [OF C [unfolded True], of n] M have "n1 = n'" "out = []" by auto
    with L True show ?thesis by simp
  next
    case False
    from gossip_charged [OF C False] obtain l msg where G: "g = GossipAllowed sender msg"
      "allow_at (env_round env) sender now (gossip_limiter n) = (True, l)" "gossip_reads env packet msg"
      "n1 = n\<lparr>gossip_limiter := l\<rparr>" .
    let ?n2 = "n1\<lparr>node_peers := learn sender (node_peers n1)\<rparr>"
    from silent_piece [OF L piece.gossip_learns [of _ sender msg]] G(1)
    have L2: "interleaved env s0 rs ((quiet_tasks n)\<lparr>shared := ?n2, gossip_at := GossipLearned sender msg\<rparr>)"
      by (simp add: gossip_learn_def)
    from M G have "handle_gossip_message env draws time sender msg ?n2 = (n', out)"
      by (simp add: gossip_recv_def gossip_reads_def reads_with_def)
    from gossip_message_pieces [OF L2 this] show ?thesis .
  qed
qed

lemma resolver_pieces:
  assumes I: "interleaved env s0 rs (quiet_tasks n)" and M: "resolver_recv env now sender packet n = (n', out)"
  shows "interleaved env s0 (rs @ out) (quiet_tasks n')"
proof -
  obtain n1 r where C: "resolver_charge env now sender packet n = (n1, r)" by fastforce
  from silent_piece [OF I piece.resolver_receive [where s = "quiet_tasks n" and env = env and now = now and sender = sender and
      packet = packet and n = n1 and r = r]] C
  have L: "interleaved env s0 rs ((quiet_tasks n)\<lparr>shared := n1, resolver_at := r\<rparr>)" by simp
  show ?thesis
  proof (cases r)
    case Idle
    with resolver_dropped [OF C [unfolded Idle], of n] M have "n1 = n'" "out = []" by auto
    with L Idle show ?thesis by simp
  next
    case (Allowed caller q)
    from resolver_allowed [OF C [unfolded Allowed]] obtain l where G: "caller = sender"
      "allow_at (env_round env) sender now (resolver_limiter n) = (True, l)"
      "reads_with (decode (query_from_slice env)) packet q" "n1 = n\<lparr>resolver_limiter := l\<rparr>" .
    with interleaved.piece [OF L piece.resolver_read [of _ sender q]] Allowed resolver_whole [OF G(2,3)] M show ?thesis by simp
  qed
qed

lemma api_pieces:
  assumes I: "interleaved env s0 rs (quiet_tasks n)"
    and M: "client_api_recv env now net drawn time sender packet n = (n', out)"
  shows "interleaved env s0 (rs @ out) (quiet_tasks n')"
proof (cases "api_running n")
  case True
  obtain n1 r where C: "api_charge env now sender packet n = (n1, r)" by fastforce
  from silent_piece [OF I piece.api_receive [where s = "quiet_tasks n" and env = env and now = now and sender = sender and
      packet = packet and n = n1 and a = r]] C True
  have L: "interleaved env s0 rs ((quiet_tasks n)\<lparr>shared := n1, api_at := r\<rparr>)" by simp
  show ?thesis
  proof (cases r)
    case Idle
    with C M True have "n1 = n'" "out = []"
      by (auto simp: api_charge_def client_api_recv_def Let_def split: prod.splits if_splits sum.splits)
    with L Idle show ?thesis by simp
  next
    case (Allowed caller q)
    from api_allowed [OF C [unfolded Allowed]] obtain l where G: "caller = sender"
      "allow_at (env_round env) sender now (api_limiter n) = (True, l)"
      "reads_with (decode (request_from_slice env)) packet q" "n1 = n\<lparr>api_limiter := l\<rparr>" .
    from api_whole [OF G(2,3) True] M G(4) have "api_handle env net drawn time sender q n1 = (n', out)" by simp
    with interleaved.piece [OF L piece.api_handles [of _ sender q]] Allowed G(1) show ?thesis by simp
  qed
qed (use I M in \<open>simp add: client_api_recv_def\<close>)

lemma dns_pieces:
  assumes I: "interleaved env s0 rs (quiet_tasks n)" and M: "dns_recv env now sender packet n = (n', out)"
  shows "interleaved env s0 (rs @ out) (quiet_tasks n')"
proof -
  obtain n1 r out1 where C: "dns_charge env now sender packet n = (n1, r, out1)" by (metis prod_cases3)
  from interleaved.piece [OF I piece.dns_receive [where s = "quiet_tasks n" and env = env and now = now and sender = sender and
      packet = packet and n = n1 and d = r and out = out1]] C
  have L: "interleaved env s0 (rs @ out1) ((quiet_tasks n)\<lparr>shared := n1, dns_at := r\<rparr>)" by simp
  show ?thesis
  proof (cases r)
    case Idle
    with dns_dropped [OF C [unfolded Idle], of n] M have "n1 = n'" "out = out1" by auto
    with L Idle show ?thesis by simp
  next
    case (Allowed caller q)
    from dns_allowed [OF C [unfolded Allowed]] obtain l where G: "caller = sender"
      "allow_at (env_round env) sender now (dns_limiter n) = (True, l)" "reads_with parse_query packet q"
      "n1 = n\<lparr>dns_limiter := l\<rparr>" "out1 = []" .
    with interleaved.piece [OF L piece.dns_read [of _ sender q]] Allowed dns_whole [OF G(2,3)] M show ?thesis by simp
  qed
qed

lemma handled_interleaved: "handled_run env n replies n' \<Longrightarrow> interleaved env (quiet_tasks n) replies (quiet_tasks n')"
proof (induction rule: handled_run.induct)
  case start
  show ?case by (rule interleaved.start)
next
  case (step replies n' out n'')
  from step.hyps(2) show ?case
  proof cases
    case (prune_limiter which now)
    with silent_piece [OF step.IH piece.prune_limiter [of env _ which now]] show ?thesis by simp
  next
    case (prune_pending now)
    with silent_piece [OF step.IH piece.prune_pending [of env _ now]] show ?thesis by simp
  next
    case (gossip now draws time sender packet)
    show ?thesis by (rule gossip_pieces [OF step.IH gossip])
  next
    case (resolver now sender packet)
    show ?thesis by (rule resolver_pieces [OF step.IH resolver])
  next
    case (client_api now net drawn time sender packet)
    show ?thesis by (rule api_pieces [OF step.IH client_api])
  next
    case (dns now sender packet)
    show ?thesis by (rule dns_pieces [OF step.IH dns])
  qed
qed

section \<open>No task waits for another\<close>

text \<open>From any moment on, the handlers under way can be finished without any other piece.\<close>

lemma finish_others:
  assumes "interleaved env s0 rs s" "gossip_at s = GossipIdle"
  shows "\<exists>more s'. interleaved env s0 (rs @ more) s' \<and> quiescent s'"
proof -
  have R: "\<exists>more s'. interleaved env s0 (rs @ more) s' \<and> gossip_at s' = GossipIdle \<and> resolver_at s' = Idle"
  proof (cases "resolver_at s")
    case (Allowed sender q)
    from interleaved.piece [OF assms(1) piece.resolver_read [OF Allowed]] assms(2) show ?thesis by fastforce
  qed (use assms append_Nil2 in metis)
  then obtain m1 s1 where S1: "interleaved env s0 (rs @ m1) s1" "gossip_at s1 = GossipIdle" "resolver_at s1 = Idle" by blast
  have D: "\<exists>more s'. interleaved env s0 (rs @ more) s' \<and> gossip_at s' = GossipIdle \<and> resolver_at s' = Idle \<and> dns_at s' = Idle"
  proof (cases "dns_at s1")
    case (Allowed sender q)
    from interleaved.piece [OF S1(1) piece.dns_read [OF Allowed]] S1(2,3) show ?thesis by fastforce
  qed (use S1 in blast)
  then obtain m2 s2 where S2: "interleaved env s0 (rs @ m2) s2" "gossip_at s2 = GossipIdle" "resolver_at s2 = Idle" "dns_at s2 = Idle" by blast
  show ?thesis
  proof (cases "api_at s2")
    case (Allowed sender q)
    obtain n out where "api_handle env undefined undefined undefined sender q (shared s2) = (n, out)" by fastforce
    from interleaved.piece [OF S2(1) piece.api_handles [OF Allowed this]] S2(2-4) show ?thesis by (fastforce simp: quiescent_def)
  qed (use S2 in \<open>auto simp: quiescent_def\<close>)
qed

lemma finish_learned:
  assumes "interleaved env s0 rs s" "gossip_at s = GossipLearned sender msg"
  shows "\<exists>more s'. interleaved env s0 (rs @ more) s' \<and> quiescent s'"
proof (cases msg)
  case (Digest entries)
  obtain g where g: "digest_missing undefined undefined sender entries (shared s) = g" by blast
  have P: "interleaved env s0 rs (s\<lparr>gossip_at := g\<rparr>)" using silent_piece [OF assms(1) piece.gossip_digest [OF _ g]] assms(2) Digest by simp
  show ?thesis
  proof (cases "g = GossipIdle")
    case True
    with finish_others [OF P] show ?thesis by simp
  next
    case False
    with g obtain missing challenge where G: "g = GossipMissing sender missing challenge"
      by (auto simp: digest_missing_def Let_def split: if_splits)
    obtain n out where "digest_admit env undefined sender missing challenge (shared s) = (n, out)" by fastforce
    with interleaved.piece [OF P piece.gossip_admit [of _ sender missing challenge]] G
    have "interleaved env s0 (rs @ out) (s\<lparr>shared := n, gossip_at := GossipIdle\<rparr>)" by simp
    from finish_others [OF this] show ?thesis by fastforce
  qed
next
  case (Request domains challenge)
  from interleaved.piece [OF assms(1) piece.gossip_request] assms(2) Request finish_others show ?thesis by fastforce
next
  case (Rumors rumors answer)
  obtain n g where g: "rumors_settle sender rumors answer (shared s) = (n, g)" by fastforce
  have P: "interleaved env s0 rs (s\<lparr>shared := n, gossip_at := g\<rparr>)"
    using silent_piece [OF assms(1) piece.gossip_rumors [OF _ g]] assms(2) Rumors by simp
  show ?thesis
  proof (cases "g = GossipIdle")
    case True
    with finish_others [OF P] show ?thesis by simp
  next
    case False
    with g have G: "g = GossipAnswered sender rumors"
      by (auto simp: rumors_settle_def Let_def split: option.splits if_splits prod.splits)
    from finish_others [OF silent_piece [OF P piece.gossip_adopt [of _ sender rumors env undefined]]] G show ?thesis by simp
  qed
qed

lemma interleaving_completes:
  assumes "interleaved env s0 rs s"
  shows "\<exists>more s'. interleaved env s0 (rs @ more) s' \<and> quiescent s'"
proof (cases "gossip_at s")
  case GossipIdle
  with finish_others [OF assms] show ?thesis .
next
  case (GossipAllowed sender msg)
  then obtain n where "gossip_learn sender msg (shared s) = (n, GossipLearned sender msg)" by (simp add: gossip_learn_def)
  from finish_learned [OF silent_piece [OF assms piece.gossip_learns [OF GossipAllowed this]]] show ?thesis by simp
next
  case (GossipLearned sender msg)
  with finish_learned [OF assms] show ?thesis .
next
  case (GossipMissing sender missing challenge)
  obtain n out where "digest_admit env undefined sender missing challenge (shared s) = (n, out)" by fastforce
  from finish_others [OF interleaved.piece [OF assms piece.gossip_admit [OF GossipMissing this]]] show ?thesis by fastforce
next
  case (GossipAnswered sender rumors)
  from finish_others [OF silent_piece [OF assms piece.gossip_adopt [OF GossipAnswered]]] show ?thesis by simp
qed

end
