(* ===== verification/Concurrency_Claims.thy ===== *)
theory Concurrency_Claims
  imports System_Claims Serial_Runs
begin

text \<open>
  Properties of a node whose tasks run side by side, with their locks as the only points where one gives way to
  another.
\<close>

section \<open>Interleaved tasks\<close>

text \<open>C2: running the tasks of a node side by side changes nothing that matters. However
  the pieces between the locks of its four listeners, its push loop and its maintenance alternate, once no handler is
  under way the node is in a state that whole handlers, run one after the other, reach with the same
  replies; and every run of whole handlers is such a run.\<close>

theorem interleaving_is_serial:
  "(\<exists>replies s. interleaved env (quiet_tasks n) replies s \<and> quiescent s \<and> shared s = n' \<and> mset replies = sent) \<longleftrightarrow>
    (\<exists>replies. handled_run env n replies n' \<and> mset replies = sent)"
proof
  assume "\<exists>replies s. interleaved env (quiet_tasks n) replies s \<and> quiescent s \<and> shared s = n' \<and> mset replies = sent"
  then show "\<exists>replies. handled_run env n replies n' \<and> mset replies = sent" using interleaved_handled by blast
next
  assume "\<exists>replies. handled_run env n replies n' \<and> mset replies = sent"
  then obtain replies where "handled_run env n replies n'" "mset replies = sent" by blast
  with handled_interleaved quiet_fields(1,6)
  show "\<exists>replies s. interleaved env (quiet_tasks n) replies s \<and> quiescent s \<and> shared s = n' \<and> mset replies = sent" by metis
qed

text \<open>C4: at every moment of every such run of a node, between any two locks, every cap
  holds, the registry is the one of a reachable node, whose handlers have sent the same replies up to
  the one request still to be sent, and the handlers under way can all be finished without any other task.\<close>

theorem interleaved_node_safe:
  assumes "interleaved env (quiet_tasks (new_with_verifier peers verifier)) replies s"
    "rounding (env_round env)" "distinct peers"
  shows "(card (host_names (node_store (shared s)) q) \<le> 10 \<and> card (leased_names (node_store (shared s)) q) \<le> 5 \<and>
      length (buckets (gossip_limiter (shared s))) \<le> 100000 \<and> length (buckets (resolver_limiter (shared s))) \<le> 100000 \<and>
      length (buckets (api_limiter (shared s))) \<le> 100000 \<and> length (buckets (dns_limiter (shared s))) \<le> 100000 \<and>
      length (pending_challenges (shared s)) \<le> 10000 \<and> distinct (snapshot (node_peers (shared s)))) \<and>
    (\<exists>m serial. reachable env peers verifier m \<and> handled_run env (new_with_verifier peers verifier) serial m \<and>
      node_store m = node_store (shared s) \<and> mset serial = mset replies + mset (owed env (gossip_at s))) \<and>
    (\<exists>more s'. interleaved env (quiet_tasks (new_with_verifier peers verifier)) (replies @ more) s' \<and> quiescent s')"
proof (intro conjI)
  have "node_inv (shared s)"
    using interleaved_inv [OF assms(1,2)] new_node_inv [OF assms(3)] by simp
  then show "card (host_names (node_store (shared s)) q) \<le> 10" "card (leased_names (node_store (shared s)) q) \<le> 5"
    "length (buckets (gossip_limiter (shared s))) \<le> 100000" "length (buckets (resolver_limiter (shared s))) \<le> 100000"
    "length (buckets (api_limiter (shared s))) \<le> 100000" "length (buckets (dns_limiter (shared s))) \<le> 100000"
    "length (pending_challenges (shared s)) \<le> 10000" "distinct (snapshot (node_peers (shared s)))"
    using caps [of "node_store (shared s)" q] by (simp_all add: node_inv_def standard_limiter_def limiter_ok_def limiter_wf_def)
  from interleaved_store [OF assms(1)] handled_reachable reachable.start
  show "\<exists>m serial. reachable env peers verifier m \<and> handled_run env (new_with_verifier peers verifier) serial m \<and>
      node_store m = node_store (shared s) \<and> mset serial = mset replies + mset (owed env (gossip_at s))" by metis
qed (rule interleaving_completes [OF assms(1)])

text \<open>A moment at which a query and a request are both past their rate limiters, with the resolver's
  limiter pruned in between.\<close>

theorem interleaved_node_safe_witness:
  "\<exists>s :: node_tasks. resolver_at s \<noteq> Idle \<and> api_at s \<noteq> Idle \<and>
    length (buckets (resolver_limiter (shared s))) \<le> 100000 \<and>
    (\<exists>m. reachable (sample_demo_env True) [] AllowAllVerifier m \<and> node_store m = node_store (shared s))"
proof -
  let ?env = "sample_demo_env True" and ?n = "new_with_verifier [] AllowAllVerifier"
  have "fst (allow_at (env_round ?env) demo_addr 0 new_rate_limiter)"
    using allow_ready(1) [OF sample_demo_rounding [of True] new_rate_limiter_standard new_ready, of 0 demo_addr] by simp
  then obtain l where l: "allow_at (env_round ?env) demo_addr 0 new_rate_limiter = (True, l)"
    by (cases "allow_at (env_round ?env) demo_addr 0 new_rate_limiter") simp
  have R: "resolver_charge ?env 0 demo_addr [1] (shared (quiet_tasks ?n)) =
      (?n\<lparr>resolver_limiter := l\<rparr>, Allowed demo_addr \<lparr>query_domain = demo_domain\<rparr>)"
    by (simp add: resolver_charge_def new_with_verifier_def l decode_def max_datagram_bytes_def)
      (simp add: sample_demo_env_def)
  let ?s1 = "(quiet_tasks ?n)\<lparr>shared := ?n\<lparr>resolver_limiter := l\<rparr>, resolver_at := Allowed demo_addr \<lparr>query_domain = demo_domain\<rparr>\<rparr>"
  let ?s2 = "?s1\<lparr>shared := prune_limiter ResolverLimiter 0 (shared ?s1)\<rparr>"
  from interleaved.piece [OF interleaved.piece [OF interleaved.start piece.resolver_receive [OF _ R]] piece.prune_limiter [of ?env ?s1 ResolverLimiter 0]]
  have S2: "interleaved ?env (quiet_tasks ?n) [] ?s2" by simp
  obtain n a where A: "api_charge ?env 0 demo_addr [1] (shared ?s2) = (n, a)" by fastforce
  then have busy: "a \<noteq> Idle"
    by (auto simp: api_charge_def new_with_verifier_def l decode_def max_datagram_bytes_def)
      (simp add: sample_demo_env_def)
  let ?s3 = "?s2\<lparr>shared := n, api_at := a\<rparr>"
  have "api_running (shared ?s2)" by (simp add: new_with_verifier_def)
  from interleaved.piece [OF S2 piece.api_receive [OF _ this A]] have S3: "interleaved ?env (quiet_tasks ?n) [] ?s3"
    by simp
  note safe = interleaved_node_safe [OF S3 sample_demo_rounding distinct.simps(1) [THEN iffD2, OF TrueI], of sample_host]
  show ?thesis
  proof (intro exI [of _ ?s3] conjI)
    show "length (buckets (resolver_limiter (shared ?s3))) \<le> 100000"
      "\<exists>m. reachable ?env [] AllowAllVerifier m \<and> node_store m = node_store (shared ?s3)"
      using safe by blast+
  qed (use busy in simp_all)
qed

end
