(* ===== verification/Test_Kit.thy ===== *)
theory Test_Kit
  imports Client_Flow "HOL-Library.Monad_Syntax"
begin

text \<open>
  What the translations of the source's own unit tests (the \<open>#[cfg(test)]\<close> modules) share. A test is
  an optional unit: \<open>None\<close> is a panic, so a test passes when it is \<open>Some ()\<close>. What a test draws
  from the random generator (keys, nonces, coin flips) is an argument, so that a test that passes
  for all of them says more than its runs do. The facts at the end evaluate registries on which
  no lease expires.
\<close>

section \<open>Tests\<close>

type_synonym unit_test = "unit option"

definition passes :: "unit_test \<Rightarrow> bool" where
  "passes t \<longleftrightarrow> t = Some ()"

text \<open>\<open>assert!\<close>, and \<open>unwrap\<close> or \<open>expect\<close> of a \<open>Result\<close>.\<close>

definition check :: "bool \<Rightarrow> unit_test" where
  "check b = (if b then Some () else None)"

definition unwrap :: "'e + 'a \<Rightarrow> 'a option" where
  "unwrap r = (case r of Inr x \<Rightarrow> Some x | Inl _ \<Rightarrow> None)"

definition is_ok :: "'e + 'a \<Rightarrow> bool" where
  "is_ok r = (case r of Inr _ \<Rightarrow> True | Inl _ \<Rightarrow> False)"

text \<open>\<open>Duration::from_millis\<close>, in nanoseconds.\<close>

definition from_millis :: "nat \<Rightarrow> nat" where
  "from_millis n = n * 1000000"

lemma passes_simps [simp]: "passes (Some u)" "\<not> passes None"
  by (simp_all add: passes_def)

lemma passes_check [simp]: "passes (check b) = b"
  by (simp add: check_def)

lemma passes_then [simp]: "passes (check b \<bind> f) = (b \<and> passes (f ()))"
  by (simp add: check_def)

lemma unwrap_simps [simp]: "unwrap (Inr x) = Some x" "unwrap (Inl e) = None"
  by (simp_all add: unwrap_def)

lemma is_ok_simps [simp]: "is_ok (Inr x)" "\<not> is_ok (Inl e)"
  by (simp_all add: is_ok_def)

lemma is_ok_iff: "is_ok r \<longleftrightarrow> (\<exists>x. r = Inr x)"
  by (cases r) simp_all

text \<open>The clocks of the tests.\<close>

lemma mock_time_new [simp]: "mock_time (mock_new t) = frozen t"
  by (simp add: mock_time_def mock_new_def)

lemma advanced [simp]: "mock_time (mock_advance (from_millis n) (mock_new t)) = frozen (t + of_nat n)"
  by (simp add: mock_time_def mock_advance_def from_millis_def mock_new_def)

lemma window [simp]: "unat liveness_window_millis = 60000"
  by (simp add: liveness_window_millis_def)

text \<open>\<open>contains\<close> and \<open>starts_with\<close> of strings.\<close>

definition str_starts_with :: "'a list \<Rightarrow> 'a list \<Rightarrow> bool" where
  "str_starts_with s p \<longleftrightarrow> take (length p) s = p"

definition str_contains :: "'a list \<Rightarrow> 'a list \<Rightarrow> bool" where
  "str_contains s p \<longleftrightarrow> list_ex (\<lambda>i. str_starts_with (drop i s) p) [0..<length s + 1]"

lemma starts_with_append [simp]: "str_starts_with (p @ s) p"
  by (simp add: str_starts_with_def)

lemma contains_suffix: "str_contains s p \<Longrightarrow> str_contains (t @ s) p"
proof -
  assume "str_contains s p"
  then obtain i where i: "i \<in> set [0..<length s + 1]" "str_starts_with (drop i s) p"
    unfolding str_contains_def list_ex_iff by blast
  then have "length t + i \<in> set [0..<length (t @ s) + 1]" "str_starts_with (drop (length t + i) (t @ s)) p" by simp_all
  then show ?thesis unfolding str_contains_def list_ex_iff by blast
qed

lemma contains_middle: "str_contains (t @ p @ u) p"
proof (rule contains_suffix)
  show "str_contains (p @ u) p"
    unfolding str_contains_def list_ex_iff by (rule bexI [of _ 0]) (simp_all add: str_starts_with_def)
qed

section \<open>Keys\<close>

text \<open>\<open>SigningKey\<close>: its public half and its signing function.\<close>

record signing_key =
  public_key :: bytes
  sign_with :: "bytes \<Rightarrow> bytes"

definition honest :: "externals \<Rightarrow> signing_key \<Rightarrow> bool" where
  "honest ext k = signs ext (public_key k) (sign_with k)"

lemma honestD:
  assumes "honest ext k"
  shows "length (public_key k) = 32" "key_parses ext (public_key k)" "sig_parses ext (sign_with k m)"
    "sig_verifies ext (public_key k) m (sign_with k m)"
  using assms by (simp_all add: honest_def signs_def)

text \<open>\<open>client()\<close>: a client of the one host of the tests.\<close>

definition test_client :: "signing_key \<Rightarrow> client_identity" where
  "test_client k = client_new (public_key k) (lit ''host.example.net'')"

lemma test_host [simp]: "client_quota_key (test_client k) = lit ''host.example.net''"
  by (simp add: test_client_def client_quota_key_def client_new_def lit_def trim_def trim_end_matches_def
      to_ascii_lowercase_def ascii_lower_def is_whitespace_def)

lemma test_client_key [simp]: "client_key (test_client k) = client_key (test_client k') \<longleftrightarrow> public_key k = public_key k'"
  by (simp add: client_key_inj test_client_def client_new_def)

text \<open>The address record of the tests.\<close>

definition test_a_record :: "rstring \<Rightarrow> zone_record" where
  "test_a_record v = \<lparr>record_name = lit ''@'', record_type_of = RecA, ttl_secs = 300, record_value = v\<rparr>"

section \<open>Names\<close>

lemma lit_eq [simp]: "lit s = lit t \<longleftrightarrow> s = t"
  by (simp add: lit_def inj_map_eq_map inj_def of_char_eq_iff)

lemma lit_Nil [simp]: "lit [] = []"
  by (simp add: lit_def)

lemma domain_new_lit:
  "list_all (\<lambda>c. \<not> refused_char c) (lit s) \<Longrightarrow> [] \<notin> set (split_on dot (lit s)) \<Longrightarrow> s \<noteq> [] \<Longrightarrow>
    domain_new (lit s) = Inr (DomainName (lit s))"
  by (simp add: domain_new_Inr lit_def)

text \<open>The names of the tests' loops, \<open>format!("d{i}.binda")\<close>.\<close>

definition numbered_name :: "string \<Rightarrow> nat \<Rightarrow> rstring" where
  "numbered_name p i = lit p @ show_nat i @ lit ''.binda''"

definition plain_char :: "nat \<Rightarrow> bool" where
  "plain_char c \<longleftrightarrow> \<not> refused_char c \<and> c \<noteq> dot"

lemma plain_digit: "c \<in> set (show_nat n) \<Longrightarrow> plain_char c"
  by (drule show_nat_digits) (simp add: plain_char_def refused_char_def is_control_def)

lemma numbered_name_ok:
  assumes "list_all plain_char (lit p)" "p \<noteq> []"
  shows "domain_new (numbered_name p i) = Inr (DomainName (numbered_name p i))"
proof -
  have plain: "plain_char c" if "c \<in> set (lit p @ show_nat i)" for c
    using that assms(1) plain_digit by (auto simp: list_all_iff)
  have "dot \<notin> set (lit p @ show_nat i)"
  proof
    assume "dot \<in> set (lit p @ show_nat i)"
    then have "plain_char dot" by (rule plain)
    then show False by (simp add: plain_char_def)
  qed
  moreover have tail: "lit ''.binda'' = dot # lit ''binda''" "split_on dot (lit ''binda'') = [lit ''binda'']"
    by (simp_all add: lit_def)
  ultimately have "split_on dot (numbered_name p i) = [lit p @ show_nat i, lit ''binda'']"
    using split_on_append [of dot "lit p @ show_nat i" "lit ''binda''"] by (simp add: numbered_name_def)
  moreover have "list_all (\<lambda>c. \<not> refused_char c) (lit ''.binda'')"
    by (simp add: lit_def refused_char_def is_control_def)
  moreover have "list_all (\<lambda>c. \<not> refused_char c) (lit p @ show_nat i)"
    using plain by (auto simp: list_all_iff plain_char_def)
  ultimately show ?thesis
    using assms(2) by (simp add: domain_new_Inr numbered_name_def lit_def)
qed

lemma numbered_name_inj [simp]: "numbered_name p i = numbered_name p j \<longleftrightarrow> i = j"
  by (simp add: numbered_name_def)

text \<open>The fire emoji and the Arabic word of the tests.\<close>

definition fire :: rstring where
  "fire = [0x1F525]"

definition marhaba :: rstring where
  "marhaba = [0x645, 0x631, 0x62D, 0x628, 0x627]"

section \<open>Looking into messages\<close>

text \<open>\<open>u16::from_be_bytes([response[i], response[i + 1]])\<close>.\<close>

definition u16_at :: "bytes \<Rightarrow> nat \<Rightarrow> u16 option" where
  "u16_at bs i = (if i + 1 < length bs then Some (u16_of_be [bs ! i, bs ! (i + 1)]) else None)"

definition str_ends_with :: "'a list \<Rightarrow> 'a list \<Rightarrow> bool" where
  "str_ends_with s p \<longleftrightarrow> str_starts_with (rev s) (rev p)"

text \<open>\<open>bytes.windows(n).any(|w| w == pattern)\<close> with a pattern of \<open>n\<close> bytes.\<close>

definition any_window :: "bytes \<Rightarrow> bytes \<Rightarrow> bool" where
  "any_window bs pattern \<longleftrightarrow>
    list_ex (\<lambda>i. take (length pattern) (drop i bs) = pattern) [0..<length bs + 1 - length pattern]"

lemma ends_with_append [simp]: "str_ends_with (s @ p) p"
  by (simp add: str_ends_with_def)

lemma any_window_middle:
  assumes "p \<noteq> []"
  shows "any_window (pre @ p @ post) p"
proof -
  have "length pre \<in> set [0..<length (pre @ p @ post) + 1 - length p]" by simp
  moreover have "take (length p) (drop (length pre) (pre @ p @ post)) = p" by simp
  ultimately show ?thesis unfolding any_window_def list_ex_iff by blast
qed

section \<open>Evaluating bytes and addresses\<close>

lemma be_bytes_numeral: "be_bytes (numeral k) n = be_bytes (pred_numeral k) (n div 256) @ [of_nat n]"
  by (simp only: numeral_eq_Suc be_bytes.simps)

lemma read_octets_numeral:
  "read_octets (numeral k) i s =
    (case read_separator 46 i (read_number 10 (Some 3) False 256) s of
      Some (b, rest) \<Rightarrow>
        (case read_octets (pred_numeral k) (Suc i) rest of
          Some (bs, rest) \<Rightarrow> Some (of_nat b # bs, rest)
        | None \<Rightarrow> None)
    | None \<Rightarrow> None)"
  by (simp only: numeral_eq_Suc read_octets.simps)

lemma read_groups_numeral:
  "read_groups (numeral k) i s =
    (case (if 0 < pred_numeral k then read_separator 58 i read_ipv4_addr s else None) of
      Some (v4, rest) \<Rightarrow> ([u16_of_be (take 2 v4), u16_of_be (drop 2 v4)], True, rest)
    | None \<Rightarrow>
        (case read_separator 58 i (read_number 16 (Some 4) True 65536) s of
          Some (g, rest) \<Rightarrow>
            (let (gs, v4, rest) = read_groups (pred_numeral k) (Suc i) rest in (of_nat g # gs, v4, rest))
        | None \<Rightarrow> ([], False, s)))"
  by (simp only: numeral_eq_Suc read_groups.simps)

lemma replicate_numeral: "replicate (numeral k) x = x # replicate (pred_numeral k) x"
  by (simp only: numeral_eq_Suc replicate.simps)

lemmas address_eval = read_octets_numeral read_groups_numeral read_separator_def read_given_char_def read_number_def
  to_digit_def digits_value_def read_ipv4_addr_def read_ipv6_addr_def parse_with_def parse_ipv4_def parse_ipv6_def
  read_port_def read_socket_addr_v4_def parse_socket_addr_def parse_u16_def replicate_numeral lit_def

section \<open>Registries on which nothing expires\<close>

text \<open>No host's liveness has run out and no lease was ever adopted.\<close>

definition quiet :: "u64 \<Rightarrow> registry_store \<Rightarrow> bool" where
  "quiet t s \<longleftrightarrow> quota_claims s = [] \<and> expired_clients (liveness s) (frozen t) = []"

lemma quiet_reclaim: "quiet t s \<Longrightarrow> reclaim_stale ext (frozen t) s = s"
  by (simp add: quiet_def reclaim_stale_eq drop_hosts_def hm_keys_def hm_retain_def)

lemma quiet_register:
  assumes "quiet t s" "is_live (liveness s) c (frozen t)"
  shows "register ext drawn d c (frozen t) s =
    (if hm_get (registrations s) d = None \<and> registration_count (liveness s) c < 5
     then (Inr (token_issue drawn t), add_registration d c (token_issue drawn t) s)
     else (Inl RegistrationLimitReached, s))"
  using assms
  by (auto simp: register_def Let_def quiet_reclaim add_registration_def can_register_def hm_contains_key_def
      max_registrations_per_client_def)

lemma add_registration_sel [simp]:
  "registrations (add_registration d c token s) = hm_insert d
    \<lparr>reg_client_key = client_key c, reg_quota_key = client_quota_key c, reg_token = token,
     reg_records = [], reg_rumor = None\<rparr> (registrations s)"
  "liveness (add_registration d c token s) = increment_registration c (liveness s)"
  "quota_claims (add_registration d c token s) = quota_claims s"
  "probe_evidence (add_registration d c token s) = probe_evidence s"
  by (simp_all add: add_registration_def)

lemma expired_increment [simp]: "expired_clients (increment_registration c lv) = expired_clients lv"
  by (simp add: expired_clients_def increment_registration_def fun_eq_iff)

lemma is_live_increment [simp]: "is_live (increment_registration c lv) = is_live lv"
  by (simp add: is_live_def increment_registration_def fun_eq_iff)

lemma quiet_add [simp]: "quiet t (add_registration d c token s) = quiet t s"
  by (simp add: quiet_def)

lemma quiet_new [simp]: "quiet t store_new"
  by (simp add: quiet_def expired_clients_def tracker_new_def)

text \<open>A probe makes its host live and expires nobody.\<close>

lemma expired_probe:
  assumes "tracker_wf lv" "expired_clients lv (frozen t) = []"
  shows "expired_clients (record_probe c (frozen t) lv) (frozen t) = []"
proof -
  have "q \<notin> set (expired_clients (record_probe c (frozen t) lv) (frozen t))" for q
    using expired_clients_iff [OF assms(1), of q "frozen t"] assms(2)
    by (auto simp: expired_clients_iff [OF tracker_wf_ops(2) [OF assms(1)]] split: if_splits)
  then show ?thesis by (metis ex_in_conv set_empty)
qed

lemma probe_quiet:
  "tracker_wf (liveness s) \<Longrightarrow> quiet t s \<Longrightarrow> quiet t (probe c (frozen t) s)"
  by (simp add: quiet_def probe_def expired_probe)

lemma probe_live:
  "client_quota_key c' = client_quota_key c \<Longrightarrow> is_live (liveness (probe c (frozen t) s)) c' (frozen t)"
  by (simp add: probe_def is_live_iff)

lemma probe_sel [simp]:
  "registrations (probe c time s) = registrations s" "quota_claims (probe c time s) = quota_claims s"
  "probe_evidence (probe c time s) = probe_evidence s"
  "liveness (probe c time s) = record_probe c time (liveness s)"
  by (simp_all add: probe_def)

end
