(* ===== verification/Store_Tests.thy ===== *)
theory Store_Tests
  imports Test_Kit Availability
begin

text \<open>
  The unit tests of \<open>binda-core/src/store.rs\<close>, for every signature scheme, every key the tests
  generate and every nonce the registrations draw (\<open>drawn i\<close> is the nonce of the test's \<open>i\<close>-th
  registration).
\<close>

section \<open>The tests\<close>

definition signed_rumor :: "signing_key \<Rightarrow> domain_name \<Rightarrow> u64 \<Rightarrow> registration_rumor" where
  "signed_rumor k d timestamp =
    (let host = lit ''shared.example.net''; owner = client_new (public_key k) host
     in \<lparr>rumor_domain = d,
         rumor_token = \<lparr>issued_at_millis = timestamp, nonce = replicate 8 (ucast timestamp)\<rparr>,
         rumor_client_key = client_key owner, rumor_owner_key = public_key k, rumor_rdns = host,
         registration_timestamp_millis = timestamp,
         registration_signature = sign_with k (register_message d timestamp),
         probe_timestamp_millis = timestamp, probe_signature = sign_with k (probe_message timestamp),
         rumor_records = [], records_timestamp_millis = None, records_signature = None\<rparr>)"

text \<open>The loop \<open>for i in 0..n { store.register(format!(...), client, time).unwrap() }\<close>.\<close>

fun register_each ::
  "externals \<Rightarrow> (nat \<Rightarrow> bytes) \<Rightarrow> string \<Rightarrow> client_identity \<Rightarrow> time_source \<Rightarrow> nat list \<Rightarrow> registry_store \<Rightarrow>
    registry_store option" where
  "register_each ext drawn p c time [] s = Some s"
| "register_each ext drawn p c time (i # js) s = do {
     d \<leftarrow> unwrap (domain_new (numbered_name p i));
     let (r, s) = register ext (drawn i) d c time s;
     unwrap r;
     register_each ext drawn p c time js s
   }"

text \<open>The loop \<open>for i in 0..n { assert!(store.adopt_rumor(signed_rumor(...), time)) }\<close>.\<close>

fun adopt_each ::
  "externals \<Rightarrow> (nat \<Rightarrow> signing_key) \<Rightarrow> string \<Rightarrow> (nat \<Rightarrow> u64) \<Rightarrow> time_source \<Rightarrow> nat list \<Rightarrow> registry_store \<Rightarrow>
    registry_store option" where
  "adopt_each ext key p stamp time [] s = Some s"
| "adopt_each ext key p stamp time (i # js) s = do {
     d \<leftarrow> unwrap (domain_new (numbered_name p i));
     let (adopted, s) = adopt_rumor ext (signed_rumor (key i) d (stamp i)) time s;
     check adopted;
     adopt_each ext key p stamp time js s
   }"

definition live_client_can_register_free_domain :: "externals \<Rightarrow> signing_key \<Rightarrow> (nat \<Rightarrow> bytes) \<Rightarrow> unit_test" where
  "live_client_can_register_free_domain ext k drawn = do {
     let time = mock_time (mock_new 0);
     let c = test_client k;
     let s = probe c time store_new;
     d \<leftarrow> unwrap (domain_new (lit ''example.binda''));
     check (is_ok (fst (register ext (drawn 0) d c time s)))
   }"

definition rotating_owner_keys_does_not_reset_a_verified_hosts_quota ::
  "externals \<Rightarrow> signing_key \<Rightarrow> signing_key \<Rightarrow> (nat \<Rightarrow> bytes) \<Rightarrow> unit_test" where
  "rotating_owner_keys_does_not_reset_a_verified_hosts_quota ext k k' drawn = do {
     let time = mock_time (mock_new 0);
     let first = test_client k;
     let replacement = test_client k';
     check (client_quota_key first = client_quota_key replacement);
     check (client_key first \<noteq> client_key replacement);
     let s = probe first time store_new;
     s \<leftarrow> register_each ext drawn ''first-'' first time [0..<max_registrations_per_client] s;
     let s = probe replacement time s;
     d \<leftarrow> unwrap (domain_new (lit ''sixth.binda''));
     check (fst (register ext (drawn 5) d replacement time s) = Inl RegistrationLimitReached)
   }"

text \<open>\<open>store.lookup(&DomainName::new(name).unwrap()).is_some()\<close>.\<close>

definition holds_name :: "registry_store \<Rightarrow> rstring \<Rightarrow> bool" where
  "holds_name s name = (case domain_new name of Inr d \<Rightarrow> lookup s d \<noteq> None | Inl _ \<Rightarrow> False)"

definition gossip_claims_converge_to_the_first_five_for_one_verified_host ::
  "externals \<Rightarrow> (nat \<Rightarrow> signing_key) \<Rightarrow> unit_test" where
  "gossip_claims_converge_to_the_first_five_for_one_verified_host ext key = do {
     let time = mock_time (mock_new 1000);
     s \<leftarrow> adopt_each ext key ''claim-'' of_nat time [0..<6] store_new;
     check (list_all (\<lambda>i. holds_name s (numbered_name ''claim-'' i)) [0..<5]);
     d \<leftarrow> unwrap (domain_new (numbered_name ''claim-'' 5));
     check (lookup s d = None)
   }"

definition over_capacity_claim_is_not_promoted_after_winners_expire ::
  "externals \<Rightarrow> (nat \<Rightarrow> signing_key) \<Rightarrow> unit_test" where
  "over_capacity_claim_is_not_promoted_after_winners_expire ext key = do {
     let clock = mock_new 0;
     s \<leftarrow> adopt_each ext key ''old-'' (\<lambda>_. 0) (mock_time clock) [0..<5] store_new;
     replacement \<leftarrow> unwrap (domain_new (lit ''replacement.binda''));
     let (adopted, s) = adopt_rumor ext (signed_rumor (key 5) replacement 1) (mock_time clock) s;
     check adopted;
     check (lookup s replacement = None);
     claims \<leftarrow> hm_get (quota_claims s) (lit ''shared.example.net'');
     check (\<not> hm_contains_key claims replacement);
     let clock = mock_advance (from_millis (unat liveness_window_millis + 2)) clock;
     let s = reclaim_stale ext (mock_time clock) s;
     check (lookup s replacement = None);
     d \<leftarrow> unwrap (domain_new (lit ''old-0.binda''));
     check (lookup s d = None)
   }"

definition stale_client_cannot_register :: "externals \<Rightarrow> signing_key \<Rightarrow> (nat \<Rightarrow> bytes) \<Rightarrow> unit_test" where
  "stale_client_cannot_register ext k drawn = do {
     let time = mock_time (mock_new 0);
     d \<leftarrow> unwrap (domain_new (lit ''example.binda''));
     check (fst (register ext (drawn 0) d (test_client k) time store_new) = Inl NotLive)
   }"

definition stale_owner_loses_domain_on_reclaim :: "externals \<Rightarrow> signing_key \<Rightarrow> (nat \<Rightarrow> bytes) \<Rightarrow> unit_test" where
  "stale_owner_loses_domain_on_reclaim ext k drawn = do {
     let clock = mock_new 0;
     let c = test_client k;
     let s = probe c (mock_time clock) store_new;
     d \<leftarrow> unwrap (domain_new (lit ''example.binda''));
     let (r, s) = register ext (drawn 0) d c (mock_time clock) s;
     unwrap r;
     let clock = mock_advance (from_millis (unat liveness_window_millis + 1)) clock;
     let s = reclaim_stale ext (mock_time clock) s;
     check (lookup s d = None)
   }"

definition client_can_reach_the_cap_again_after_going_stale_and_coming_back ::
  "externals \<Rightarrow> signing_key \<Rightarrow> (nat \<Rightarrow> bytes) \<Rightarrow> unit_test" where
  "client_can_reach_the_cap_again_after_going_stale_and_coming_back ext k drawn = do {
     let clock = mock_new 0;
     let c = test_client k;
     let s = probe c (mock_time clock) store_new;
     s \<leftarrow> register_each ext drawn ''d'' c (mock_time clock) [0..<max_registrations_per_client] s;
     let clock = mock_advance (from_millis (unat liveness_window_millis + 1)) clock;
     let s = reclaim_stale ext (mock_time clock) s;
     let s = probe c (mock_time clock) s;
     d \<leftarrow> unwrap (domain_new (lit ''fresh.binda''));
     check (is_ok (fst (register ext (drawn 5) d c (mock_time clock) s)))
   }"

definition store_set_records_fails_for_non_owner ::
  "externals \<Rightarrow> signing_key \<Rightarrow> signing_key \<Rightarrow> (nat \<Rightarrow> bytes) \<Rightarrow> unit_test" where
  "store_set_records_fails_for_non_owner ext k k' drawn = do {
     let time = mock_time (mock_new 0);
     let owner = test_client k;
     let stranger = test_client k';
     let s = probe owner time store_new;
     d \<leftarrow> unwrap (domain_new (lit ''example.binda''));
     let (r, s) = register ext (drawn 0) d owner time s;
     unwrap r;
     check (\<not> fst (set_records d stranger [] s))
   }"

definition set_records_fails_for_unregistered_domain :: "signing_key \<Rightarrow> unit_test" where
  "set_records_fails_for_unregistered_domain k = do {
     d \<leftarrow> unwrap (domain_new (lit ''example.binda''));
     check (\<not> fst (set_records d (test_client k) [] store_new))
   }"

definition set_records_succeeds_for_owner :: "externals \<Rightarrow> signing_key \<Rightarrow> (nat \<Rightarrow> bytes) \<Rightarrow> unit_test" where
  "set_records_succeeds_for_owner ext k drawn = do {
     let time = mock_time (mock_new 0);
     let c = test_client k;
     let s = probe c time store_new;
     d \<leftarrow> unwrap (domain_new (lit ''example.binda''));
     let (r, s) = register ext (drawn 0) d c time s;
     unwrap r;
     let records = [test_a_record (lit ''203.0.113.1'')];
     let (done, s) = set_records d c records s;
     check done;
     reg \<leftarrow> lookup s d;
     check (reg_records reg = records)
   }"

definition all_rumors_reflects_every_registration :: "externals \<Rightarrow> signing_key \<Rightarrow> (nat \<Rightarrow> bytes) \<Rightarrow> unit_test" where
  "all_rumors_reflects_every_registration ext k drawn = do {
     let time = mock_time (mock_new 0);
     let c = test_client k;
     let s = probe c time store_new;
     d1 \<leftarrow> unwrap (domain_new (lit ''one.binda''));
     d2 \<leftarrow> unwrap (domain_new (lit ''two.binda''));
     let (r, s) = register ext (drawn 0) d1 c time s;
     unwrap r;
     let (r, s) = register ext (drawn 1) d2 c time s;
     unwrap r;
     let domains = remdups (map fst (all_rumors s));
     check (length domains = 2);
     check (List.member domains d1);
     check (List.member domains d2)
   }"

definition registering_an_already_held_live_domain_is_refused ::
  "externals \<Rightarrow> signing_key \<Rightarrow> signing_key \<Rightarrow> (nat \<Rightarrow> bytes) \<Rightarrow> unit_test" where
  "registering_an_already_held_live_domain_is_refused ext k k' drawn = do {
     let time = mock_time (mock_new 0);
     let owner = test_client k;
     let other = test_client k';
     let s = probe other time (probe owner time store_new);
     d \<leftarrow> unwrap (domain_new (lit ''example.binda''));
     let (r, s) = register ext (drawn 0) d owner time s;
     unwrap r;
     check (fst (register ext (drawn 1) d other time s) = Inl RegistrationLimitReached)
   }"

definition a_sixth_distinct_domain_is_refused_while_still_live ::
  "externals \<Rightarrow> signing_key \<Rightarrow> (nat \<Rightarrow> bytes) \<Rightarrow> unit_test" where
  "a_sixth_distinct_domain_is_refused_while_still_live ext k drawn = do {
     let time = mock_time (mock_new 0);
     let c = test_client k;
     let s = probe c time store_new;
     s \<leftarrow> register_each ext drawn ''d'' c time [0..<max_registrations_per_client] s;
     d \<leftarrow> unwrap (domain_new (lit ''one-too-many.binda''));
     check (fst (register ext (drawn 5) d c time s) = Inl RegistrationLimitReached)
   }"

section \<open>The tests pass\<close>

text \<open>The fixed names of the tests.\<close>

lemma store_test_names [simp]:
  "domain_new (lit ''example.binda'') = Inr (DomainName (lit ''example.binda''))"
  "domain_new (lit ''sixth.binda'') = Inr (DomainName (lit ''sixth.binda''))"
  "domain_new (lit ''replacement.binda'') = Inr (DomainName (lit ''replacement.binda''))"
  "domain_new (lit ''old-0.binda'') = Inr (DomainName (lit ''old-0.binda''))"
  "domain_new (lit ''fresh.binda'') = Inr (DomainName (lit ''fresh.binda''))"
  "domain_new (lit ''one.binda'') = Inr (DomainName (lit ''one.binda''))"
  "domain_new (lit ''two.binda'') = Inr (DomainName (lit ''two.binda''))"
  "domain_new (lit ''one-too-many.binda'') = Inr (DomainName (lit ''one-too-many.binda''))"
  by (rule domain_new_lit; simp add: lit_def refused_char_def is_control_def)+

lemma numbered_prefixes [simp]:
  "domain_new (numbered_name ''first-'' i) = Inr (DomainName (numbered_name ''first-'' i))"
  "domain_new (numbered_name ''claim-'' i) = Inr (DomainName (numbered_name ''claim-'' i))"
  "domain_new (numbered_name ''old-'' i) = Inr (DomainName (numbered_name ''old-'' i))"
  "domain_new (numbered_name ''d'' i) = Inr (DomainName (numbered_name ''d'' i))"
  by (rule numbered_name_ok; simp add: lit_def plain_char_def refused_char_def is_control_def)+

lemma register_each_quiet:
  assumes "\<And>i. domain_new (numbered_name p i) = Inr (DomainName (numbered_name p i))"
  shows "quiet t s \<Longrightarrow> is_live (liveness s) c (frozen t) \<Longrightarrow> distinct js \<Longrightarrow>
    \<forall>i\<in>set js. hm_get (registrations s) (DomainName (numbered_name p i)) = None \<Longrightarrow>
    count_of (liveness s) (client_quota_key c) + length js \<le> 5 \<Longrightarrow>
    \<exists>s'. register_each ext drawn p c (frozen t) js s = Some s' \<and> quiet t s' \<and>
      is_live (liveness s') c (frozen t) \<and> (tracker_wf (liveness s) \<longrightarrow> tracker_wf (liveness s')) \<and>
      last_seen_millis (liveness s') = last_seen_millis (liveness s) \<and>
      count_of (liveness s') (client_quota_key c) = count_of (liveness s) (client_quota_key c) + length js \<and>
      (\<forall>d. hm_get (registrations s') d \<noteq> None \<longrightarrow>
        hm_get (registrations s) d \<noteq> None \<or> (\<exists>i. d = DomainName (numbered_name p i)))"
proof (induction js arbitrary: s)
  case Nil
  then show ?case by auto
next
  case (Cons i js)
  let ?s = "add_registration (DomainName (numbered_name p i)) c (token_issue (drawn i) t) s"
  have "register_each ext drawn p c (frozen t) (i # js) s = register_each ext drawn p c (frozen t) js ?s"
    using Cons.prems by (simp add: assms quiet_register registration_count_eq)
  moreover have "\<forall>j\<in>set js. hm_get (registrations ?s) (DomainName (numbered_name p j)) = None"
    using Cons.prems by auto
  moreover have "quiet t ?s" "is_live (liveness ?s) c (frozen t)" "distinct js"
    "count_of (liveness ?s) (client_quota_key c) + length js \<le> 5"
    using Cons.prems by simp_all
  moreover have "last_seen_millis (liveness ?s) = last_seen_millis (liveness s)"
    "tracker_wf (liveness s) \<Longrightarrow> tracker_wf (liveness ?s)"
    by (simp add: increment_registration_def) simp
  ultimately obtain s' where s': "register_each ext drawn p c (frozen t) (i # js) s = Some s'" "quiet t s'"
    "is_live (liveness s') c (frozen t)" "tracker_wf (liveness s) \<longrightarrow> tracker_wf (liveness s')"
    "last_seen_millis (liveness s') = last_seen_millis (liveness s)"
    "count_of (liveness s') (client_quota_key c) = count_of (liveness ?s) (client_quota_key c) + length js"
    and held: "\<And>d. hm_get (registrations s') d \<noteq> None \<Longrightarrow>
      hm_get (registrations ?s) d \<noteq> None \<or> (\<exists>i. d = DomainName (numbered_name p i))"
    using Cons.IH [of ?s] by fastforce
  have "hm_get (registrations s) d \<noteq> None \<or> (\<exists>i. d = DomainName (numbered_name p i))"
    if "hm_get (registrations s') d \<noteq> None" for d
    using held [OF that] by (auto split: if_splits)
  with s' show ?case by (intro exI [of _ s']) simp
qed

lemma five_registered:
  assumes "\<And>i. domain_new (numbered_name p i) = Inr (DomainName (numbered_name p i))"
  obtains s where
    "register_each ext drawn p (test_client k) (frozen 0) [0..<max_registrations_per_client]
      (probe (test_client k) (frozen 0) store_new) = Some s"
    "quiet 0 s" "is_live (liveness s) (test_client k) (frozen 0)" "tracker_wf (liveness s)"
    "last_seen_millis (liveness s) = [(lit ''host.example.net'', 0)]"
    "count_of (liveness s) (lit ''host.example.net'') = 5"
    "\<forall>d. hm_get (registrations s) d \<noteq> None \<longrightarrow> (\<exists>i. d = DomainName (numbered_name p i))"
proof -
  let ?c = "test_client k" and ?s = "probe (test_client k) (frozen 0) store_new"
  have "quiet 0 ?s" "is_live (liveness ?s) ?c (frozen 0)"
    by (rule probe_quiet, simp_all, simp add: is_live_iff)
  moreover have "tracker_wf (liveness ?s)" "count_of (liveness ?s) (client_quota_key ?c) = 0"
    by simp_all
  moreover have "last_seen_millis (liveness ?s) = [(lit ''host.example.net'', 0)]"
    by (simp add: record_probe_def tracker_new_def)
  moreover have "length [0..<max_registrations_per_client] = 5"
    by (simp add: max_registrations_per_client_def)
  ultimately show thesis
    using register_each_quiet [where p = p and t = 0 and s = ?s and c = ?c and js = "[0..<max_registrations_per_client]"
        and ext = ext and drawn = drawn, OF assms] that
    by fastforce
qed

text \<open>What is left when the one host has gone stale.\<close>

lemma stale_reclaim:
  assumes "quota_claims s = []" "last_seen_millis (liveness s) = [(q, 0)]" "60000 < unat t"
  shows "reclaim_stale ext (frozen t) s = drop_hosts [q] s"
  using assms
  by (simp add: reclaim_stale_eq hm_keys_def expired_clients_def liveness_window_millis_def saturating_sub_def
      word_less_nat_alt drop_hosts_def)

lemma first_seen:
  "last_seen_millis (increment_registration c lv) = last_seen_millis lv"
  "last_seen_millis (record_probe c time tracker_new) = [(client_quota_key c, now_millis time)]"
  by (simp_all add: increment_registration_def record_probe_def tracker_new_def)

text \<open>The registry after the probe that opens most tests.\<close>

lemma probed_registry:
  "quiet 0 (probe (test_client k) (frozen 0) store_new)"
  "is_live (record_probe (test_client k) (frozen t) lv) (test_client k') (frozen t)"
  by (rule probe_quiet; simp) (simp add: is_live_iff)

lemmas test_defs = quiet_register probed_registry registration_count_eq lookup_def

lemma live_client_passes: "passes (live_client_can_register_free_domain ext k drawn)"
  by (simp add: live_client_can_register_free_domain_def test_defs)

lemma stale_client_passes: "passes (stale_client_cannot_register ext k drawn)"
  by (simp add: stale_client_cannot_register_def register_def is_live_iff)

lemma set_records_tests_pass:
  "public_key k \<noteq> public_key k' \<Longrightarrow> passes (store_set_records_fails_for_non_owner ext k k' drawn)"
  "passes (set_records_fails_for_unregistered_domain k)"
  "passes (set_records_succeeds_for_owner ext k drawn)"
  by (simp_all add: store_set_records_fails_for_non_owner_def set_records_fails_for_unregistered_domain_def
      set_records_succeeds_for_owner_def test_defs set_records_def)

lemma all_rumors_passes: "passes (all_rumors_reflects_every_registration ext k drawn)"
  by (simp add: all_rumors_reflects_every_registration_def test_defs all_rumors_def hm_insert_def)

lemma stale_owner_passes: "passes (stale_owner_loses_domain_on_reclaim ext k drawn)"
  by (simp add: stale_owner_loses_domain_on_reclaim_def test_defs Let_def stale_reclaim first_seen drop_hosts_def hm_retain_def)

lemma rotating_passes:
  assumes "public_key k \<noteq> public_key k'"
  shows "passes (rotating_owner_keys_does_not_reset_a_verified_hosts_quota ext k k' drawn)"
proof -
  obtain s where s: "register_each ext drawn ''first-'' (test_client k) (frozen 0) [0..<max_registrations_per_client]
      (probe (test_client k) (frozen 0) store_new) = Some s"
    "quiet 0 s" "tracker_wf (liveness s)" "count_of (liveness s) (lit ''host.example.net'') = 5"
    by (rule five_registered [OF numbered_prefixes(1)])
  have "quiet 0 (probe (test_client k') (frozen 0) s)" by (rule probe_quiet [OF s(3,2)])
  with s assms show ?thesis
    by (simp add: rotating_owner_keys_does_not_reset_a_verified_hosts_quota_def test_defs Let_def)
qed

lemma sixth_passes: "passes (a_sixth_distinct_domain_is_refused_while_still_live ext k drawn)"
proof -
  obtain s where "register_each ext drawn ''d'' (test_client k) (frozen 0) [0..<max_registrations_per_client]
      (probe (test_client k) (frozen 0) store_new) = Some s"
    "quiet 0 s" "is_live (liveness s) (test_client k) (frozen 0)" "count_of (liveness s) (lit ''host.example.net'') = 5"
    by (rule five_registered [OF numbered_prefixes(4)])
  then show ?thesis
    by (simp add: a_sixth_distinct_domain_is_refused_while_still_live_def test_defs Let_def)
qed

lemma cap_again_passes:
  "passes (client_can_reach_the_cap_again_after_going_stale_and_coming_back ext k drawn)"
proof -
  let ?c = "test_client k" and ?d = "DomainName (lit ''fresh.binda'')"
  obtain s where s: "register_each ext drawn ''d'' ?c (frozen 0) [0..<max_registrations_per_client]
      (probe ?c (frozen 0) store_new) = Some s"
    "quiet 0 s" "tracker_wf (liveness s)" "last_seen_millis (liveness s) = [(lit ''host.example.net'', 0)]"
    and names: "\<forall>d. hm_get (registrations s) d \<noteq> None \<longrightarrow> (\<exists>i. d = DomainName (numbered_name ''d'' i))"
    by (rule five_registered [OF numbered_prefixes(4)])
  let ?s = "drop_hosts [lit ''host.example.net''] s"
  have reclaim: "reclaim_stale ext (frozen 60001) s = ?s"
    using s(2,4) by (intro stale_reclaim) (simp_all add: quiet_def)
  have "?d \<noteq> DomainName (numbered_name ''d'' i)" for i
    by (simp add: numbered_name_def lit_def)
  with names have "hm_get (registrations s) ?d = None" by blast
  then have free: "hm_get (registrations ?s) ?d = None"
    by (auto simp: drop_hosts_def hm_get_def hm_retain_def map_of_eq_None_iff)
  have lv: "liveness ?s = forget_client_by_key (lit ''host.example.net'') (liveness s)"
    by (simp add: drop_hosts_def)
  have tracker: "last_seen_millis (liveness ?s) = []" "count_of (liveness ?s) (lit ''host.example.net'') = 0"
    "quota_claims ?s = []" "tracker_wf (liveness ?s)"
    using s(2-4) unfolding lv by (simp_all, simp_all add: forget_client_by_key_def hm_remove_def quiet_def drop_hosts_def)
  then have "quiet 60001 ?s" by (simp add: quiet_def expired_clients_def)
  then have "quiet 60001 (probe ?c (frozen 60001) ?s)" by (rule probe_quiet [OF tracker(4)])
  with s(1) reclaim free tracker show ?thesis
    by (simp add: client_can_reach_the_cap_again_after_going_stale_and_coming_back_def test_defs Let_def probe_live)
qed

lemma already_held_passes:
  "passes (registering_an_already_held_live_domain_is_refused ext k k' drawn)"
proof -
  have "quiet 0 (probe (test_client k') (frozen 0) (probe (test_client k) (frozen 0) store_new))"
    by (rule probe_quiet) (simp_all add: probed_registry)
  then show ?thesis
    by (simp add: registering_an_already_held_live_domain_is_refused_def test_defs Let_def)
qed

section \<open>The tests of adoption\<close>

lemma shared_host [simp]: "quota_key (lit ''shared.example.net'') = lit ''shared.example.net''"
  by (simp add: quota_key_def lit_def trim_def trim_end_matches_def to_ascii_lowercase_def ascii_lower_def is_whitespace_def)

lemma signed_rumor_sel [simp]:
  "rumor_domain (signed_rumor k d ts) = d" "rumor_rdns (signed_rumor k d ts) = lit ''shared.example.net''"
  "probe_timestamp_millis (signed_rumor k d ts) = ts"
  "rumor_token (signed_rumor k d ts) = \<lparr>issued_at_millis = ts, nonce = replicate 8 (ucast ts)\<rparr>"
  by (simp_all add: signed_rumor_def Let_def)

lemma signed_rumor_live:
  assumes "honest ext k"
  shows "live_at ext t (signed_rumor k d ts) \<longleftrightarrow> unat t \<le> unat ts + 60000"
proof -
  have "is_authorized ext (signed_rumor k d ts)"
    using honestD [OF assms] by (simp add: is_authorized_iff records_evidence_def) (simp add: signed_rumor_def Let_def)
  then show ?thesis
    by (auto simp: live_at_def lease_is_live_def liveness_window_millis_def word_le_nat_alt)
qed

definition numbered_rumors ::
  "(nat \<Rightarrow> signing_key) \<Rightarrow> string \<Rightarrow> (nat \<Rightarrow> u64) \<Rightarrow> nat list \<Rightarrow> registration_rumor list" where
  "numbered_rumors key p stamp js = map (\<lambda>i. signed_rumor (key i) (DomainName (numbered_name p i)) (stamp i)) js"

lemma adopt_each_all:
  assumes "\<And>i. domain_new (numbered_name p i) = Inr (DomainName (numbered_name p i))" "\<And>i. honest ext (key i)"
    and "\<And>i. i \<in> set js \<Longrightarrow> unat t \<le> unat (stamp i) + 60000"
  shows "adopt_each ext key p stamp (frozen t) js s = Some (adopt_all ext t (numbered_rumors key p stamp js) s)"
  using assms(3)
proof (induction js arbitrary: s)
  case (Cons i js)
  then have "live_at ext t (signed_rumor (key i) (DomainName (numbered_name p i)) (stamp i))"
    by (simp add: signed_rumor_live assms(2))
  with Cons show ?case
    by (simp add: assms(1) numbered_rumors_def adopt_all_Cons adopt_live check_def)
qed (simp add: numbered_rumors_def adopt_all_def)

text \<open>Leases of one host that a new registry adopts in their order: the first five stay.\<close>

lemma adopted_in_order:
  assumes live: "\<And>r. r \<in> set rs \<Longrightarrow> live_at ext t r \<and> quota_key (rumor_rdns r) = q"
    and distinct: "distinct (map rumor_domain rs)" and sorted: "sorted (map claim_order rs)" and "rs \<noteq> []"
  defines "s \<equiv> adopt_all ext t rs store_new"
  shows "hm_get (claims_of s q) d = Some r \<longleftrightarrow> r \<in> set (take 5 rs) \<and> rumor_domain r = d"
    and "hm_get (registrations s) d = map_option (\<lambda>r. registration_from_rumor r q) (hm_get (claims_of s q) d)"
proof -
  have batch: "fresh_batch ext t q store_new rs"
    using live distinct by (simp add: fresh_batch_def list_all_iff)
  have "canon (claims_of s q) = take 5 (sort_key claim_order (rs @ live_canon ext t q store_new))"
    unfolding s_def by (rule adopt_all_canon [OF store_new_inv batch \<open>rs \<noteq> []\<close>])
  then have "canon (claims_of s q) = take 5 rs"
    using sorted by (simp add: live_canon_def canon_def hm_values_def sort_key_id_if_sorted)
  then show "hm_get (claims_of s q) d = Some r \<longleftrightarrow> r \<in> set (take 5 rs) \<and> rumor_domain r = d"
    using claims_get_iff [OF claims_of_ok [OF adopt_all_inv [OF store_new_inv]]] by (auto simp: s_def)
  have "uncontested q store_new rs" by (simp add: uncontested_def list_all_iff other_regs_def hm_retain_def)
  from adopt_all_get [OF store_new_inv batch this \<open>rs \<noteq> []\<close>]
  show "hm_get (registrations s) d = map_option (\<lambda>r. registration_from_rumor r q) (hm_get (claims_of s q) d)"
    by (simp add: s_def other_regs_def hm_retain_def split: option.split)
qed

lemma adopt_all_other_host:
  assumes "\<And>r. r \<in> set rs \<Longrightarrow> live_at ext t r \<and> quota_key (rumor_rdns r) \<noteq> q"
  shows "claims_of (adopt_all ext t rs s) q = claims_of s q"
  using assms
proof (induction rs arbitrary: s)
  case (Cons r rs)
  have "claims_of (reconcile_quota ext p time s) q = claims_of s q" if "p \<noteq> q" for p time s
    using that by (simp add: claims_of_def reconcile_quota_def Let_def split: option.split)
  moreover have "claims_of (insert_claim p r s) q = claims_of s q" if "p \<noteq> q" for p
    using that by (simp add: claims_of_def insert_claim_def Let_def)
  ultimately have "claims_of (snd (adopt_rumor ext r (frozen t) s)) q = claims_of s q"
    using Cons.prems [of r] by (simp add: adopt_live)
  with Cons show ?case by (simp add: adopt_all_Cons)
qed (simp add: adopt_all_def)

lemma claim_order_signed:
  "claim_order (signed_rumor k d ts) \<le> claim_order (signed_rumor k' d' ts') \<longleftrightarrow>
    ts < ts' \<or> ts = ts' \<and> d \<le> d'"
proof -
  have "raw_ordering_key (rumor_token (signed_rumor k d ts)) < raw_ordering_key (rumor_token (signed_rumor k' d' ts')) \<longleftrightarrow> ts < ts'"
    by (auto simp: raw_ordering_key_less)
  then show ?thesis by (auto simp: claim_order_def le_less)
qed

lemma old_names_sorted: "sorted (map (numbered_name ''old-'') [0..<5])"
  by (simp add: upt_rec numbered_name_def lit_def show_nat.simps)

lemma gossip_claims_passes:
  assumes "\<And>i. honest ext (key i)"
  shows "passes (gossip_claims_converge_to_the_first_five_for_one_verified_host ext key)"
proof -
  let ?rs = "numbered_rumors key ''claim-'' of_nat [0..<6]"
  define s where "s = adopt_all ext 1000 ?rs store_new"
  have adopt: "adopt_each ext key ''claim-'' of_nat (frozen 1000) [0..<6] store_new = Some s"
    unfolding s_def by (rule adopt_each_all [OF numbered_prefixes(2) assms]) simp
  have live: "live_at ext 1000 r \<and> quota_key (rumor_rdns r) = lit ''shared.example.net''" if "r \<in> set ?rs" for r
    using that assms by (auto simp: numbered_rumors_def signed_rumor_live)
  have "distinct (map rumor_domain ?rs)"
    by (simp add: numbered_rumors_def upt_rec)
  moreover have "sorted (map claim_order ?rs)"
    by (simp add: numbered_rumors_def upt_rec claim_order_signed)
  moreover have "?rs \<noteq> []" by (simp add: numbered_rumors_def)
  ultimately have get: "lookup s (DomainName (numbered_name ''claim-'' i)) \<noteq> None \<longleftrightarrow>
      (\<exists>r \<in> set (take 5 ?rs). rumor_domain r = DomainName (numbered_name ''claim-'' i))" for i
    using adopted_in_order [of ?rs ext 1000 "lit ''shared.example.net''" "DomainName (numbered_name ''claim-'' i)"] live
    by (auto simp: lookup_def s_def)
  have "take 5 ?rs = numbered_rumors key ''claim-'' of_nat [0..<5]"
    by (simp add: numbered_rumors_def take_map)
  then have "(\<exists>r \<in> set (take 5 ?rs). rumor_domain r = DomainName (numbered_name ''claim-'' i)) \<longleftrightarrow> i < 5" for i
    by (auto simp: numbered_rumors_def)
  with get have "lookup s (DomainName (numbered_name ''claim-'' i)) = None \<longleftrightarrow> \<not> i < 5" for i
    by metis
  then show ?thesis
    by (simp add: gossip_claims_converge_to_the_first_five_for_one_verified_host_def adopt holds_name_def list_all_iff del: not_None_eq)
qed

lemma over_capacity_passes:
  assumes "\<And>i. honest ext (key i)"
  shows "passes (over_capacity_claim_is_not_promoted_after_winners_expire ext key)"
proof -
  let ?q = "lit ''shared.example.net''" and ?d = "DomainName (lit ''replacement.binda'')"
  let ?new = "signed_rumor (key 5) ?d 1" and ?old = "numbered_rumors key ''old-'' (\<lambda>_. 0) [0..<5]"
  define s where "s = adopt_all ext 0 (?old @ [?new]) store_new"
  have old: "adopt_each ext key ''old-'' (\<lambda>_. 0) (frozen 0) [0..<5] store_new = Some (adopt_all ext 0 ?old store_new)"
    by (rule adopt_each_all [OF numbered_prefixes(3) assms]) simp
  have new: "adopt_rumor ext ?new (frozen 0) (adopt_all ext 0 ?old store_new) = (True, s)"
    by (simp add: s_def adopt_all_def adopt_live signed_rumor_live assms)
  have live: "live_at ext 0 r \<and> quota_key (rumor_rdns r) = ?q" if "r \<in> set (?old @ [?new])" for r
    using that assms by (auto simp: numbered_rumors_def signed_rumor_live)
  have differ: "?d \<noteq> DomainName (numbered_name ''old-'' i)" "DomainName (numbered_name ''old-'' i) \<noteq> ?d" for i
    by (simp_all add: numbered_name_def lit_def)
  then have "distinct (map rumor_domain (?old @ [?new]))"
    by (simp add: numbered_rumors_def upt_rec)
  moreover have "sorted (map claim_order (?old @ [?new]))"
    using old_names_sorted by (simp add: numbered_rumors_def upt_rec claim_order_signed less_eq_domain_name_def)
  ultimately have get: "hm_get (claims_of s ?q) d = Some r \<longleftrightarrow> r \<in> set ?old \<and> rumor_domain r = d"
    and regs: "hm_get (registrations s) d = map_option (\<lambda>r. registration_from_rumor r ?q) (hm_get (claims_of s ?q) d)" for d r
    using adopted_in_order [of "?old @ [?new]" ext 0 ?q d] live by (simp_all add: s_def) (simp add: numbered_rumors_def)
  have none: "hm_get (claims_of s ?q) ?d = None"
  proof (cases "hm_get (claims_of s ?q) ?d")
    case (Some r)
    then have "r \<in> set ?old" "rumor_domain r = ?d" by (simp_all only: get)
    with differ show ?thesis by (auto simp: numbered_rumors_def)
  qed
  have one: "hm_get (claims_of s ?q) (DomainName (numbered_name ''old-'' 0)) \<noteq> None"
    using get [of "DomainName (numbered_name ''old-'' 0)" "signed_rumor (key 0) (DomainName (numbered_name ''old-'' 0)) 0"]
    by (simp add: numbered_rumors_def)
  then obtain claims where claims: "hm_get (quota_claims s) ?q = Some claims" "claims_of s ?q = claims"
    by (cases "hm_get (quota_claims s) ?q") (auto simp: claims_of_def)
  have inv: "store_inv s" unfolding s_def by (rule adopt_all_inv [OF store_new_inv])
  have gone: "hm_get (registrations (reclaim_stale ext (frozen 60002) s)) d = None" for d
  proof (rule reclaim_releases [OF inv])
    show "q \<in> spec_dead 60002 (abs_store s)" if "d \<in> local_names s q" for q
      using that by (auto simp: local_names_def regs registration_from_rumor_def)
    show "\<not> live_at ext 60002 c" if c: "hm_get (claims_of s q) d = Some c" for q c
    proof (cases "q = ?q")
      case True
      with c get have "c \<in> set ?old" by blast
      then show ?thesis by (auto simp: numbered_rumors_def signed_rumor_live assms)
    next
      case False
      with live have "claims_of s q = []"
        unfolding s_def by (subst adopt_all_other_host) auto
      with c show ?thesis by simp
    qed
  qed
  show ?thesis
    using none gone claims
    by (simp add: over_capacity_claim_is_not_promoted_after_winners_expire_def old new lookup_def regs hm_contains_key_def)
qed

section \<open>The suite\<close>

text \<open>\<open>key\<close> and \<open>drawn\<close> are what a test draws: its keys in order, and the nonces of its registrations.\<close>

definition store_tests :: "externals \<Rightarrow> (nat \<Rightarrow> signing_key) \<Rightarrow> (nat \<Rightarrow> bytes) \<Rightarrow> unit_test list" where
  "store_tests ext key drawn =
    [live_client_can_register_free_domain ext (key 0) drawn,
     rotating_owner_keys_does_not_reset_a_verified_hosts_quota ext (key 0) (key 1) drawn,
     gossip_claims_converge_to_the_first_five_for_one_verified_host ext key,
     over_capacity_claim_is_not_promoted_after_winners_expire ext key,
     stale_client_cannot_register ext (key 0) drawn,
     stale_owner_loses_domain_on_reclaim ext (key 0) drawn,
     client_can_reach_the_cap_again_after_going_stale_and_coming_back ext (key 0) drawn,
     store_set_records_fails_for_non_owner ext (key 0) (key 1) drawn,
     set_records_fails_for_unregistered_domain (key 0),
     set_records_succeeds_for_owner ext (key 0) drawn,
     all_rumors_reflects_every_registration ext (key 0) drawn,
     registering_an_already_held_live_domain_is_refused ext (key 0) (key 1) drawn,
     a_sixth_distinct_domain_is_refused_while_still_live ext (key 0) drawn]"

lemma store_suite:
  assumes "\<And>i. honest ext (key i)" "public_key (key 0) \<noteq> public_key (key 1)"
  shows "list_all passes (store_tests ext key drawn)"
  using assms
  by (simp add: store_tests_def live_client_passes rotating_passes gossip_claims_passes over_capacity_passes
      stale_client_passes stale_owner_passes cap_again_passes set_records_tests_pass all_rumors_passes
      already_held_passes sixth_passes)

end
