(* ===== verification/Request_Tests.thy ===== *)
theory Request_Tests
  imports Test_Kit
begin

text \<open>
  The unit tests of \<open>client.rs\<close>, \<open>client_api.rs\<close> and \<open>api.rs\<close> of \<open>binda-core\<close>, for every key they
  generate. A test that expects a signature to be refused passes when the scheme refuses it for the
  message of the test (\<open>refuses\<close>).
\<close>

section \<open>Client identities\<close>

definition verifies_valid_signature :: "externals \<Rightarrow> signing_key \<Rightarrow> unit_test" where
  "verifies_valid_signature ext k = do {
     let identity = client_new (public_key k) (lit ''host.example.net'');
     let msg = utf8 (lit ''register: example.binda'');
     let sg = sign_with k msg;
     check (is_ok (client_verify ext identity msg sg))
   }"

definition rejects_tampered_message :: "externals \<Rightarrow> signing_key \<Rightarrow> unit_test" where
  "rejects_tampered_message ext k = do {
     let identity = client_new (public_key k) (lit ''host.example.net'');
     let sg = sign_with k (utf8 (lit ''register: example.binda''));
     check (client_verify ext identity (utf8 (lit ''register: evil.binda'')) sg = Inl InvalidSignature)
   }"

definition quota_key_is_host_scoped_and_canonical :: "signing_key \<Rightarrow> signing_key \<Rightarrow> unit_test" where
  "quota_key_is_host_scoped_and_canonical k k' = do {
     let a = client_new (public_key k) (lit ''Host.Example.Net.'');
     let b = client_new (public_key k') (lit ''host.example.net'');
     check (client_quota_key a = client_quota_key b);
     check (client_key a \<noteq> client_key b)
   }"

section \<open>Authentication\<close>

text \<open>The envelope most tests of \<open>client_api.rs\<close> build.\<close>

definition probe_envelope :: "bytes \<Rightarrow> bytes \<Rightarrow> probe_body signed_envelope" where
  "probe_envelope key signature =
    \<lparr>env_verifying_key = key, env_rdns = lit ''host.example.net'', env_timestamp_millis = 1000,
     env_signature = signature, env_body = ProbeBody\<rparr>"

definition authenticates_valid_probe :: "externals \<Rightarrow> signing_key \<Rightarrow> unit_test" where
  "authenticates_valid_probe ext k = do {
     let msg = probe_message 1000;
     let envelope = probe_envelope (public_key k) (sign_with k msg);
     check (is_ok (authenticate ext envelope msg 1000))
   }"

definition rejects_stale_timestamp :: "externals \<Rightarrow> signing_key \<Rightarrow> unit_test" where
  "rejects_stale_timestamp ext k = do {
     let msg = probe_message 1000;
     let envelope = probe_envelope (public_key k) (sign_with k msg);
     let far_future = 1000 + request_freshness_window_millis + 1;
     check (authenticate ext envelope msg far_future = Inl Stale)
   }"

definition rejects_wrong_signature :: "externals \<Rightarrow> signing_key \<Rightarrow> signing_key \<Rightarrow> unit_test" where
  "rejects_wrong_signature ext k k' = do {
     let msg = probe_message 1000;
     let envelope = probe_envelope (public_key k) (sign_with k' msg);
     check (case authenticate ext envelope msg 1000 of Inl (Signature _) \<Rightarrow> True | _ \<Rightarrow> False)
   }"

definition rejects_malformed_key_length :: "externals \<Rightarrow> unit_test" where
  "rejects_malformed_key_length ext = do {
     let msg = probe_message 1000;
     let envelope = probe_envelope [1, 2, 3] (replicate 64 0);
     check (authenticate ext envelope msg 1000 = Inl MalformedKey)
   }"

definition rejects_malformed_signature_length :: "externals \<Rightarrow> signing_key \<Rightarrow> unit_test" where
  "rejects_malformed_signature_length ext k = do {
     let msg = probe_message 1000;
     let envelope = probe_envelope (public_key k) [1, 2, 3];
     check (authenticate ext envelope msg 1000 = Inl MalformedSignature)
   }"

definition is_fresh_boundary_conditions :: unit_test where
  "is_fresh_boundary_conditions = do {
     check (is_fresh 1000 1000);
     check (is_fresh 1000 (1000 + request_freshness_window_millis));
     check (\<not> is_fresh 1000 (1000 + request_freshness_window_millis + 1));
     check (is_fresh (1000 + request_freshness_window_millis) 1000);
     check (\<not> is_fresh (1000 + request_freshness_window_millis + 1) 1000)
   }"

definition set_records_message_includes_records_json :: "externals \<Rightarrow> unit_test" where
  "set_records_message_includes_records_json ext = do {
     d \<leftarrow> unwrap (domain_new (lit ''example.binda''));
     let msg = set_records_message ext d [test_a_record (lit ''203.0.113.1'')] 1000;
     msg_str \<leftarrow> from_utf8 msg;
     check (str_contains msg_str (lit ''203.0.113.1''));
     check (str_starts_with msg_str (lit ''binda-set-records:example.binda:1000:''))
   }"

definition different_messages_produce_different_canonical_bytes :: unit_test where
  "different_messages_produce_different_canonical_bytes = do {
     domain_a \<leftarrow> unwrap (domain_new (lit ''a.binda''));
     domain_b \<leftarrow> unwrap (domain_new (lit ''b.binda''));
     check (register_message domain_a 1000 \<noteq> register_message domain_b 1000);
     check (probe_message 1000 \<noteq> probe_message 2000)
   }"

section \<open>Handlers\<close>

definition envelope_register :: "signing_key \<Rightarrow> domain_name \<Rightarrow> u64 \<Rightarrow> client_request" where
  "envelope_register k d timestamp =
    (let message = register_message d timestamp; signature = sign_with k message
     in Register \<lparr>env_verifying_key = public_key k, env_rdns = lit ''host.example.net'',
          env_timestamp_millis = timestamp, env_signature = signature, env_body = \<lparr>register_domain = d\<rparr>\<rparr>)"

definition test_probe :: "signing_key \<Rightarrow> u64 \<Rightarrow> client_request" where
  "test_probe k timestamp =
    (let msg = probe_message timestamp; sg = sign_with k msg
     in Probe \<lparr>env_verifying_key = public_key k, env_rdns = lit ''host.example.net'',
          env_timestamp_millis = timestamp, env_signature = sg, env_body = ProbeBody\<rparr>)"

definition envelope_set_records ::
  "externals \<Rightarrow> signing_key \<Rightarrow> domain_name \<Rightarrow> zone_record list \<Rightarrow> u64 \<Rightarrow> client_request" where
  "envelope_set_records ext k d recs timestamp =
    (let message = set_records_message ext d recs timestamp; signature = sign_with k message
     in SetRecords \<lparr>env_verifying_key = public_key k, env_rdns = lit ''host.example.net'',
          env_timestamp_millis = timestamp, env_signature = signature,
          env_body = \<lparr>records_domain = d, records_records = recs\<rparr>\<rparr>)"

text \<open>\<open>envelope.signature = vec![0u8; 64]\<close> on the request's envelope.\<close>

fun with_zero_signature :: "client_request \<Rightarrow> client_request" where
  "with_zero_signature (Probe e) = Probe (e\<lparr>env_signature := replicate 64 0\<rparr>)"
| "with_zero_signature (Register e) = Register (e\<lparr>env_signature := replicate 64 0\<rparr>)"
| "with_zero_signature (SetRecords e) = SetRecords (e\<lparr>env_signature := replicate 64 0\<rparr>)"

fun is_error :: "client_response \<Rightarrow> bool" where
  "is_error (ErrorResponse _) = True"
| "is_error _ = False"

fun is_registered :: "client_response \<Rightarrow> bool" where
  "is_registered (Registered _) = True"
| "is_registered _ = False"

text \<open>One call of the handler, at the clock of the tests; a panic of the handler is the test's.\<close>

definition handled ::
  "externals \<Rightarrow> bytes \<Rightarrow> client_request \<Rightarrow> bool \<Rightarrow> registry_store \<Rightarrow> (client_response \<times> registry_store) option" where
  "handled ext drawn request verified s =
    (case handle_client_request ext drawn s (mock_time (mock_new 1000)) request verified of
      (None, s) \<Rightarrow> None
    | (Some response, s) \<Rightarrow> Some (response, s))"

definition probe_then_register_succeeds_end_to_end :: "externals \<Rightarrow> signing_key \<Rightarrow> bytes \<Rightarrow> unit_test" where
  "probe_then_register_succeeds_end_to_end ext k drawn = do {
     (response, s) \<leftarrow> handled ext drawn (test_probe k 1000) True store_new;
     check (response = ProbeAck);
     d \<leftarrow> unwrap (domain_new (lit ''example.binda''));
     (response, s) \<leftarrow> handled ext drawn (envelope_register k d 1000) True s;
     check (is_registered response)
   }"

definition register_without_prior_probe_is_refused :: "externals \<Rightarrow> signing_key \<Rightarrow> bytes \<Rightarrow> unit_test" where
  "register_without_prior_probe_is_refused ext k drawn = do {
     d \<leftarrow> unwrap (domain_new (lit ''example.binda''));
     (response, s) \<leftarrow> handled ext drawn (envelope_register k d 1000) True store_new;
     check (is_error response)
   }"

definition register_with_bad_signature_is_refused :: "externals \<Rightarrow> signing_key \<Rightarrow> bytes \<Rightarrow> unit_test" where
  "register_with_bad_signature_is_refused ext k drawn = do {
     (_, s) \<leftarrow> handled ext drawn (test_probe k 1000) True store_new;
     d \<leftarrow> unwrap (domain_new (lit ''example.binda''));
     let req = with_zero_signature (envelope_register k d 1000);
     (response, s) \<leftarrow> handled ext drawn req True s;
     check (is_error response)
   }"

definition register_without_rdns_verification_is_refused_even_if_otherwise_valid ::
  "externals \<Rightarrow> signing_key \<Rightarrow> bytes \<Rightarrow> unit_test" where
  "register_without_rdns_verification_is_refused_even_if_otherwise_valid ext k drawn = do {
     (_, s) \<leftarrow> handled ext drawn (test_probe k 1000) True store_new;
     d \<leftarrow> unwrap (domain_new (lit ''example.binda''));
     (response, s) \<leftarrow> handled ext drawn (envelope_register k d 1000) False s;
     check (is_error response)
   }"

definition probe_with_bad_signature_is_refused :: "externals \<Rightarrow> signing_key \<Rightarrow> bytes \<Rightarrow> unit_test" where
  "probe_with_bad_signature_is_refused ext k drawn = do {
     let req = with_zero_signature (test_probe k 1000);
     (response, s) \<leftarrow> handled ext drawn req True store_new;
     check (is_error response)
   }"

definition registering_an_already_taken_domain_is_refused ::
  "externals \<Rightarrow> signing_key \<Rightarrow> signing_key \<Rightarrow> bytes \<Rightarrow> bytes \<Rightarrow> unit_test" where
  "registering_an_already_taken_domain_is_refused ext owner other drawn drawn' = do {
     (_, s) \<leftarrow> handled ext drawn (test_probe owner 1000) True store_new;
     (_, s) \<leftarrow> handled ext drawn (test_probe other 1000) True s;
     d \<leftarrow> unwrap (domain_new (lit ''example.binda''));
     (_, s) \<leftarrow> handled ext drawn (envelope_register owner d 1000) True s;
     (response, s) \<leftarrow> handled ext drawn' (envelope_register other d 1000) True s;
     check (is_error response)
   }"

definition set_records_succeeds_for_domain_owner :: "externals \<Rightarrow> signing_key \<Rightarrow> bytes \<Rightarrow> unit_test" where
  "set_records_succeeds_for_domain_owner ext k drawn = do {
     (_, s) \<leftarrow> handled ext drawn (test_probe k 1000) True store_new;
     d \<leftarrow> unwrap (domain_new (lit ''example.binda''));
     (_, s) \<leftarrow> handled ext drawn (envelope_register k d 1000) True s;
     let records = [test_a_record (lit ''203.0.113.1'')];
     (response, s) \<leftarrow> handled ext drawn (envelope_set_records ext k d records 1000) True s;
     check (response = RecordsSet)
   }"

definition set_records_fails_for_non_owner :: "externals \<Rightarrow> signing_key \<Rightarrow> signing_key \<Rightarrow> bytes \<Rightarrow> unit_test" where
  "set_records_fails_for_non_owner ext owner stranger drawn = do {
     (_, s) \<leftarrow> handled ext drawn (test_probe owner 1000) True store_new;
     d \<leftarrow> unwrap (domain_new (lit ''example.binda''));
     (_, s) \<leftarrow> handled ext drawn (envelope_register owner d 1000) True s;
     (response, s) \<leftarrow> handled ext drawn (envelope_set_records ext stranger d [] 1000) True s;
     check (is_error response)
   }"

definition set_records_with_bad_signature_is_refused :: "externals \<Rightarrow> signing_key \<Rightarrow> bytes \<Rightarrow> unit_test" where
  "set_records_with_bad_signature_is_refused ext k drawn = do {
     d \<leftarrow> unwrap (domain_new (lit ''example.binda''));
     let req = with_zero_signature (envelope_set_records ext k d [] 1000);
     (response, s) \<leftarrow> handled ext drawn req True store_new;
     check (is_error response)
   }"

section \<open>The tests of client identities and authentication pass\<close>

text \<open>The key does not accept the signature for the message.\<close>

definition refuses :: "externals \<Rightarrow> signing_key \<Rightarrow> bytes \<Rightarrow> bytes \<Rightarrow> bool" where
  "refuses ext k message signature \<longleftrightarrow> \<not> sig_verifies ext (public_key k) message signature"

lemma request_test_names [simp]:
  "domain_new (lit ''example.binda'') = Inr (DomainName (lit ''example.binda''))"
  "domain_new (lit ''a.binda'') = Inr (DomainName (lit ''a.binda''))"
  "domain_new (lit ''b.binda'') = Inr (DomainName (lit ''b.binda''))"
  by (rule domain_new_lit; simp add: lit_def refused_char_def is_control_def)+

lemma client_tests_pass:
  "honest ext k \<Longrightarrow> passes (verifies_valid_signature ext k)"
  "refuses ext k (utf8 (lit ''register: evil.binda'')) (sign_with k (utf8 (lit ''register: example.binda''))) \<Longrightarrow>
    passes (rejects_tampered_message ext k)"
  "public_key k \<noteq> public_key k' \<Longrightarrow> passes (quota_key_is_host_scoped_and_canonical k k')"
  by (simp_all add: verifies_valid_signature_def rejects_tampered_message_def client_verify_def client_new_def honestD
      refuses_def quota_key_is_host_scoped_and_canonical_def client_key_inj client_quota_key_def trim_def
      trim_end_matches_def to_ascii_lowercase_def ascii_lower_def is_whitespace_def lit_def)

lemma authenticate_tests_pass:
  "honest ext k \<Longrightarrow> passes (authenticates_valid_probe ext k)"
  "passes (rejects_stale_timestamp ext k)"
  "honest ext k \<Longrightarrow> honest ext k' \<Longrightarrow> refuses ext k (probe_message 1000) (sign_with k' (probe_message 1000)) \<Longrightarrow>
    passes (rejects_wrong_signature ext k k')"
  "passes (rejects_malformed_key_length ext)"
  "honest ext k \<Longrightarrow> \<not> sig_parses ext [1, 2, 3] \<Longrightarrow> passes (rejects_malformed_signature_length ext k)"
  "passes is_fresh_boundary_conditions"
  by (simp_all add: authenticates_valid_probe_def rejects_stale_timestamp_def rejects_wrong_signature_def
      rejects_malformed_key_length_def rejects_malformed_signature_length_def is_fresh_boundary_conditions_def
      probe_envelope_def authenticate_def client_verify_def client_new_def honestD refuses_def Let_def is_fresh_iff
      request_freshness_window_millis_def)

lemma different_messages_passes: "passes different_messages_produce_different_canonical_bytes"
  by (simp add: different_messages_produce_different_canonical_bytes_def probe_message_inj)
    (auto dest: register_message_inj [rotated 2])

lemma message_prefix: "lit ''binda-set-records:'' @ lit ''example.binda'' @ lit '':'' @ show_nat 1000 @ lit '':'' =
    lit ''binda-set-records:example.binda:1000:''"
  by (simp add: lit_def show_nat.simps)

text \<open>The JSON printer prints the value of the record as it is.\<close>

definition prints_value :: "externals \<Rightarrow> rstring \<Rightarrow> bool" where
  "prints_value ext v \<longleftrightarrow> (\<exists>json. records_json ext [test_a_record v] = Some (utf8 json) \<and>
    valid_str json \<and> str_contains json v)"

lemma records_json_passes:
  assumes "prints_value ext (lit ''203.0.113.1'')"
  shows "passes (set_records_message_includes_records_json ext)"
proof -
  from assms obtain json where json: "records_json ext [test_a_record (lit ''203.0.113.1'')] = Some (utf8 json)"
    "valid_str json" "str_contains json (lit ''203.0.113.1'')" by (auto simp: prints_value_def)
  let ?p = "lit ''binda-set-records:example.binda:1000:''"
  have "set_records_message ext (DomainName (lit ''example.binda'')) [test_a_record (lit ''203.0.113.1'')] 1000 =
      utf8 (?p @ json)"
    using message_prefix by (simp add: set_records_message_def json(1) flip: utf8_simps)
  moreover have "from_utf8 (utf8 (?p @ json)) = Some (?p @ json)"
    by (rule from_utf8_utf8) (simp add: json(2))
  ultimately show ?thesis
    using contains_suffix [OF json(3)] by (simp add: set_records_message_includes_records_json_def)
qed

section \<open>The tests of the handlers pass\<close>

lemma test_requests:
  "test_probe k t = probe_datagram (public_key k) (sign_with k) (lit ''host.example.net'') t"
  "envelope_register k d t = register_datagram (public_key k) (sign_with k) (lit ''host.example.net'') d t"
  "envelope_set_records ext k d recs t =
    set_records_datagram ext (public_key k) (sign_with k) (lit ''host.example.net'') d recs t"
  by (simp_all add: test_probe_def envelope_register_def envelope_set_records_def probe_datagram_def register_datagram_def
      set_records_datagram_def Let_def)

lemma fresh_now: "is_fresh 1000 1000"
  by (simp add: is_fresh_iff)

text \<open>The registry after the probe of the test's first and second key.\<close>

definition probed_by :: "signing_key \<Rightarrow> registry_store \<Rightarrow> registry_store" where
  "probed_by k s = s\<lparr>
    liveness := \<lparr>last_seen_millis = [(quota_key (lit ''host.example.net''), 1000)], registration_counts = []\<rparr>,
    probe_evidence := hm_insert (client_key (client_new (public_key k) (lit ''host.example.net'')))
      (1000, sign_with k (probe_message 1000)) (probe_evidence s)\<rparr>"

lemma probed_by_only:
  "only_probed (lit ''host.example.net'') 1000 (probed_by k store_new)"
  "only_probed (lit ''host.example.net'') 1000 s \<Longrightarrow> only_probed (lit ''host.example.net'') 1000 (probed_by k s)"
  by (simp_all add: only_probed_def probed_by_def)

lemma handled_probe:
  assumes "honest ext k" "s = store_new \<or> only_probed (lit ''host.example.net'') 1000 s"
  shows "handled ext drawn (test_probe k 1000) verified s = Some (ProbeAck, probed_by k s)"
proof -
  from assms(2) have "registrations s = []" "quota_claims s = []"
    "liveness s = tracker_new \<or> only_probed (lit ''host.example.net'') 1000 s"
    by (auto simp: only_probed_def)
  from probe_ack [OF assms(1) [unfolded honest_def] fresh_now this, of drawn verified]
  show ?thesis by (simp add: handled_def test_requests probed_by_def)
qed

definition lease_of :: "signing_key \<Rightarrow> bytes \<Rightarrow> domain_name \<Rightarrow> registration_rumor" where
  "lease_of k drawn d = client_lease (public_key k) (sign_with k) (lit ''host.example.net'') d (token_issue drawn 1000) 1000 1000"

lemma handled_register:
  assumes "honest ext k" "only_probed (lit ''host.example.net'') 1000 s"
    and "hm_get (probe_evidence s) (client_key (client_new (public_key k) (lit ''host.example.net''))) =
      Some (1000, sign_with k (probe_message 1000))"
  shows "handled ext drawn (envelope_register k d 1000) True s =
    Some (Registered (token_issue drawn 1000), registered_store (lease_of k drawn d) s 1000)"
  using register_granted_lease [OF assms(1) [unfolded honest_def] fresh_now fresh_now assms(2,3), of drawn d]
  by (simp add: handled_def test_requests lease_of_def)

lemma probed_evidence [simp]:
  "hm_get (probe_evidence (probed_by k s)) (client_key (client_new (public_key k') (lit ''host.example.net''))) =
    (if public_key k' = public_key k then Some (1000, sign_with k (probe_message 1000))
     else hm_get (probe_evidence s) (client_key (client_new (public_key k') (lit ''host.example.net''))))"
  by (simp add: probed_by_def client_key_inj client_new_def)

text \<open>A request whose signature the key refuses is answered with an error and changes nothing.\<close>

lemma unsigned_refused:
  assumes "refuses ext k (request_message ext request) (replicate 64 0)"
    and "request \<in> {test_probe k 1000, envelope_register k d 1000, envelope_set_records ext k d recs 1000}"
  shows "\<exists>err. handled ext drawn (with_zero_signature request) verified s = Some (ErrorResponse err, s)"
proof -
  have "\<exists>err. request_auth ext (with_zero_signature request) 1000 = Inl err"
    using assms by (auto simp: test_probe_def envelope_register_def envelope_set_records_def refuses_def
        authenticate_def client_verify_def client_new_def Let_def)
  then obtain err where "request_auth ext (with_zero_signature request) 1000 = Inl err" ..
  with unauthenticated_unchanged [where time = "frozen 1000"] show ?thesis by (simp add: handled_def)
qed

lemma handler_tests_pass:
  assumes k: "honest ext k"
  shows "passes (probe_then_register_succeeds_end_to_end ext k drawn)"
    and "passes (register_without_prior_probe_is_refused ext k drawn)"
    and "passes (register_without_rdns_verification_is_refused_even_if_otherwise_valid ext k drawn)"
    and "passes (set_records_succeeds_for_domain_owner ext k drawn)"
proof -
  note flow = handled_probe [OF k] handled_register [OF k] probed_by_only
  show "passes (probe_then_register_succeeds_end_to_end ext k drawn)"
    by (simp add: probe_then_register_succeeds_end_to_end_def flow)
  have "\<not> is_live tracker_new c (frozen 1000)" for c by (simp add: is_live_iff)
  then show "passes (register_without_prior_probe_is_refused ext k drawn)"
    by (simp add: register_without_prior_probe_is_refused_def handled_def envelope_register_def handle_client_request_def
        handle_register_def register_def Let_def split: sum.split)
  show "passes (register_without_rdns_verification_is_refused_even_if_otherwise_valid ext k drawn)"
    using register_unconfirmed [OF k [unfolded honest_def] fresh_now]
    by (simp add: register_without_rdns_verification_is_refused_even_if_otherwise_valid_def flow)
      (simp add: handled_def test_requests)
  show "passes (set_records_succeeds_for_domain_owner ext k drawn)"
    using records_set [OF k [unfolded honest_def] fresh_now]
    by (simp add: set_records_succeeds_for_domain_owner_def flow) (simp add: handled_def test_requests lease_of_def)
qed

lemma bad_signature_tests_pass:
  assumes k: "honest ext k"
  shows "refuses ext k (probe_message 1000) (replicate 64 0) \<Longrightarrow> passes (probe_with_bad_signature_is_refused ext k drawn)"
    and "refuses ext k (register_message (DomainName (lit ''example.binda'')) 1000) (replicate 64 0) \<Longrightarrow>
      passes (register_with_bad_signature_is_refused ext k drawn)"
    and "refuses ext k (set_records_message ext (DomainName (lit ''example.binda'')) [] 1000) (replicate 64 0) \<Longrightarrow>
      passes (set_records_with_bad_signature_is_refused ext k drawn)"
proof -
  let ?d = "DomainName (lit ''example.binda'')"
  show "passes (probe_with_bad_signature_is_refused ext k drawn)"
    if "refuses ext k (probe_message 1000) (replicate 64 0)"
    using unsigned_refused [of ext k "test_probe k 1000" ?d "[]" drawn True store_new] that
    by (auto simp: probe_with_bad_signature_is_refused_def test_probe_def)
  show "passes (register_with_bad_signature_is_refused ext k drawn)"
    if "refuses ext k (register_message ?d 1000) (replicate 64 0)"
    using unsigned_refused [of ext k "envelope_register k ?d 1000" ?d "[]" drawn True "probed_by k store_new"] that
    by (auto simp: register_with_bad_signature_is_refused_def handled_probe [OF k]) (auto simp: envelope_register_def)
  show "passes (set_records_with_bad_signature_is_refused ext k drawn)"
    if "refuses ext k (set_records_message ext ?d [] 1000) (replicate 64 0)"
    using unsigned_refused [of ext k "envelope_set_records ext k ?d [] 1000" ?d "[]" drawn True store_new] that
    by (auto simp: set_records_with_bad_signature_is_refused_def envelope_set_records_def Let_def)
qed

text \<open>A live lease of a live host survives a reclaim.\<close>

lemma registered_reclaim:
  assumes "live_at ext t r"
  shows "reclaim_stale ext (frozen t) (registered_store r s t) = registered_store r s t"
  using assms
  by (simp add: reclaim_stale_eq drop_hosts_def registered_store_def expired_clients_def hm_keys_def hm_retain_def
      liveness_window_millis_def saturating_sub_def reconcile_one_lease)

lemma second_key_tests_pass:
  assumes k: "honest ext k" and k': "honest ext k'" and "public_key k \<noteq> public_key k'"
  shows "passes (registering_an_already_taken_domain_is_refused ext k k' drawn drawn')"
    and "passes (set_records_fails_for_non_owner ext k k' drawn)"
proof -
  let ?d = "DomainName (lit ''example.binda'')" and ?r = "lease_of k drawn (DomainName (lit ''example.binda''))"
  note flow = handled_probe [OF k] handled_probe [OF k'] handled_register [OF k] probed_by_only
  have "live_at ext 1000 (lease_of k drawn ?d)"
    unfolding lease_of_def by (rule client_lease_live [OF k [unfolded honest_def] fresh_now])
  note reclaim = registered_reclaim [OF this]
  have held: "hm_get (registrations (registered_store ?r s 1000)) ?d \<noteq> None" for s by (simp add: lease_of_def)
  have refused: "register ext drawn' ?d c (frozen 1000) (registered_store ?r s 1000) \<in>
      {(Inl NotLive, registered_store ?r s 1000), (Inl RegistrationLimitReached, registered_store ?r s 1000)}" for c s
    using held [of s] by (simp add: register_def Let_def reclaim hm_contains_key_def)
  have "\<exists>err. handled ext drawn' (envelope_register k' ?d 1000) True (registered_store ?r s 1000) =
      Some (ErrorResponse err, registered_store ?r s 1000)" for s
    using refused [of "client_new (public_key k') (lit ''host.example.net'')" s] honestD [OF k']
    by (auto simp: handled_def envelope_register_def handle_client_request_def handle_register_def authenticate_def
        fresh_now client_verify_def client_new_def Let_def)
  then obtain err where "handled ext drawn' (envelope_register k' ?d 1000) True
      (registered_store ?r (probed_by k' (probed_by k store_new)) 1000) =
    Some (ErrorResponse err, registered_store ?r (probed_by k' (probed_by k store_new)) 1000)" by blast
  with assms(3) show "passes (registering_an_already_taken_domain_is_refused ext k k' drawn drawn')"
    by (simp add: registering_an_already_taken_domain_is_refused_def flow)
  have "set_records ?d \<lparr>verifying_key = public_key k', rdns = lit ''host.example.net''\<rparr> [] (registered_store ?r s 1000) =
      (False, registered_store ?r s 1000)" for s
    using assms(3) by (simp add: set_records_def lease_of_def registration_from_rumor_def client_key_inj client_new_def)
  then have "\<exists>err. handled ext drawn (envelope_set_records ext k' ?d [] 1000) True (registered_store ?r s 1000) =
      Some (ErrorResponse err, registered_store ?r s 1000)" for s
    using honestD [OF k']
    by (simp add: handled_def envelope_set_records_def handle_client_request_def handle_set_records_def authenticate_def
        fresh_now client_verify_def client_new_def Let_def)
  then obtain err where "handled ext drawn (envelope_set_records ext k' ?d [] 1000) True
      (registered_store ?r (probed_by k store_new) 1000) =
    Some (ErrorResponse err, registered_store ?r (probed_by k store_new) 1000)" by blast
  then show "passes (set_records_fails_for_non_owner ext k k' drawn)"
    by (simp add: set_records_fails_for_non_owner_def flow)
qed

section \<open>The suite\<close>

text \<open>The keys a run generates: two different ones of the scheme, and the signatures the tests expect to
  be refused are refused.\<close>

definition test_keys :: "externals \<Rightarrow> signing_key \<Rightarrow> signing_key \<Rightarrow> bool" where
  "test_keys ext k k' \<longleftrightarrow> honest ext k \<and> honest ext k' \<and> public_key k \<noteq> public_key k' \<and>
    refuses ext k (utf8 (lit ''register: evil.binda'')) (sign_with k (utf8 (lit ''register: example.binda''))) \<and>
    refuses ext k (probe_message 1000) (sign_with k' (probe_message 1000)) \<and>
    refuses ext k (probe_message 1000) (replicate 64 0) \<and>
    refuses ext k (register_message (DomainName (lit ''example.binda'')) 1000) (replicate 64 0) \<and>
    refuses ext k (set_records_message ext (DomainName (lit ''example.binda'')) [] 1000) (replicate 64 0) \<and>
    \<not> sig_parses ext [1, 2, 3] \<and> prints_value ext (lit ''203.0.113.1'')"

definition request_tests :: "externals \<Rightarrow> signing_key \<Rightarrow> signing_key \<Rightarrow> bytes \<Rightarrow> bytes \<Rightarrow> unit_test list" where
  "request_tests ext k k' drawn drawn' =
    [verifies_valid_signature ext k, rejects_tampered_message ext k, quota_key_is_host_scoped_and_canonical k k',
     authenticates_valid_probe ext k, rejects_stale_timestamp ext k, rejects_wrong_signature ext k k',
     rejects_malformed_key_length ext, rejects_malformed_signature_length ext k, is_fresh_boundary_conditions,
     set_records_message_includes_records_json ext, different_messages_produce_different_canonical_bytes,
     probe_then_register_succeeds_end_to_end ext k drawn, register_without_prior_probe_is_refused ext k drawn,
     register_with_bad_signature_is_refused ext k drawn,
     register_without_rdns_verification_is_refused_even_if_otherwise_valid ext k drawn,
     probe_with_bad_signature_is_refused ext k drawn,
     registering_an_already_taken_domain_is_refused ext k k' drawn drawn',
     set_records_succeeds_for_domain_owner ext k drawn, set_records_fails_for_non_owner ext k k' drawn,
     set_records_with_bad_signature_is_refused ext k drawn]"

lemma request_suite:
  assumes "test_keys ext k k'"
  shows "list_all passes (request_tests ext k k' drawn drawn')"
  using assms
  by (simp add: test_keys_def request_tests_def client_tests_pass authenticate_tests_pass different_messages_passes
      records_json_passes handler_tests_pass bad_signature_tests_pass second_key_tests_pass)

end
