(* ===== verification/Data_Tests.thy ===== *)
theory Data_Tests
  imports Test_Kit
begin

text \<open>
  The unit tests of the data of \<open>binda-core\<close>: \<open>token.rs\<close>, \<open>collision.rs\<close>, \<open>domain.rs\<close>, \<open>gossip.rs\<close>,
  \<open>liveness.rs\<close> and \<open>wire.rs\<close>. Nonces, coin flips and keys are arguments.
\<close>

section \<open>Tokens\<close>

definition tokens_are_distinct :: "bytes \<Rightarrow> bytes \<Rightarrow> unit_test" where
  "tokens_are_distinct drawn drawn' = do {
     let a = token_issue drawn 1000;
     let b = token_issue drawn' 1000;
     check (nonce a \<noteq> nonce b)
   }"

definition raw_ordering_key_encodes_timestamp_then_nonce_big_endian :: unit_test where
  "raw_ordering_key_encodes_timestamp_then_nonce_big_endian = do {
     let token = \<lparr>issued_at_millis = 0x0102030405060708, nonce = replicate 8 0xAA\<rparr>;
     let key = raw_ordering_key token;
     check (take 8 key = [1, 2, 3, 4, 5, 6, 7, 8]);
     check (drop 8 key = replicate 8 0xAA)
   }"

definition later_timestamp_sorts_higher_in_ordering_key :: unit_test where
  "later_timestamp_sorts_higher_in_ordering_key = do {
     let earlier = \<lparr>issued_at_millis = 1, nonce = replicate 8 0xFF\<rparr>;
     let later = \<lparr>issued_at_millis = 2, nonce = replicate 8 0\<rparr>;
     check (raw_ordering_key later > raw_ordering_key earlier)
   }"

section \<open>Collisions\<close>

definition negotiation_terminates_and_is_deterministic_given_agreement :: "bytes \<Rightarrow> bytes \<Rightarrow> unit_test" where
  "negotiation_terminates_and_is_deterministic_given_agreement drawn drawn' = do {
     let a = token_issue drawn 1;
     let b = token_issue drawn' 2;
     let winner = negotiate_locally a b;
     check (winner = a \<or> winner = b)
   }"

definition mutually_derived_outcome_is_symmetric_and_convergent :: unit_test where
  "mutually_derived_outcome_is_symmetric_and_convergent = do {
     let a = \<lparr>issued_at_millis = 1, nonce = replicate 8 1\<rparr>;
     let b = \<lparr>issued_at_millis = 2, nonce = replicate 8 2\<rparr>;
     check (mutually_derived_condition a b = mutually_derived_condition b a);
     check (negotiate_locally a b = negotiate_locally b a)
   }"

definition resolve_higher_wins_picks_greater_key :: unit_test where
  "resolve_higher_wins_picks_greater_key = do {
     let a = \<lparr>issued_at_millis = 1, nonce = replicate 8 0\<rparr>;
     let b = \<lparr>issued_at_millis = 2, nonce = replicate 8 0\<rparr>;
     check (resolve HigherWins a b = b);
     check (resolve LowerWins a b = a)
   }"

definition resolve_is_reflexive_for_equal_tokens :: unit_test where
  "resolve_is_reflexive_for_equal_tokens = do {
     let a = \<lparr>issued_at_millis = 5, nonce = replicate 8 1\<rparr>;
     check (resolve HigherWins a a = a);
     check (resolve LowerWins a a = a)
   }"

definition resolve_lower_wins_picks_lesser_key_regardless_of_argument_order :: unit_test where
  "resolve_lower_wins_picks_lesser_key_regardless_of_argument_order = do {
     let a = \<lparr>issued_at_millis = 2, nonce = replicate 8 0\<rparr>;
     let b = \<lparr>issued_at_millis = 1, nonce = replicate 8 0\<rparr>;
     check (resolve LowerWins a b = b)
   }"

definition negotiation_proposals_increment_round :: "bool \<Rightarrow> bool \<Rightarrow> unit_test" where
  "negotiation_proposals_increment_round coin coin' = do {
     let n = negotiation_new;
     let (first, n) = propose coin n;
     let (second, n) = propose coin' n;
     check (proposal_round first = 1);
     check (proposal_round second = 2)
   }"

definition check_agreement_requires_same_round_and_condition :: unit_test where
  "check_agreement_requires_same_round_and_condition = do {
     let same = \<lparr>proposal_round = 1, proposal_condition = HigherWins\<rparr>;
     check (check_agreement same same = Some HigherWins);
     let different_condition = \<lparr>proposal_round = 1, proposal_condition = LowerWins\<rparr>;
     check (check_agreement same different_condition = None);
     let different_round = \<lparr>proposal_round = 2, proposal_condition = HigherWins\<rparr>;
     check (check_agreement same different_round = None)
   }"

text \<open>The loop over at most 200 draws, left once both conditions were seen.\<close>

fun both_variants :: "bool list \<Rightarrow> bool \<Rightarrow> bool \<Rightarrow> bool" where
  "both_variants [] higher lower = (higher \<and> lower)"
| "both_variants (coin # coins) higher lower =
    (let (higher, lower) = (case win_condition_random coin of HigherWins \<Rightarrow> (True, lower) | LowerWins \<Rightarrow> (higher, True))
     in if higher \<and> lower then higher \<and> lower else both_variants coins higher lower)"

definition win_condition_random_produces_both_variants_eventually :: "bool list \<Rightarrow> unit_test" where
  "win_condition_random_produces_both_variants_eventually coins = check (both_variants (take 200 coins) False False)"

section \<open>Domain names\<close>

definition accepts_plain_ascii :: unit_test where
  "accepts_plain_ascii = check (is_ok (domain_new (lit ''example.binda'')))"

definition accepts_emoji_and_mixed_scripts :: unit_test where
  "accepts_emoji_and_mixed_scripts = do {
     check (is_ok (domain_new (fire @ lit ''.example'')));
     check (is_ok (domain_new (marhaba @ lit ''.hello'')));
     check (is_ok (domain_new (lit ''e'' @ [0x301, 0x301, 0x301] @ lit ''xample'')))
   }"

definition accepts_heavy_zalgo_stacking_with_no_length_cap :: unit_test where
  "accepts_heavy_zalgo_stacking_with_no_length_cap = do {
     let combining_marks = [0x301, 0x316, 0x327, 0x353];
     let label = lit ''e'' @ map (\<lambda>i. combining_marks ! (i mod length combining_marks)) [0..<5000];
     d \<leftarrow> unwrap (domain_new label);
     check (as_str d = label)
   }"

definition accepts_arbitrarily_long_names :: unit_test where
  "accepts_arbitrarily_long_names = check (is_ok (domain_new (concat (replicate 100000 (lit ''a'')))))"

definition accepts_rtl_and_ltr_intermixed_within_one_label :: unit_test where
  "accepts_rtl_and_ltr_intermixed_within_one_label = do {
     let label = lit ''hello'' @ marhaba @ fire @ lit ''world'';
     d \<leftarrow> unwrap (domain_new label);
     check (length (labels d) = 1);
     check (as_str d = label)
   }"

definition rejects_empty :: unit_test where
  "rejects_empty = check (domain_new (lit '''') = Inl Empty)"

definition rejects_control_chars :: unit_test where
  "rejects_control_chars =
    check (case domain_new (lit ''exa'' @ [7] @ lit ''mple'') of Inl (NonPrintableChar _) \<Rightarrow> True | _ \<Rightarrow> False)"

definition rejects_empty_labels :: unit_test where
  "rejects_empty_labels = do {
     check (domain_new (lit ''a..b'') = Inl EmptyLabel);
     check (domain_new (lit ''.a'') = Inl EmptyLabel)
   }"

definition rejects_trailing_empty_label :: unit_test where
  "rejects_trailing_empty_label = check (domain_new (lit ''a.'') = Inl EmptyLabel)"

definition labels_splits_on_dot_in_order :: unit_test where
  "labels_splits_on_dot_in_order = do {
     d \<leftarrow> unwrap (domain_new (lit ''a.b.c''));
     check (labels d = [lit ''a'', lit ''b'', lit ''c''])
   }"

definition display_matches_as_str :: unit_test where
  "display_matches_as_str = do {
     d \<leftarrow> unwrap (domain_new (lit ''example.binda''));
     check (domain_display d = as_str d)
   }"

definition try_from_str_matches_new :: unit_test where
  "try_from_str_matches_new = do {
     d \<leftarrow> unwrap (domain_try_from (lit ''example.binda''));
     check (as_str d = lit ''example.binda'');
     check (domain_try_from (lit '''') = Inl Empty)
   }"

definition equal_domains_hash_and_order_consistently :: unit_test where
  "equal_domains_hash_and_order_consistently = do {
     a \<leftarrow> unwrap (domain_new (lit ''example.binda''));
     b \<leftarrow> unwrap (domain_new (lit ''example.binda''));
     c \<leftarrow> unwrap (domain_new (lit ''other.binda''));
     check (a = b);
     check (a < c \<or> c < a);
     let set = [a];
     check (List.member set b);
     check (\<not> List.member set c)
   }"

definition domain_error_messages_are_human_readable :: unit_test where
  "domain_error_messages_are_human_readable = do {
     check (domain_name_error_text Empty = lit ''domain name must not be empty'');
     check (domain_name_error_text EmptyLabel =
       lit ''domain label must not be empty (found consecutive or leading/trailing '' @ [39, 46, 39, 41]);
     check (domain_name_error_text (NonPrintableChar 3) =
       lit ''domain name contains a non-printable character at byte offset 3'')
   }"

section \<open>Gossip\<close>

definition bare_rumor :: "domain_name \<Rightarrow> registration_token \<Rightarrow> rstring \<Rightarrow> registration_rumor" where
  "bare_rumor d token ck =
    \<lparr>rumor_domain = d, rumor_token = token, rumor_client_key = ck, rumor_owner_key = [], rumor_rdns = [],
     registration_timestamp_millis = 0, registration_signature = [], probe_timestamp_millis = 0,
     probe_signature = [], rumor_records = [], records_timestamp_millis = None, records_signature = None\<rparr>"

text \<open>\<open>(0..n).map(|i| DomainName::new(format!("d{i}.binda")).unwrap()).collect()\<close>.\<close>

fun numbered_domains :: "nat list \<Rightarrow> domain_name list option" where
  "numbered_domains [] = Some []"
| "numbered_domains (i # js) = do {
     d \<leftarrow> unwrap (domain_new (numbered_name ''d'' i));
     ds \<leftarrow> numbered_domains js;
     Some (d # ds)
   }"

definition oversized_digest_is_rejected :: unit_test where
  "oversized_digest_is_rejected = do {
     ds \<leftarrow> numbered_domains [0..<max_digest_entries + 1];
     let msg = Digest (map (\<lambda>d. \<lparr>entry_domain = d, entry_issued_at_millis = 0\<rparr>) ds);
     check (\<not> is_well_formed msg)
   }"

definition normal_digest_is_accepted :: unit_test where
  "normal_digest_is_accepted = do {
     d \<leftarrow> unwrap (domain_new (lit ''example.binda''));
     check (is_well_formed (Digest [\<lparr>entry_domain = d, entry_issued_at_millis = 0\<rparr>]))
   }"

definition oversized_request_is_rejected :: "conformance_challenge \<Rightarrow> unit_test" where
  "oversized_request_is_rejected challenge = do {
     ds \<leftarrow> numbered_domains [0..<max_request_entries + 1];
     check (\<not> is_well_formed (Request ds challenge))
   }"

definition normal_request_is_accepted :: "conformance_challenge \<Rightarrow> unit_test" where
  "normal_request_is_accepted challenge = do {
     d \<leftarrow> unwrap (domain_new (lit ''example.binda''));
     check (is_well_formed (Request [d] challenge))
   }"

definition oversized_rumors_is_rejected :: "bytes \<Rightarrow> (nat \<Rightarrow> bytes) \<Rightarrow> unit_test" where
  "oversized_rumors_is_rejected answer drawn = do {
     ds \<leftarrow> numbered_domains [0..<max_digest_entries + 1];
     let rumors = map (\<lambda>(i, d). bare_rumor d (token_issue (drawn i) 0) (lit ''someone'')) (enumerate 0 ds);
     check (\<not> is_well_formed (Rumors rumors (token_issue answer 0)))
   }"

definition normal_rumors_is_accepted :: "bytes \<Rightarrow> bytes \<Rightarrow> unit_test" where
  "normal_rumors_is_accepted answer drawn = do {
     d \<leftarrow> unwrap (domain_new (lit ''example.binda''));
     check (is_well_formed (Rumors [bare_rumor d (token_issue drawn 0) (lit ''someone'')] (token_issue answer 0)))
   }"

definition duplicate_domains_are_not_well_formed :: unit_test where
  "duplicate_domains_are_not_well_formed = do {
     d \<leftarrow> unwrap (domain_new (lit ''example.binda''));
     check (\<not> is_well_formed (Digest [\<lparr>entry_domain = d, entry_issued_at_millis = 1\<rparr>,
                                      \<lparr>entry_domain = d, entry_issued_at_millis = 2\<rparr>]))
   }"

definition rumor_response_must_be_request_scoped_and_unique :: "bytes \<Rightarrow> unit_test" where
  "rumor_response_must_be_request_scoped_and_unique drawn = do {
     d \<leftarrow> unwrap (domain_new (lit ''requested.binda''));
     let requested = [d];
     let token = token_issue drawn 1;
     let valid = [bare_rumor d token (lit ''client'')];
     check (is_valid_rumor_response requested valid);
     u \<leftarrow> unwrap (domain_new (lit ''unrequested.binda''));
     let unrequested = [bare_rumor u token (lit ''client'')];
     check (\<not> is_valid_rumor_response requested unrequested);
     let duplicate = [valid ! 0, valid ! 0];
     check (\<not> is_valid_rumor_response requested duplicate)
   }"

definition conformance_challenge_has_exactly_one_correct_answer :: "bytes \<Rightarrow> bytes \<Rightarrow> bool \<Rightarrow> unit_test" where
  "conformance_challenge_has_exactly_one_correct_answer drawn drawn' coin = do {
     let challenge = challenge_random drawn drawn' coin 1000;
     let answer = expected_answer challenge;
     check (answer = token_a challenge \<or> answer = token_b challenge);
     let recomputed = resolve (challenge_condition challenge) (token_a challenge) (token_b challenge);
     check (answer = recomputed)
   }"

text \<open>The loop over at most 200 challenges, each drawn as two nonces and a coin flip.\<close>

fun wrong_answer_rounds :: "nat \<Rightarrow> (bytes \<times> bytes \<times> bool) list \<Rightarrow> bool \<Rightarrow> bool \<Rightarrow> unit_test" where
  "wrong_answer_rounds i [] saw_a saw_b = check (saw_a \<and> saw_b)"
| "wrong_answer_rounds i ((drawn, drawn', coin) # draws) saw_a saw_b = do {
     let challenge = challenge_random drawn drawn' coin (of_nat i);
     let correct = expected_answer challenge;
     let (wrong, saw_a, saw_b) =
       (if correct = token_a challenge then (token_b challenge, True, saw_b) else (token_a challenge, saw_a, True));
     check (correct \<noteq> wrong);
     if saw_a \<and> saw_b then check (saw_a \<and> saw_b) else wrong_answer_rounds (Suc i) draws saw_a saw_b
   }"

definition wrong_challenge_answer_is_distinguishable_from_correct :: "(bytes \<times> bytes \<times> bool) list \<Rightarrow> unit_test" where
  "wrong_challenge_answer_is_distinguishable_from_correct draws = wrong_answer_rounds 0 (take 200 draws) False False"

section \<open>Liveness\<close>

definition client_is_live_immediately_after_probe :: "signing_key \<Rightarrow> unit_test" where
  "client_is_live_immediately_after_probe k = do {
     let time = mock_time (mock_new 0);
     let c = test_client k;
     let tracker = record_probe c time tracker_new;
     check (is_live tracker c time)
   }"

definition client_goes_stale_after_window :: "signing_key \<Rightarrow> unit_test" where
  "client_goes_stale_after_window k = do {
     let clock = mock_new 0;
     let c = test_client k;
     let tracker = record_probe c (mock_time clock) tracker_new;
     let clock = mock_advance (from_millis (unat liveness_window_millis + 1)) clock;
     check (\<not> is_live tracker c (mock_time clock))
   }"

text \<open>The loop that asserts \<open>can_register\<close> before each of the \<open>n\<close> increments.\<close>

fun register_up_to :: "nat \<Rightarrow> client_identity \<Rightarrow> time_source \<Rightarrow> liveness_tracker \<Rightarrow> liveness_tracker option" where
  "register_up_to 0 c time lv = Some lv"
| "register_up_to (Suc n) c time lv = do {
     check (can_register lv c time);
     register_up_to n c time (increment_registration c lv)
   }"

definition registration_cap_enforced :: "signing_key \<Rightarrow> unit_test" where
  "registration_cap_enforced k = do {
     let time = mock_time (mock_new 0);
     let c = test_client k;
     let tracker = record_probe c time tracker_new;
     tracker \<leftarrow> register_up_to max_registrations_per_client c time tracker;
     check (\<not> can_register tracker c time)
   }"

definition never_probed_client_is_not_live :: "signing_key \<Rightarrow> unit_test" where
  "never_probed_client_is_not_live k = do {
     let time = mock_time (mock_new 0);
     let c = test_client k;
     check (\<not> is_live tracker_new c time);
     check (\<not> can_register tracker_new c time)
   }"

definition registration_count_starts_at_zero :: "signing_key \<Rightarrow> unit_test" where
  "registration_count_starts_at_zero k = check (registration_count tracker_new (test_client k) = 0)"

definition clear_registrations_resets_count :: "signing_key \<Rightarrow> unit_test" where
  "clear_registrations_resets_count k = do {
     let time = mock_time (mock_new 0);
     let c = test_client k;
     let tracker = increment_registration c (record_probe c time tracker_new);
     check (registration_count tracker c = 1);
     let tracker = clear_registrations c tracker;
     check (registration_count tracker c = 0)
   }"

definition forget_client_by_key_clears_both_count_and_liveness :: "signing_key \<Rightarrow> unit_test" where
  "forget_client_by_key_clears_both_count_and_liveness k = do {
     let time = mock_time (mock_new 0);
     let c = test_client k;
     let tracker = increment_registration c (record_probe c time tracker_new);
     let tracker = forget_client_by_key (client_quota_key c) tracker;
     check (registration_count tracker c = 0);
     check (\<not> is_live tracker c time)
   }"

definition expired_clients_lists_only_stale_ones :: "signing_key \<Rightarrow> signing_key \<Rightarrow> unit_test" where
  "expired_clients_lists_only_stale_ones k fresh_key = do {
     let clock = mock_new 0;
     let stale = test_client k;
     let fresh = client_new (public_key fresh_key) (lit ''fresh.example.net'');
     let tracker = record_probe stale (mock_time clock) tracker_new;
     let clock = mock_advance (from_millis (unat liveness_window_millis + 1)) clock;
     let tracker = record_probe fresh (mock_time clock) tracker;
     let expired = expired_clients tracker (mock_time clock);
     check (expired = [client_quota_key stale])
   }"

definition system_time_source_reports_plausible_unix_time :: "nat option \<Rightarrow> unit_test" where
  "system_time_source_reports_plausible_unix_time since_epoch_nanos =
    check (system_now_millis since_epoch_nanos > 1700000000000)"

section \<open>Frames\<close>

definition round_trips_a_gossip_message ::
  "(gossip_message \<Rightarrow> 'e + bytes) \<Rightarrow> (bytes \<Rightarrow> 'e + gossip_message) \<Rightarrow> unit_test" where
  "round_trips_a_gossip_message to_vec from_slice = do {
     d \<leftarrow> unwrap (domain_new (lit ''example.binda''));
     let msg = Digest [\<lparr>entry_domain = d, entry_issued_at_millis = 42\<rparr>];
     bs \<leftarrow> unwrap (encode to_vec msg);
     decoded \<leftarrow> unwrap (decode from_slice bs);
     check (msg = decoded)
   }"

definition rejects_oversized_message_on_encode :: "(gossip_message \<Rightarrow> 'e + bytes) \<Rightarrow> unit_test" where
  "rejects_oversized_message_on_encode to_vec = do {
     d \<leftarrow> unwrap (domain_new (concat (replicate max_datagram_bytes (lit ''a''))));
     let msg = Digest [\<lparr>entry_domain = d, entry_issued_at_millis = 0\<rparr>];
     check (case encode to_vec msg of Inl (TooLarge _ _) \<Rightarrow> True | _ \<Rightarrow> False)
   }"

definition rejects_undecodable_json :: "(bytes \<Rightarrow> 'e + gossip_message) \<Rightarrow> unit_test" where
  "rejects_undecodable_json from_slice = do {
     let bs = utf8 (lit ''{ this is not valid json'');
     check (case decode from_slice bs of Inl (Decode _) \<Rightarrow> True | _ \<Rightarrow> False)
   }"

definition wire_error_messages_are_human_readable ::
  "('e \<Rightarrow> rstring) \<Rightarrow> (bytes \<Rightarrow> 'e + gossip_message) \<Rightarrow> unit_test" where
  "wire_error_messages_are_human_readable show_error from_slice =
    (case decode from_slice (replicate (max_datagram_bytes + 1) 0) of
      Inl err \<Rightarrow> check (str_contains (wire_error_text show_error err) (lit ''exceeds''))
    | Inr _ \<Rightarrow> None)"

definition rejects_oversized_input :: "(bytes \<Rightarrow> 'e + gossip_message) \<Rightarrow> unit_test" where
  "rejects_oversized_input from_slice =
    check (case decode from_slice (replicate (max_datagram_bytes + 1) 0) of Inl (TooLarge _ _) \<Rightarrow> True | _ \<Rightarrow> False)"

section \<open>The tests pass\<close>

lemma token_tests_pass:
  "drawn \<noteq> drawn' \<Longrightarrow> passes (tokens_are_distinct drawn drawn')"
  "passes raw_ordering_key_encodes_timestamp_then_nonce_big_endian"
  "passes later_timestamp_sorts_higher_in_ordering_key"
  by (simp_all add: tokens_are_distinct_def token_issue_def raw_ordering_key_encodes_timestamp_then_nonce_big_endian_def
      later_timestamp_sorts_higher_in_ordering_key_def raw_ordering_key_less)
    (simp_all add: raw_ordering_key_def u64_be_def be_bytes_numeral)

lemma resolve_tests_pass:
  "passes resolve_higher_wins_picks_greater_key"
  "passes resolve_is_reflexive_for_equal_tokens"
  "passes resolve_lower_wins_picks_lesser_key_regardless_of_argument_order"
  by (simp_all add: passes_def, code_simp+)

lemma negotiation_tests_pass:
  "passes (negotiation_terminates_and_is_deterministic_given_agreement drawn drawn')"
  "passes mutually_derived_outcome_is_symmetric_and_convergent"
  "passes (negotiation_proposals_increment_round coin coin')"
  "passes check_agreement_requires_same_round_and_condition"
  using local_rule.win_selects
  by (simp_all add: negotiation_terminates_and_is_deterministic_given_agreement_def
      mutually_derived_outcome_is_symmetric_and_convergent_def local_rule.win_commute mutually_derived_condition_commute
      negotiation_proposals_increment_round_def propose_def negotiation_new_def
      check_agreement_requires_same_round_and_condition_def check_agreement_def Let_def)

lemma both_variants_iff:
  "both_variants coins higher lower \<longleftrightarrow>
    (higher \<or> True \<in> set coins) \<and> (lower \<or> False \<in> set coins)"
  by (induction coins arbitrary: higher lower) (auto simp: win_condition_random_def Let_def)

lemma both_faces_pass:
  "{True, False} \<subseteq> set (take 200 coins) \<Longrightarrow> passes (win_condition_random_produces_both_variants_eventually coins)"
  by (simp add: win_condition_random_produces_both_variants_eventually_def both_variants_iff)

text \<open>A string with no control character, no space and no dot is a name of one label.\<close>

lemma plain_domain:
  assumes "list_all plain_char s" "s \<noteq> []"
  shows "domain_new s = Inr (DomainName s)" "labels (DomainName s) = [s]"
proof -
  have "dot \<notin> set s" using assms(1) by (auto simp: list_all_iff plain_char_def)
  then show "labels (DomainName s) = [s]" "domain_new s = Inr (DomainName s)"
    using assms by (auto simp: labels_def domain_new_Inr split_on_plain list_all_iff plain_char_def)
qed

lemma domain_tests_pass:
  "passes accepts_plain_ascii" "passes accepts_emoji_and_mixed_scripts" "passes rejects_empty"
  "passes rejects_control_chars" "passes rejects_empty_labels" "passes rejects_trailing_empty_label"
  "passes labels_splits_on_dot_in_order" "passes display_matches_as_str" "passes try_from_str_matches_new"
  "passes equal_domains_hash_and_order_consistently" "passes domain_error_messages_are_human_readable"
  by (simp_all add: accepts_plain_ascii_def accepts_emoji_and_mixed_scripts_def rejects_empty_def rejects_control_chars_def
      rejects_empty_labels_def rejects_trailing_empty_label_def labels_splits_on_dot_in_order_def display_matches_as_str_def
      try_from_str_matches_new_def equal_domains_hash_and_order_consistently_def
      domain_error_messages_are_human_readable_def domain_new_def lit_def fire_def marhaba_def refused_char_def is_control_def
      labels_def domain_display_def domain_try_from_def less_domain_name_def show_nat.simps)

lemma long_name_tests_pass:
  "passes accepts_heavy_zalgo_stacking_with_no_length_cap"
  "passes accepts_arbitrarily_long_names"
  "passes accepts_rtl_and_ltr_intermixed_within_one_label"
proof -
  let ?marks = "[0x301, 0x316, 0x327, 0x353] :: nat list"
  have "?marks ! (i mod 4) \<in> set ?marks" for i by (rule nth_mem) simp
  moreover have "\<forall>c \<in> set ?marks. plain_char c" by (simp add: plain_char_def refused_char_def is_control_def)
  ultimately have "plain_char (?marks ! (i mod 4))" for i by blast
  then have "list_all plain_char (lit ''e'' @ map (\<lambda>i. ?marks ! (i mod 4)) [0..<5000])"
    by (simp add: list_all_iff) (simp add: lit_def plain_char_def refused_char_def is_control_def)
  from plain_domain(1) [OF this] show "passes accepts_heavy_zalgo_stacking_with_no_length_cap"
    by (simp add: accepts_heavy_zalgo_stacking_with_no_length_cap_def Let_def lit_def del: upt_rec_numeral)
  have "list_all plain_char (concat (replicate n (lit ''a'')))" for n
    by (induction n) (simp_all add: lit_def plain_char_def refused_char_def is_control_def)
  from plain_domain(1) [OF this] show "passes accepts_arbitrarily_long_names"
    by (simp add: accepts_arbitrarily_long_names_def lit_def)
  have "list_all plain_char (lit ''hello'' @ marhaba @ fire @ lit ''world'')"
    by (simp add: lit_def marhaba_def fire_def plain_char_def refused_char_def is_control_def)
  from plain_domain [OF this] show "passes accepts_rtl_and_ltr_intermixed_within_one_label"
    by (simp add: accepts_rtl_and_ltr_intermixed_within_one_label_def Let_def fire_def)
qed

lemma gossip_test_names [simp]:
  "domain_new (lit ''example.binda'') = Inr (DomainName (lit ''example.binda''))"
  "domain_new (lit ''requested.binda'') = Inr (DomainName (lit ''requested.binda''))"
  "domain_new (lit ''unrequested.binda'') = Inr (DomainName (lit ''unrequested.binda''))"
  by (rule domain_new_lit; simp add: lit_def refused_char_def is_control_def)+

lemma numbered_domains_eq: "numbered_domains js = Some (map (\<lambda>i. DomainName (numbered_name ''d'' i)) js)"
proof -
  have "domain_new (numbered_name ''d'' i) = Inr (DomainName (numbered_name ''d'' i))" for i
    by (rule numbered_name_ok) (simp_all add: lit_def plain_char_def refused_char_def is_control_def)
  then show ?thesis by (induction js) simp_all
qed

lemma oversized_tests_pass:
  "passes oversized_digest_is_rejected"
  "passes (oversized_request_is_rejected challenge)"
  "passes (oversized_rumors_is_rejected answer drawn)"
  by (simp_all add: oversized_digest_is_rejected_def oversized_request_is_rejected_def oversized_rumors_is_rejected_def
      numbered_domains_eq Let_def)

lemma gossip_tests_pass:
  "passes normal_digest_is_accepted"
  "passes (normal_request_is_accepted challenge)"
  "passes (normal_rumors_is_accepted answer drawn)"
  "passes duplicate_domains_are_not_well_formed"
  "passes (rumor_response_must_be_request_scoped_and_unique drawn)"
  "passes (conformance_challenge_has_exactly_one_correct_answer drawn drawn' coin)"
  using expected_answer_in
  by (simp_all add: normal_digest_is_accepted_def normal_request_is_accepted_def normal_rumors_is_accepted_def
      duplicate_domains_are_not_well_formed_def rumor_response_must_be_request_scoped_and_unique_def
      conformance_challenge_has_exactly_one_correct_answer_def max_digest_entries_def max_request_entries_def
      is_valid_rumor_response_def bare_rumor_def expected_answer_def Let_def)

text \<open>A draw whose first token is the right answer, and one whose second is.\<close>

definition first_wins :: "bytes \<times> bytes \<times> bool \<Rightarrow> bool" where
  "first_wins draw = (case draw of (drawn, drawn', coin) \<Rightarrow> if coin then drawn' \<le> drawn else drawn \<le> drawn')"

lemma same_time_key_le:
  "raw_ordering_key (token_issue drawn t) \<le> raw_ordering_key (token_issue drawn' t) \<longleftrightarrow> drawn \<le> drawn'"
  unfolding linorder_not_less [symmetric] raw_ordering_key_less by (simp add: token_issue_def)

lemma token_issue_eq: "token_issue drawn t = token_issue drawn' t \<longleftrightarrow> drawn = drawn'"
  by (simp add: token_issue_def)

lemma first_wins_answer:
  "expected_answer (challenge_random drawn drawn' coin t) = token_issue drawn t \<longleftrightarrow> first_wins (drawn, drawn', coin) \<or> drawn = drawn'"
  by (cases coin)
    (auto simp: expected_answer_def challenge_random_def win_condition_random_def first_wins_def same_time_key_le token_issue_eq)

lemma wrong_answer_rounds_pass:
  assumes "\<forall>(drawn, drawn', coin) \<in> set draws. drawn \<noteq> drawn'"
    and "saw_a \<or> (\<exists>x \<in> set draws. first_wins x)" "saw_b \<or> (\<exists>x \<in> set draws. \<not> first_wins x)"
  shows "passes (wrong_answer_rounds i draws saw_a saw_b)"
  using assms
proof (induction draws arbitrary: i saw_a saw_b)
  case (Cons x draws)
  obtain drawn drawn' coin where x: "x = (drawn, drawn', coin)" by (cases x)
  let ?c = "challenge_random drawn drawn' coin (of_nat i)"
  have differ: "drawn \<noteq> drawn'" "token_a ?c \<noteq> token_b ?c" "token_a ?c = token_issue drawn (of_nat i)"
    using Cons.prems(1) by (auto simp: x challenge_random_def token_issue_def)
  have answer: "expected_answer ?c = token_a ?c \<longleftrightarrow> first_wins x"
    using differ(1) first_wins_answer [of drawn drawn' coin "of_nat i"] by (simp add: x differ(3))
  then have wrong: "\<not> first_wins x \<Longrightarrow> expected_answer ?c = token_b ?c"
    using expected_answer_in [of ?c] by auto
  show ?case
  proof (cases "first_wins x")
    case True
    with Cons.IH [of True saw_b "Suc i"] Cons.prems answer differ(2) show ?thesis by (auto simp: x Let_def)
  next
    case False
    with Cons.IH [of saw_a True "Suc i"] Cons.prems answer wrong differ(2) show ?thesis by (auto simp: x Let_def)
  qed
qed simp

lemma register_up_to_all:
  "is_live lv c time \<Longrightarrow> count_of lv (client_quota_key c) + n \<le> 5 \<Longrightarrow>
    \<exists>lv'. register_up_to n c time lv = Some lv' \<and> count_of lv' (client_quota_key c) = count_of lv (client_quota_key c) + n"
proof (induction n arbitrary: lv)
  case (Suc n)
  then have "can_register lv c time"
    by (simp add: can_register_def registration_count_eq max_registrations_per_client_def)
  with Suc.IH [of "increment_registration c lv"] Suc.prems show ?case by (simp add: check_def)
qed simp

lemma registration_cap_passes: "passes (registration_cap_enforced k)"
proof -
  let ?lv = "record_probe (test_client k) (frozen 0) tracker_new"
  have "is_live ?lv (test_client k) (frozen 0)" by (simp add: is_live_iff)
  then obtain lv where "register_up_to 5 (test_client k) (frozen 0) ?lv = Some lv" "count_of lv (lit ''host.example.net'') = 5"
    using register_up_to_all [of ?lv "test_client k" "frozen 0" 5] by auto
  then show ?thesis
    by (simp add: registration_cap_enforced_def can_register_def registration_count_eq max_registrations_per_client_def Let_def)
qed

lemma liveness_tests_pass:
  "passes (client_is_live_immediately_after_probe k)"
  "passes (client_goes_stale_after_window k)"
  "passes (never_probed_client_is_not_live k)"
  "passes (registration_count_starts_at_zero k)"
  "passes (clear_registrations_resets_count k)"
  "passes (forget_client_by_key_clears_both_count_and_liveness k)"
  by (simp_all add: client_is_live_immediately_after_probe_def client_goes_stale_after_window_def
      never_probed_client_is_not_live_def registration_count_starts_at_zero_def
      clear_registrations_resets_count_def forget_client_by_key_clears_both_count_and_liveness_def
      is_live_iff can_register_def registration_count_eq Let_def)

lemma expired_clients_passes: "passes (expired_clients_lists_only_stale_ones k fresh_key)"
proof -
  have "client_quota_key (client_new pk (lit ''fresh.example.net'')) = lit ''fresh.example.net''" for pk
    by (simp add: client_quota_key_def client_new_def lit_def trim_def trim_end_matches_def
      to_ascii_lowercase_def ascii_lower_def is_whitespace_def)
  then show ?thesis
    by (simp add: expired_clients_lists_only_stale_ones_def expired_clients_def record_probe_def tracker_new_def
        hm_insert_def liveness_window_millis_def saturating_sub_def Let_def)
qed

lemma system_clock_passes:
  "1700000000001 \<le> ns div 1000000 \<Longrightarrow> ns div 1000000 < 2 ^ 64 \<Longrightarrow>
    passes (system_time_source_reports_plausible_unix_time (Some ns))"
  by (simp add: system_time_source_reports_plausible_unix_time_def system_now_millis_def word_less_nat_alt unat_of_nat)

text \<open>What the tests rely on of the JSON crate: the small digest is printed and read back, the name of the large
  one is printed with all its bytes, and the malformed text is refused.\<close>

definition test_digest :: "rstring \<Rightarrow> u64 \<Rightarrow> gossip_message" where
  "test_digest name t = Digest [\<lparr>entry_domain = DomainName name, entry_issued_at_millis = t\<rparr>]"

definition frame_codec :: "(gossip_message \<Rightarrow> 'e + bytes) \<Rightarrow> (bytes \<Rightarrow> 'e + gossip_message) \<Rightarrow> bool" where
  "frame_codec to_vec from_slice \<longleftrightarrow>
    (case to_vec (test_digest (lit ''example.binda'') 42) of
      Inr bs \<Rightarrow> length bs \<le> 65507 \<and> from_slice bs = Inr (test_digest (lit ''example.binda'') 42) | Inl _ \<Rightarrow> False) \<and>
    (case to_vec (test_digest (replicate 65507 97) 0) of
      Inr bs \<Rightarrow> 65507 < length bs | Inl _ \<Rightarrow> False) \<and>
    \<not> is_ok (from_slice (utf8 (lit ''{ this is not valid json'')))"

lemma concat_replicate_one: "concat (replicate n [x]) = replicate n x"
  by (induction n) simp_all

lemma wire_tests_pass:
  assumes "frame_codec to_vec from_slice"
  shows "passes (round_trips_a_gossip_message to_vec from_slice)" "passes (rejects_oversized_message_on_encode to_vec)"
    "passes (rejects_undecodable_json from_slice)" "passes (wire_error_messages_are_human_readable show_error from_slice)"
    "passes (rejects_oversized_input from_slice)"
proof -
  let ?m = "test_digest (lit ''example.binda'') 42" and ?big = "test_digest (replicate 65507 97) 0"
  from assms obtain bs where bs: "to_vec ?m = Inr bs" "length bs \<le> 65507" "from_slice bs = Inr ?m"
    by (auto simp: frame_codec_def split: sum.splits)
  from assms obtain large where large: "to_vec ?big = Inr large" "65507 < length large"
    by (auto simp: frame_codec_def split: sum.splits)
  from bs show "passes (round_trips_a_gossip_message to_vec from_slice)"
    by (simp add: round_trips_a_gossip_message_def test_digest_def encode_def decode_def max_datagram_bytes_def Let_def)
  have "concat (replicate max_datagram_bytes (lit ''a'')) = replicate 65507 97"
    by (simp add: max_datagram_bytes_def lit_def concat_replicate_one)
  moreover have "domain_new (replicate 65507 97) = Inr (DomainName (replicate 65507 97))"
    by (rule plain_domain) (simp_all add: list_all_iff plain_char_def refused_char_def is_control_def)
  ultimately show "passes (rejects_oversized_message_on_encode to_vec)"
    using large by (simp add: rejects_oversized_message_on_encode_def test_digest_def encode_def max_datagram_bytes_def Let_def)
  show "passes (rejects_undecodable_json from_slice)"
    using assms by (cases "from_slice (utf8 (lit ''{ this is not valid json''))")
      (simp_all add: rejects_undecodable_json_def decode_def frame_codec_def max_datagram_bytes_def, simp add: lit_def utf8_char_def)
  have big: "decode from_slice (replicate (max_datagram_bytes + 1) 0) = Inl (TooLarge 65508 65507)"
    by (simp add: decode_def max_datagram_bytes_def)
  then show "passes (rejects_oversized_input from_slice)" by (simp add: rejects_oversized_input_def)
  have "lit '' bytes exceeds the '' = lit '' bytes '' @ lit ''exceeds'' @ lit '' the ''" by (simp add: lit_def)
  then have "wire_error_text show_error (TooLarge 65508 65507) =
      (lit ''encoded message of '' @ show_nat 65508 @ lit '' bytes '') @ lit ''exceeds'' @
      (lit '' the '' @ show_nat 65507 @ lit '' byte limit'')" by simp
  then have "str_contains (wire_error_text show_error (TooLarge 65508 65507)) (lit ''exceeds'')"
    by (simp only: contains_middle)
  with big show "passes (wire_error_messages_are_human_readable show_error from_slice)"
    by (simp add: wire_error_messages_are_human_readable_def)
qed

section \<open>The suite\<close>

text \<open>Draws in which the generator does its work: the two nonces of a challenge differ, each face of the coin
  comes up, and each token is the right answer once.\<close>

definition fair_draws :: "(bytes \<times> bytes \<times> bool) list \<Rightarrow> bool" where
  "fair_draws draws \<longleftrightarrow> list_all (\<lambda>(drawn, drawn', coin). drawn \<noteq> drawn') (take 200 draws) \<and>
    list_ex (\<lambda>(drawn, drawn', coin). coin) (take 200 draws) \<and> list_ex (\<lambda>(drawn, drawn', coin). \<not> coin) (take 200 draws) \<and>
    list_ex first_wins (take 200 draws) \<and> list_ex (\<lambda>x. \<not> first_wins x) (take 200 draws)"

definition data_tests ::
  "signing_key \<Rightarrow> signing_key \<Rightarrow> (bytes \<times> bytes \<times> bool) list \<Rightarrow> bytes \<Rightarrow> (nat \<Rightarrow> bytes) \<Rightarrow> nat \<Rightarrow> unit_test list" where
  "data_tests k k' draws answer drawn since_epoch_nanos =
    (let (n1, n2, coin) = hd draws; challenge = challenge_random n1 n2 coin 0
     in [tokens_are_distinct n1 n2, raw_ordering_key_encodes_timestamp_then_nonce_big_endian,
         later_timestamp_sorts_higher_in_ordering_key,
         negotiation_terminates_and_is_deterministic_given_agreement n1 n2,
         mutually_derived_outcome_is_symmetric_and_convergent, resolve_higher_wins_picks_greater_key,
         resolve_is_reflexive_for_equal_tokens, resolve_lower_wins_picks_lesser_key_regardless_of_argument_order,
         negotiation_proposals_increment_round coin coin, check_agreement_requires_same_round_and_condition,
         win_condition_random_produces_both_variants_eventually (map (\<lambda>(_, _, coin). coin) draws),
         accepts_plain_ascii, accepts_emoji_and_mixed_scripts, accepts_heavy_zalgo_stacking_with_no_length_cap,
         accepts_arbitrarily_long_names, accepts_rtl_and_ltr_intermixed_within_one_label, rejects_empty,
         rejects_control_chars, rejects_empty_labels, rejects_trailing_empty_label, labels_splits_on_dot_in_order,
         display_matches_as_str, try_from_str_matches_new, equal_domains_hash_and_order_consistently,
         domain_error_messages_are_human_readable, oversized_digest_is_rejected, normal_digest_is_accepted,
         oversized_request_is_rejected challenge, normal_request_is_accepted challenge,
         oversized_rumors_is_rejected answer drawn, normal_rumors_is_accepted answer (drawn 0),
         duplicate_domains_are_not_well_formed, rumor_response_must_be_request_scoped_and_unique (drawn 0),
         conformance_challenge_has_exactly_one_correct_answer n1 n2 coin,
         wrong_challenge_answer_is_distinguishable_from_correct draws,
         client_is_live_immediately_after_probe k, client_goes_stale_after_window k, registration_cap_enforced k,
         never_probed_client_is_not_live k, registration_count_starts_at_zero k, clear_registrations_resets_count k,
         forget_client_by_key_clears_both_count_and_liveness k, expired_clients_lists_only_stale_ones k k',
         system_time_source_reports_plausible_unix_time (Some since_epoch_nanos)])"

definition frame_tests ::
  "('e \<Rightarrow> rstring) \<Rightarrow> (gossip_message \<Rightarrow> 'e + bytes) \<Rightarrow> (bytes \<Rightarrow> 'e + gossip_message) \<Rightarrow> unit_test list" where
  "frame_tests show_error to_vec from_slice =
    [round_trips_a_gossip_message to_vec from_slice, rejects_oversized_message_on_encode to_vec,
     rejects_undecodable_json from_slice, wire_error_messages_are_human_readable show_error from_slice,
     rejects_oversized_input from_slice]"

lemma frame_suite: "frame_codec to_vec from_slice \<Longrightarrow> list_all passes (frame_tests show_error to_vec from_slice)"
  using wire_tests_pass [of to_vec from_slice] by (simp add: frame_tests_def)

lemma data_suite:
  assumes "fair_draws draws" "1700000000001 \<le> since_epoch_nanos div 1000000" "since_epoch_nanos div 1000000 < 2 ^ 64"
  shows "list_all passes (data_tests k k' draws answer drawn since_epoch_nanos)"
proof -
  from assms(1) obtain x rest where draws: "draws = x # rest" by (cases draws) (auto simp: fair_draws_def)
  obtain n1 n2 coin where x: "x = (n1, n2, coin)" by (cases x)
  have "n1 \<noteq> n2" using assms(1) by (simp add: fair_draws_def draws x)
  moreover have "passes (wrong_challenge_answer_is_distinguishable_from_correct draws)"
    unfolding wrong_challenge_answer_is_distinguishable_from_correct_def
    by (rule wrong_answer_rounds_pass) (use assms(1) in \<open>auto simp: fair_draws_def list_all_iff list_ex_iff\<close>)
  moreover have "passes (win_condition_random_produces_both_variants_eventually (map (\<lambda>(_, _, coin). coin) draws))"
  proof (rule both_faces_pass)
    define ds where "ds = take 200 draws"
    have "list_ex (\<lambda>(_, _, coin). coin) ds" "list_ex (\<lambda>(_, _, coin). \<not> coin) ds"
      using assms(1) by (simp_all add: fair_draws_def ds_def)
    then obtain a b a' b' where "(a, b, True) \<in> set ds" "(a', b', False) \<in> set ds"
      unfolding list_ex_iff by auto
    from imageI [OF this(1), of "\<lambda>(_, _, coin). coin"] imageI [OF this(2), of "\<lambda>(_, _, coin). coin"]
    have "{True, False} \<subseteq> (\<lambda>(_, _, coin). coin) ` set ds" by simp
    then show "{True, False} \<subseteq> set (take 200 (map (\<lambda>(_, _, coin). coin) draws))"
      by (simp add: take_map ds_def)
  qed
  ultimately show ?thesis
    using assms(2,3)
    by (simp add: data_tests_def Let_def draws x token_tests_pass resolve_tests_pass negotiation_tests_pass domain_tests_pass
        long_name_tests_pass oversized_tests_pass gossip_tests_pass liveness_tests_pass registration_cap_passes
        expired_clients_passes system_clock_passes)
qed


end
