(* ===== verification/Zone_Tests.thy ===== *)
theory Zone_Tests
  imports Test_Kit
begin

text \<open>
  The unit tests of \<open>zone.rs\<close>. The TOML crate is a parameter; what the tests rely on of it is
  \<open>toml_reads\<close>: it reads back the zone it printed, takes a zone file without records as one with none, and
  refuses three texts.
\<close>

section \<open>The tests\<close>

definition test_soa :: start_of_authority where
  "test_soa = \<lparr>primary_nameserver = lit ''ns1.example.binda'', admin_email = lit ''admin.example.binda'', serial = 1,
    refresh_secs = 3600, retry_secs = 600, expire_secs = 604800, minimum_ttl_secs = 300\<rparr>"

definition test_zone :: zone_file where
  "test_zone = \<lparr>zone_soa = test_soa, zone_records = [test_a_record (lit ''203.0.113.10'')]\<rparr>"

definition round_trips_through_toml ::
  "(rstring \<Rightarrow> 'de + zone_file) \<Rightarrow> (zone_file \<Rightarrow> 'ser + rstring) \<Rightarrow> unit_test" where
  "round_trips_through_toml from_str to_string_pretty = do {
     toml_str \<leftarrow> unwrap (to_toml to_string_pretty test_zone :: ('de, 'ser) zone_file_error + rstring);
     parsed \<leftarrow> unwrap (from_toml from_str toml_str :: ('de, 'ser) zone_file_error + zone_file);
     check (test_zone = parsed)
   }"

text \<open>The text of the raw string literal: every line follows a line break and twelve spaces.\<close>

definition soa_only :: rstring where
  "soa_only = concat (map (\<lambda>l. 10 # replicate 12 32 @ lit l)
     [''[soa]'', ''primary_nameserver = \"ns1.example.binda\"'', ''admin_email = \"admin.example.binda\"'', ''serial = 1'',
      ''refresh_secs = 3600'', ''retry_secs = 600'', ''expire_secs = 604800'', ''minimum_ttl_secs = 300'']) @
    10 # replicate 8 32"

definition defaults_records_to_empty_when_omitted :: "(rstring \<Rightarrow> 'de + zone_file) \<Rightarrow> unit_test" where
  "defaults_records_to_empty_when_omitted from_str = do {
     zone \<leftarrow> unwrap (from_toml from_str soa_only :: ('de, unit) zone_file_error + zone_file);
     check (zone_records zone = [])
   }"

definition is_parse_error :: "('de, unit) zone_file_error + zone_file \<Rightarrow> bool" where
  "is_parse_error result = (case result of Inl (Parse _) \<Rightarrow> True | _ \<Rightarrow> False)"

definition rejects_malformed_toml :: "(rstring \<Rightarrow> 'de + zone_file) \<Rightarrow> unit_test" where
  "rejects_malformed_toml from_str =
    check (is_parse_error (from_toml from_str (lit ''this is not valid toml {{{'')))"

definition missing_fields :: rstring where
  "missing_fields = lit ''[soa]'' @ 10 # lit ''primary_nameserver = \"ns1.example.binda\"''"

definition rejects_missing_required_field :: "(rstring \<Rightarrow> 'de + zone_file) \<Rightarrow> unit_test" where
  "rejects_missing_required_field from_str = check (is_parse_error (from_toml from_str missing_fields))"

definition zone_error_messages_are_human_readable :: "('de \<Rightarrow> rstring) \<Rightarrow> (rstring \<Rightarrow> 'de + zone_file) \<Rightarrow> unit_test" where
  "zone_error_messages_are_human_readable show_de from_str = do {
     err \<leftarrow> (case from_toml from_str (lit ''not toml {{{'') of Inl e \<Rightarrow> Some e | Inr _ \<Rightarrow> None);
     check (str_starts_with (zone_file_error_text show_de (\<lambda>_ :: unit. []) err) (lit ''failed to parse TOML zone file''))
   }"

section \<open>They pass\<close>

definition toml_reads :: "(rstring \<Rightarrow> 'de + zone_file) \<Rightarrow> (zone_file \<Rightarrow> 'ser + rstring) \<Rightarrow> bool" where
  "toml_reads from_str to_string_pretty \<longleftrightarrow>
    (case to_string_pretty test_zone of Inr s \<Rightarrow> from_str s = Inr test_zone | Inl _ \<Rightarrow> False) \<and>
    from_str soa_only = Inr \<lparr>zone_soa = test_soa, zone_records = []\<rparr> \<and>
    list_all (\<lambda>s. \<not> is_ok (from_str s)) [lit ''this is not valid toml {{{'', missing_fields, lit ''not toml {{{'']"

definition zone_tests ::
  "('de \<Rightarrow> rstring) \<Rightarrow> (rstring \<Rightarrow> 'de + zone_file) \<Rightarrow> (zone_file \<Rightarrow> 'ser + rstring) \<Rightarrow> unit_test list" where
  "zone_tests show_de from_str to_string_pretty =
    [round_trips_through_toml from_str to_string_pretty, defaults_records_to_empty_when_omitted from_str,
     rejects_malformed_toml from_str, rejects_missing_required_field from_str,
     zone_error_messages_are_human_readable show_de from_str]"

lemma zone_suite: "toml_reads from_str to_string_pretty \<Longrightarrow> list_all passes (zone_tests show_de from_str to_string_pretty)"
  by (auto simp: zone_tests_def toml_reads_def round_trips_through_toml_def defaults_records_to_empty_when_omitted_def
      rejects_malformed_toml_def rejects_missing_required_field_def zone_error_messages_are_human_readable_def
      is_parse_error_def from_toml_def to_toml_def is_ok_def str_starts_with_def lit_def split: sum.splits)

end
