(* ===== verification/Dns_Tests.thy ===== *)
theory Dns_Tests
  imports Test_Kit Demo
begin

text \<open>
  The unit tests of \<open>binda-core/src/dns.rs\<close>. A panic on an index out of range is \<open>None\<close>, as
  is one of \<open>unwrap\<close>.
\<close>

section \<open>Messages of the tests\<close>

definition build_query_bytes :: "u16 \<Rightarrow> rstring \<Rightarrow> u16 \<Rightarrow> bytes" where
  "build_query_bytes i name qtype =
    u16_be i @ u16_be 0x0100 @ u16_be 1 @ replicate 6 0 @
    concat (map (\<lambda>label. u32_be (of_nat (length (utf8 label))) @ utf8 label) (split_on dot name)) @
    u32_be 0 @ u16_be qtype @ u16_be class_in"

definition test_query :: "u16 \<Rightarrow> domain_name \<Rightarrow> u16 \<Rightarrow> dns_query" where
  "test_query i d qtype = \<lparr>dq_id = i, dq_domain = d, dq_qtype = qtype, dq_qclass = class_in\<rparr>"

definition test_record :: "string \<Rightarrow> record_type \<Rightarrow> rstring \<Rightarrow> zone_record" where
  "test_record name t v = \<lparr>record_name = lit name, record_type_of = t, ttl_secs = 300, record_value = v\<rparr>"

section \<open>Tests of the parser\<close>

definition parses_plain_ascii_query :: unit_test where
  "parses_plain_ascii_query = do {
     let bs = build_query_bytes 0x1234 (lit ''example.binda'') type_a;
     query \<leftarrow> unwrap (parse_query bs);
     check (dq_id query = 0x1234);
     check (as_str (dq_domain query) = lit ''example.binda'');
     check (dq_qtype query = type_a)
   }"

definition parses_unicode_query_as_native_utf8_no_punycode :: unit_test where
  "parses_unicode_query_as_native_utf8_no_punycode = do {
     let bs = build_query_bytes 1 (fire @ lit ''.binda'') type_a;
     check (\<not> any_window bs (utf8 (lit ''xn--'')));
     query \<leftarrow> unwrap (parse_query bs);
     check (as_str (dq_domain query) = fire @ lit ''.binda'')
   }"

definition parses_mixed_script_query :: unit_test where
  "parses_mixed_script_query = do {
     let bs = build_query_bytes 2 (marhaba @ lit ''.binda'') type_a;
     query \<leftarrow> unwrap (parse_query bs);
     check (as_str (dq_domain query) = marhaba @ lit ''.binda'')
   }"

definition round_trips_intermixed_bidi_and_zalgo_label_on_the_wire :: unit_test where
  "round_trips_intermixed_bidi_and_zalgo_label_on_the_wire = do {
     let label = lit ''hello'' @ marhaba @ lit ''e'' @ [0x301, 0x316, 0x327] @ fire @ lit ''world'';
     let bs = build_query_bytes 3 label type_a;
     query \<leftarrow> unwrap (parse_query bs);
     check (as_str (dq_domain query) = label);
     let response = build_response query False [];
     reparsed \<leftarrow> unwrap (parse_query response);
     check (as_str (dq_domain reparsed) = label)
   }"

definition accepts_a_label_far_longer_than_dns_would_allow :: unit_test where
  "accepts_a_label_far_longer_than_dns_would_allow = do {
     let long_label = concat (replicate 10000 (lit ''a''));
     let bs = build_query_bytes 9 (long_label @ lit ''.binda'') type_a;
     query \<leftarrow> unwrap (parse_query bs);
     check (length (utf8 (hd (labels (dq_domain query)))) = 10000);
     let response = build_response query False [];
     reparsed \<leftarrow> unwrap (parse_query response);
     check (length (utf8 (hd (labels (dq_domain reparsed)))) = 10000)
   }"

definition parse_query_rejects_short_message :: unit_test where
  "parse_query_rejects_short_message = check (parse_query (replicate 4 0) = Inl TooShort)"

definition parse_query_rejects_multi_question_messages :: unit_test where
  "parse_query_rejects_multi_question_messages = do {
     let bs = build_query_bytes 1 (lit ''example.binda'') type_a;
     let bs = bs[5 := 2];
     check (parse_query bs = Inl UnsupportedQuestionCount)
   }"

text \<open>\<open>vec![0u8; 12]\<close> with \<open>bytes[4..6]\<close> set to one question.\<close>

definition one_question_header :: bytes where
  "one_question_header = replicate 4 0 @ u16_be 1 @ replicate 6 0"

definition parse_query_rejects_truncated_label :: unit_test where
  "parse_query_rejects_truncated_label = do {
     let bs = one_question_header;
     let bs = bs @ u32_be 10;
     let bs = bs @ utf8 (lit ''ab'');
     check (parse_query bs = Inl MalformedLabel)
   }"

definition parse_query_rejects_invalid_utf8_label :: unit_test where
  "parse_query_rejects_invalid_utf8_label = do {
     let bs = one_question_header;
     let invalid = [0xFF, 0xFE];
     let bs = bs @ u32_be (of_nat (length invalid)) @ invalid @ u32_be 0 @ u16_be type_a @ u16_be class_in;
     check (parse_query bs = Inl InvalidUtf8)
   }"

definition parse_query_rejects_invalid_domain :: unit_test where
  "parse_query_rejects_invalid_domain = do {
     let bs = one_question_header;
     let bs = bs @ u32_be 0 @ u16_be type_a @ u16_be class_in;
     check (case parse_query bs of Inl (InvalidDomain _) \<Rightarrow> True | _ \<Rightarrow> False)
   }"

definition dns_error_messages_are_human_readable :: unit_test where
  "dns_error_messages_are_human_readable = do {
     check (dns_error_text TooShort = lit ''message shorter than a header'');
     check (dns_error_text UnsupportedQuestionCount = lit ''message does not contain exactly one question'')
   }"

section \<open>Tests of the responses\<close>

definition response_echoes_unicode_labels_as_raw_utf8 :: unit_test where
  "response_echoes_unicode_labels_as_raw_utf8 = do {
     d \<leftarrow> unwrap (domain_new (fire @ lit ''.binda''));
     let response = build_response (test_query 5 d type_a) False [];
     check (\<not> any_window response (utf8 (lit ''xn--'')));
     let raw = utf8 fire;
     len_field \<leftarrow> get_range response 12 4;
     check (unat (u32_of_be len_field) = length raw);
     raw_label \<leftarrow> get_range response 16 (length raw);
     check (raw_label = raw)
   }"

definition builds_nxdomain_response_for_unknown_domain :: unit_test where
  "builds_nxdomain_response_for_unknown_domain = do {
     d \<leftarrow> unwrap (domain_new (lit ''example.binda''));
     let response = build_response (test_query 7 d type_a) False [];
     flags \<leftarrow> u16_at response 2;
     check (flags AND 0x000F = rcode_nxdomain)
   }"

definition builds_answer_with_a_record :: unit_test where
  "builds_answer_with_a_record = do {
     d \<leftarrow> unwrap (domain_new (lit ''example.binda''));
     let response = build_response (test_query 7 d type_a) True [test_record ''@'' RecA (lit ''203.0.113.10'')];
     ancount \<leftarrow> u16_at response 6;
     check (ancount = 1);
     check (str_ends_with response [203, 0, 113, 10])
   }"

definition builds_answer_with_aaaa_record :: unit_test where
  "builds_answer_with_aaaa_record = do {
     d \<leftarrow> unwrap (domain_new (lit ''example.binda''));
     let response = build_response (test_query 1 d type_aaaa) True [test_record ''@'' RecAaaa (lit ''2001:db8::1'')];
     ancount \<leftarrow> u16_at response 6;
     check (ancount = 1)
   }"

definition builds_answer_with_cname_record :: unit_test where
  "builds_answer_with_cname_record = do {
     d \<leftarrow> unwrap (domain_new (lit ''www.example.binda''));
     let response = build_response (test_query 1 d type_cname) True [test_record ''www'' RecCname (lit ''example.binda'')];
     ancount \<leftarrow> u16_at response 6;
     check (ancount = 1)
   }"

definition builds_answer_with_ns_record :: unit_test where
  "builds_answer_with_ns_record = do {
     d \<leftarrow> unwrap (domain_new (lit ''example.binda''));
     let response = build_response (test_query 1 d type_ns) True [test_record ''@'' RecNs (lit ''ns1.example.binda'')];
     ancount \<leftarrow> u16_at response 6;
     check (ancount = 1);
     check (record_matches_qtype (test_record ''@'' RecNs (lit ''ns1.example.binda'')) type_ns)
   }"

definition builds_answer_with_mx_record_parsing_preference_prefix :: unit_test where
  "builds_answer_with_mx_record_parsing_preference_prefix = do {
     d \<leftarrow> unwrap (domain_new (lit ''example.binda''));
     let response = build_response (test_query 1 d type_mx) True [test_record ''@'' RecMx (lit ''10 mail.example.binda'')];
     ancount \<leftarrow> u16_at response 6;
     check (ancount = 1);
     check (any_window response ([0, 10, 0, 0, 0, 4] @ utf8 (lit ''mai'')))
   }"

definition builds_answer_with_txt_record_longer_than_255_bytes :: unit_test where
  "builds_answer_with_txt_record_longer_than_255_bytes = do {
     d \<leftarrow> unwrap (domain_new (lit ''example.binda''));
     let long_value = concat (replicate 300 (lit ''a''));
     let response = build_response (test_query 1 d type_txt) True [test_record ''@'' RecTxt long_value];
     ancount \<leftarrow> u16_at response 6;
     check (ancount = 1);
     check (response \<noteq> [])
   }"

definition skips_record_with_unencodable_rdata_without_corrupting_the_message :: unit_test where
  "skips_record_with_unencodable_rdata_without_corrupting_the_message = do {
     d \<leftarrow> unwrap (domain_new (lit ''example.binda''));
     let response = build_response (test_query 1 d type_a) True [test_record ''@'' RecA (lit ''not-an-ip-address'')];
     ancount \<leftarrow> u16_at response 6;
     check (ancount = 0);
     check (12 \<le> length response);
     check (length response = 12 + length (drop 12 response))
   }"

definition skipped_record_does_not_corrupt_subsequent_valid_answers :: unit_test where
  "skipped_record_does_not_corrupt_subsequent_valid_answers = do {
     d \<leftarrow> unwrap (domain_new (lit ''example.binda''));
     let bad_record = test_record ''@'' RecA (lit ''not-an-ip-address'');
     let good_record = test_record ''@'' RecA (lit ''203.0.113.10'');
     let response = build_response (test_query 1 d type_a) True [bad_record, good_record];
     ancount \<leftarrow> u16_at response 6;
     check (ancount = 1);
     check (str_ends_with response [203, 0, 113, 10])
   }"

definition record_matches_qtype_any_matches_everything :: unit_test where
  "record_matches_qtype_any_matches_everything = do {
     let r = test_record ''@'' RecTxt (lit ''hello'');
     check (record_matches_qtype r qtype_any);
     check (record_matches_qtype r type_txt);
     check (\<not> record_matches_qtype r type_a)
   }"

definition build_error_response_sets_qr_and_rcode :: unit_test where
  "build_error_response_sets_qr_and_rcode = do {
     let response = build_error_response 0x4242 rcode_format_error;
     check (length response = 12);
     query_id \<leftarrow> u16_at response 0;
     check (query_id = 0x4242);
     flags \<leftarrow> u16_at response 2;
     check (flags AND 0x8000 = 0x8000);
     check (flags AND 0x000F = rcode_format_error)
   }"

section \<open>The tests of the parser pass\<close>

lemmas byte_defs = u16_be_def u32_be_def be_bytes_numeral lit_def utf8_char_def

lemmas name_defs = domain_new_def wire_domain_def valid_domain_def labels_def valid_str_def scalar_def refused_char_def is_control_def
  fire_def marhaba_def

lemma test_domains [simp]:
  "domain_new (lit ''example.binda'') = Inr (DomainName (lit ''example.binda''))"
  "domain_new (lit ''www.example.binda'') = Inr (DomainName (lit ''www.example.binda''))"
  "domain_new (fire @ lit ''.binda'') = Inr (DomainName (fire @ lit ''.binda''))"
  by (simp_all add: name_defs lit_def)

lemma wire_test_domains [simp]:
  "wire_domain (DomainName (lit ''example.binda''))"
  "wire_domain (DomainName (lit ''www.example.binda''))"
  "wire_domain (DomainName (fire @ lit ''.binda''))"
  "wire_domain (DomainName (marhaba @ lit ''.binda''))"
  "wire_domain (DomainName (lit ''hello'' @ marhaba @ lit ''e'' @ [0x301, 0x316, 0x327] @ fire @ lit ''world''))"
  by (simp_all add: name_defs lit_def utf8_char_def)

lemma parse_built:
  assumes "wire_domain (DomainName name)"
  shows "parse_query (build_query_bytes i name t) = Inr (test_query i (DomainName name) t)"
  using parse_query_shape [OF assms, of "u16_be 0x0100" "replicate 6 0" i t class_in "[]"]
  by (simp add: build_query_bytes_def test_query_def encode_domain_labels_def encode_label_def labels_def cong: map_cong)

lemma parse_answered:
  "wire_domain d \<Longrightarrow> parse_query (build_response (test_query i d t) e rs) = Inr (test_query i d t)"
  using parse_build_response [of "test_query i d t" e rs] by (simp add: test_query_def)

lemma test_query_sel [simp]:
  "dq_id (test_query i d t) = i" "dq_domain (test_query i d t) = d" "dq_qtype (test_query i d t) = t"
  "dq_qclass (test_query i d t) = class_in"
  by (simp_all add: test_query_def)

lemma parse_tests_pass:
  "passes parses_plain_ascii_query"
  "passes parses_mixed_script_query"
  "passes round_trips_intermixed_bidi_and_zalgo_label_on_the_wire"
  by (simp_all only: parses_plain_ascii_query_def parses_mixed_script_query_def Let_def
      round_trips_intermixed_bidi_and_zalgo_label_on_the_wire_def parse_built wire_test_domains)
    (simp_all add: parse_answered [OF wire_test_domains(5) [simplified]])

lemma unicode_query_passes: "passes parses_unicode_query_as_native_utf8_no_punycode"
proof -
  have "\<not> any_window (build_query_bytes 1 (fire @ lit ''.binda'') type_a) (utf8 (lit ''xn--''))"
    by (simp add: any_window_def build_query_bytes_def byte_defs fire_def type_a_def class_in_def upt_rec)
  then show ?thesis
    by (simp add: parses_unicode_query_as_native_utf8_no_punycode_def parse_built)
qed

lemma parse_error_tests_pass:
  "passes parse_query_rejects_short_message"
  "passes parse_query_rejects_multi_question_messages"
  "passes parse_query_rejects_truncated_label"
  "passes parse_query_rejects_invalid_utf8_label"
  "passes parse_query_rejects_invalid_domain"
  "passes dns_error_messages_are_human_readable"
  by (simp_all add: parse_query_rejects_short_message_def parse_query_rejects_multi_question_messages_def
      parse_query_rejects_truncated_label_def parse_query_rejects_invalid_utf8_label_def
      parse_query_rejects_invalid_domain_def dns_error_messages_are_human_readable_def
      one_question_header_def parse_query_def byte_defs build_query_bytes_def Let_def
      u16_of_be_def be_value_def read_u32_def get_range_def u32_of_be_def parse_labels.simps [of _ 12] parse_labels.simps [of _ 18]
      read_u16_def domain_new_def utf8_step_def byte_at_def in_range_def from_utf8.simps nth_append type_a_def class_in_def)

section \<open>The tests of the responses pass\<close>

lemma response_header:
  "u16_at (build_response q e rs) 6 = Some (of_nat (length (answers_of (dq_domain q) rs)))"
  "12 \<le> length (build_response q e rs)"
  using response_count [of q e rs] by (simp_all add: u16_at_def build_response_def Let_def)

lemma response_flags: "u16_at (build_response q e rs) 2 = Some (0x8400 OR (if e then 0 else rcode_nxdomain))"
proof -
  let ?flags = "0x8400 OR (if e then 0 else rcode_nxdomain) :: u16"
  have "build_response q e rs ! 2 = u16_be ?flags ! 0" "build_response q e rs ! (2 + 1) = u16_be ?flags ! 1"
    by (simp_all add: build_response_def Let_def nth_append)
  moreover have "3 < length (build_response q e rs)" using response_header(2) [of q e rs] by simp
  ultimately show ?thesis unfolding u16_at_def by (simp add: u16_of_be_pair)
qed

text \<open>The data of the last record, when it encodes, ends the message.\<close>

lemma response_ends:
  assumes "encode_rdata r = Inr rdata"
  shows "str_ends_with (build_response q e (rs @ [r])) rdata"
proof -
  have "encode_answers d (rs @ [r]) = encode_answers d rs @ [encode_answer d r rdata]" for d
    using assms by (induction rs) (simp_all split: sum.split)
  then have "\<exists>pre. build_response q e (rs @ [r]) = pre @ rdata"
    by (simp add: build_response_def Let_def encode_answer_def)
  then show ?thesis by auto
qed

text \<open>The data of the test's records.\<close>

lemma test_rdata:
  "encode_rdata (test_record s RecA (lit ''203.0.113.10'')) = Inr [203, 0, 113, 10]"
  "encode_rdata (test_record s RecA (lit ''not-an-ip-address'')) = Inl MalformedLabel"
  "encode_rdata (test_record s RecAaaa (lit ''2001:db8::1'')) =
    Inr (concat (map u16_be [0x2001, 0xDB8, 0, 0, 0, 0, 0, 1]))"
  by (simp_all add: encode_rdata_def test_record_def address_eval utf8_char_def)

lemma test_name_rdata:
  "encode_rdata (test_record s RecCname (lit ''example.binda'')) =
    Inr (encode_domain_labels (DomainName (lit ''example.binda'')))"
  "encode_rdata (test_record s RecNs (lit ''ns1.example.binda'')) =
    Inr (encode_domain_labels (DomainName (lit ''ns1.example.binda'')))"
  "encode_rdata (test_record s RecMx (lit ''10 mail.example.binda'')) =
    Inr (u16_be 10 @ encode_domain_labels (DomainName (lit ''mail.example.binda'')))"
  "encode_rdata (test_record s RecTxt v) = Inr (encode_txt (utf8 v))"
proof -
  have "domain_new (lit ''ns1.example.binda'') = Inr (DomainName (lit ''ns1.example.binda''))"
    "domain_new (lit ''mail.example.binda'') = Inr (DomainName (lit ''mail.example.binda''))"
    by (simp_all add: name_defs lit_def)
  moreover have "split_once_space (lit ''10 mail.example.binda'') = Some (lit ''10'', lit ''mail.example.binda'')"
    "parse_u16 (lit ''10'') = Some 10"
    by (simp_all add: address_eval)
  ultimately show
    "encode_rdata (test_record s RecCname (lit ''example.binda'')) =
      Inr (encode_domain_labels (DomainName (lit ''example.binda'')))"
    "encode_rdata (test_record s RecNs (lit ''ns1.example.binda'')) =
      Inr (encode_domain_labels (DomainName (lit ''ns1.example.binda'')))"
    "encode_rdata (test_record s RecMx (lit ''10 mail.example.binda'')) =
      Inr (u16_be 10 @ encode_domain_labels (DomainName (lit ''mail.example.binda'')))"
    "encode_rdata (test_record s RecTxt v) = Inr (encode_txt (utf8 v))"
    by (simp_all add: encode_rdata_def test_record_def)
qed

lemma count_tests_pass:
  "passes builds_nxdomain_response_for_unknown_domain"
  "passes builds_answer_with_aaaa_record"
  "passes builds_answer_with_cname_record"
  "passes builds_answer_with_ns_record"
  "passes builds_answer_with_txt_record_longer_than_255_bytes"
  "passes skips_record_with_unencodable_rdata_without_corrupting_the_message"
  "passes record_matches_qtype_any_matches_everything"
proof -
  have some: "build_response q e rs \<noteq> []" for q e rs using response_header(2) [of q e rs] by auto
  note defs = response_header response_flags test_rdata test_name_rdata some Let_def
  show "passes builds_nxdomain_response_for_unknown_domain"
    by (simp add: builds_nxdomain_response_for_unknown_domain_def defs rcode_nxdomain_def)
  show "passes builds_answer_with_aaaa_record" by (simp add: builds_answer_with_aaaa_record_def defs)
  show "passes builds_answer_with_cname_record" by (simp add: builds_answer_with_cname_record_def defs)
  show "passes builds_answer_with_ns_record"
    by (simp add: builds_answer_with_ns_record_def defs record_matches_qtype_def) (simp add: test_record_def)
  show "passes builds_answer_with_txt_record_longer_than_255_bytes"
    by (simp add: builds_answer_with_txt_record_longer_than_255_bytes_def defs)
  show "passes skips_record_with_unencodable_rdata_without_corrupting_the_message"
    by (simp add: skips_record_with_unencodable_rdata_without_corrupting_the_message_def defs)
  show "passes record_matches_qtype_any_matches_everything"
    by (simp add: record_matches_qtype_any_matches_everything_def record_matches_qtype_def test_record_def type_txt_def type_a_def qtype_any_def)
qed

lemma address_tests_pass:
  "passes builds_answer_with_a_record"
  "passes skipped_record_does_not_corrupt_subsequent_valid_answers"
  using response_ends [OF test_rdata(1), of "test_query 7 (DomainName (lit ''example.binda'')) type_a" True "[]"]
    response_ends [OF test_rdata(1), of "test_query 1 (DomainName (lit ''example.binda'')) type_a" True
      "[test_record ''@'' RecA (lit ''not-an-ip-address'')]"]
  by (simp_all add: builds_answer_with_a_record_def skipped_record_does_not_corrupt_subsequent_valid_answers_def
      response_header test_rdata Let_def)

lemma error_response_passes: "passes build_error_response_sets_qr_and_rcode"
  by (simp add: build_error_response_sets_qr_and_rcode_def build_error_response_def u16_at_def byte_defs u16_of_be_def
      be_value_def rcode_format_error_def rcode_formerr_def Let_def)

lemma echo_passes: "passes response_echoes_unicode_labels_as_raw_utf8"
proof -
  let ?q = "test_query 5 (DomainName (fire @ lit ''.binda'')) type_a"
  have response: "build_response ?q False [] =
      u16_be 5 @ u16_be 0x8403 @ u16_be 1 @ u16_be 0 @ u16_be 0 @ u16_be 0 @
      encode_domain_labels (DomainName (fire @ lit ''.binda'')) @ u16_be 1 @ u16_be 1"
    by (simp add: build_response_def rcode_nxdomain_def type_a_def class_in_def)
  have bs: "build_response ?q False [] =
      [0, 5, 0x84, 3, 0, 1, 0, 0, 0, 0, 0, 0, 0, 0, 0, 4, 0xF0, 0x9F, 0x94, 0xA5, 0, 0, 0, 5, 98, 105, 110, 100, 97,
       0, 0, 0, 0, 0, 1, 0, 1]"
    unfolding response by (simp add: encode_domain_labels_def encode_label_def labels_def fire_def byte_defs)
  have no_ace: "\<not> any_window (build_response ?q False []) (utf8 (lit ''xn--''))"
    unfolding bs by (simp add: any_window_def byte_defs upt_rec)
  have raw: "utf8 fire = [0xF0, 0x9F, 0x94, 0xA5]" by (simp add: fire_def utf8_char_def)
  have "get_range (build_response ?q False []) 12 4 = Some [0, 0, 0, 4]"
    "get_range (build_response ?q False []) 16 (length (utf8 fire)) = Some (utf8 fire)"
    unfolding bs raw by (simp_all add: get_range_def)
  moreover have "unat (u32_of_be [0, 0, 0, 4]) = length (utf8 fire)"
    unfolding raw by (simp add: u32_of_be_def be_value_def)
  ultimately show ?thesis
    by (simp add: response_echoes_unicode_labels_as_raw_utf8_def Let_def no_ace)
qed

lemma mx_passes: "passes builds_answer_with_mx_record_parsing_preference_prefix"
proof -
  let ?r = "test_record ''@'' RecMx (lit ''10 mail.example.binda'')"
  let ?q = "test_query 1 (DomainName (lit ''example.binda'')) type_mx"
  let ?p = "[0, 10, 0, 0, 0, 4] @ utf8 (lit ''mai'') :: bytes"
  have "\<exists>rest. u16_be 10 @ encode_domain_labels (DomainName (lit ''mail.example.binda'')) = ?p @ rest"
    by (simp add: encode_domain_labels_def encode_label_def labels_def byte_defs)
  moreover have "\<exists>pre. build_response ?q True [?r] = pre @ u16_be 10 @ encode_domain_labels (DomainName (lit ''mail.example.binda''))"
    by (simp add: build_response_def Let_def test_name_rdata encode_answer_def)
  ultimately obtain pre rest where "build_response ?q True [?r] = pre @ ?p @ rest" by metis
  then have "any_window (build_response ?q True [?r]) ?p" using any_window_middle [of ?p pre rest] by simp
  then show ?thesis
    by (simp add: builds_answer_with_mx_record_parsing_preference_prefix_def response_header test_name_rdata)
qed

lemma long_label_passes: "passes accepts_a_label_far_longer_than_dns_would_allow"
proof -
  let ?l = "replicate 10000 97 :: rstring" and ?d = "DomainName (replicate 10000 97 @ lit ''.binda'')"
  have one: "concat (replicate n (lit ''a'')) = replicate n 97" for n by (induction n) (simp_all add: lit_def)
  have labels: "labels ?d = [?l, lit ''binda'']"
    using split_on_append [of dot ?l "lit ''binda''"] by (simp add: labels_def lit_def)
  have bytes: "utf8 (replicate n 97) = replicate n 97" for n by (induction n) (simp_all add: utf8_char_def)
  have "valid_str ?l" "list_all (\<lambda>c. \<not> refused_char c) ?l"
    by (simp_all add: valid_str_def list_all_iff scalar_def refused_char_def is_control_def)
  with labels bytes have "wire_domain ?d"
    by (simp add: wire_domain_def valid_domain_def domain_new_Inr labels_def)
      (simp add: lit_def utf8_char_def refused_char_def is_control_def scalar_def)
  then show ?thesis
    unfolding accepts_a_label_far_longer_than_dns_would_allow_def Let_def one
    by (simp add: parse_built parse_answered labels bytes)
qed

section \<open>The suite\<close>

definition dns_tests :: "unit_test list" where
  "dns_tests =
    [parses_plain_ascii_query, parses_unicode_query_as_native_utf8_no_punycode, parses_mixed_script_query,
     round_trips_intermixed_bidi_and_zalgo_label_on_the_wire, response_echoes_unicode_labels_as_raw_utf8,
     accepts_a_label_far_longer_than_dns_would_allow, builds_nxdomain_response_for_unknown_domain,
     builds_answer_with_a_record, builds_answer_with_aaaa_record, builds_answer_with_cname_record,
     builds_answer_with_ns_record, builds_answer_with_mx_record_parsing_preference_prefix,
     builds_answer_with_txt_record_longer_than_255_bytes,
     skips_record_with_unencodable_rdata_without_corrupting_the_message,
     skipped_record_does_not_corrupt_subsequent_valid_answers, record_matches_qtype_any_matches_everything,
     build_error_response_sets_qr_and_rcode, parse_query_rejects_short_message,
     parse_query_rejects_multi_question_messages, parse_query_rejects_truncated_label,
     parse_query_rejects_invalid_utf8_label, parse_query_rejects_invalid_domain, dns_error_messages_are_human_readable]"

lemma dns_suite: "list_all passes dns_tests"
  by (simp add: dns_tests_def parse_tests_pass unicode_query_passes echo_passes long_label_passes count_tests_pass
      address_tests_pass mx_passes error_response_passes parse_error_tests_pass)

end
