(* ===== verification/Host_Tests.thy ===== *)
theory Host_Tests
  imports Test_Kit
begin

text \<open>
  The unit tests of \<open>binda-core/src/fcrdns.rs\<close>. The resolvers of the tests are functions from the
  datagram they receive to their reply; the query identifiers are arguments.
\<close>

text \<open>\<open>str::parse::<IpAddr>\<close>.\<close>

definition parse_ip_addr :: "rstring \<Rightarrow> ip_addr option" where
  "parse_ip_addr s =
    (case parse_ipv4 s of Some o4 \<Rightarrow> Some (IpV4 o4) | None \<Rightarrow> map_option IpV6 (parse_ipv6 s))"

section \<open>Tests of the messages\<close>

definition builds_ipv4_ptr_query_name :: unit_test where
  "builds_ipv4_ptr_query_name = do {
     ip \<leftarrow> parse_ip_addr (lit ''93.184.216.34'');
     check (ptr_query_name ip = lit ''34.216.184.93.in-addr.arpa'')
   }"

definition builds_ipv6_ptr_query_name :: unit_test where
  "builds_ipv6_ptr_query_name = do {
     ip \<leftarrow> parse_ip_addr (lit ''2001:db8::1'');
     let name = ptr_query_name ip;
     check (str_ends_with name (lit ''ip6.arpa''));
     check (length (filter (\<lambda>c. c = dot) name) = 33);
     check (length (split_on dot name) = 34)
   }"

definition round_trips_uncompressed_name :: unit_test where
  "round_trips_uncompressed_name = do {
     let buf = replicate 12 0;
     let start = length buf;
     let buf = buf @ [7] @ utf8 (lit ''example'') @ [3] @ utf8 (lit ''com'') @ [0];
     (name, end_pos) \<leftarrow> read_name buf start;
     check (name = lit ''example.com'');
     check (end_pos = length buf)
   }"

definition follows_compression_pointer :: unit_test where
  "follows_compression_pointer = do {
     let buf = replicate 12 0;
     let real_name_pos = length buf;
     let buf = buf @ [7] @ utf8 (lit ''example'') @ [3] @ utf8 (lit ''com'') @ [0];
     let pointer_pos = length buf;
     let buf = buf @ [0xC0 OR of_nat (drop_bit 8 real_name_pos), of_nat (real_name_pos AND 0xFF)];
     (name, end_pos) \<leftarrow> read_name buf pointer_pos;
     check (name = lit ''example.com'');
     check (end_pos = pointer_pos + 2)
   }"

definition encode_query_contains_labels :: unit_test where
  "encode_query_contains_labels = check (any_window (encode_query 1 (lit ''example.com'') rr_a) (utf8 (lit ''example'')))"

definition encode_query_skips_an_empty_label_from_a_trailing_dot :: unit_test where
  "encode_query_skips_an_empty_label_from_a_trailing_dot = do {
     let with_dot = encode_query 1 (lit ''example.com.'') rr_a;
     let without_dot = encode_query 1 (lit ''example.com'') rr_a;
     check (with_dot = without_dot)
   }"

definition read_name_rejects_a_compression_pointer_loop :: unit_test where
  "read_name_rejects_a_compression_pointer_loop = do {
     let buf = replicate 12 0;
     let pointer_pos = length buf;
     let buf = buf @ [0xC0 OR of_nat (drop_bit 8 pointer_pos), of_nat (pointer_pos AND 0xFF)];
     check (read_name buf pointer_pos = None)
   }"

definition parse_response_rejects_a_too_short_message :: unit_test where
  "parse_response_rejects_a_too_short_message = check (parse_response (replicate 4 0) 1 = None)"

definition parse_response_rejects_a_mismatched_id :: unit_test where
  "parse_response_rejects_a_mismatched_id = do {
     let buf = replicate 48 0;
     check (parse_response buf 1 = None)
   }"

definition normalize_ignores_case_and_trailing_dot :: unit_test where
  "normalize_ignores_case_and_trailing_dot =
    check (normalize_host (lit ''Host.Example.NET.'') = normalize_host (lit ''host.example.net''))"

section \<open>Tests of the verifiers\<close>

definition fake_verify :: "(ip_addr \<times> rstring) list \<Rightarrow> ip_addr \<Rightarrow> rstring \<Rightarrow> bool" where
  "fake_verify pairs source_ip claimed_rdns \<longleftrightarrow> list_ex (\<lambda>(ip, host). ip = source_ip \<and> host = claimed_rdns) pairs"

definition fake_verifier_matches_known_pair :: unit_test where
  "fake_verifier_matches_known_pair = do {
     ip \<leftarrow> parse_ip_addr (lit ''203.0.113.7'');
     let verifier = [(ip, lit ''host.example.net'')];
     check (fake_verify verifier ip (lit ''host.example.net''));
     check (\<not> fake_verify verifier ip (lit ''someone-else.example.net''))
   }"

definition allow_all_verifier_accepts_any_claim :: "dns_network \<Rightarrow> unit_test" where
  "allow_all_verifier_accepts_any_claim net = do {
     ip \<leftarrow> parse_ip_addr (lit ''203.0.113.7'');
     check (verify net AllowAllVerifier ip (lit ''literally-anything.invalid''));
     check (verify net AllowAllVerifier ip (lit ''''))
   }"

section \<open>The resolvers of the tests\<close>

definition encode_host_name :: "rstring \<Rightarrow> bytes" where
  "encode_host_name name =
    concat (map (\<lambda>label. of_nat (length (utf8 label)) # utf8 label) (split_on dot name)) @ [0]"

text \<open>One reply: the question echoed, then one answer whose name is a pointer to the question.\<close>

definition fake_response :: "bytes \<Rightarrow> u16 \<Rightarrow> bytes \<Rightarrow> bytes" where
  "fake_response buf rtype rdata =
    take 2 buf @ u16_be 0x8180 @ u16_be 1 @ u16_be 1 @ u16_be 0 @ u16_be 0 @ drop 12 buf @ [0xC0, 0x0C] @
    u16_be rtype @ u16_be rr_class_in @ u32_be 300 @ u16_be (of_nat (length rdata)) @ rdata"

definition fake_resolver :: "bytes \<Rightarrow> bytes \<Rightarrow> bytes \<Rightarrow> bytes option" where
  "fake_resolver ptr_rdata a_rdata received =
    (let buf = take 512 received; len = length buf
     in if len < 12 then None
        else
          let qtype = u16_of_be [buf ! (len - 4), buf ! (len - 3)];
              rdata = (if qtype = rr_ptr then ptr_rdata else a_rdata)
          in Some (fake_response buf qtype rdata))"

definition mismatched_type_resolver :: "u16 \<Rightarrow> bytes \<Rightarrow> bytes \<Rightarrow> bytes option" where
  "mismatched_type_resolver fixed_rtype rdata received =
    (let buf = take 512 received
     in if length buf < 12 then None else Some (fake_response buf fixed_rtype rdata))"

text \<open>A network with one resolver, which answers only the first queries it receives: those of the
  given paths of calls. Nobody listens anywhere else.\<close>

definition spawn_resolver ::
  "rstring \<Rightarrow> (bytes \<Rightarrow> bytes option) \<Rightarrow> nat list list \<Rightarrow> (nat list \<Rightarrow> u16) \<Rightarrow> dns_network" where
  "spawn_resolver addr server queries_to_serve ids =
    \<lparr>exchange = (\<lambda>path resolver request.
       if resolver = addr \<and> List.member queries_to_serve path then server request else None),
     drawn_id = ids\<rparr>"

section \<open>Tests of the lookups\<close>

definition reverse_lookup_returns_ptr_name_from_a_real_query_response :: "rstring \<Rightarrow> (nat list \<Rightarrow> u16) \<Rightarrow> unit_test" where
  "reverse_lookup_returns_ptr_name_from_a_real_query_response addr ids = do {
     let ptr_rdata = encode_host_name (lit ''host.example.net'');
     let net = spawn_resolver addr (fake_resolver ptr_rdata []) [[0]] ids;
     ip \<leftarrow> parse_ip_addr (lit ''203.0.113.5'');
     names \<leftarrow> reverse_lookup net ip [addr];
     check (names = [lit ''host.example.net''])
   }"

definition forward_lookup_returns_a_record_from_a_real_query_response :: "rstring \<Rightarrow> (nat list \<Rightarrow> u16) \<Rightarrow> unit_test" where
  "forward_lookup_returns_a_record_from_a_real_query_response addr ids = do {
     let net = spawn_resolver addr (fake_resolver [] [203, 0, 113, 5]) [[0, 0]] ids;
     ips \<leftarrow> forward_lookup net (lit ''host.example.net'') [addr];
     ip \<leftarrow> parse_ip_addr (lit ''203.0.113.5'');
     check (List.member ips ip)
   }"

definition is_forward_confirmed_true_when_both_directions_agree :: "rstring \<Rightarrow> (nat list \<Rightarrow> u16) \<Rightarrow> unit_test" where
  "is_forward_confirmed_true_when_both_directions_agree addr ids = do {
     ip \<leftarrow> parse_ip_addr (lit ''203.0.113.5'');
     let ptr_rdata = encode_host_name (lit ''host.example.net'');
     let net = spawn_resolver addr (fake_resolver ptr_rdata [203, 0, 113, 5]) [[0, 0], [1, 0, 0]] ids;
     check (is_forward_confirmed net ip (lit ''host.example.net'') [addr])
   }"

definition is_forward_confirmed_false_when_ptr_does_not_match_claim :: "rstring \<Rightarrow> (nat list \<Rightarrow> u16) \<Rightarrow> unit_test" where
  "is_forward_confirmed_false_when_ptr_does_not_match_claim addr ids = do {
     ip \<leftarrow> parse_ip_addr (lit ''203.0.113.5'');
     let ptr_rdata = encode_host_name (lit ''someone-else.example.net'');
     let net = spawn_resolver addr (fake_resolver ptr_rdata [203, 0, 113, 5]) [[0, 0]] ids;
     check (\<not> is_forward_confirmed net ip (lit ''host.example.net'') [addr])
   }"

definition is_forward_confirmed_false_when_forward_lookup_disagrees :: "rstring \<Rightarrow> (nat list \<Rightarrow> u16) \<Rightarrow> unit_test" where
  "is_forward_confirmed_false_when_forward_lookup_disagrees addr ids = do {
     ip \<leftarrow> parse_ip_addr (lit ''203.0.113.5'');
     let ptr_rdata = encode_host_name (lit ''host.example.net'');
     let net = spawn_resolver addr (fake_resolver ptr_rdata [198, 51, 100, 9]) [[0, 0], [1, 0, 0]] ids;
     check (\<not> is_forward_confirmed net ip (lit ''host.example.net'') [addr])
   }"

definition nobody_listening :: rstring where
  "nobody_listening = lit ''127.0.0.1:1''"

definition unreachable_resolver_yields_error_not_panic :: "dns_network \<Rightarrow> unit_test" where
  "unreachable_resolver_yields_error_not_panic net = do {
     ip \<leftarrow> parse_ip_addr (lit ''203.0.113.5'');
     let result = reverse_lookup net ip [nobody_listening];
     check (result = None)
   }"

definition is_forward_confirmed_false_when_reverse_lookup_itself_fails :: "dns_network \<Rightarrow> unit_test" where
  "is_forward_confirmed_false_when_reverse_lookup_itself_fails net = do {
     ip \<leftarrow> parse_ip_addr (lit ''203.0.113.5'');
     check (\<not> is_forward_confirmed net ip (lit ''host.example.net'') [nobody_listening])
   }"

definition is_forward_confirmed_false_when_forward_lookup_itself_fails :: "rstring \<Rightarrow> (nat list \<Rightarrow> u16) \<Rightarrow> unit_test" where
  "is_forward_confirmed_false_when_forward_lookup_itself_fails addr ids = do {
     ip \<leftarrow> parse_ip_addr (lit ''203.0.113.5'');
     let ptr_rdata = encode_host_name (lit ''host.example.net'');
     let net = spawn_resolver addr (fake_resolver ptr_rdata []) [[0, 0]] ids;
     check (\<not> is_forward_confirmed net ip (lit ''host.example.net'') [addr])
   }"

definition forward_lookup_returns_aaaa_record_from_a_real_query_response :: "rstring \<Rightarrow> (nat list \<Rightarrow> u16) \<Rightarrow> unit_test" where
  "forward_lookup_returns_aaaa_record_from_a_real_query_response addr ids = do {
     let ipv6 = IpV6 [0x2001, 0x0db8, 0, 0, 0, 0, 0, 1];
     let net = spawn_resolver addr (fake_resolver [] (ip_octets ipv6)) [[0, 0], [1, 0]] ids;
     ips \<leftarrow> forward_lookup net (lit ''host.example.net'') [addr];
     check (List.member ips ipv6)
   }"

definition query_falls_back_to_a_later_resolver_after_an_earlier_one_fails :: "rstring \<Rightarrow> (nat list \<Rightarrow> u16) \<Rightarrow> unit_test" where
  "query_falls_back_to_a_later_resolver_after_an_earlier_one_fails addr ids = do {
     let ptr_rdata = encode_host_name (lit ''host.example.net'');
     let net = spawn_resolver addr (fake_resolver ptr_rdata []) [[1]] ids;
     ip \<leftarrow> parse_ip_addr (lit ''203.0.113.5'');
     names \<leftarrow> reverse_lookup net ip [nobody_listening, addr];
     check (names = [lit ''host.example.net''])
   }"

definition forward_lookup_ignores_an_answer_of_the_wrong_record_type :: "rstring \<Rightarrow> (nat list \<Rightarrow> u16) \<Rightarrow> unit_test" where
  "forward_lookup_ignores_an_answer_of_the_wrong_record_type addr ids = do {
     let net = spawn_resolver addr (mismatched_type_resolver rr_ptr (encode_host_name (lit ''irrelevant''))) [[0, 0]] ids;
     ips \<leftarrow> forward_lookup net (lit ''host.example.net'') [addr];
     check (ips = [])
   }"

section \<open>The replies are read back\<close>

lemma read_labels_pointer:
  assumes "p + 1 < length buf" "buf ! p = 0xC0" "buf ! (p + 1) = 0x0C"
  shows "read_labels buf p 0 None = read_labels buf 12 1 (Some (p + 2))"
  using assms by (subst read_labels.simps) (simp add: Let_def)

lemma echoed_name:
  assumes "list_all query_label_ok ls" "length header = 12"
    "p = length (header @ encode_name ls @ mid)"
  shows "read_name (header @ encode_name ls @ mid @ [0xC0, 0x0C] @ rest) p = Some (join_with dot ls, p + 2)"
proof -
  let ?buf = "header @ encode_name ls @ mid @ [0xC0, 0x0C] @ rest"
  have "read_labels ?buf (length header) 1 (Some (p + 2)) = Some (ls, p + 2)"
    using assms(1) by (subst read_labels_encode) (simp_all add: list_all_iff)
  moreover have "p + 1 < length ?buf" "?buf ! p = 0xC0" "?buf ! (p + 1) = 0x0C"
    using assms(2,3) by (simp_all add: nth_append)
  ultimately show ?thesis using assms(2) by (simp add: read_name_def read_labels_pointer)
qed

lemma encode_query_eq:
  "encode_query i name q = u16_be i @ u16_be 0x0100 @ u16_be 1 @ replicate 6 0 @ encode_name (split_on dot name) @
    u16_be q @ u16_be rr_class_in"
  by (simp add: encode_query_def encode_name_def)

lemma fake_response_query:
  "fake_response (encode_query i name q) t d =
    (u16_be i @ u16_be 0x8180 @ u16_be 1 @ u16_be 1 @ u16_be 0 @ u16_be 0) @ encode_name (split_on dot name) @
    (u16_be q @ u16_be rr_class_in) @ [0xC0, 0x0C] @
    u16_be t @ u16_be rr_class_in @ u32_be 300 @ u16_be (of_nat (length d)) @ d"
  by (simp add: fake_response_def encode_query_eq)

lemma parse_fake_response:
  assumes name: "list_all query_label_ok (split_on dot name)" and r: "rr_ok r"
  shows "parse_response (fake_response (encode_query i name q) (rr_type r) (rr_bytes r)) i = Some [rr_read r]"
proof -
  let ?h = "u16_be i @ u16_be 0x8180 @ u16_be 1 @ u16_be 1 @ u16_be 0 @ u16_be 0"
  let ?n = "encode_name (split_on dot name)" and ?q = "u16_be q @ u16_be rr_class_in"
  let ?buf = "fake_response (encode_query i name q) (rr_type r) (rr_bytes r)"
  let ?pos = "12 + length ?n + 4"
  have buf: "?buf = ?h @ ?n @ ?q @ [0xC0, 0x0C] @ rr_tail 300 r" by (simp add: fake_response_query rr_tail_def)
  have pair: "[u16_be w ! 0, u16_be w ! Suc 0] = u16_be w" for w :: u16
    by (rule nth_equalityI) (auto simp: less_Suc_eq numeral_2_eq_2)
  have fields: "[?buf ! 0, ?buf ! 1] = u16_be i" "[?buf ! 2, ?buf ! 3] = u16_be 0x8180"
    "[?buf ! 4, ?buf ! 5] = u16_be 1" "[?buf ! 6, ?buf ! 7] = u16_be 1"
    unfolding buf using pair by (simp_all add: nth_append)
  have question: "parse_questions ?buf 1 12 = Some ?pos"
    using read_name_encode [of "split_on dot name" ?h 12 "?q @ [0xC0, 0x0C] @ rr_tail 300 r"] name
    by (simp add: buf list_all_iff)
  have "read_name ?buf ?pos = Some (join_with dot (split_on dot name), ?pos + 2)"
    unfolding buf using name by (intro echoed_name) simp_all
  then have "read_name ((?h @ ?n @ ?q @ [0xC0, 0x0C]) @ rr_tail 300 r @ []) ?pos =
      Some (join_with dot (split_on dot name), length (?h @ ?n @ ?q @ [0xC0, 0x0C]))"
    by (simp add: buf)
  from parse_answer_tail [OF this r] have "parse_answers ?buf 1 ?pos = Some [rr_read r]" by (simp add: buf)
  with question have "parse_questions ?buf 1 12 = Some ?pos" "parse_answers ?buf 1 ?pos = Some [rr_read r]" by simp_all
  moreover have "\<not> length ?buf < 12" by (simp add: buf)
  ultimately show ?thesis unfolding parse_response_def fields Let_def by simp
qed

lemma fake_resolver_query:
  assumes "list_all query_label_ok (split_on dot name)" "length (encode_query i name q) \<le> 512"
    "rr_ok r" "length (rr_bytes r) \<le> 512" "rr_type r = q" "rr_bytes r = (if q = rr_ptr then ptr else a)"
  shows "\<exists>msg. fake_resolver ptr a (encode_query i name q) = Some msg \<and>
    parse_response (take 4096 msg) i = Some [rr_read r]"
proof -
  let ?b = "encode_query i name q"
  have "?b = (u16_be i @ u16_be 0x0100 @ u16_be 1 @ replicate 6 0 @ encode_name (split_on dot name)) @ u16_be q @ u16_be rr_class_in"
    by (simp add: encode_query_eq)
  then have "[?b ! (length ?b - 4), ?b ! (length ?b - 3)] = [u16_be q ! 0, u16_be q ! 1]" "12 \<le> length ?b"
    by (simp_all add: nth_append)
  moreover have "[u16_be q ! 0, u16_be q ! 1] = u16_be q"
    by (rule nth_equalityI) (auto simp: less_Suc_eq numeral_2_eq_2)
  ultimately have "fake_resolver ptr a ?b = Some (fake_response ?b (rr_type r) (rr_bytes r))"
    using assms(2,5,6) by (simp add: fake_resolver_def Let_def)
  moreover have "length (fake_response ?b (rr_type r) (rr_bytes r)) \<le> 4096"
    using assms(2,4) by (simp add: fake_response_def)
  ultimately show ?thesis using parse_fake_response [OF assms(1,3)] by simp
qed

lemma net_call_sel [simp]: "exchange (net_call i net) path = exchange net (i # path)" "drawn_id (net_call i net) path = drawn_id net (i # path)"
  by (simp_all add: net_call_def)

lemma query_fake:
  assumes "list_all query_label_ok (split_on dot name)" "length (encode_query (drawn_id net []) name q) \<le> 512"
    "rr_ok r" "length (rr_bytes r) \<le> 512" "rr_type r = q" "rr_bytes r = (if q = rr_ptr then ptr else a)"
    "\<And>request. exchange net [0] addr request = fake_resolver ptr a request"
  shows "dns_query_network net name q [addr] = Some [rr_read r]"
  using fake_resolver_query [OF assms(1-6)] assms(7)
  by (auto simp: dns_query_network_def send_and_receive_def)

lemma query_unanswered:
  "(\<And>request. exchange net [0] addr request = None) \<Longrightarrow> dns_query_network net name q [addr] = None"
  by (simp add: dns_query_network_def send_and_receive_def)

text \<open>The names and addresses of the tests.\<close>

lemma test_addresses [simp]:
  "parse_ip_addr (lit ''93.184.216.34'') = Some (IpV4 [93, 184, 216, 34])"
  "parse_ip_addr (lit ''203.0.113.5'') = Some (IpV4 [203, 0, 113, 5])"
  "parse_ip_addr (lit ''203.0.113.7'') = Some (IpV4 [203, 0, 113, 7])"
  by (simp_all add: parse_ip_addr_def address_eval utf8_char_def)

lemma test_hosts [simp]:
  "split_on dot (lit ''host.example.net'') = [lit ''host'', lit ''example'', lit ''net'']"
  "split_on dot (lit ''someone-else.example.net'') = [lit ''someone-else'', lit ''example'', lit ''net'']"
  "split_on dot (lit ''irrelevant'') = [lit ''irrelevant'']"
  "split_on dot (lit ''example.com'') = [lit ''example'', lit ''com'']"
  "split_on dot (lit ''example.com.'') = [lit ''example'', lit ''com'', []]"
  by (simp_all add: lit_def)

lemma ascii_label [simp]:
  assumes "list_all (\<lambda>c. of_char c < (128 :: nat)) s"
  shows "length (utf8 (lit s)) = length s" "query_label_ok (lit s) = (s \<noteq> [] \<and> length s < 64)"
proof -
  show len: "length (utf8 (lit s)) = length s"
    using assms by (induction s) (simp_all add: lit_def utf8_char_def)
  show "query_label_ok (lit s) = (s \<noteq> [] \<and> length s < 64)" by (simp add: query_label_ok_def len) (simp add: lit_def)
qed

lemma encode_host_name_eq:
  "list_all query_label_ok (split_on dot name) \<Longrightarrow> encode_host_name name = encode_name (split_on dot name)"
proof -
  have "list_all query_label_ok ls \<Longrightarrow> concat (map (\<lambda>l. of_nat (length (utf8 l)) # utf8 l) ls) = encode_query_labels ls" for ls
    by (induction ls) (simp_all add: query_label_ok_def)
  then show "list_all query_label_ok (split_on dot name) \<Longrightarrow> ?thesis" by (simp add: encode_host_name_def encode_name_def)
qed

text \<open>The reverse query of the tests' address, and the queries for its name.\<close>

lemma reverse_name:
  "split_on dot (ptr_query_name (IpV4 [203, 0, 113, 5])) =
    [lit ''5'', lit ''113'', lit ''0'', lit ''203'', lit ''in-addr'', lit ''arpa'']"
  by (simp add: split_ptr_v4) (simp add: lit_def show_nat.simps)

lemma query_length: "length (encode_query i name q) = 16 + length (encode_name (split_on dot name))"
  by (simp add: encode_query_eq)

lemma encode_name_length:
  "list_all query_label_ok ls \<Longrightarrow> length (encode_name ls) = sum_list (map (\<lambda>l. Suc (length (utf8 l))) ls) + 1"
  by (induction ls) (simp_all add: encode_name_def query_label_ok_def)

lemma reverse_query:
  assumes served: "exchange net [0] addr = fake_resolver (encode_host_name host) a"
    and "list_all query_label_ok (split_on dot host)" "length (encode_name (split_on dot host)) \<le> 512"
  shows "reverse_lookup net (IpV4 [203, 0, 113, 5]) [addr] = Some [host]"
proof -
  have "dns_query_network net (ptr_query_name (IpV4 [203, 0, 113, 5])) rr_ptr [addr] =
      Some [rr_read (PtrName (split_on dot host))]"
    using assms(2,3)
    by (intro query_fake [OF _ _ _ _ _ _ fun_cong [OF served]])
      (simp_all add: reverse_name query_length encode_name_length encode_host_name_eq)
  moreover have "valid_str host"
  proof -
    have "valid_str (join_with sep ls)" if "list_all query_label_ok ls" "scalar sep" for sep ls
      using that by (induction sep ls rule: join_with.induct) (simp_all add: query_label_ok_def)
    from this [OF assms(2), of dot] show ?thesis by (simp add: scalar_def)
  qed
  ultimately show ?thesis by (simp add: reverse_lookup_def List.map_filter_def)
qed

lemma forward_query:
  assumes "exchange net [0] addr = fake_resolver ptr a" "q \<noteq> rr_ptr" "length a \<le> 512"
  shows "lookup_ips net (lit ''host.example.net'') q parse [addr] = List.map_filter parse [a]"
proof -
  have "dns_query_network net (lit ''host.example.net'') q [addr] = Some [rr_read (RawData q a)]"
    using assms(2,3) by (intro query_fake [OF _ _ _ _ _ _ fun_cong [OF assms(1)]]) (simp_all add: query_length encode_name_length)
  then show ?thesis by (simp add: lookup_ips_def)
qed

lemma lookup_unanswered:
  "exchange net [0] addr = (\<lambda>_. None) \<Longrightarrow> lookup_ips net name q parse [addr] = []"
  "exchange net [0] addr = (\<lambda>_. None) \<Longrightarrow> reverse_lookup net ip [addr] = None"
  by (simp_all add: lookup_ips_def reverse_lookup_def query_unanswered)

lemma spawn_exchange:
  "exchange (spawn_resolver addr server ps ids) path addr = (if List.member ps path then server else (\<lambda>_. None))"
  by (simp add: spawn_resolver_def fun_eq_iff)

section \<open>The tests pass\<close>

lemma message_tests_pass:
  "passes builds_ipv4_ptr_query_name" "passes encode_query_skips_an_empty_label_from_a_trailing_dot"
  "passes parse_response_rejects_a_too_short_message" "passes parse_response_rejects_a_mismatched_id"
  "passes normalize_ignores_case_and_trailing_dot" "passes fake_verifier_matches_known_pair"
  "passes (allow_all_verifier_accepts_any_claim net)"
proof -
  show "passes builds_ipv4_ptr_query_name"
    by (simp add: builds_ipv4_ptr_query_name_def ptr_query_name_def) (simp add: lit_def show_nat.simps)
  show "passes encode_query_skips_an_empty_label_from_a_trailing_dot"
    by (simp add: encode_query_skips_an_empty_label_from_a_trailing_dot_def encode_query_def)
  show "passes parse_response_rejects_a_too_short_message"
    by (simp add: parse_response_rejects_a_too_short_message_def parse_response_def)
  show "passes parse_response_rejects_a_mismatched_id"
    by (simp add: parse_response_rejects_a_mismatched_id_def parse_response_def u16_of_be_def be_value_def)
  show "passes normalize_ignores_case_and_trailing_dot"
    by (simp add: normalize_ignores_case_and_trailing_dot_def normalize_host_def to_ascii_lowercase_def
        trim_end_matches_def) (simp add: lit_def ascii_lower_def)
  show "passes fake_verifier_matches_known_pair"
    by (simp add: fake_verifier_matches_known_pair_def fake_verify_def)
  show "passes (allow_all_verifier_accepts_any_claim net)"
    by (simp add: allow_all_verifier_accepts_any_claim_def)
qed

lemma fake_resolver_tests_pass:
  "passes (reverse_lookup_returns_ptr_name_from_a_real_query_response addr ids)"
  "passes (forward_lookup_returns_a_record_from_a_real_query_response addr ids)"
  "passes (is_forward_confirmed_true_when_both_directions_agree addr ids)"
  "passes (is_forward_confirmed_false_when_ptr_does_not_match_claim addr ids)"
  "passes (is_forward_confirmed_false_when_forward_lookup_disagrees addr ids)"
  "passes (is_forward_confirmed_false_when_forward_lookup_itself_fails addr ids)"
  "passes (forward_lookup_returns_aaaa_record_from_a_real_query_response addr ids)"
proof -
  note encoded = encode_name_length
  note run = reverse_query forward_query lookup_unanswered spawn_exchange encode_name_length rr_a_def rr_aaaa_def rr_ptr_def
    List.map_filter_def parse_a_def parse_aaaa_def forward_lookup_def is_forward_confirmed_def Let_def
  show "passes (reverse_lookup_returns_ptr_name_from_a_real_query_response addr ids)"
    by (simp add: reverse_lookup_returns_ptr_name_from_a_real_query_response_def run)
  show "passes (forward_lookup_returns_a_record_from_a_real_query_response addr ids)"
    by (simp add: forward_lookup_returns_a_record_from_a_real_query_response_def run)
  show "passes (is_forward_confirmed_true_when_both_directions_agree addr ids)"
    by (simp add: is_forward_confirmed_true_when_both_directions_agree_def run)
  show "passes (is_forward_confirmed_false_when_ptr_does_not_match_claim addr ids)"
    by (simp add: is_forward_confirmed_false_when_ptr_does_not_match_claim_def run)
  show "passes (is_forward_confirmed_false_when_forward_lookup_disagrees addr ids)"
    by (simp add: is_forward_confirmed_false_when_forward_lookup_disagrees_def run)
  show "passes (is_forward_confirmed_false_when_forward_lookup_itself_fails addr ids)"
    by (simp add: is_forward_confirmed_false_when_forward_lookup_itself_fails_def run)
  have octets: "ip_octets (IpV6 [0x2001, 0xDB8, 0, 0, 0, 0, 0, 1]) = [0x20, 1, 0xD, 0xB8, 0, 0, 0, 0, 0, 0, 0, 0, 0, 0, 0, 1]"
    by (simp add: ip_octets_def u16_be_def be_bytes_numeral)
  show "passes (forward_lookup_returns_aaaa_record_from_a_real_query_response addr ids)"
    by (simp add: forward_lookup_returns_aaaa_record_from_a_real_query_response_def run octets u16_of_be_def be_value_def)
qed

lemma unreachable_tests_pass:
  assumes "\<And>path request. exchange net path nobody_listening request = None"
  shows "passes (unreachable_resolver_yields_error_not_panic net)"
    "passes (is_forward_confirmed_false_when_reverse_lookup_itself_fails net)"
proof -
  have quiet: "exchange net path nobody_listening = (\<lambda>_. None)" for path using assms by (simp add: fun_eq_iff)
  show "passes (unreachable_resolver_yields_error_not_panic net)"
    by (simp add: unreachable_resolver_yields_error_not_panic_def lookup_unanswered quiet)
  show "passes (is_forward_confirmed_false_when_reverse_lookup_itself_fails net)"
    by (simp add: is_forward_confirmed_false_when_reverse_lookup_itself_fails_def lookup_unanswered quiet
        is_forward_confirmed_def)
qed

lemma wrong_type_passes: "passes (forward_lookup_ignores_an_answer_of_the_wrong_record_type addr ids)"
proof -
  let ?host = "lit ''irrelevant''"
  let ?net = "spawn_resolver addr (mismatched_type_resolver rr_ptr (encode_host_name ?host)) [[0, 0]] ids"
  have "lookup_ips (net_call 0 ?net) (lit ''host.example.net'') rr_a parse_a [addr] = []"
  proof -
    let ?b = "encode_query (ids [0]) (lit ''host.example.net'') rr_a"
    have len: "length ?b \<le> 512" "12 \<le> length ?b" by (simp_all add: query_length encode_name_length)
    have rdata: "rr_bytes (PtrName (split_on dot ?host)) = encode_host_name ?host"
      by (simp add: encode_host_name_eq)
    have "mismatched_type_resolver rr_ptr (encode_host_name ?host) ?b =
        Some (fake_response ?b (rr_type (PtrName (split_on dot ?host))) (rr_bytes (PtrName (split_on dot ?host))))"
      unfolding rdata using len by (simp add: mismatched_type_resolver_def Let_def)
    moreover have "length (fake_response ?b (rr_type (PtrName (split_on dot ?host))) (rr_bytes (PtrName (split_on dot ?host)))) \<le> 4096"
      using len by (simp add: fake_response_def encode_name_length)
    moreover have "parse_response (fake_response ?b (rr_type (PtrName (split_on dot ?host))) (rr_bytes (PtrName (split_on dot ?host)))) (ids [0]) =
        Some [rr_read (PtrName (split_on dot ?host))]"
      by (intro parse_fake_response) (simp_all add: encode_name_length)
    ultimately show ?thesis
      by (simp add: lookup_ips_def dns_query_network_def send_and_receive_def spawn_resolver_def rr_a_def rr_ptr_def
          List.map_filter_def)
  qed
  then show ?thesis
    by (simp add: forward_lookup_ignores_an_answer_of_the_wrong_record_type_def forward_lookup_def lookup_unanswered
        spawn_exchange)
qed

lemma fall_back_passes: "passes (query_falls_back_to_a_later_resolver_after_an_earlier_one_fails addr ids)"
proof -
  let ?net = "spawn_resolver addr (fake_resolver (encode_host_name (lit ''host.example.net'')) []) [[1]] ids"
  let ?late = "?net\<lparr>exchange := (\<lambda>path. exchange ?net (map Suc path))\<rparr>"
  have "ask_resolvers ?net 1 request i [addr] = ask_resolvers ?late 0 request i [addr]" for request i
    by (simp add: send_and_receive_def split: option.splits)
  moreover have "exchange ?net [0] nobody_listening request = None" for request by (simp add: spawn_resolver_def)
  ultimately have "reverse_lookup ?net ip [nobody_listening, addr] = reverse_lookup ?late ip [addr]" for ip
    by (simp add: reverse_lookup_def dns_query_network_def send_and_receive_def)
  moreover have "reverse_lookup ?late (IpV4 [203, 0, 113, 5]) [addr] = Some [lit ''host.example.net'']"
    by (rule reverse_query) (simp_all add: spawn_exchange encode_name_length)
  ultimately show ?thesis
    by (simp add: query_falls_back_to_a_later_resolver_after_an_earlier_one_fails_def)
qed

lemma encoded_label_passes: "passes encode_query_contains_labels"
proof -
  have "encode_query 1 (lit ''example.com'') rr_a =
      (u16_be 1 @ u16_be 0x0100 @ u16_be 1 @ replicate 6 0 @ [7]) @ utf8 (lit ''example'') @
      ([3] @ utf8 (lit ''com'') @ [0] @ u16_be rr_a @ u16_be rr_class_in)"
    by (simp add: encode_query_def) (simp add: lit_def)
  then show ?thesis
    unfolding encode_query_contains_labels_def passes_check
    by (simp only:) (rule any_window_middle, simp add: lit_def)
qed

lemma ipv6_name_passes: "passes builds_ipv6_ptr_query_name"
proof -
  have ip: "parse_ip_addr (lit ''2001:db8::1'') = Some (IpV6 [0x2001, 0xDB8, 0, 0, 0, 0, 0, 1])"
    by (simp add: parse_ip_addr_def address_eval utf8_char_def)
  let ?name = "ptr_query_name (IpV6 [0x2001, 0xDB8, 0, 0, 0, 0, 0, 1])"
  have octets: "ip_octets (IpV6 [0x2001, 0xDB8, 0, 0, 0, 0, 0, 1]) = [0x20, 1, 0xD, 0xB8, 0, 0, 0, 0, 0, 0, 0, 0, 0, 0, 0, 1]"
    by (simp add: ip_octets_def u16_be_def be_bytes_numeral)
  have name: "?name = nibbles (rev [0x20, 1, 0xD, 0xB8, 0, 0, 0, 0, 0, 0, 0, 0, 0, 0, 0, 1]) @ lit ''ip6.arpa''"
    by (simp add: ptr_query_name_def octets)
  have "length (filter (\<lambda>c. c = dot) (nibbles bs)) = 2 * length bs" for bs
    by (induction bs) (simp_all add: dot_not_in(2) low_nibble high_nibble high_nibble_less)
  then have "length (filter (\<lambda>c. c = dot) ?name) = 33" unfolding name by (simp only: filter_append length_append length_rev) (simp add: lit_def)
  moreover have "length (split_on dot ?name) = 34"
    by (simp add: split_ptr_v6 u16_be_def be_bytes_numeral)
  moreover have "str_ends_with ?name (lit ''ip6.arpa'')" unfolding name by (rule ends_with_append)
  ultimately show ?thesis by (simp add: builds_ipv6_ptr_query_name_def ip)
qed

lemma name_bytes: "[7] @ utf8 (lit ''example'') @ [3] @ utf8 (lit ''com'') @ [0] = encode_name [lit ''example'', lit ''com'']"
  by (simp add: encode_name_def) (simp add: lit_def)

lemma read_name_tests_pass:
  "passes round_trips_uncompressed_name" "passes follows_compression_pointer"
  "passes read_name_rejects_a_compression_pointer_loop"
proof -
  let ?ls = "[lit ''example'', lit ''com'']"
  have join: "lit ''example'' @ dot # lit ''com'' = lit ''example.com''" by (simp add: lit_def)
  have len: "length (encode_name ?ls) = 13" by (simp add: encode_name_length)
  show "passes round_trips_uncompressed_name"
    using read_name_encode [of ?ls "replicate 12 0" 12 "[]"]
    by (simp add: round_trips_uncompressed_name_def name_bytes [simplified] join)
  have pointer: "(0xC0 OR of_nat (drop_bit 8 (12 :: nat)) :: u8) = 0xC0" "(of_nat ((12 :: nat) AND 0xFF) :: u8) = 0x0C"
    by (simp_all add: drop_bit_eq_div)
  have read: "read_name (replicate 12 0 @ encode_name ?ls @ [0xC0, 0x0C]) 25 = Some (lit ''example.com'', 27)"
  proof -
    have "list_all query_label_ok ?ls" by simp
    moreover have "25 = length (replicate 12 (0 :: u8) @ encode_name ?ls @ [])" by (simp add: len)
    ultimately have "read_name (replicate 12 0 @ encode_name ?ls @ [] @ [0xC0, 0x0C] @ []) 25 = Some (join_with dot ?ls, 25 + 2)"
      by (intro echoed_name) (simp_all only: length_replicate)
    then show ?thesis by (simp add: join)
  qed
  show "passes follows_compression_pointer"
    unfolding follows_compression_pointer_def Let_def append_assoc length_replicate pointer name_bytes
    by (simp add: len read)
  have loop: "j \<le> 32 \<Longrightarrow> read_labels (replicate 12 0 @ [0xC0, 0x0C]) 12 j e = None" for j e
  proof (induction "32 - j" arbitrary: j e)
    case 0
    then show ?case by (subst read_labels.simps) (simp add: Let_def nth_append)
  next
    case (Suc n)
    then have "read_labels (replicate 12 0 @ [0xC0, 0x0C]) 12 (j + 1) e' = None" for e' by simp
    then show ?case by (subst read_labels.simps) (simp add: Let_def nth_append)
  qed
  show "passes read_name_rejects_a_compression_pointer_loop"
    using loop [of 0 None] by (simp add: read_name_rejects_a_compression_pointer_loop_def read_name_def)
qed

section \<open>The suite\<close>

definition host_tests :: "dns_network \<Rightarrow> rstring \<Rightarrow> (nat list \<Rightarrow> u16) \<Rightarrow> unit_test list" where
  "host_tests net addr ids =
    [builds_ipv4_ptr_query_name, builds_ipv6_ptr_query_name, round_trips_uncompressed_name,
     follows_compression_pointer, encode_query_contains_labels, fake_verifier_matches_known_pair,
     allow_all_verifier_accepts_any_claim net,
     reverse_lookup_returns_ptr_name_from_a_real_query_response addr ids,
     forward_lookup_returns_a_record_from_a_real_query_response addr ids,
     is_forward_confirmed_true_when_both_directions_agree addr ids,
     is_forward_confirmed_false_when_ptr_does_not_match_claim addr ids,
     is_forward_confirmed_false_when_forward_lookup_disagrees addr ids,
     normalize_ignores_case_and_trailing_dot, unreachable_resolver_yields_error_not_panic net,
     is_forward_confirmed_false_when_reverse_lookup_itself_fails net,
     is_forward_confirmed_false_when_forward_lookup_itself_fails addr ids,
     forward_lookup_returns_aaaa_record_from_a_real_query_response addr ids,
     encode_query_skips_an_empty_label_from_a_trailing_dot, read_name_rejects_a_compression_pointer_loop,
     parse_response_rejects_a_too_short_message, parse_response_rejects_a_mismatched_id,
     query_falls_back_to_a_later_resolver_after_an_earlier_one_fails addr ids,
     forward_lookup_ignores_an_answer_of_the_wrong_record_type addr ids]"

lemma host_suite:
  "(\<And>path request. exchange net path nobody_listening request = None) \<Longrightarrow> list_all passes (host_tests net addr ids)"
  by (simp add: host_tests_def message_tests_pass ipv6_name_passes read_name_tests_pass encoded_label_passes
      fake_resolver_tests_pass unreachable_tests_pass fall_back_passes wrong_type_passes)

end
