(* ===== verification/Service_Tests.thy ===== *)
theory Service_Tests
  imports Test_Kit Rate_Limit Ntp Args
begin

text \<open>
  The unit tests of \<open>binda-core/src/rate_limit.rs\<close> and \<open>ntp.rs\<close>, and of \<open>peers.rs\<close> and \<open>main.rs\<close> of the
  daemon. The rounding of floating-point numbers and the readings of the clocks are arguments.
\<close>

section \<open>Rate limiter\<close>

definition allows_bursts_up_to_capacity_then_throttles :: "(real \<Rightarrow> real) \<Rightarrow> nat \<Rightarrow> unit_test" where
  "allows_bursts_up_to_capacity_then_throttles rnd now = do {
     let limiter = limiter_new 3 1 100;
     let (ok, limiter) = allow_at rnd (lit ''a'') now limiter;
     check ok;
     let (ok, limiter) = allow_at rnd (lit ''a'') now limiter;
     check ok;
     let (ok, limiter) = allow_at rnd (lit ''a'') now limiter;
     check ok;
     let (ok, limiter) = allow_at rnd (lit ''a'') now limiter;
     check (\<not> ok)
   }"

definition refills_over_time :: "(real \<Rightarrow> real) \<Rightarrow> nat \<Rightarrow> unit_test" where
  "refills_over_time rnd t0 = do {
     let limiter = limiter_new 1 1 100;
     let (ok, limiter) = allow_at rnd (lit ''a'') t0 limiter;
     check ok;
     let (ok, limiter) = allow_at rnd (lit ''a'') t0 limiter;
     check (\<not> ok);
     let t1 = t0 + from_millis 1100;
     let (ok, limiter) = allow_at rnd (lit ''a'') t1 limiter;
     check ok
   }"

definition keys_are_independent :: "(real \<Rightarrow> real) \<Rightarrow> nat \<Rightarrow> unit_test" where
  "keys_are_independent rnd now = do {
     let limiter = limiter_new 1 1 100;
     let (ok, limiter) = allow_at rnd (lit ''a'') now limiter;
     check ok;
     let (ok, limiter) = allow_at rnd (lit ''b'') now limiter;
     check ok;
     let (ok, limiter) = allow_at rnd (lit ''a'') now limiter;
     check (\<not> ok);
     let (ok, limiter) = allow_at rnd (lit ''b'') now limiter;
     check (\<not> ok)
   }"

definition evicts_least_recently_seen_key_when_over_capacity :: "(real \<Rightarrow> real) \<Rightarrow> nat \<Rightarrow> unit_test" where
  "evicts_least_recently_seen_key_when_over_capacity rnd t0 = do {
     let limiter = limiter_new 1 1 2;
     let (_, limiter) = allow_at rnd (lit ''a'') t0 limiter;
     let (_, limiter) = allow_at rnd (lit ''b'') (t0 + from_millis 10) limiter;
     let (_, limiter) = allow_at rnd (lit ''c'') (t0 + from_millis 20) limiter;
     check (length (buckets limiter) = 2);
     check (\<not> hm_contains_key (buckets limiter) (lit ''a''))
   }"

definition prune_removes_stale_keys :: "(real \<Rightarrow> real) \<Rightarrow> nat \<Rightarrow> unit_test" where
  "prune_removes_stale_keys rnd t0 = do {
     let limiter = limiter_new 1 1 100;
     let (_, limiter) = allow_at rnd (lit ''a'') t0 limiter;
     let limiter = prune_older_than (from_millis 60000) (t0 + from_millis 120000) limiter;
     check (buckets limiter = [])
   }"

text \<open>The roundings these tests meet.\<close>

lemma small_roundings:
  assumes "rounding rnd"
  shows "rnd 0 = 0" "rnd 1 = 1" "rnd 2 = 2" "rnd 3 = 3" "0 \<le> rnd (1 / 10)" "1 \<le> x \<Longrightarrow> 1 \<le> rnd x"
proof -
  show nums: "rnd 0 = 0" "rnd 1 = 1" "rnd 2 = 2" "rnd 3 = 3"
    using roundingD(2) [OF assms, of 0] roundingD(2) [OF assms, of 1] roundingD(2) [OF assms, of 2]
      roundingD(2) [OF assms, of 3] by simp_all
  show "1 \<le> rnd x" if "1 \<le> x" using roundingD(1) [OF assms that] nums(2) by simp
  show "0 \<le> rnd (1 / 10)" by (rule roundingD(4) [OF assms]) simp
qed

lemma limiter_tests_pass:
  assumes "rounding rnd"
  shows "passes (allows_bursts_up_to_capacity_then_throttles rnd now)" "passes (refills_over_time rnd now)"
    "passes (keys_are_independent rnd now)" "passes (evicts_least_recently_seen_key_when_over_capacity rnd now)"
    "passes (prune_removes_stale_keys rnd now)"
proof -
  note run = limiter_new_def allow_at_def Let_def hm_contains_key_def refill_def as_secs_f64_def from_millis_def
    small_roundings [OF assms]
  show "passes (allows_bursts_up_to_capacity_then_throttles rnd now)"
    by (simp add: allows_bursts_up_to_capacity_then_throttles_def run)
  show "passes (refills_over_time rnd now)"
    by (simp add: refills_over_time_def run)
  show "passes (keys_are_independent rnd now)"
    by (simp add: keys_are_independent_def run)
  show "passes (evicts_least_recently_seen_key_when_over_capacity rnd now)"
    by (simp add: evicts_least_recently_seen_key_when_over_capacity_def run evict_least_recently_seen_def
        hm_insert_def hm_remove_def hm_get_def)
  show "passes (prune_removes_stale_keys rnd now)"
    by (simp add: prune_removes_stale_keys_def run prune_older_than_def hm_retain_def hm_insert_def)
qed

section \<open>Peers\<close>

definition local_addr :: "u16 \<Rightarrow> socket_addr option" where
  "local_addr port = parse_socket_addr (lit ''127.0.0.1:'' @ show_nat (unat port))"

definition starts_empty_with_no_initial_peers :: "(nat \<Rightarrow> nat) \<Rightarrow> unit_test" where
  "starts_empty_with_no_initial_peers pick = do {
     let book = peers_new [];
     check (random_peer pick book = None);
     check (snapshot book = [])
   }"

definition random_peer_returns_the_only_known_peer :: "(nat \<Rightarrow> nat) \<Rightarrow> unit_test" where
  "random_peer_returns_the_only_known_peer pick = do {
     a \<leftarrow> local_addr 9000;
     let book = peers_new [a];
     check (random_peer pick book = Some a)
   }"

definition learn_adds_a_new_address :: unit_test where
  "learn_adds_a_new_address = do {
     a \<leftarrow> local_addr 9000;
     let book = peers_new [];
     let book = learn a book;
     check (snapshot book = [a])
   }"

definition learn_does_not_duplicate_a_known_address :: unit_test where
  "learn_does_not_duplicate_a_known_address = do {
     a \<leftarrow> local_addr 9000;
     let book = peers_new [a];
     let book = learn a book;
     check (snapshot book = [a])
   }"

definition snapshot_reflects_multiple_learned_peers :: unit_test where
  "snapshot_reflects_multiple_learned_peers = do {
     a \<leftarrow> local_addr 9000;
     b \<leftarrow> local_addr 9001;
     let book = peers_new [];
     let book = learn a book;
     let book = learn b book;
     let known = snapshot book;
     check (length known = 2);
     check (List.member known a);
     check (List.member known b)
   }"

lemma local_addrs [simp]:
  "local_addr 9000 = Some (socket_addr_new (IpV4 [127, 0, 0, 1]) 9000)"
  "local_addr 9001 = Some (socket_addr_new (IpV4 [127, 0, 0, 1]) 9001)"
  by (simp_all add: local_addr_def address_eval show_nat.simps)

lemma peer_tests_pass:
  "passes (starts_empty_with_no_initial_peers pick)" "passes (random_peer_returns_the_only_known_peer pick)"
  "passes learn_adds_a_new_address" "passes learn_does_not_duplicate_a_known_address"
  "passes snapshot_reflects_multiple_learned_peers"
  by (simp_all add: starts_empty_with_no_initial_peers_def random_peer_returns_the_only_known_peer_def
      learn_adds_a_new_address_def learn_does_not_duplicate_a_known_address_def
      snapshot_reflects_multiple_learned_peers_def peers_new_def random_peer_def snapshot_def learn_def
      socket_addr_new_def)

section \<open>Command line\<close>

definition defaults_when_no_flags_given :: unit_test where
  "defaults_when_no_flags_given = do {
     parsed \<leftarrow> parse_args_from [];
     gossip \<leftarrow> parse_socket_addr (lit ''0.0.0.0:9530'');
     check (gossip_addr parsed = gossip);
     resolver \<leftarrow> parse_socket_addr (lit ''0.0.0.0:9531'');
     check (resolver_addr parsed = resolver);
     api \<leftarrow> parse_socket_addr (lit ''0.0.0.0:9532'');
     check (api_addr parsed = api);
     check (dns_addr parsed = None);
     check (peers_arg parsed = []);
     check (\<not> insecure_skip_rdns_verification parsed)
   }"

definition insecure_skip_rdns_verification_flag_is_recognized :: unit_test where
  "insecure_skip_rdns_verification_flag_is_recognized = do {
     parsed \<leftarrow> parse_args_from [lit ''--insecure-skip-rdns-verification''];
     check (insecure_skip_rdns_verification parsed)
   }"

definition parses_each_address_flag :: unit_test where
  "parses_each_address_flag = do {
     parsed \<leftarrow> parse_args_from
       [lit ''--gossip'', lit ''127.0.0.1:1'', lit ''--resolver'', lit ''127.0.0.1:2'',
        lit ''--api'', lit ''127.0.0.1:3'', lit ''--dns'', lit ''127.0.0.1:4''];
     gossip \<leftarrow> parse_socket_addr (lit ''127.0.0.1:1'');
     check (gossip_addr parsed = gossip);
     resolver \<leftarrow> parse_socket_addr (lit ''127.0.0.1:2'');
     check (resolver_addr parsed = resolver);
     api \<leftarrow> parse_socket_addr (lit ''127.0.0.1:3'');
     check (api_addr parsed = api);
     dns \<leftarrow> parse_socket_addr (lit ''127.0.0.1:4'');
     check (dns_addr parsed = Some dns)
   }"

definition collects_repeated_peer_flags_in_order :: unit_test where
  "collects_repeated_peer_flags_in_order = do {
     parsed \<leftarrow> parse_args_from [lit ''--peer'', lit ''127.0.0.1:1'', lit ''--peer'', lit ''127.0.0.1:2''];
     a \<leftarrow> parse_socket_addr (lit ''127.0.0.1:1'');
     b \<leftarrow> parse_socket_addr (lit ''127.0.0.1:2'');
     check (peers_arg parsed = [a, b])
   }"

definition unrecognized_flag_is_ignored_not_fatal :: unit_test where
  "unrecognized_flag_is_ignored_not_fatal = do {
     parsed \<leftarrow> parse_args_from [lit ''--bogus'', lit ''--gossip'', lit ''127.0.0.1:1''];
     gossip \<leftarrow> parse_socket_addr (lit ''127.0.0.1:1'');
     check (gossip_addr parsed = gossip)
   }"

text \<open>\<open>#[should_panic]\<close>.\<close>

definition missing_value_for_flag_panics_with_clear_message :: unit_test where
  "missing_value_for_flag_panics_with_clear_message = check (parse_args_from [lit ''--gossip''] = None)"

definition unparseable_address_panics_with_clear_message :: unit_test where
  "unparseable_address_panics_with_clear_message =
    check (parse_args_from [lit ''--gossip'', lit ''not-an-address''] = None)"

lemma argument_addresses [simp]:
  "parse_socket_addr (lit ''127.0.0.1:1'') = Some (socket_addr_new (IpV4 [127, 0, 0, 1]) 1)"
  "parse_socket_addr (lit ''127.0.0.1:2'') = Some (socket_addr_new (IpV4 [127, 0, 0, 1]) 2)"
  "parse_socket_addr (lit ''127.0.0.1:3'') = Some (socket_addr_new (IpV4 [127, 0, 0, 1]) 3)"
  "parse_socket_addr (lit ''127.0.0.1:4'') = Some (socket_addr_new (IpV4 [127, 0, 0, 1]) 4)"
  "parse_socket_addr (lit ''0.0.0.0:9530'') = Some (socket_addr_new (IpV4 [0, 0, 0, 0]) 9530)"
  "parse_socket_addr (lit ''0.0.0.0:9531'') = Some (socket_addr_new (IpV4 [0, 0, 0, 0]) 9531)"
  "parse_socket_addr (lit ''0.0.0.0:9532'') = Some (socket_addr_new (IpV4 [0, 0, 0, 0]) 9532)"
  "parse_socket_addr (lit ''not-an-address'') = None"
  by (simp_all add: address_eval read_socket_addr_v6_def)

lemma argument_tests_pass:
  "passes defaults_when_no_flags_given" "passes insecure_skip_rdns_verification_flag_is_recognized"
  "passes parses_each_address_flag" "passes collects_repeated_peer_flags_in_order"
  "passes unrecognized_flag_is_ignored_not_fatal" "passes missing_value_for_flag_panics_with_clear_message"
  "passes unparseable_address_panics_with_clear_message"
  by (simp_all add: defaults_when_no_flags_given_def insecure_skip_rdns_verification_flag_is_recognized_def
      parses_each_address_flag_def collects_repeated_peer_flags_in_order_def unrecognized_flag_is_ignored_not_fatal_def
      missing_value_for_flag_panics_with_clear_message_def unparseable_address_panics_with_clear_message_def
      parse_args_from_def)

section \<open>Listener tasks\<close>

definition listener_args :: "string \<Rightarrow> string \<Rightarrow> string \<Rightarrow> string option \<Rightarrow> args option" where
  "listener_args gossip resolver api dns = do {
     g \<leftarrow> parse_socket_addr (lit gossip);
     r \<leftarrow> parse_socket_addr (lit resolver);
     a \<leftarrow> parse_socket_addr (lit api);
     d \<leftarrow> (case dns of None \<Rightarrow> Some None | Some s \<Rightarrow> map_option Some (parse_socket_addr (lit s)));
     Some \<lparr>gossip_addr = g, resolver_addr = r, api_addr = a, dns_addr = d, peers_arg = [],
       insecure_skip_rdns_verification = False\<rparr>
   }"

definition spawn_listener_tasks_creates_a_dns_task_when_configured ::
  "listener_runs \<Rightarrow> unit_test" where
  "spawn_listener_tasks_creates_a_dns_task_when_configured run = do {
     parsed_args \<leftarrow> listener_args ''127.0.0.1:29590'' ''127.0.0.1:29591'' ''127.0.0.1:29592'' (Some ''127.0.0.1:29593'');
     let tasks = spawn_listener_tasks run parsed_args;
     check (dns_task tasks \<noteq> None)
   }"

definition spawn_listener_tasks_omits_dns_when_not_configured ::
  "listener_runs \<Rightarrow> unit_test" where
  "spawn_listener_tasks_omits_dns_when_not_configured run = do {
     parsed_args \<leftarrow> listener_args ''127.0.0.1:29594'' ''127.0.0.1:29595'' ''127.0.0.1:29596'' None;
     let tasks = spawn_listener_tasks run parsed_args;
     check (dns_task tasks = None)
   }"

text \<open>The sockets the test holds: no listener can bind their addresses.\<close>

definition hold_addresses ::
  "socket_addr list \<Rightarrow> rstring \<Rightarrow> listener_runs \<Rightarrow> listener_runs" where
  "hold_addresses held in_use run l addr = (if List.member held addr then Some (Failed in_use) else run l addr)"

definition spawned_tasks_log_and_exit_cleanly_when_their_bind_address_is_taken ::
  "rstring \<Rightarrow> listener_runs \<Rightarrow> unit_test" where
  "spawned_tasks_log_and_exit_cleanly_when_their_bind_address_is_taken in_use run = do {
     parsed_args \<leftarrow> listener_args ''127.0.0.1:29597'' ''127.0.0.1:29598'' ''127.0.0.1:29599'' (Some ''127.0.0.1:29600'');
     dns \<leftarrow> dns_addr parsed_args;
     let run = hold_addresses [gossip_addr parsed_args, resolver_addr parsed_args, api_addr parsed_args, dns] in_use run;
     let tasks = spawn_listener_tasks run parsed_args;
     check (has_exited (gossip_task tasks));
     check (has_exited (resolver_task tasks));
     check (has_exited (api_task tasks));
     t \<leftarrow> dns_task tasks;
     check (has_exited t)
   }"

lemma listener_addresses:
  "\<exists>a. parse_socket_addr (lit ''127.0.0.1:29590'') = Some a" "\<exists>a. parse_socket_addr (lit ''127.0.0.1:29591'') = Some a"
  "\<exists>a. parse_socket_addr (lit ''127.0.0.1:29592'') = Some a" "\<exists>a. parse_socket_addr (lit ''127.0.0.1:29593'') = Some a"
  "\<exists>a. parse_socket_addr (lit ''127.0.0.1:29594'') = Some a" "\<exists>a. parse_socket_addr (lit ''127.0.0.1:29595'') = Some a"
  "\<exists>a. parse_socket_addr (lit ''127.0.0.1:29596'') = Some a" "\<exists>a. parse_socket_addr (lit ''127.0.0.1:29597'') = Some a"
  "\<exists>a. parse_socket_addr (lit ''127.0.0.1:29598'') = Some a" "\<exists>a. parse_socket_addr (lit ''127.0.0.1:29599'') = Some a"
  "\<exists>a. parse_socket_addr (lit ''127.0.0.1:29600'') = Some a"
  by (simp_all add: address_eval)

lemma listener_tests_pass:
  "passes (spawn_listener_tasks_creates_a_dns_task_when_configured run)"
  "passes (spawn_listener_tasks_omits_dns_when_not_configured run)"
  "passes (spawned_tasks_log_and_exit_cleanly_when_their_bind_address_is_taken in_use run)"
proof -
  note run = listener_args_def spawn_listener_tasks_def spawn_listener_def has_exited_def hold_addresses_def
  show "passes (spawn_listener_tasks_creates_a_dns_task_when_configured run)"
    using listener_addresses(1-4) by (auto simp: spawn_listener_tasks_creates_a_dns_task_when_configured_def run)
  show "passes (spawn_listener_tasks_omits_dns_when_not_configured run)"
    using listener_addresses(5-7) by (auto simp: spawn_listener_tasks_omits_dns_when_not_configured_def run)
  show "passes (spawned_tasks_log_and_exit_cleanly_when_their_bind_address_is_taken in_use run)"
    using listener_addresses(8-11)
    by (auto simp: spawned_tasks_log_and_exit_cleanly_when_their_bind_address_is_taken_def run)
qed

section \<open>Clock\<close>

definition duration_abs_diff :: "nat \<Rightarrow> nat \<Rightarrow> nat" where
  "duration_abs_diff a b = max a b - min a b"

definition timestamp_round_trips_through_ntp_encoding :: unit_test where
  "timestamp_round_trips_through_ntp_encoding = do {
     let original = 1700000000 * 1000000000 + 500000000;
     let buf = write_ntp_timestamp original;
     let decoded = read_ntp_timestamp buf;
     let diff = duration_abs_diff decoded original;
     check (diff < from_millis 1)
   }"

definition unsynced_source_falls_back_to_zero_offset :: "nat \<Rightarrow> nat \<Rightarrow> unit_test" where
  "unsynced_source_falls_back_to_zero_offset now now' = do {
     let source = ntp_new;
     check (\<not> synced source);
     let local_millis = (of_nat (now div 1000000) :: u64);
     let reported = ntp_now_millis source now';
     check (abs_diff reported local_millis < 1000)
   }"

text \<open>The time server of the tests, with its clock's reading as an argument.\<close>

definition fake_ntp_server :: "int \<Rightarrow> nat \<Rightarrow> bytes \<Rightarrow> bytes option" where
  "fake_ntp_server offset now request = do {
     server_time \<leftarrow> (if 0 \<le> offset then Some (now + from_millis (nat offset))
       else if from_millis (nat (- offset)) \<le> now then Some (now - from_millis (nat (- offset)))
       else None);
     Some ([0x24] @ replicate 31 0 @ write_ntp_timestamp server_time @ write_ntp_timestamp server_time)
   }"

definition ask_fake_server :: "int \<Rightarrow> nat \<times> nat \<times> nat \<Rightarrow> ntp_exchange" where
  "ask_fake_server offset = (\<lambda>(before, at_server, after).
    \<lparr>clock_before = before, datagram = fake_ntp_server offset at_server, clock_after = after\<rparr>)"

definition query_offset_millis_reflects_server_clock_difference :: "nat \<times> nat \<times> nat \<Rightarrow> unit_test" where
  "query_offset_millis_reflects_server_clock_difference clocks = do {
     offset \<leftarrow> query_offset_millis (ask_fake_server 5000 clocks);
     check (\<bar>offset - 5000\<bar> < 1000)
   }"

definition query_offset_millis_handles_negative_offset :: "nat \<times> nat \<times> nat \<Rightarrow> unit_test" where
  "query_offset_millis_handles_negative_offset clocks = do {
     offset \<leftarrow> query_offset_millis (ask_fake_server (- 3000) clocks);
     check (\<bar>offset + 3000\<bar> < 1000)
   }"

definition unreachable_server :: "nat \<Rightarrow> nat \<Rightarrow> ntp_exchange" where
  "unreachable_server before after = \<lparr>clock_before = before, datagram = (\<lambda>_. None), clock_after = after\<rparr>"

definition query_offset_millis_errors_when_resolver_unreachable :: "nat \<Rightarrow> nat \<Rightarrow> unit_test" where
  "query_offset_millis_errors_when_resolver_unreachable before after =
    check (query_offset_millis (unreachable_server before after) = None)"

definition ntp_time_source_applies_offset_and_reports_synced :: "nat \<times> nat \<times> nat \<Rightarrow> nat \<Rightarrow> nat \<Rightarrow> unit_test" where
  "ntp_time_source_applies_offset_and_reports_synced clocks now now' = do {
     let source = ntp_spawn [ask_fake_server 10000 clocks];
     check (synced source);
     let local_millis = millis_i64 now;
     let reported = sint (ntp_now_millis source now');
     check (\<bar>reported - (local_millis + 10000)\<bar> < 2000)
   }"

definition ntp_time_source_stays_unsynced_when_every_server_is_unreachable :: "nat \<Rightarrow> nat \<Rightarrow> unit_test" where
  "ntp_time_source_stays_unsynced_when_every_server_is_unreachable before after = do {
     let source = ntp_spawn [unreachable_server before after];
     check (\<not> synced source)
   }"

definition query_offset_millis_errors_on_a_short_reply :: "nat \<Rightarrow> nat \<Rightarrow> unit_test" where
  "query_offset_millis_errors_on_a_short_reply before after = do {
     let result = query_offset_millis
       \<lparr>clock_before = before, datagram = (\<lambda>_. Some (replicate 10 0)), clock_after = after\<rparr>;
     check (result = None)
   }"

text \<open>Readings of a clock around one exchange on the machine's own network: half a second at most,
  and years before the format wraps.\<close>

fun quick_exchange :: "nat \<times> nat \<times> nat \<Rightarrow> bool" where
  "quick_exchange (before, at_server, after) \<longleftrightarrow>
    before \<le> at_server \<and> at_server \<le> after \<and> after \<le> before + from_millis 500 \<and>
    from_millis 3000 \<le> before \<and> after div 1000000000 + 10 < 2085978496"

lemma millis_range:
  assumes "nanos div 1000000000 < (2085978496 :: nat)"
  shows "int nanos div 1000000 < 2 ^ 52"
proof -
  have "nanos < 2085978496 * 1000000000" using assms by (simp add: div_less_iff_less_mult)
  then have "int nanos div 1000000 \<le> 2085978496000000000 div 1000000" by (intro zdiv_mono1) simp_all
  then show ?thesis by simp
qed

text \<open>A reading shifted by whole milliseconds is off by less than one of them after the format's
  rounding.\<close>

lemma shifted_millis:
  assumes "int st = int t + lead * 1000000" "st div 1000000000 < 2085978496"
  shows "int t div 1000000 + lead - 1 \<le> int (read_ntp_timestamp (write_ntp_timestamp st) div 1000000)"
    "int (read_ntp_timestamp (write_ntp_timestamp st) div 1000000) \<le> int t div 1000000 + lead"
proof -
  let ?r = "read_ntp_timestamp (write_ntp_timestamp st)"
  have r: "?r \<le> st" "st \<le> ?r + 1" using ntp_timestamp_error [OF assms(2)] by simp_all
  have st: "int st div 1000000 = int t div 1000000 + lead" using assms(1) by simp
  have "int ?r div 1000000 \<le> int st div 1000000" using r(1) by (intro zdiv_mono1) simp_all
  with st show "int (?r div 1000000) \<le> int t div 1000000 + lead" by (simp add: zdiv_int)
  have "(int st - 1000000) div 1000000 \<le> int ?r div 1000000" using r(2) by (intro zdiv_mono1) simp_all
  moreover have "(int st - 1000000) div 1000000 = int st div 1000000 - 1"
    using div_mult_self1 [of 1000000 "int st" "-1"] by simp
  ultimately show "int t div 1000000 + lead - 1 \<le> int (?r div 1000000)" using st by (simp add: zdiv_int)
qed

lemma offset_close:
  fixes b a c q lead :: int
  assumes "0 \<le> b" "b \<le> a" "a \<le> c" "c \<le> b + 500" "c < 2 ^ 52" "a + lead - 1 \<le> q" "q \<le> a + lead" "0 \<le> q" "lead \<le> 10000"
  shows "\<bar>offset_of b q q c - lead\<bar> \<le> 252"
proof -
  have "offset_of b q q c = ((q - b) + (q - c)) sdiv 2"
    using assms by (intro offset_of_exact) simp_all
  moreover have "\<bar>2 * y - x\<bar> \<le> 1 \<Longrightarrow> \<bar>x - 2 * lead\<bar> \<le> 502 \<Longrightarrow> \<bar>y - lead\<bar> \<le> 252" for x y :: int by arith
  moreover have "\<bar>((q - b) + (q - c)) - 2 * lead\<bar> \<le> 502" using assms by arith
  ultimately show ?thesis using sdiv_2 [of "(q - b) + (q - c)"] by simp
qed

lemma fake_server_offset:
  assumes quick: "quick_exchange (before, at_server, after)" and lead: "- 3000 \<le> lead" "lead \<le> 10000"
  shows "\<exists>offset. query_offset_millis (ask_fake_server lead (before, at_server, after)) = Some offset \<and>
    \<bar>offset - lead\<bar> \<le> 252"
proof -
  define st where "st = nat (int at_server + lead * 1000000)"
  have st: "int st = int at_server + lead * 1000000" using assms by (simp add: st_def from_millis_def)
  have "int st \<le> int after + 10 * 1000000000" using assms st by simp
  then have "st \<le> after + 10 * 1000000000" by linarith
  then have "st div 1000000000 \<le> (after + 10 * 1000000000) div 1000000000" by (rule div_le_mono)
  then have "st div 1000000000 \<le> 10 + after div 1000000000"
    using div_mult_self1 [of "1000000000 :: nat" after 10] by simp
  then have year: "st div 1000000000 < 2085978496" using quick by simp
  let ?q = "int (read_ntp_timestamp (write_ntp_timestamp st) div 1000000)"
  let ?b = "int before div 1000000" and ?a = "int at_server div 1000000" and ?c = "int after div 1000000"
  have reply: "fake_ntp_server lead at_server request =
      Some ([0x24] @ replicate 31 0 @ write_ntp_timestamp st @ write_ntp_timestamp st)" for request
  proof -
    have "st = (if 0 \<le> lead then at_server + from_millis (nat lead) else at_server - from_millis (nat (- lead)))"
      using st quick lead by (simp add: from_millis_def nat_mult_distrib) linarith
    moreover have "from_millis (nat (- lead)) \<le> at_server" if "lead < 0"
    proof -
      have "nat (- lead) \<le> 3000" using lead by simp
      then have "nat (- lead) * 1000000 \<le> 3000 * 1000000" by (rule mult_le_mono1)
      with quick show ?thesis by (simp add: from_millis_def)
    qed
    ultimately show ?thesis by (simp add: fake_ntp_server_def)
  qed
  have order: "?b \<le> ?a" "?a \<le> ?c" using quick by (auto intro: zdiv_mono1)
  have "?c \<le> (int before + 500 * 1000000) div 1000000" using quick by (intro zdiv_mono1) (simp_all add: from_millis_def)
  then have late: "?c \<le> ?b + 500" by simp
  have secs: "?c < 2 ^ 52" using quick by (intro millis_range) simp
  note q = shifted_millis [OF st year]
  have pos: "0 \<le> int x div 1000000" for x by (rule div_int_pos_iff [THEN iffD2]) simp
  have range: "0 \<le> ?b" "0 \<le> ?q" "?q < 2 ^ 60" "?b < 2 ^ 60" "?c < 2 ^ 60" "0 \<le> ?c"
    using q order late secs lead by (simp_all add: pos)
  have m: "millis_i64 x = int x div 1000000" if "int x div 1000000 < 2 ^ 60" for x
    using that by (subst millis_i64_id) (simp_all add: zdiv_int)
  have query: "query_offset_millis (ask_fake_server lead (before, at_server, after)) =
      Some (offset_of ?b ?q ?q ?c)"
  proof -
    have len: "length (write_ntp_timestamp st) = 8" by (simp add: write_ntp_timestamp_def Let_def)
    have "millis_i64 before = ?b" "millis_i64 after = ?c" using m range by simp_all
    moreover have "millis_i64 (read_ntp_timestamp (write_ntp_timestamp st)) = ?q"
      using m [of "read_ntp_timestamp (write_ntp_timestamp st)"] range by (simp add: zdiv_int)
    ultimately show ?thesis by (simp add: query_offset_millis_def ask_fake_server_def reply len)
  qed
  have "\<bar>offset_of ?b ?q ?q ?c - lead\<bar> \<le> 252"
    using range(1) order late secs q range(2) lead(2) by (rule offset_close)
  with query show ?thesis by simp
qed

lemma fake_server_tests_pass:
  assumes "quick_exchange clocks"
  shows "passes (query_offset_millis_reflects_server_clock_difference clocks)"
    "passes (query_offset_millis_handles_negative_offset clocks)"
proof -
  obtain t1 t2 t3 where clocks: "clocks = (t1, t2, t3)" by (cases clocks) auto
  with assms have quick: "quick_exchange (t1, t2, t3)" by simp
  show "passes (query_offset_millis_reflects_server_clock_difference clocks)"
    using fake_server_offset [OF quick, of 5000]
    by (auto simp: query_offset_millis_reflects_server_clock_difference_def clocks)
  show "passes (query_offset_millis_handles_negative_offset clocks)"
    using fake_server_offset [OF quick, of "- 3000"]
    by (auto simp: query_offset_millis_handles_negative_offset_def clocks)
qed

lemma clock_error_tests_pass:
  "passes (query_offset_millis_errors_when_resolver_unreachable before after)"
  "passes (ntp_time_source_stays_unsynced_when_every_server_is_unreachable before after)"
  "passes (query_offset_millis_errors_on_a_short_reply before after)"
  by (simp_all add: query_offset_millis_errors_when_resolver_unreachable_def unreachable_server_def
      ntp_time_source_stays_unsynced_when_every_server_is_unreachable_def ntp_spawn_def ntp_new_def
      query_offset_millis_errors_on_a_short_reply_def query_offset_millis_def)

lemma timestamp_test_passes: "passes timestamp_round_trips_through_ntp_encoding"
  using ntp_timestamp_error [of "1700000000 * 1000000000 + 500000000"]
  by (auto simp: timestamp_round_trips_through_ntp_encoding_def duration_abs_diff_def from_millis_def)

text \<open>A later reading of the clock, within half a second.\<close>

definition soon_after :: "nat \<Rightarrow> nat \<Rightarrow> bool" where
  "soon_after now now' \<longleftrightarrow> now \<le> now' \<and> now' \<le> now + from_millis 500 \<and> now' div 1000000000 < 2085978496"

lemma soon_after_millis:
  assumes "soon_after now now'"
  shows "int now div 1000000 \<le> int now' div 1000000" "int now' div 1000000 \<le> int now div 1000000 + 500"
    "int now' div 1000000 < 2 ^ 52"
proof -
  show "int now div 1000000 \<le> int now' div 1000000"
    using assms by (intro zdiv_mono1) (simp_all add: soon_after_def)
  have "int now' div 1000000 \<le> (int now + 500 * 1000000) div 1000000"
    using assms by (intro zdiv_mono1) (simp_all add: soon_after_def from_millis_def)
  then show "int now' div 1000000 \<le> int now div 1000000 + 500" by simp
  show "int now' div 1000000 < 2 ^ 52" using assms by (intro millis_range) (simp add: soon_after_def)
qed

lemma ntp_now_sint:
  assumes "int now div 1000000 < 2 ^ 60" "\<bar>offset_millis src\<bar> \<le> 2 ^ 60" "0 \<le> int now div 1000000 + offset_millis src"
  shows "sint (ntp_now_millis src now) = int now div 1000000 + offset_millis src"
proof -
  have m: "millis_i64 now = int now div 1000000"
    using assms(1) by (subst millis_i64_id) (simp_all add: zdiv_int)
  have "wrap_i64 (int now div 1000000 + offset_millis src) = int now div 1000000 + offset_millis src"
    using assms by (intro wrap_i64_id) simp_all
  moreover have small: "sint (of_int x :: u64) = x" if "0 \<le> x" "x < 2 ^ 62" for x :: int
    using that by (simp add: signed_of_int signed_take_bit_int_eq_self)
  moreover from small [OF assms(3)] have "sint (of_int (int now div 1000000 + offset_millis src) :: u64) = int now div 1000000 + offset_millis src"
    using assms by simp
  ultimately show ?thesis using assms(3) unfolding ntp_now_millis_def m by (simp only: max_absorb1)
qed

lemma synced_test_passes:
  assumes "quick_exchange clocks" "soon_after now now'"
  shows "passes (ntp_time_source_applies_offset_and_reports_synced clocks now now')"
proof -
  obtain t1 t2 t3 where clocks: "clocks = (t1, t2, t3)" by (cases clocks) auto
  with assms(1) fake_server_offset [of t1 t2 t3 10000] obtain offset where
    offset: "query_offset_millis (ask_fake_server 10000 clocks) = Some offset" "\<bar>offset - 10000\<bar> \<le> 252" by auto
  let ?src = "\<lparr>offset_millis = offset, synced = True\<rparr>"
  have src: "ntp_spawn [ask_fake_server 10000 clocks] = ?src" by (simp add: ntp_spawn_def offset(1) ntp_new_def)
  note late = soon_after_millis [OF assms(2)]
  have "sint (ntp_now_millis ?src now') = int now' div 1000000 + offset"
    using late offset(2) by (subst ntp_now_sint) simp_all
  moreover have "millis_i64 now = int now div 1000000"
    using late by (subst millis_i64_id) (simp_all add: zdiv_int)
  ultimately show ?thesis
    using late offset(2)
    by (simp add: ntp_time_source_applies_offset_and_reports_synced_def src) (simp add: abs_less_iff abs_le_iff)
qed

lemma unsynced_test_passes:
  assumes "soon_after now now'"
  shows "passes (unsynced_source_falls_back_to_zero_offset now now')"
proof -
  note late = soon_after_millis [OF assms]
  have "int (unat (ntp_now_millis ntp_new now')) = int (now' div 1000000)"
    using late by (subst ntp_now_exact) (simp_all add: ntp_new_def zdiv_int)
  then have reported: "unat (ntp_now_millis ntp_new now') = now' div 1000000" by (simp only: of_nat_eq_iff)
  have "now div 1000000 < 2 ^ 64" using late by (simp add: zdiv_int [symmetric])
  then have "unat (of_nat (now div 1000000) :: u64) = now div 1000000" by (simp add: unat_of_nat)
  moreover have "now div 1000000 \<le> now' div 1000000" using assms by (intro div_le_mono) (simp add: soon_after_def)
  moreover have "now' div 1000000 \<le> (now + 500 * 1000000) div 1000000"
    using assms by (intro div_le_mono) (simp add: soon_after_def from_millis_def)
  ultimately have "unat (abs_diff (ntp_now_millis ntp_new now') (of_nat (now div 1000000))) \<le> 500"
    by (simp add: unat_abs_diff reported)
  then show ?thesis by (simp add: unsynced_source_falls_back_to_zero_offset_def word_less_nat_alt) (simp add: ntp_new_def)
qed

section \<open>The suites\<close>

definition clock_tests :: "nat \<times> nat \<times> nat \<Rightarrow> nat \<Rightarrow> nat \<Rightarrow> unit_test list" where
  "clock_tests clocks now now' =
    [timestamp_round_trips_through_ntp_encoding, unsynced_source_falls_back_to_zero_offset now now',
     query_offset_millis_reflects_server_clock_difference clocks, query_offset_millis_handles_negative_offset clocks,
     query_offset_millis_errors_when_resolver_unreachable now now',
     ntp_time_source_applies_offset_and_reports_synced clocks now now',
     ntp_time_source_stays_unsynced_when_every_server_is_unreachable now now',
     query_offset_millis_errors_on_a_short_reply now now']"

lemma clock_suite:
  "quick_exchange clocks \<Longrightarrow> soon_after now now' \<Longrightarrow> list_all passes (clock_tests clocks now now')"
  by (simp add: clock_tests_def timestamp_test_passes unsynced_test_passes fake_server_tests_pass clock_error_tests_pass
      synced_test_passes)

definition daemon_tests ::
  "(real \<Rightarrow> real) \<Rightarrow> nat \<Rightarrow> (nat \<Rightarrow> nat) \<Rightarrow> rstring \<Rightarrow> listener_runs \<Rightarrow> unit_test list" where
  "daemon_tests rnd instant pick in_use run =
    [allows_bursts_up_to_capacity_then_throttles rnd instant, refills_over_time rnd instant,
     keys_are_independent rnd instant, evicts_least_recently_seen_key_when_over_capacity rnd instant,
     prune_removes_stale_keys rnd instant,
     starts_empty_with_no_initial_peers pick, random_peer_returns_the_only_known_peer pick,
     learn_adds_a_new_address, learn_does_not_duplicate_a_known_address, snapshot_reflects_multiple_learned_peers,
     defaults_when_no_flags_given, insecure_skip_rdns_verification_flag_is_recognized, parses_each_address_flag,
     collects_repeated_peer_flags_in_order, unrecognized_flag_is_ignored_not_fatal,
     missing_value_for_flag_panics_with_clear_message, unparseable_address_panics_with_clear_message,
     spawn_listener_tasks_creates_a_dns_task_when_configured run,
     spawn_listener_tasks_omits_dns_when_not_configured run,
     spawned_tasks_log_and_exit_cleanly_when_their_bind_address_is_taken in_use run]"

lemma daemon_suite: "rounding rnd \<Longrightarrow> list_all passes (daemon_tests rnd instant pick in_use run)"
  by (simp add: daemon_tests_def limiter_tests_pass peer_tests_pass argument_tests_pass listener_tests_pass)

end
