(* ===== verification/Node_Tests.thy ===== *)
theory Node_Tests
  imports Node_Serving Data_Tests Dns_Tests
begin

text \<open>
  The tests of \<open>binda/src/node.rs\<close>, which run a node's listeners and talk to them over sockets. Here a
  datagram sent to a listener is one step of its loop, and what the test receives is what the step
  sends. The test waits for each reply before it goes on, so the steps come in the order written;
  when they happen is open: the instants of the monotonic clock are arguments. The nodes' wall
  clock stands still during a test.
\<close>

section \<open>The runs\<close>

text \<open>What a run draws or is given: the third-party code, the codecs of the test's own messages, a key, a nonce,
  the draws and the instants of the steps, the wall clock, the classic DNS, the port of the test's socket
  and the choice of peers.\<close>

record node_run =
  run_env :: node_env
  run_client :: demo_codec
  run_key :: signing_key
  run_nonce :: bytes
  run_draws :: "nat \<Rightarrow> gossip_draws"
  run_instant :: "nat \<Rightarrow> nat"
  run_millis :: u64
  run_net :: dns_network
  run_port :: u16
  run_pick :: "nat \<Rightarrow> nat"

definition test_node :: "socket_addr list \<Rightarrow> node" where
  "test_node peers = node_new peers"

definition test_node_allowing_any_rdns :: "socket_addr list \<Rightarrow> node" where
  "test_node_allowing_any_rdns peers = (test_node peers)\<lparr>node_verifier := AllowAllVerifier\<rparr>"

text \<open>The address of a socket bound to \<open>127.0.0.1:0\<close>.\<close>

definition client_addr :: "node_run \<Rightarrow> socket_addr" where
  "client_addr r = socket_addr_new (IpV4 [127, 0, 0, 1]) (run_port r)"

definition encode_gossip :: "node_run \<Rightarrow> gossip_message \<Rightarrow> bytes option" where
  "encode_gossip r msg = unwrap (encode (gossip_to_vec (run_env r)) msg)"

text \<open>One datagram from \<open>sender\<close> to the gossip listener of a node, as the \<open>i\<close>-th step of the run.\<close>

definition send_gossip :: "node_run \<Rightarrow> nat \<Rightarrow> socket_addr \<Rightarrow> bytes \<Rightarrow> node \<Rightarrow> node \<times> datagrams" where
  "send_gossip r i sender packet n =
    gossip_recv (run_env r) (run_instant r i) (run_draws r i) (frozen (run_millis r)) sender packet n"

fun first_request :: "(bytes \<Rightarrow> rstring + gossip_message) \<Rightarrow> datagrams \<Rightarrow> (domain_name list \<times> conformance_challenge) option" where
  "first_request from_slice [] = None"
| "first_request from_slice ((_, packet) # received) =
    (case decode from_slice (take max_datagram_bytes packet) of
      Inr (Request domains challenge) \<Rightarrow> Some (domains, challenge)
    | _ \<Rightarrow> first_request from_slice received)"

definition recv_request :: "node_run \<Rightarrow> datagrams \<Rightarrow> (domain_name list \<times> conformance_challenge) option" where
  "recv_request r received = first_request (gossip_from_slice (run_env r)) (take 20 received)"

text \<open>A digest of one name with the latest possible token.\<close>

definition newest_digest :: "domain_name \<Rightarrow> gossip_message" where
  "newest_digest d = Digest [\<lparr>entry_domain = d, entry_issued_at_millis = - 1\<rparr>]"

definition seed_registration_with_records ::
  "node_run \<Rightarrow> node \<Rightarrow> domain_name \<Rightarrow> zone_record list \<Rightarrow> node option" where
  "seed_registration_with_records r n d records = do {
     let ext = env_ext (run_env r);
     let k = run_key r;
     let time = frozen (run_millis r);
     let client = client_new (public_key k) (lit ''seed.example.net'');
     let s = probe client time (node_store n);
     let (result, s) = register ext (run_nonce r) d client time s;
     unwrap result;
     reg \<leftarrow> lookup s d;
     let timestamp = now_millis time;
     let probe_signature = sign_with k (probe_message timestamp);
     let registration_signature = sign_with k (register_message d timestamp);
     s \<leftarrow> (if records \<noteq> []
       then (let (ok, s) = set_records d client records s in if ok then Some s else None)
       else Some s);
     let rumor = \<lparr>rumor_domain = d, rumor_token = reg_token reg, rumor_client_key = client_key client,
       rumor_owner_key = public_key k, rumor_rdns = rdns client,
       registration_timestamp_millis = timestamp, registration_signature = registration_signature,
       probe_timestamp_millis = timestamp, probe_signature = probe_signature, rumor_records = records,
       records_timestamp_millis = (if records \<noteq> [] then Some timestamp else None),
       records_signature = (if records \<noteq> [] then Some (sign_with k (set_records_message ext d records timestamp)) else None)\<rparr>;
     let (ok, s) = attach_rumor ext rumor time s;
     check ok;
     Some (n\<lparr>node_store := s\<rparr>)
   }"

definition seed_registration :: "node_run \<Rightarrow> node \<Rightarrow> domain_name \<Rightarrow> node option" where
  "seed_registration r n d = seed_registration_with_records r n d []"

section \<open>Gossip\<close>

text \<open>The network of two running gossip loops: datagrams are delivered in the order they were sent, and the
  push loops of all nodes fire at every interval. \<open>fuel\<close> bounds the deliveries of one interval.\<close>

fun deliver ::
  "node_run \<Rightarrow> nat \<Rightarrow> (socket_addr \<times> socket_addr \<times> bytes) list \<Rightarrow> (socket_addr, node) hash_map \<Rightarrow>
    (socket_addr, node) hash_map" where
  "deliver r fuel [] nodes = nodes"
| "deliver r 0 queue nodes = nodes"
| "deliver r (Suc fuel) ((sender, dest, packet) # queue) nodes =
    (case hm_get nodes dest of
      None \<Rightarrow> deliver r fuel queue nodes
    | Some n \<Rightarrow>
        (let (n, out) = send_gossip r fuel sender packet n
         in deliver r fuel (queue @ map (\<lambda>(addr, reply). (dest, addr, reply)) out) (hm_insert dest n nodes)))"

definition all_pushes :: "node_run \<Rightarrow> (socket_addr, node) hash_map \<Rightarrow> (socket_addr \<times> socket_addr \<times> bytes) list" where
  "all_pushes r nodes =
    concat (map (\<lambda>(addr, n). map (\<lambda>(peer, digest). (addr, peer, digest)) (gossip_push (run_env r) (run_pick r) n)) nodes)"

fun gossip_intervals :: "node_run \<Rightarrow> nat \<Rightarrow> (socket_addr, node) hash_map \<Rightarrow> (socket_addr, node) hash_map" where
  "gossip_intervals r 0 nodes = nodes"
| "gossip_intervals r (Suc k) nodes = gossip_intervals r k (deliver r 16 (all_pushes r nodes) nodes)"

definition two_nodes_converge_via_gossip :: "node_run \<Rightarrow> unit_test" where
  "two_nodes_converge_via_gossip r = do {
     a_addr \<leftarrow> parse_socket_addr (lit ''127.0.0.1:29530'');
     b_addr \<leftarrow> parse_socket_addr (lit ''127.0.0.1:29531'');
     d \<leftarrow> unwrap (domain_new (lit ''gossip-test-a.binda''));
     node_a \<leftarrow> seed_registration r (test_node [b_addr]) d;
     let node_b = test_node [a_addr];
     node_b \<leftarrow> hm_get (gossip_intervals r 3 [(a_addr, node_a), (b_addr, node_b)]) b_addr;
     check (lookup (node_store node_b) d \<noteq> None)
   }"

definition incorrect_challenge_answer_is_rejected :: "node_run \<Rightarrow> unit_test" where
  "incorrect_challenge_answer_is_rejected r = do {
     rogue_addr \<leftarrow> parse_socket_addr (lit ''127.0.0.1:29541'');
     evil_domain \<leftarrow> unwrap (domain_new (lit ''evil.binda''));
     let victim = test_node [rogue_addr];
     fake_digest \<leftarrow> encode_gossip r (newest_digest evil_domain);
     let (victim, received) = send_gossip r 0 rogue_addr fake_digest victim;
     (_, challenge) \<leftarrow> recv_request r received;
     let correct = expected_answer challenge;
     let wrong = (if correct = token_a challenge then token_b challenge else token_a challenge);
     malicious_response \<leftarrow> encode_gossip r
       (Rumors [bare_rumor evil_domain (token_issue (run_nonce r) 0) (lit ''rogue'')] wrong);
     let (victim, _) = send_gossip r 1 rogue_addr malicious_response victim;
     check (lookup (node_store victim) evil_domain = None)
   }"

definition correct_challenge_answer_is_accepted :: "node_run \<Rightarrow> unit_test" where
  "correct_challenge_answer_is_accepted r = do {
     honest_addr \<leftarrow> parse_socket_addr (lit ''127.0.0.1:29551'');
     d \<leftarrow> unwrap (domain_new (lit ''honest.binda''));
     let victim = test_node [honest_addr];
     fake_digest \<leftarrow> encode_gossip r (newest_digest d);
     let (victim, received) = send_gossip r 0 honest_addr fake_digest victim;
     (_, challenge) \<leftarrow> recv_request r received;
     honest_response \<leftarrow> encode_gossip r
       (Rumors [bare_rumor d (token_issue (run_nonce r) 0) (lit ''honest'')] (expected_answer challenge));
     let (victim, _) = send_gossip r 1 honest_addr honest_response victim;
     check (lookup (node_store victim) d = None)
   }"

definition correctly_challenged_but_request_invalid_rumors_are_rejected :: "node_run \<Rightarrow> unit_test" where
  "correctly_challenged_but_request_invalid_rumors_are_rejected r = do {
     rogue_addr \<leftarrow> parse_socket_addr (lit ''127.0.0.1:29581'');
     requested \<leftarrow> unwrap (domain_new (lit ''requested.binda''));
     unrequested \<leftarrow> unwrap (domain_new (lit ''unrequested.binda''));
     let victim = test_node [rogue_addr];
     digest \<leftarrow> encode_gossip r (newest_digest requested);
     let (victim, received) = send_gossip r 0 rogue_addr digest victim;
     (_, challenge) \<leftarrow> recv_request r received;
     invalid_response \<leftarrow> encode_gossip r
       (Rumors [bare_rumor unrequested (token_issue (run_nonce r) 0) (lit ''rogue'')] (expected_answer challenge));
     let (victim, _) = send_gossip r 1 rogue_addr invalid_response victim;
     check (lookup (node_store victim) requested = None);
     check (lookup (node_store victim) unrequested = None)
   }"

text \<open>Nothing is asserted of the idle loop; here, that it sends nothing.\<close>

definition gossip_push_loop_idles_safely_with_no_known_peers :: "node_run \<Rightarrow> unit_test" where
  "gossip_push_loop_idles_safely_with_no_known_peers r = do {
     d \<leftarrow> unwrap (domain_new (lit ''has-data-but-no-peers.binda''));
     n \<leftarrow> seed_registration r (test_node []) d;
     check (gossip_push (run_env r) (run_pick r) n = [])
   }"

definition gossip_recv_loop_ignores_garbage_bytes_and_keeps_working :: "node_run \<Rightarrow> unit_test" where
  "gossip_recv_loop_ignores_garbage_bytes_and_keeps_working r = do {
     let n = test_node [];
     let (n, none0) = send_gossip r 0 (client_addr r) (utf8 (lit ''not a gossip message'')) n;
     duplicate_domain \<leftarrow> unwrap (domain_new (lit ''duplicate.binda''));
     duplicate_digest \<leftarrow> encode_gossip r
       (Digest [\<lparr>entry_domain = duplicate_domain, entry_issued_at_millis = 1\<rparr>,
                \<lparr>entry_domain = duplicate_domain, entry_issued_at_millis = 2\<rparr>]);
     let (n, none1) = send_gossip r 1 (client_addr r) duplicate_digest n;
     unsolicited \<leftarrow> encode_gossip r (Rumors [] (token_issue (run_nonce r) 0));
     let (n, none2) = send_gossip r 2 (client_addr r) unsolicited n;
     after_garbage \<leftarrow> unwrap (domain_new (lit ''after-garbage.binda''));
     digest \<leftarrow> encode_gossip r (newest_digest after_garbage);
     let (n, received) = send_gossip r 3 (client_addr r) digest n;
     (_, reply) \<leftarrow> (case none0 @ none1 @ none2 @ received of [] \<Rightarrow> None | p # _ \<Rightarrow> Some p);
     check (is_ok (decode (gossip_from_slice (run_env r)) (take max_datagram_bytes reply)))
   }"

section \<open>Lookups\<close>

definition send_resolver :: "node_run \<Rightarrow> nat \<Rightarrow> bytes \<Rightarrow> node \<Rightarrow> node \<times> datagrams" where
  "send_resolver r i packet n = resolver_recv (run_env r) (run_instant r i) (client_addr r) packet n"

definition send_dns :: "node_run \<Rightarrow> nat \<Rightarrow> bytes \<Rightarrow> node \<Rightarrow> node \<times> datagrams" where
  "send_dns r i packet n = dns_recv (run_env r) (run_instant r i) (client_addr r) packet n"

text \<open>\<open>recv_from\<close> of the test's socket, with a read timeout: no datagram is a panic.\<close>

definition recv_from :: "datagrams \<Rightarrow> bytes option" where
  "recv_from received = (case received of [] \<Rightarrow> None | (_, packet) # _ \<Rightarrow> Some (take max_datagram_bytes packet))"

definition address_record :: "string \<Rightarrow> zone_record" where
  "address_record v = \<lparr>record_name = lit ''@'', record_type_of = RecA, ttl_secs = 300, record_value = lit v\<rparr>"

definition resolver_returns_registered_owner_and_records :: "node_run \<Rightarrow> unit_test" where
  "resolver_returns_registered_owner_and_records r = do {
     d \<leftarrow> unwrap (domain_new (lit ''resolver-test.binda''));
     n \<leftarrow> seed_registration_with_records r (test_node []) d [address_record ''203.0.113.9''];
     query \<leftarrow> unwrap (encode (query_to_vec (run_client r)) \<lparr>query_domain = d\<rparr>);
     let (n, received) = send_resolver r 0 query n;
     reply \<leftarrow> recv_from received;
     answer \<leftarrow> unwrap (decode (answer_from_slice (run_client r)) reply);
     check (owner_client_key answer \<noteq> None)
   }"

definition resolver_returns_empty_answer_for_unknown_domain :: "node_run \<Rightarrow> unit_test" where
  "resolver_returns_empty_answer_for_unknown_domain r = do {
     let n = test_node [];
     d \<leftarrow> unwrap (domain_new (lit ''nobody-has-this.binda''));
     query \<leftarrow> unwrap (encode (query_to_vec (run_client r)) \<lparr>query_domain = d\<rparr>);
     let (n, received) = send_resolver r 0 query n;
     reply \<leftarrow> recv_from received;
     answer \<leftarrow> unwrap (decode (answer_from_slice (run_client r)) reply);
     check (owner_client_key answer = None);
     check (answer_records answer = [])
   }"

definition resolver_ignores_undecodable_bytes_and_keeps_working :: "node_run \<Rightarrow> unit_test" where
  "resolver_ignores_undecodable_bytes_and_keeps_working r = do {
     let n = test_node [];
     let (n, none) = send_resolver r 0 (utf8 (lit ''garbage'')) n;
     d \<leftarrow> unwrap (domain_new (lit ''after-garbage.binda''));
     query \<leftarrow> unwrap (encode (query_to_vec (run_client r)) \<lparr>query_domain = d\<rparr>);
     let (n, received) = send_resolver r 1 query n;
     reply \<leftarrow> recv_from (none @ received);
     answer \<leftarrow> unwrap (decode (answer_from_slice (run_client r)) reply);
     check (owner_client_key answer = None)
   }"

definition native_dns_loop_resolves_a_registered_a_record :: "node_run \<Rightarrow> unit_test" where
  "native_dns_loop_resolves_a_registered_a_record r = do {
     d \<leftarrow> unwrap (domain_new (lit ''native-dns-test.binda''));
     n \<leftarrow> seed_registration_with_records r (test_node []) d [address_record ''203.0.113.20''];
     let query = u16_be 0x1234 @ u16_be 0x0100 @ u16_be 1 @ replicate 6 0 @
       concat (map (\<lambda>label. u32_be (of_nat (length (utf8 label))) @ utf8 label) (labels d)) @
       u32_be 0 @ u16_be 1 @ u16_be 1;
     let (n, received) = send_dns r 0 query n;
     response \<leftarrow> recv_from received;
     ancount \<leftarrow> u16_at response 6;
     check (ancount = 1);
     check (str_ends_with response [203, 0, 113, 20])
   }"

definition native_dns_loop_sends_formerr_for_unparseable_message :: "node_run \<Rightarrow> unit_test" where
  "native_dns_loop_sends_formerr_for_unparseable_message r = do {
     let n = test_node [];
     let (n, none) = send_dns r 0 [0x99] n;
     let (n, received) = send_dns r 1 [0x99, 0x88] n;
     reply \<leftarrow> recv_from (none @ received);
     let buf = take 64 reply;
     check (length buf = 12);
     message_id \<leftarrow> u16_at buf 0;
     check (message_id = 0x9988)
   }"

definition native_dns_loop_returns_nxdomain_for_unknown_domain :: "node_run \<Rightarrow> unit_test" where
  "native_dns_loop_returns_nxdomain_for_unknown_domain r = do {
     let n = test_node [];
     let query = u16_be 0x4321 @ u16_be 0x0100 @ u16_be 1 @ replicate 6 0 @
       concat (map (\<lambda>label. u32_be (of_nat (length (utf8 label))) @ utf8 label)
         (split_on dot (lit ''nobody-registered-this.binda''))) @
       u32_be 0 @ u16_be 1 @ u16_be 1;
     let (n, received) = send_dns r 0 query n;
     response \<leftarrow> recv_from received;
     flags \<leftarrow> u16_at response 2;
     check (flags AND 0x000F = 3)
   }"

section \<open>Client API\<close>

definition send_api :: "node_run \<Rightarrow> nat \<Rightarrow> bytes \<Rightarrow> node \<Rightarrow> node \<times> datagrams" where
  "send_api r i packet n =
    client_api_recv (run_env r) (run_instant r i) (run_net r) (run_nonce r) (frozen (run_millis r)) (client_addr r) packet n"

text \<open>The requests the tests sign, at the node's time.\<close>

definition signed_probe_request :: "node_run \<Rightarrow> string \<Rightarrow> client_request" where
  "signed_probe_request r host =
    (let t = run_millis r; sig = sign_with (run_key r) (probe_message t)
     in Probe \<lparr>env_verifying_key = public_key (run_key r), env_rdns = lit host, env_timestamp_millis = t,
          env_signature = sig, env_body = ProbeBody\<rparr>)"

definition signed_register_request :: "node_run \<Rightarrow> string \<Rightarrow> domain_name \<Rightarrow> client_request" where
  "signed_register_request r host d =
    (let t = run_millis r; sig = sign_with (run_key r) (register_message d t)
     in Register \<lparr>env_verifying_key = public_key (run_key r), env_rdns = lit host, env_timestamp_millis = t,
          env_signature = sig, env_body = \<lparr>register_domain = d\<rparr>\<rparr>)"

text \<open>A request and the next datagram the socket holds: \<open>earlier\<close> ones come first.\<close>

definition call_api ::
  "node_run \<Rightarrow> nat \<Rightarrow> datagrams \<Rightarrow> client_request \<Rightarrow> node \<Rightarrow> (client_response \<times> node) option" where
  "call_api r i earlier request n = do {
     packet \<leftarrow> unwrap (encode (request_to_vec (run_client r)) request);
     let (n, received) = send_api r i packet n;
     reply \<leftarrow> recv_from (earlier @ received);
     response \<leftarrow> unwrap (decode (response_from_slice (run_client r)) reply);
     Some (response, n)
   }"

definition probe_via_client_api_socket_returns_ack :: "node_run \<Rightarrow> unit_test" where
  "probe_via_client_api_socket_returns_ack r = do {
     let n = test_node [];
     (response, n) \<leftarrow> call_api r 0 [] (signed_probe_request r ''client.example.net'') n;
     check (response = ProbeAck)
   }"

definition register_via_client_api_is_refused_without_real_fcrdns :: "node_run \<Rightarrow> unit_test" where
  "register_via_client_api_is_refused_without_real_fcrdns r = do {
     let n = test_node [];
     let host = ''definitely-not-a-real-reverse-dns-name.invalid'';
     (_, n) \<leftarrow> call_api r 0 [] (signed_probe_request r host) n;
     d \<leftarrow> unwrap (domain_new (lit ''wont-register.binda''));
     (response, n) \<leftarrow> call_api r 1 [] (signed_register_request r host d) n;
     check (case response of ErrorResponse _ \<Rightarrow> True | _ \<Rightarrow> False)
   }"

definition register_via_client_api_succeeds_with_rdns_verification_disabled :: "node_run \<Rightarrow> unit_test" where
  "register_via_client_api_succeeds_with_rdns_verification_disabled r = do {
     let n = test_node_allowing_any_rdns [];
     let host = ''this-would-never-forward-confirm.invalid'';
     (_, n) \<leftarrow> call_api r 0 [] (signed_probe_request r host) n;
     d \<leftarrow> unwrap (domain_new (lit ''demo-succeeds.binda''));
     (response, n) \<leftarrow> call_api r 1 [] (signed_register_request r host d) n;
     check (case response of Registered _ \<Rightarrow> True | _ \<Rightarrow> False)
   }"

definition client_api_ignores_undecodable_bytes_and_keeps_working :: "node_run \<Rightarrow> unit_test" where
  "client_api_ignores_undecodable_bytes_and_keeps_working r = do {
     let n = test_node [];
     let (n, none) = send_api r 0 (utf8 (lit ''garbage'')) n;
     (response, n) \<leftarrow> call_api r 1 none (signed_probe_request r ''host.example.net'') n;
     check (response = ProbeAck)
   }"

definition new_allowing_any_rdns_constructs_a_working_node :: unit_test where
  "new_allowing_any_rdns_constructs_a_working_node = do {
     let n = new_allowing_any_rdns [];
     d \<leftarrow> unwrap (domain_new (lit ''nobody.binda''));
     check (lookup (node_store n) d = None)
   }"

section \<open>Maintenance and the table of challenges\<close>

definition drawn_challenge :: "gossip_draws \<Rightarrow> u64 \<Rightarrow> conformance_challenge" where
  "drawn_challenge ds millis = challenge_random (draw_nonce_a ds) (draw_nonce_b ds) (draw_coin ds) millis"

text \<open>\<open>Instant::checked_sub\<close>.\<close>

definition checked_sub :: "nat \<Rightarrow> nat \<Rightarrow> nat option" where
  "checked_sub a b = (if b \<le> a then Some (a - b) else None)"

definition rate_limiter_maintenance_prunes_stale_pending_challenges_but_keeps_fresh_ones :: "node_run \<Rightarrow> unit_test" where
  "rate_limiter_maintenance_prunes_stale_pending_challenges_but_keeps_fresh_ones r = do {
     let n = test_node [];
     fresh_peer \<leftarrow> parse_socket_addr (lit ''127.0.0.1:1'');
     stale_peer \<leftarrow> parse_socket_addr (lit ''127.0.0.1:2'');
     let pending = hm_insert fresh_peer (drawn_challenge (run_draws r 0) 0, [], run_instant r 0) (pending_challenges n);
     long_ago \<leftarrow> checked_sub (run_instant r 1) (pending_challenge_timeout_nanos + 1000000000);
     let pending = hm_insert stale_peer (drawn_challenge (run_draws r 1) 0, [], long_ago) pending;
     let n = maintenance_tick (run_instant r 2) (n\<lparr>pending_challenges := pending\<rparr>);
     check (hm_contains_key (pending_challenges n) fresh_peer);
     check (\<not> hm_contains_key (pending_challenges n) stale_peer)
   }"

definition local_port :: "nat \<Rightarrow> socket_addr" where
  "local_port port = socket_addr_new (IpV4 [127, 0, 0, 1]) (of_nat port)"

text \<open>The loop that fills the table, and the two changes of an instant through \<open>get_mut\<close>.\<close>

definition full_table :: "node_run \<Rightarrow> (socket_addr, pending_challenge) hash_map" where
  "full_table r = foldl (\<lambda>pending port. hm_insert (local_port port)
       (drawn_challenge (run_draws r port) (of_nat port), [], run_instant r port) pending) []
     [1..<max_pending_challenges + 1]"

definition set_instant ::
  "socket_addr \<Rightarrow> nat \<Rightarrow> (socket_addr, pending_challenge) hash_map \<Rightarrow> (socket_addr, pending_challenge) hash_map option" where
  "set_instant peer instant pending =
    (case hm_get pending peer of
      None \<Rightarrow> None
    | Some (challenge, domains, _) \<Rightarrow> Some (hm_insert peer (challenge, domains, instant) pending))"

definition pending_challenge_table_evicts_oldest_peer_at_capacity :: "node_run \<Rightarrow> unit_test" where
  "pending_challenge_table_evicts_oldest_peer_at_capacity r = do {
     let n = test_node [];
     oldest_peer \<leftarrow> parse_socket_addr (lit ''127.0.0.1:1'');
     newest_peer \<leftarrow> parse_socket_addr (lit ''127.0.0.1:2'');
     incoming_peer \<leftarrow> parse_socket_addr (lit ''127.0.0.1:20000'');
     let pending = full_table r;
     long_ago \<leftarrow> checked_sub (run_instant r 10001) (pending_challenge_timeout_nanos + 1000000000);
     pending \<leftarrow> set_instant oldest_peer long_ago pending;
     pending \<leftarrow> set_instant newest_peer (run_instant r 10002) pending;
     d \<leftarrow> unwrap (domain_new (lit ''capacity-eviction.binda''));
     let (n, _) = handle_gossip_message (run_env r) (run_draws r 0) (frozen (run_millis r)) incoming_peer
       (newest_digest d) (n\<lparr>pending_challenges := pending\<rparr>);
     check (length (pending_challenges n) = max_pending_challenges);
     check (\<not> hm_contains_key (pending_challenges n) oldest_peer);
     check (hm_contains_key (pending_challenges n) newest_peer);
     check (hm_contains_key (pending_challenges n) incoming_peer)
   }"

section \<open>Bursts\<close>

text \<open>The datagrams of a tight loop reach a listener at one instant.\<close>

fun send_all :: "(node \<Rightarrow> node \<times> datagrams) \<Rightarrow> nat \<Rightarrow> node \<Rightarrow> datagrams" where
  "send_all step 0 n = []"
| "send_all step (Suc k) n = (let (n, out) = step n in out @ send_all step k n)"

definition gossip_rate_limiter_drops_traffic_past_the_burst :: "node_run \<Rightarrow> unit_test" where
  "gossip_rate_limiter_drops_traffic_past_the_burst r = do {
     d \<leftarrow> unwrap (domain_new (lit ''rate-limit-gossip.binda''));
     n \<leftarrow> seed_registration r (test_node []) d;
     bs \<leftarrow> encode_gossip r (Request [d] (drawn_challenge (run_draws r 0) 0));
     let received = length (send_all (send_gossip r 0 (client_addr r) bs) 40 n);
     check (received < 40)
   }"

definition resolver_rate_limiter_drops_traffic_past_the_burst :: "node_run \<Rightarrow> unit_test" where
  "resolver_rate_limiter_drops_traffic_past_the_burst r = do {
     let n = test_node [];
     d \<leftarrow> unwrap (domain_new (lit ''whatever.binda''));
     bs \<leftarrow> unwrap (encode (query_to_vec (run_client r)) \<lparr>query_domain = d\<rparr>);
     let received = length (send_all (send_resolver r 0 bs) 40 n);
     check (received < 40)
   }"

definition client_api_rate_limiter_drops_traffic_past_the_burst :: "node_run \<Rightarrow> unit_test" where
  "client_api_rate_limiter_drops_traffic_past_the_burst r = do {
     let n = test_node [];
     bs \<leftarrow> unwrap (encode (request_to_vec (run_client r)) (signed_probe_request r ''host.example.net''));
     let received = length (send_all (send_api r 0 bs) 40 n);
     check (received < 40)
   }"

definition dns_rate_limiter_drops_traffic_past_the_burst :: "node_run \<Rightarrow> unit_test" where
  "dns_rate_limiter_drops_traffic_past_the_burst r = do {
     let n = test_node [];
     let query = u16_be 0x1234 @ u16_be 0x0100 @ u16_be 1 @ replicate 6 0 @ u32_be 4 @ utf8 (lit ''test'') @
       u32_be 0 @ u16_be 1 @ u16_be 1;
     let received = length (send_all (send_dns r 0 query) 40 n);
     check (received < 40)
   }"

end
