(* ===== verification/Node_Runs.thy ===== *)
theory Node_Runs
  imports Node_Tests Samples
begin

text \<open>
  The tests of \<open>binda/src/node.rs\<close> pass, whatever the instants of the steps, the random draws, the
  key of the test's client and the choice of peers, for serializers that read back the messages of the tests.
\<close>

section \<open>Names and addresses\<close>

lemma node_test_names [simp]:
  "domain_new (lit ''gossip-test-a.binda'') = Inr (DomainName (lit ''gossip-test-a.binda''))"
  "domain_new (lit ''evil.binda'') = Inr (DomainName (lit ''evil.binda''))"
  "domain_new (lit ''honest.binda'') = Inr (DomainName (lit ''honest.binda''))"
  "domain_new (lit ''requested.binda'') = Inr (DomainName (lit ''requested.binda''))"
  "domain_new (lit ''unrequested.binda'') = Inr (DomainName (lit ''unrequested.binda''))"
  "domain_new (lit ''has-data-but-no-peers.binda'') = Inr (DomainName (lit ''has-data-but-no-peers.binda''))"
  "domain_new (lit ''duplicate.binda'') = Inr (DomainName (lit ''duplicate.binda''))"
  "domain_new (lit ''after-garbage.binda'') = Inr (DomainName (lit ''after-garbage.binda''))"
  by (simp_all add: name_defs lit_def)

lemma node_test_names' [simp]:
  "domain_new (lit ''resolver-test.binda'') = Inr (DomainName (lit ''resolver-test.binda''))"
  "domain_new (lit ''nobody-has-this.binda'') = Inr (DomainName (lit ''nobody-has-this.binda''))"
  "domain_new (lit ''native-dns-test.binda'') = Inr (DomainName (lit ''native-dns-test.binda''))"
  "domain_new (lit ''wont-register.binda'') = Inr (DomainName (lit ''wont-register.binda''))"
  "domain_new (lit ''demo-succeeds.binda'') = Inr (DomainName (lit ''demo-succeeds.binda''))"
  "domain_new (lit ''nobody.binda'') = Inr (DomainName (lit ''nobody.binda''))"
  "domain_new (lit ''capacity-eviction.binda'') = Inr (DomainName (lit ''capacity-eviction.binda''))"
  "domain_new (lit ''rate-limit-gossip.binda'') = Inr (DomainName (lit ''rate-limit-gossip.binda''))"
  "domain_new (lit ''whatever.binda'') = Inr (DomainName (lit ''whatever.binda''))"
  by (simp_all add: name_defs lit_def)

lemma node_test_addrs [simp]:
  "parse_socket_addr (lit ''127.0.0.1:29530'') = Some (local_port 29530)"
  "parse_socket_addr (lit ''127.0.0.1:29531'') = Some (local_port 29531)"
  "parse_socket_addr (lit ''127.0.0.1:29541'') = Some (local_port 29541)"
  "parse_socket_addr (lit ''127.0.0.1:29551'') = Some (local_port 29551)"
  "parse_socket_addr (lit ''127.0.0.1:29581'') = Some (local_port 29581)"
  "parse_socket_addr (lit ''127.0.0.1:1'') = Some (local_port 1)"
  "parse_socket_addr (lit ''127.0.0.1:2'') = Some (local_port 2)"
  "parse_socket_addr (lit ''127.0.0.1:20000'') = Some (local_port 20000)"
  by (simp_all add: address_eval utf8_char_def local_port_def)

lemma local_port_inj: "i < 65536 \<Longrightarrow> j < 65536 \<Longrightarrow> local_port i = local_port j \<longleftrightarrow> i = j"
  by (auto simp: local_port_def socket_addr_new_def word_of_nat_eq_iff take_bit_eq_mod)

lemma check_simps [simp]: "check True = Some ()" "check False = None"
  by (simp_all add: check_def)

section \<open>The seeded node\<close>

definition seed_lease :: "node_run \<Rightarrow> domain_name \<Rightarrow> zone_record list \<Rightarrow> registration_rumor" where
  "seed_lease r d recs =
    (client_lease (public_key (run_key r)) (sign_with (run_key r)) (lit ''seed.example.net'') d
      (token_issue (run_nonce r) (run_millis r)) (run_millis r) (run_millis r))
    \<lparr>rumor_records := recs, records_timestamp_millis := (if recs \<noteq> [] then Some (run_millis r) else None),
     records_signature := (if recs \<noteq> [] then Some (sign_with (run_key r)
       (set_records_message (env_ext (run_env r)) d recs (run_millis r))) else None)\<rparr>"

lemma seed_lease_live:
  assumes "honest (env_ext (run_env r)) (run_key r)"
  shows "live_at (env_ext (run_env r)) (run_millis r) (seed_lease r d recs)"
  using assms
  by (simp add: live_at_def is_authorized_iff seed_lease_def client_lease_def honest_def signs_def records_evidence_def
      lease_is_live_def liveness_window_millis_def saturating_sub_def)

lemma seeded:
  assumes "honest (env_ext (run_env r)) (run_key r)" "node_store n = store_new"
  shows "\<exists>s. seed_registration_with_records r n d recs = Some (n\<lparr>node_store := s\<rparr>) \<and>
    registrations s = [(d, registration_from_rumor (seed_lease r d recs) (quota_key (lit ''seed.example.net'')))]"
proof -
  let ?k = "run_key r" and ?t = "run_millis r" and ?ext = "env_ext (run_env r)" and ?host = "lit ''seed.example.net''"
  let ?c = "client_new (public_key ?k) ?host" and ?r = "seed_lease r d recs"
  let ?s1 = "probe ?c (frozen ?t) (node_store n)"
  let ?s2 = "add_registration d ?c (token_issue (run_nonce r) ?t) ?s1"
  let ?reg = "\<lparr>reg_client_key = client_key ?c, reg_quota_key = quota_key ?host, reg_token = token_issue (run_nonce r) ?t,
    reg_records = recs, reg_rumor = None\<rparr>"
  let ?s3 = "?s2\<lparr>registrations := [(d, ?reg)]\<rparr>"
  let ?final = "(insert_claim (quota_key ?host) ?r ?s3)\<lparr>registrations := [(rumor_domain ?r, registration_from_rumor ?r (quota_key ?host))]\<rparr>"
  have "only_probed ?host ?t ?s1"
    using assms(2) by (simp add: only_probed_def probe_def record_probe_def tracker_new_def quota_key_client)
  from only_probed_registers [OF this] have reg: "register ?ext (run_nonce r) d ?c (frozen ?t) ?s1 =
    (Inr (token_issue (run_nonce r) ?t), ?s2)" .
  have look: "lookup ?s2 d = Some \<lparr>reg_client_key = client_key ?c, reg_quota_key = quota_key ?host,
      reg_token = token_issue (run_nonce r) ?t, reg_records = [], reg_rumor = None\<rparr>"
    using assms(2) by (simp add: lookup_def quota_key_client)
  have set: "set_records d ?c recs ?s2 = (True, ?s3)"
    using assms(2) by (simp add: set_records_def add_registration_def quota_key_client)
  have same: "?s2 = ?s3" if "recs = []"
    using assms(2) that by (simp add: add_registration_def quota_key_client)
  have rumor: "\<lparr>rumor_domain = d, rumor_token = token_issue (run_nonce r) ?t, rumor_client_key = client_key ?c,
       rumor_owner_key = public_key ?k, rumor_rdns = ?host,
       registration_timestamp_millis = ?t, registration_signature = sign_with ?k (register_message d ?t),
       probe_timestamp_millis = ?t, probe_signature = sign_with ?k (probe_message ?t), rumor_records = recs,
       records_timestamp_millis = (if recs \<noteq> [] then Some ?t else None),
       records_signature = (if recs \<noteq> [] then Some (sign_with ?k (set_records_message ?ext d recs ?t)) else None)\<rparr> = ?r"
    by (simp add: seed_lease_def client_lease_def)
  have sel: "rumor_domain ?r = d" "rumor_rdns ?r = ?host" "rumor_client_key ?r = client_key ?c"
    "rumor_token ?r = token_issue (run_nonce r) ?t"
    by (simp_all add: seed_lease_def)
  have claims: "quota_claims (insert_claim (quota_key ?host) ?r ?s3) = [(quota_key ?host, [(d, ?r)])]"
    using assms(2) by (simp add: insert_claim_def sel)
  have "reconcile_quota ?ext (quota_key ?host) (frozen ?t) (insert_claim (quota_key ?host) ?r ?s3) =
    (insert_claim (quota_key ?host) ?r ?s3)\<lparr>registrations := [(rumor_domain ?r, registration_from_rumor ?r (quota_key ?host))]\<rparr>"
    by (rule reconcile_new_claim [OF seed_lease_live [OF assms(1)], where reg = ?reg])
      (simp_all only: claims sel registration.simps, simp add: insert_claim_def)
  then have "attach_rumor ?ext ?r (frozen ?t) ?s3 =
    (True, (insert_claim (quota_key ?host) ?r ?s3)\<lparr>registrations := [(rumor_domain ?r, registration_from_rumor ?r (quota_key ?host))]\<rparr>)"
    by (simp add: attach_rumor_def sel Let_def del: add_registration_sel)
  then have attach: "attach_rumor ?ext ?r (frozen ?t) ?s3 = (True, ?final)" .
  have host: "rdns ?c = ?host" by (simp add: client_new_def)
  show ?thesis
  proof (rule exI [of _ ?final], cases "recs = []")
    case True
    then show "seed_registration_with_records r n d recs = Some (n\<lparr>node_store := ?final\<rparr>) \<and>
      registrations ?final = [(d, registration_from_rumor ?r (quota_key ?host))]"
      using attach [folded same [OF True]] rumor sel
      by (simp add: seed_registration_with_records_def Let_def reg look host del: add_registration_sel probe_sel)
        (simp add: insert_claim_def)
  next
    case False
    then show "seed_registration_with_records r n d recs = Some (n\<lparr>node_store := ?final\<rparr>) \<and>
      registrations ?final = [(d, registration_from_rumor ?r (quota_key ?host))]"
      using attach rumor sel
      by (simp add: seed_registration_with_records_def Let_def reg look set host del: add_registration_sel probe_sel)
  qed
qed

lemma seeded_lookup:
  assumes "registrations s = [(d, registration_from_rumor (seed_lease r d recs) q)]"
  shows "lookup s d = Some (registration_from_rumor (seed_lease r d recs) q)"
    "reg_records (registration_from_rumor (seed_lease r d recs) q) = recs"
  using assms by (simp_all add: lookup_def registration_from_rumor_def seed_lease_def)

lemma test_node_sel [simp]:
  "node_store (test_node peers) = store_new" "gossip_limiter (test_node peers) = new_rate_limiter"
  "resolver_limiter (test_node peers) = new_rate_limiter" "api_limiter (test_node peers) = new_rate_limiter"
  "dns_limiter (test_node peers) = new_rate_limiter" "pending_challenges (test_node peers) = []"
  "node_verifier (test_node peers) = FcrdnsVerifier" "api_running (test_node peers)"
  "node_peers (test_node peers) = peers_new peers"
  by (simp_all add: test_node_def node_new_def new_with_verifier_def)

lemma lookup_new [simp]: "lookup store_new d = None"
  by (simp add: lookup_def)

section \<open>Rogue gossip\<close>

abbreviation gossip_fits :: "node_run \<Rightarrow> gossip_message \<Rightarrow> bool" where
  "gossip_fits r \<equiv> carries (gossip_to_vec (run_env r)) (gossip_from_slice (run_env r))"

text \<open>A well-formed message in a datagram of a sender with credit is handled, and its sender known from then on.\<close>

lemma send_message:
  assumes "rounding (env_round (run_env r))" "serves (gossip_limiter n) sender (Suc m)" "m < 20"
    and "gossip_fits r msg" "encode (gossip_to_vec (run_env r)) msg = Inr bs" "is_well_formed msg"
  shows "\<exists>l. serves l sender m \<and> send_gossip r i sender bs n =
      handle_gossip_message (run_env r) (run_draws r i) (frozen (run_millis r)) sender msg
        (n\<lparr>gossip_limiter := l, node_peers := learn sender (node_peers n)\<rparr>)"
  using gossip_served [OF assms(1-3), of "run_instant r i" "run_draws r i" "frozen (run_millis r)" bs]
    carried_read [OF assms(4,5)] assms(6)
  by (auto simp: send_gossip_def)

lemma send_digest:
  assumes "rounding (env_round (run_env r))" "serves (gossip_limiter n) sender (Suc m)" "m < 20"
    and "encode (gossip_to_vec (run_env r)) (Digest [\<lparr>entry_domain = d, entry_issued_at_millis = issued\<rparr>]) = Inr bs"
    and fits: "gossip_fits r (Digest [\<lparr>entry_domain = d, entry_issued_at_millis = issued\<rparr>])"
      "gossip_fits r (Request [d] (drawn_challenge (run_draws r i) (run_millis r)))"
    and none: "lookup (node_store n) d = None"
  shows "\<exists>n' packet. send_gossip r i sender bs n = (n', [(sender, packet)]) \<and>
    encode (gossip_to_vec (run_env r)) (Request [d] (drawn_challenge (run_draws r i) (run_millis r))) = Inr packet \<and>
    node_store n' = node_store n \<and> serves (gossip_limiter n') sender m \<and> node_peers n' = learn sender (node_peers n) \<and>
    (\<exists>instant. hm_get (pending_challenges n') sender = Some (drawn_challenge (run_draws r i) (run_millis r), [d], instant))"
proof -
  let ?c = "drawn_challenge (run_draws r i) (run_millis r)" and ?e = "\<lparr>entry_domain = d, entry_issued_at_millis = issued\<rparr>"
  obtain packet where packet: "encode (gossip_to_vec (run_env r)) (Request [d] ?c) = Inr packet"
    "send_encoded (gossip_to_vec (run_env r)) (Request [d] ?c) sender = [(sender, packet)]"
    by (rule carriesE [OF fits(2), where addr = sender]) (rule that)
  obtain l where l: "serves l sender m" "send_gossip r i sender bs n =
      handle_gossip_message (run_env r) (run_draws r i) (frozen (run_millis r)) sender (Digest [?e])
        (n\<lparr>gossip_limiter := l, node_peers := learn sender (node_peers n)\<rparr>)"
    using send_message [OF assms(1-3) fits(1) assms(4), of i] by (auto simp: max_digest_entries_def)
  have "hm_get (admit_pending m (a, p)) a = Some p" for m a p
    using admit_pending_get [of m "(a, p)"] by simp
  then show ?thesis
    using l packet none digest_requests [of "n\<lparr>gossip_limiter := l, node_peers := learn sender (node_peers n)\<rparr>" d]
    by (simp add: drawn_challenge_def del: handle_gossip_message.simps)
qed

lemma request_received:
  assumes "decode (gossip_from_slice (run_env r)) (take max_datagram_bytes packet) = Inr (Request ds c)"
  shows "recv_request r [(sender, packet)] = Some (ds, c)"
  using assms by (simp add: recv_request_def)

lemma bare_rumor_unauthorized: "\<not> is_authorized ext (bare_rumor d token ck)"
  by (simp add: bare_rumor_def is_authorized_def)

lemma unauthorized_rumor_ignored:
  assumes "encode (gossip_to_vec (run_env r)) (Rumors [bare_rumor d token ck] answer) = Inr bs"
    and "gossip_fits r (Rumors [bare_rumor d token ck] answer)"
  shows "node_store (fst (send_gossip r i sender bs n)) = node_store n"
proof -
  have bs: "decode (gossip_from_slice (run_env r)) (take max_datagram_bytes bs) = Inr (Rumors [bare_rumor d token ck] answer)"
    by (rule carried_read [OF assms(2,1)])
  have step: "node_store (fst (handle_gossip_message env draws time sender (Rumors [bare_rumor d token ck] answer) m)) = node_store m"
    for env draws time m
    unfolding rumors_step using bare_rumor_unauthorized [of "env_ext env" d token ck]
    by (auto simp: adopt_rumor_def split: option.split)
  show ?thesis
    unfolding send_gossip_def gossip_recv_def Let_def bs by (simp add: step del: handle_gossip_message.simps split: prod.split)
qed

text \<open>The messages of one exchange: the victim's challenge is the one it drew, the answer one of its tokens.\<close>

abbreviation first_challenge :: "node_run \<Rightarrow> conformance_challenge" where
  "first_challenge r \<equiv> drawn_challenge (run_draws r 0) (run_millis r)"

definition rogue_rumors :: "node_run \<Rightarrow> domain_name \<Rightarrow> string \<Rightarrow> registration_token \<Rightarrow> gossip_message" where
  "rogue_rumors r d ck answer = Rumors [bare_rumor d (token_issue (run_nonce r) 0) (lit ck)] answer"

definition rogue_traffic :: "node_run \<Rightarrow> domain_name \<Rightarrow> domain_name \<Rightarrow> string \<Rightarrow> gossip_message list" where
  "rogue_traffic r d d' ck = [newest_digest d, Request [d] (first_challenge r),
     rogue_rumors r d' ck (token_a (first_challenge r)), rogue_rumors r d' ck (token_b (first_challenge r))]"

lemma encodes: "gossip_fits r m \<Longrightarrow> \<exists>bs. encode (gossip_to_vec (run_env r)) m = Inr bs"
  by (auto elim!: carriesE)

lemma rogue_asks:
  assumes "rounding (env_round (run_env r))" "list_all (gossip_fits r) (rogue_traffic r d d' ck)"
  shows "\<exists>bs n packet. encode_gossip r (newest_digest d) = Some bs \<and>
    send_gossip r 0 sender bs (test_node peers) = (n, [(sender, packet)]) \<and>
    recv_request r [(sender, packet)] = Some ([d], first_challenge r) \<and> node_store n = store_new"
proof -
  from assms(2) have fits: "gossip_fits r (newest_digest d)" "gossip_fits r (Request [d] (first_challenge r))"
    by (simp_all add: rogue_traffic_def)
  from encodes [OF fits(1)] obtain bs where bs: "encode (gossip_to_vec (run_env r)) (newest_digest d) = Inr bs" ..
  note newest = bs fits(1)
  from send_digest [OF assms(1) _ _ newest [unfolded newest_digest_def] fits(2), of "test_node peers" sender 1]
    carried_read [OF fits(2)] bs show ?thesis
    by (auto simp: encode_gossip_def request_received)
qed

lemma rogue_answers:
  assumes "list_all (gossip_fits r) (rogue_traffic r d d' ck)" "answer \<in> {token_a (first_challenge r), token_b (first_challenge r)}"
    and "node_store n = store_new"
  shows "\<exists>bs n' out. encode_gossip r (Rumors [bare_rumor d' (token_issue (run_nonce r) 0) (lit ck)] answer) = Some bs \<and>
    send_gossip r 1 sender bs n = (n', out) \<and> node_store n' = store_new"
proof -
  from assms(1,2) have fits: "gossip_fits r (Rumors [bare_rumor d' (token_issue (run_nonce r) 0) (lit ck)] answer)"
    by (auto simp: rogue_traffic_def rogue_rumors_def)
  from encodes [OF this] obtain bs where bs: "encode (gossip_to_vec (run_env r))
      (Rumors [bare_rumor d' (token_issue (run_nonce r) 0) (lit ck)] answer) = Inr bs" ..
  from unauthorized_rumor_ignored [OF bs fits, of 1 sender n] assms(3) show ?thesis
    by (cases "send_gossip r 1 sender bs n") (simp add: encode_gossip_def bs)
qed

text \<open>The exchange of a rogue peer, whatever is checked of a node whose store is still empty.\<close>

lemma rogue_run:
  assumes "rounding (env_round (run_env r))" "list_all (gossip_fits r) (rogue_traffic r d d' ck)"
    and answer: "\<And>c. answer c \<in> {token_a c, token_b c}" and checks: "\<And>n. node_store n = store_new \<Longrightarrow> passes (k n)"
  shows "passes (do {
     digest \<leftarrow> encode_gossip r (newest_digest d);
     let (victim, received) = send_gossip r 0 sender digest (test_node peers);
     (_, challenge) \<leftarrow> recv_request r received;
     response \<leftarrow> encode_gossip r (Rumors [bare_rumor d' (token_issue (run_nonce r) 0) (lit ck)] (answer challenge));
     let (victim, _) = send_gossip r 1 sender response victim;
     k victim })"
proof -
  let ?c = "first_challenge r"
  obtain bs n packet where asks: "encode_gossip r (newest_digest d) = Some bs"
    "send_gossip r 0 sender bs (test_node peers) = (n, [(sender, packet)])"
    "recv_request r [(sender, packet)] = Some ([d], ?c)" "node_store n = store_new"
    using rogue_asks [OF assms(1,2), of sender peers] by blast
  obtain bs' n' out where "encode_gossip r
      (Rumors [bare_rumor d' (token_issue (run_nonce r) 0) (lit ck)] (answer ?c)) = Some bs'"
    "send_gossip r 1 sender bs' n = (n', out)" "node_store n' = store_new"
    using rogue_answers [OF assms(2) answer asks(4), of sender] by blast
  with asks checks [of n'] show ?thesis by simp
qed

lemma rogue_tests_pass:
  assumes "rounding (env_round (run_env r))"
  shows "list_all (gossip_fits r) (rogue_traffic r (DomainName (lit ''evil.binda'')) (DomainName (lit ''evil.binda'')) ''rogue'') \<Longrightarrow>
      passes (incorrect_challenge_answer_is_rejected r)"
    and "list_all (gossip_fits r) (rogue_traffic r (DomainName (lit ''honest.binda'')) (DomainName (lit ''honest.binda'')) ''honest'') \<Longrightarrow>
      passes (correct_challenge_answer_is_accepted r)"
    and "list_all (gossip_fits r)
        (rogue_traffic r (DomainName (lit ''requested.binda'')) (DomainName (lit ''unrequested.binda'')) ''rogue'') \<Longrightarrow>
      passes (correctly_challenged_but_request_invalid_rumors_are_rejected r)"
  unfolding incorrect_challenge_answer_is_rejected_def correct_challenge_answer_is_accepted_def
    correctly_challenged_but_request_invalid_rumors_are_rejected_def node_test_addrs node_test_names unwrap_simps bind.bind_lunit Let_def
  by (rule rogue_run [unfolded Let_def, OF assms]; use expected_answer_in in auto)+

lemma idle_push_passes:
  assumes "honest (env_ext (run_env r)) (run_key r)"
  shows "passes (gossip_push_loop_idles_safely_with_no_known_peers r)"
proof -
  obtain s where "seed_registration r (test_node []) (DomainName (lit ''has-data-but-no-peers.binda'')) =
      Some ((test_node [])\<lparr>node_store := s\<rparr>)"
    using seeded [OF assms, of "test_node []"] unfolding seed_registration_def by fastforce
  then show ?thesis
    by (simp add: gossip_push_loop_idles_safely_with_no_known_peers_def gossip_push_def random_peer_def peers_new_def snapshot_def)
qed

text \<open>Datagrams the gossip listener drops: the node stays as it was, but for the sender's credit and the list of peers.\<close>

lemma dropped:
  assumes "rounding (env_round (run_env r))" "serves (gossip_limiter n) sender (Suc m)" "m < 20"
    and "case decode (gossip_from_slice (run_env r)) (take max_datagram_bytes bs) of Inl _ \<Rightarrow> True
      | Inr msg \<Rightarrow> \<not> is_well_formed msg \<or> (\<exists>rumors answer. msg = Rumors rumors answer \<and> hm_get (pending_challenges n) sender = None)"
  shows "\<exists>n'. send_gossip r i sender bs n = (n', []) \<and> node_store n' = node_store n \<and>
    (\<forall>a. hm_get (pending_challenges n) a = None \<longrightarrow> hm_get (pending_challenges n') a = None) \<and> serves (gossip_limiter n') sender m"
proof -
  obtain l where "serves l sender m" "send_gossip r i sender bs n =
    (case decode (gossip_from_slice (run_env r)) (take max_datagram_bytes bs) of
      Inl _ \<Rightarrow> (n\<lparr>gossip_limiter := l\<rparr>, [])
    | Inr msg \<Rightarrow>
        if \<not> is_well_formed msg then (n\<lparr>gossip_limiter := l\<rparr>, [])
        else handle_gossip_message (run_env r) (run_draws r i) (frozen (run_millis r)) sender msg
          (n\<lparr>gossip_limiter := l, node_peers := learn sender (node_peers n)\<rparr>))"
    using gossip_served [OF assms(1-3), of "run_instant r i" "run_draws r i" "frozen (run_millis r)" bs]
    unfolding send_gossip_def by blast
  then show ?thesis using assms(4) by (auto simp: Let_def split: sum.splits)
qed

lemma garbage_passes:
  assumes "rounding (env_round (run_env r))"
    and "\<not> is_ok (gossip_from_slice (run_env r) (utf8 (lit ''not a gossip message'')))"
    and fits: "gossip_fits r (Digest [\<lparr>entry_domain = DomainName (lit ''duplicate.binda''), entry_issued_at_millis = 1\<rparr>,
        \<lparr>entry_domain = DomainName (lit ''duplicate.binda''), entry_issued_at_millis = 2\<rparr>])" (is "gossip_fits r ?dup")
      "gossip_fits r (Rumors [] (token_issue (run_nonce r) 0))"
      "gossip_fits r (newest_digest (DomainName (lit ''after-garbage.binda'')))"
      "gossip_fits r (Request [DomainName (lit ''after-garbage.binda'')] (drawn_challenge (run_draws r 3) (run_millis r)))"
  shows "passes (gossip_recv_loop_ignores_garbage_bytes_and_keeps_working r)"
proof -
  let ?a = "client_addr r" and ?d = "DomainName (lit ''after-garbage.binda'')"
  have "length (utf8 (lit ''not a gossip message'')) = 20" by (simp add: lit_def utf8_char_def)
  then have garbage: "\<not> is_ok (decode (gossip_from_slice (run_env r)) (take max_datagram_bytes (utf8 (lit ''not a gossip message''))))"
    using assms(2) by (auto simp: decode_def max_datagram_bytes_def split: sum.split)
  then obtain n1 where n1: "send_gossip r 0 ?a (utf8 (lit ''not a gossip message'')) (test_node []) = (n1, [])"
    "node_store n1 = store_new" "hm_get (pending_challenges n1) ?a = None" "serves (gossip_limiter n1) ?a 10"
    using dropped [OF assms(1), of "test_node []" ?a 10 "utf8 (lit ''not a gossip message'')" 0]
    by (auto simp: is_ok_def split: sum.splits)
  obtain dup where dup: "encode (gossip_to_vec (run_env r)) ?dup = Inr dup" using encodes [OF fits(1)] ..
  then obtain n2 where n2: "send_gossip r 1 ?a dup n1 = (n2, [])"
    "node_store n2 = store_new" "hm_get (pending_challenges n2) ?a = None" "serves (gossip_limiter n2) ?a 9"
    using dropped [OF assms(1), of n1 ?a 9 dup 1] n1(2-) carried_read [OF fits(1) dup] by auto
  obtain un where un: "encode (gossip_to_vec (run_env r)) (Rumors [] (token_issue (run_nonce r) 0)) = Inr un"
    using encodes [OF fits(2)] ..
  then obtain n3 where n3: "send_gossip r 2 ?a un n2 = (n3, [])" "node_store n3 = store_new" "serves (gossip_limiter n3) ?a 8"
    using dropped [OF assms(1), of n2 ?a 8 un 2] n2(2-) carried_read [OF fits(2) un] by auto
  obtain bs where bs: "encode (gossip_to_vec (run_env r)) (newest_digest ?d) = Inr bs" using encodes [OF fits(3)] ..
  obtain n4 packet where "send_gossip r 3 ?a bs n3 = (n4, [(?a, packet)])"
    "decode (gossip_from_slice (run_env r)) (take max_datagram_bytes packet) =
      Inr (Request [?d] (drawn_challenge (run_draws r 3) (run_millis r)))"
    using send_digest [OF assms(1) _ _ bs [unfolded newest_digest_def] fits(3) [unfolded newest_digest_def] fits(4), of n3 ?a 7]
      n3(2,3) carried_read [OF fits(4)] by auto
  with n1(1) n2(1) n3(1) bs dup un show ?thesis
    by (simp add: gossip_recv_loop_ignores_garbage_bytes_and_keeps_working_def encode_gossip_def Let_def)
qed

end
