(* ===== verification/Listener_Runs.thy ===== *)
theory Listener_Runs
  imports Node_Runs
begin

text \<open>
  The tests of the lookup listeners and of the client API pass, and the tests of maintenance, of the table of
  challenges and of the rate limiters.
\<close>

section \<open>Resolver\<close>

abbreviation query_fits :: "node_run \<Rightarrow> string \<Rightarrow> bool" where
  "query_fits r name \<equiv> carries (query_to_vec (run_client r)) (query_from_slice (run_env r)) \<lparr>query_domain = DomainName (lit name)\<rparr>"

abbreviation answer_fits :: "node_run \<Rightarrow> resolve_answer \<Rightarrow> bool" where
  "answer_fits r \<equiv> carries (answer_to_vec (run_env r)) (answer_from_slice (run_client r))"

lemma resolver_answers:
  assumes "rounding (env_round (run_env r))" "serves (resolver_limiter n) (client_addr r) (Suc m)" "m < 20"
    and "query_fits r name" "answer_fits r (resolve_answer_for (node_store n) (DomainName (lit name)))"
  shows "\<exists>query n' reply. encode (query_to_vec (run_client r)) \<lparr>query_domain = DomainName (lit name)\<rparr> = Inr query \<and>
    send_resolver r i query n = (n', [(client_addr r, reply)]) \<and>
    decode (answer_from_slice (run_client r)) (take max_datagram_bytes reply) =
      Inr (resolve_answer_for (node_store n) (DomainName (lit name)))"
proof -
  obtain query where query: "encode (query_to_vec (run_client r)) \<lparr>query_domain = DomainName (lit name)\<rparr> = Inr query"
    using assms(4) by (auto elim!: carriesE)
  obtain reply where "send_encoded (answer_to_vec (run_env r)) (resolve_answer_for (node_store n) (DomainName (lit name)))
      (client_addr r) = [(client_addr r, reply)]"
    "decode (answer_from_slice (run_client r)) (take max_datagram_bytes reply) =
      Inr (resolve_answer_for (node_store n) (DomainName (lit name)))"
    by (rule carried_sent [OF assms(5)])
  with query carried_read [OF assms(4) query] resolver_served [OF assms(1-3), of "run_instant r i" query] show ?thesis
    by (auto simp: send_resolver_def)
qed

lemma garbage_short: "take max_datagram_bytes (utf8 (lit ''garbage'')) = utf8 (lit ''garbage'')"
  "length (utf8 (lit ''garbage'')) = 7"
  by (simp_all add: lit_def utf8_char_def max_datagram_bytes_def)

lemma recv_from_one [simp]: "recv_from [(a, packet)] = Some (take max_datagram_bytes packet)"
  by (simp add: recv_from_def)

lemma unregistered_answer [simp]: "resolve_answer_for store_new d = \<lparr>owner_client_key = None, answer_records = []\<rparr>"
  by (simp add: resolve_answer_for_def)

lemma resolver_tests_pass:
  assumes "rounding (env_round (run_env r))" "answer_fits r \<lparr>owner_client_key = None, answer_records = []\<rparr>"
  shows "query_fits r ''nobody-has-this.binda'' \<Longrightarrow> passes (resolver_returns_empty_answer_for_unknown_domain r)"
    and "query_fits r ''after-garbage.binda'' \<Longrightarrow> \<not> is_ok (query_from_slice (run_env r) (utf8 (lit ''garbage''))) \<Longrightarrow>
      passes (resolver_ignores_undecodable_bytes_and_keeps_working r)"
proof -
  show "passes (resolver_returns_empty_answer_for_unknown_domain r)" if "query_fits r ''nobody-has-this.binda''"
    using resolver_answers [OF assms(1), of "test_node []" 1 "''nobody-has-this.binda''" 0] that assms(2)
    by (auto simp: resolver_returns_empty_answer_for_unknown_domain_def)
  assume q: "query_fits r ''after-garbage.binda''" and "\<not> is_ok (query_from_slice (run_env r) (utf8 (lit ''garbage'')))"
  then have "\<not> is_ok (decode (query_from_slice (run_env r)) (take max_datagram_bytes (utf8 (lit ''garbage''))))"
    by (auto simp: decode_def garbage_short max_datagram_bytes_def split: sum.split)
  then obtain n where n: "send_resolver r 0 (utf8 (lit ''garbage'')) (test_node []) = (n, [])"
    "node_store n = store_new" "serves (resolver_limiter n) (client_addr r) 10"
    using resolver_served [OF assms(1), of "test_node []" "client_addr r" 10 "run_instant r 0" "utf8 (lit ''garbage'')"]
    by (auto simp: send_resolver_def is_ok_def split: sum.splits)
  then show "passes (resolver_ignores_undecodable_bytes_and_keeps_working r)"
    using resolver_answers [OF assms(1), of n 9 "''after-garbage.binda''" 1] q assms(2)
    by (auto simp: resolver_ignores_undecodable_bytes_and_keeps_working_def)
qed

lemma resolver_registered_passes:
  assumes "rounding (env_round (run_env r))" "honest (env_ext (run_env r)) (run_key r)"
    and "query_fits r ''resolver-test.binda''"
    and "answer_fits r \<lparr>owner_client_key = Some (client_key (client_new (public_key (run_key r)) (lit ''seed.example.net''))),
      answer_records = [address_record ''203.0.113.9'']\<rparr>"
  shows "passes (resolver_returns_registered_owner_and_records r)"
proof -
  let ?d = "DomainName (lit ''resolver-test.binda'')" and ?rs = "[address_record ''203.0.113.9'']"
  obtain s where s: "seed_registration_with_records r (test_node []) ?d ?rs = Some ((test_node [])\<lparr>node_store := s\<rparr>)"
    "registrations s = [(?d, registration_from_rumor (seed_lease r ?d ?rs) (quota_key (lit ''seed.example.net'')))]"
    using seeded [OF assms(2), of "test_node []" ?d ?rs] by auto
  have "resolve_answer_for s ?d = \<lparr>owner_client_key = Some (client_key (client_new (public_key (run_key r)) (lit ''seed.example.net''))),
      answer_records = ?rs\<rparr>"
    using seeded_lookup [OF s(2)] by (simp add: resolve_answer_for_def) (simp add: registration_from_rumor_def seed_lease_def)
  with resolver_answers [OF assms(1), of "(test_node [])\<lparr>node_store := s\<rparr>" 1 "''resolver-test.binda''" 0] assms(3,4) s(1)
  show ?thesis by (auto simp: resolver_returns_registered_owner_and_records_def)
qed

section \<open>Native lookup\<close>

lemma native_query_parses:
  assumes "wire_domain d"
  shows "parse_query (u16_be i @ u16_be 0x0100 @ u16_be 1 @ replicate 6 0 @
      concat (map (\<lambda>l. u32_be (of_nat (length (utf8 l))) @ utf8 l) (labels d)) @ u32_be 0 @ u16_be 1 @ u16_be 1) =
    Inr (test_query i d type_a)"
  using parse_query_shape [OF assms, of "u16_be 0x0100" "replicate 6 0" i type_a class_in "[]"]
  by (simp add: test_query_def type_a_def class_in_def encode_domain_labels_def encode_label_def cong: map_cong)

lemma dns_answers:
  assumes "rounding (env_round (run_env r))" "serves (dns_limiter n) (client_addr r) (Suc m)" "m < 20"
    and "length bs \<le> 65507" "parse_query bs = Inr q"
  shows "\<exists>n'. send_dns r i bs n = (n', [(client_addr r, dns_response_for (node_store n) q)])"
  using dns_served [OF assms(1-3), of "run_instant r i" bs] assms(4,5) by (auto simp: send_dns_def max_datagram_bytes_def)

lemma native_names [simp]:
  "wire_domain (DomainName (lit ''native-dns-test.binda''))"
  "wire_domain (DomainName (lit ''nobody-registered-this.binda''))"
  by (simp_all add: name_defs lit_def utf8_char_def)

lemma u16_at_received: "i < 65506 \<Longrightarrow> u16_at (take max_datagram_bytes bs) i = u16_at bs i"
  by (simp add: u16_at_def max_datagram_bytes_def)

lemma nxdomain_passes:
  assumes "rounding (env_round (run_env r))"
  shows "passes (native_dns_loop_returns_nxdomain_for_unknown_domain r)"
proof -
  let ?d = "DomainName (lit ''nobody-registered-this.binda'')"
  let ?bs = "u16_be 0x4321 @ u16_be 0x0100 @ u16_be 1 @ replicate 6 0 @
      concat (map (\<lambda>l. u32_be (of_nat (length (utf8 l))) @ utf8 l) (split_on dot (lit ''nobody-registered-this.binda''))) @
      u32_be 0 @ u16_be 1 @ u16_be 1"
  have labels: "labels ?d = split_on dot (lit ''nobody-registered-this.binda'')" by (simp add: labels_def)
  have "length ?bs \<le> 65507" by (simp add: lit_def utf8_char_def)
  then obtain n where n: "send_dns r 0 ?bs (test_node []) = (n, [(client_addr r, dns_response_for store_new (test_query 0x4321 ?d type_a))])"
    using dns_answers [OF assms, of "test_node []" 1 ?bs _ 0] native_query_parses [OF native_names(2), of "0x4321"]
    unfolding labels by auto
  have response: "dns_response_for store_new (test_query 0x4321 ?d type_a) = build_response (test_query 0x4321 ?d type_a) False []"
    by (simp add: dns_response_for_def)
  then show ?thesis
    unfolding native_dns_loop_returns_nxdomain_for_unknown_domain_def Let_def n response
    by (simp add: response_flags rcode_nxdomain_def u16_at_received)
qed

lemma native_record_passes:
  assumes "rounding (env_round (run_env r))" "honest (env_ext (run_env r)) (run_key r)"
  shows "passes (native_dns_loop_resolves_a_registered_a_record r)"
proof -
  let ?d = "DomainName (lit ''native-dns-test.binda'')" and ?r = "address_record ''203.0.113.20''"
  let ?q = "test_query 0x1234 ?d type_a"
  let ?bs = "u16_be 0x1234 @ u16_be 0x0100 @ u16_be 1 @ replicate 6 0 @
      concat (map (\<lambda>l. u32_be (of_nat (length (utf8 l))) @ utf8 l) (labels ?d)) @ u32_be 0 @ u16_be 1 @ u16_be 1"
  have rdata: "encode_rdata ?r = Inr [203, 0, 113, 20]"
    by (simp add: encode_rdata_def address_record_def address_eval utf8_char_def)
  obtain s where s: "seed_registration_with_records r (test_node []) ?d [?r] = Some ((test_node [])\<lparr>node_store := s\<rparr>)"
    "registrations s = [(?d, registration_from_rumor (seed_lease r ?d [?r]) (quota_key (lit ''seed.example.net'')))]"
    using seeded [OF assms(2), of "test_node []" ?d "[?r]"] by auto
  have response: "dns_response_for s ?q = build_response ?q True [?r]"
    using seeded_lookup [OF s(2)] by (simp add: dns_response_for_def record_matches_qtype_def)
      (simp add: address_record_def)
  have short: "length (build_response ?q True [?r]) \<le> max_datagram_bytes"
    by (simp add: build_response_def Let_def rdata encode_answer_def encode_domain_labels_def encode_label_def labels_def
      max_datagram_bytes_def) (simp add: lit_def utf8_char_def encode_label_def)
  have "length ?bs \<le> 65507" by (simp add: lit_def utf8_char_def labels_def)
  then obtain n where n: "send_dns r 0 ?bs ((test_node [])\<lparr>node_store := s\<rparr>) = (n, [(client_addr r, build_response ?q True [?r])])"
    using dns_answers [OF assms(1), of "(test_node [])\<lparr>node_store := s\<rparr>" 1 ?bs ?q 0] native_query_parses [OF native_names(1), of "0x1234"]
    by (auto simp: response)
  show ?thesis
    using response_ends [OF rdata, of ?q True "[]"] short
    unfolding native_dns_loop_resolves_a_registered_a_record_def Let_def n response
    by (simp add: s(1) n response_header rdata)
qed

lemma formerr_passes:
  assumes "rounding (env_round (run_env r))"
  shows "passes (native_dns_loop_sends_formerr_for_unparseable_message r)"
proof -
  have short: "\<exists>e. parse_query [0x99] = Inl e" "\<exists>e. parse_query [0x99, 0x88] = Inl e" by (simp_all add: parse_query_def)
  obtain n where n: "send_dns r 0 [0x99] (test_node []) = (n, [])" "serves (dns_limiter n) (client_addr r) 10"
    using dns_served [OF assms, of "test_node []" "client_addr r" 10 "run_instant r 0" "[0x99]"] short(1)
    by (auto simp: send_dns_def max_datagram_bytes_def)
  obtain n' where "send_dns r 1 [0x99, 0x88] n =
      (n', [(client_addr r, build_error_response (u16_of_be [0x99, 0x88]) rcode_format_error)])"
    using dns_served [OF assms, of n "client_addr r" 9 "run_instant r 1" "[0x99, 0x88]"] short(2) n(2)
    by (auto simp: send_dns_def max_datagram_bytes_def)
  with n(1) show ?thesis
    by (simp add: native_dns_loop_sends_formerr_for_unparseable_message_def build_error_response_def u16_at_def
        max_datagram_bytes_def) (simp add: u16_be_def be_bytes_numeral u16_of_be_def be_value_def)
qed

section \<open>Client API\<close>

abbreviation request_fits :: "node_run \<Rightarrow> client_request \<Rightarrow> bool" where
  "request_fits r \<equiv> carries (request_to_vec (run_client r)) (request_from_slice (run_env r))"

abbreviation response_fits :: "node_run \<Rightarrow> client_response \<Rightarrow> bool" where
  "response_fits r \<equiv> carries (response_to_vec (run_env r)) (response_from_slice (run_client r))"

lemma api_answers:
  assumes "rounding (env_round (run_env r))" "serves (api_limiter n) (client_addr r) (Suc m)" "m < 20" "api_running n"
    and fits: "request_fits r request" "response_fits r response"
    and handled: "handle_client_request (env_ext (run_env r)) (run_nonce r) (node_store n) (frozen (run_millis r)) request
      (case request of Register envelope \<Rightarrow> verify (run_net r) (node_verifier n) (sock_ip (client_addr r)) (env_rdns envelope)
        | _ \<Rightarrow> True) = (Some response, s)"
  shows "\<exists>n'. call_api r i [] request n = Some (response, n') \<and> node_store n' = s \<and> api_running n' \<and>
    node_verifier n' = node_verifier n \<and> serves (api_limiter n') (client_addr r) m"
proof -
  obtain packet where packet: "encode (request_to_vec (run_client r)) request = Inr packet"
    using fits(1) by (auto elim!: carriesE)
  obtain reply where "send_encoded (response_to_vec (run_env r)) response (client_addr r) = [(client_addr r, reply)]"
    "decode (response_from_slice (run_client r)) (take max_datagram_bytes reply) = Inr response"
    by (rule carried_sent [OF fits(2)])
  with packet carried_read [OF fits(1) packet] handled assms(4)
    api_served [OF assms(1-4), of "run_instant r i" "run_net r" "run_nonce r" "frozen (run_millis r)" packet]
  show ?thesis by (auto simp: call_api_def send_api_def)
qed

lemma node_requests:
  "signed_probe_request r host = probe_datagram (public_key (run_key r)) (sign_with (run_key r)) (lit host) (run_millis r)"
  "signed_register_request r host d =
    register_datagram (public_key (run_key r)) (sign_with (run_key r)) (lit host) d (run_millis r)"
  by (simp_all add: signed_probe_request_def signed_register_request_def probe_datagram_def register_datagram_def Let_def)

lemma is_fresh_now [simp]: "is_fresh t t"
  by (simp add: is_fresh_iff)

lemma probe_answered:
  assumes "rounding (env_round (run_env r))" "serves (api_limiter n) (client_addr r) (Suc m)" "m < 20" "api_running n"
    and "honest (env_ext (run_env r)) (run_key r)" "node_store n = store_new"
    and "request_fits r (signed_probe_request r host)" "response_fits r ProbeAck"
  shows "\<exists>n'. call_api r i [] (signed_probe_request r host) n = Some (ProbeAck, n') \<and>
    only_probed (lit host) (run_millis r) (node_store n') \<and>
    hm_get (probe_evidence (node_store n')) (client_key (client_new (public_key (run_key r)) (lit host))) =
      Some (run_millis r, sign_with (run_key r) (probe_message (run_millis r))) \<and>
    api_running n' \<and> node_verifier n' = node_verifier n \<and> serves (api_limiter n') (client_addr r) m"
proof -
  note ack = probe_ack [OF assms(5) [unfolded honest_def], of "run_millis r" "run_millis r" store_new "lit host" "run_nonce r" True]
  show ?thesis
    using api_answers [OF assms(1-4,7,8), of _ i] ack assms(6)
    by (fastforce simp: node_requests probe_datagram_def only_probed_def)
qed

lemma probe_tests_pass:
  assumes "rounding (env_round (run_env r))" "honest (env_ext (run_env r)) (run_key r)" "response_fits r ProbeAck"
  shows "request_fits r (signed_probe_request r ''client.example.net'') \<Longrightarrow> passes (probe_via_client_api_socket_returns_ack r)"
    and "request_fits r (signed_probe_request r ''host.example.net'') \<Longrightarrow>
      \<not> is_ok (request_from_slice (run_env r) (utf8 (lit ''garbage''))) \<Longrightarrow>
      passes (client_api_ignores_undecodable_bytes_and_keeps_working r)"
proof -
  show "passes (probe_via_client_api_socket_returns_ack r)" if "request_fits r (signed_probe_request r ''client.example.net'')"
    using probe_answered [OF assms(1), of "test_node []" 1 "''client.example.net''" 0] that assms(2,3)
    by (auto simp: probe_via_client_api_socket_returns_ack_def)
  assume q: "request_fits r (signed_probe_request r ''host.example.net'')"
    and "\<not> is_ok (request_from_slice (run_env r) (utf8 (lit ''garbage'')))"
  then have "\<not> is_ok (decode (request_from_slice (run_env r)) (take max_datagram_bytes (utf8 (lit ''garbage''))))"
    by (auto simp: decode_def garbage_short max_datagram_bytes_def split: sum.split)
  then obtain n where n: "send_api r 0 (utf8 (lit ''garbage'')) (test_node []) = (n, [])"
    "node_store n = store_new" "api_running n" "serves (api_limiter n) (client_addr r) 10"
    using api_served [OF assms(1), of "test_node []" "client_addr r" 10 "run_instant r 0" "run_net r" "run_nonce r"
        "frozen (run_millis r)" "utf8 (lit ''garbage'')"]
    by (auto simp: send_api_def is_ok_def split: sum.splits)
  then show "passes (client_api_ignores_undecodable_bytes_and_keeps_working r)"
    using probe_answered [OF assms(1), of n 9 "''host.example.net''" 1] q assms(2,3)
    by (auto simp: client_api_ignores_undecodable_bytes_and_keeps_working_def)
qed

text \<open>A registration after a probe: granted where the host is confirmed, refused where it is not.\<close>

lemma register_answered:
  assumes "rounding (env_round (run_env r))" "honest (env_ext (run_env r)) (run_key r)"
    and n: "node_store n = store_new" "api_running n" "serves (api_limiter n) (client_addr r) 2"
    and probe: "request_fits r (signed_probe_request r host)" "response_fits r ProbeAck"
    and register: "request_fits r (signed_register_request r host d)" "response_fits r response"
    and response: "response = (if verify (run_net r) (node_verifier n) (sock_ip (client_addr r)) (lit host)
      then Registered (token_issue (run_nonce r) (run_millis r))
      else ErrorResponse (lit ''claimed rdns hostname does not forward-confirm against the request's source address''))"
  shows "\<exists>n1 n2. call_api r 0 [] (signed_probe_request r host) n = Some (ProbeAck, n1) \<and>
    call_api r 1 [] (signed_register_request r host d) n1 = Some (response, n2)"
proof -
  obtain n1 where n1: "call_api r 0 [] (signed_probe_request r host) n = Some (ProbeAck, n1)"
    "only_probed (lit host) (run_millis r) (node_store n1)"
    "hm_get (probe_evidence (node_store n1)) (client_key (client_new (public_key (run_key r)) (lit host))) =
      Some (run_millis r, sign_with (run_key r) (probe_message (run_millis r)))"
    "api_running n1" "node_verifier n1 = node_verifier n" "serves (api_limiter n1) (client_addr r) (Suc 0)"
    using probe_answered [OF assms(1) _ _ n(2) assms(2) n(1) probe, of 1 0] n(3) by (auto simp: numeral_2_eq_2)
  let ?v = "verify (run_net r) (node_verifier n) (sock_ip (client_addr r)) (lit host)"
  note signs = assms(2) [unfolded honest_def]
  have "\<exists>s. handle_client_request (env_ext (run_env r)) (run_nonce r) (node_store n1) (frozen (run_millis r))
      (signed_register_request r host d) ?v = (Some response, s)"
  proof (cases ?v)
    case True
    then show ?thesis
      using register_granted_lease [OF signs is_fresh_now is_fresh_now n1(2,3)] by (simp add: node_requests response)
  next
    case False
    then show ?thesis using register_unconfirmed [OF signs is_fresh_now] by (simp add: node_requests response)
  qed
  then obtain s where "handle_client_request (env_ext (run_env r)) (run_nonce r) (node_store n1) (frozen (run_millis r))
      (signed_register_request r host d) ?v = (Some response, s)" ..
  then show ?thesis
    using api_answers [OF assms(1) n1(6) _ n1(4) register, of s 1] n1(1,5)
    by (auto simp: node_requests register_datagram_def)
qed

lemma register_tests_pass:
  assumes "rounding (env_round (run_env r))" "honest (env_ext (run_env r)) (run_key r)" "response_fits r ProbeAck"
  shows "request_fits r (signed_probe_request r ''definitely-not-a-real-reverse-dns-name.invalid'') \<Longrightarrow>
      request_fits r (signed_register_request r ''definitely-not-a-real-reverse-dns-name.invalid'' (DomainName (lit ''wont-register.binda''))) \<Longrightarrow>
      response_fits r (ErrorResponse (lit ''claimed rdns hostname does not forward-confirm against the request's source address'')) \<Longrightarrow>
      \<not> verify (run_net r) FcrdnsVerifier (sock_ip (client_addr r)) (lit ''definitely-not-a-real-reverse-dns-name.invalid'') \<Longrightarrow>
      passes (register_via_client_api_is_refused_without_real_fcrdns r)"
    and "request_fits r (signed_probe_request r ''this-would-never-forward-confirm.invalid'') \<Longrightarrow>
      request_fits r (signed_register_request r ''this-would-never-forward-confirm.invalid'' (DomainName (lit ''demo-succeeds.binda''))) \<Longrightarrow>
      response_fits r (Registered (token_issue (run_nonce r) (run_millis r))) \<Longrightarrow>
      passes (register_via_client_api_succeeds_with_rdns_verification_disabled r)"
proof -
  show "passes (register_via_client_api_is_refused_without_real_fcrdns r)"
    if "request_fits r (signed_probe_request r ''definitely-not-a-real-reverse-dns-name.invalid'')"
      "request_fits r (signed_register_request r ''definitely-not-a-real-reverse-dns-name.invalid'' (DomainName (lit ''wont-register.binda'')))"
      "response_fits r (ErrorResponse (lit ''claimed rdns hostname does not forward-confirm against the request's source address''))"
      "\<not> verify (run_net r) FcrdnsVerifier (sock_ip (client_addr r)) (lit ''definitely-not-a-real-reverse-dns-name.invalid'')"
    using register_answered [OF assms(1,2) _ _ _ that(1) assms(3) that(2,3), of "test_node []"] that(4)
    by (auto simp: register_via_client_api_is_refused_without_real_fcrdns_def Let_def)
  show "passes (register_via_client_api_succeeds_with_rdns_verification_disabled r)"
    if "request_fits r (signed_probe_request r ''this-would-never-forward-confirm.invalid'')"
      "request_fits r (signed_register_request r ''this-would-never-forward-confirm.invalid'' (DomainName (lit ''demo-succeeds.binda'')))"
      "response_fits r (Registered (token_issue (run_nonce r) (run_millis r)))"
    using register_answered [OF assms(1,2) _ _ _ that(1) assms(3) that(2,3), of "test_node_allowing_any_rdns []"]
    by (auto simp: register_via_client_api_succeeds_with_rdns_verification_disabled_def Let_def test_node_allowing_any_rdns_def)
qed

lemma allowing_constructor_passes: "passes new_allowing_any_rdns_constructs_a_working_node"
  by (simp add: new_allowing_any_rdns_constructs_a_working_node_def new_allowing_any_rdns_def new_with_verifier_def)

section \<open>Maintenance\<close>

text \<open>A monotonic clock that has run for the eleven seconds the tests look back, and tests of less than ten seconds.\<close>

definition prompt :: "node_run \<Rightarrow> bool" where
  "prompt r \<longleftrightarrow> mono (run_instant r) \<and> 11000000000 \<le> run_instant r 0 \<and> (\<forall>i. run_instant r i < run_instant r 0 + 10000000000)"

lemma promptD:
  assumes "prompt r"
  shows "i \<le> j \<Longrightarrow> run_instant r i \<le> run_instant r j" "11000000000 \<le> run_instant r i"
    "run_instant r i < run_instant r j + 10000000000"
proof -
  show m: "run_instant r i \<le> run_instant r j" if "i \<le> j" for i j using that assms by (simp add: prompt_def monoD)
  from assms m [of 0 i] show "11000000000 \<le> run_instant r i" by (simp add: prompt_def)
  have "run_instant r i < run_instant r 0 + 10000000000" using assms by (simp add: prompt_def)
  with m [of 0 j] show "run_instant r i < run_instant r j + 10000000000" by simp
qed

lemma maintenance_passes:
  assumes "prompt r"
  shows "passes (rate_limiter_maintenance_prunes_stale_pending_challenges_but_keeps_fresh_ones r)"
proof -
  have "local_port 2 \<noteq> local_port 1" by (simp add: local_port_inj)
  moreover have "run_instant r 1 \<le> run_instant r 2" "11000000000 \<le> run_instant r 1"
    "run_instant r 2 < run_instant r 0 + 10000000000" "run_instant r 0 \<le> run_instant r 2"
    using promptD(1) [OF assms, of 1 2] promptD(1) [OF assms, of 0 2] promptD(2) [OF assms, of 1] promptD(3) [OF assms, of 2 0]
    by simp_all
  ultimately show ?thesis
    by (simp add: rate_limiter_maintenance_prunes_stale_pending_challenges_but_keeps_fresh_ones_def checked_sub_def Let_def
        maintenance_tick_def prune_pending_def hm_contains_key_def hm_retain_def hm_insert_def hm_get_def
        pending_challenge_timeout_nanos_def less_diff_conv2)
qed

section \<open>The full table\<close>

lemma length_hm_remove_one: "hm_wf m \<Longrightarrow> hm_contains_key m k \<Longrightarrow> length (hm_remove k m) = length m - 1"
proof (induction m)
  case (Cons e m)
  show ?case
  proof (cases "fst e = k")
    case True
    with Cons.prems(1) have "k \<notin> fst ` set m" by (simp add: hm_wf_def)
    then have "filter (\<lambda>e. fst e \<noteq> k) m = m" by (intro filter_True ballI) auto
    with True show ?thesis by (simp add: hm_remove_def)
  next
    case False
    with Cons.prems have "hm_wf m" "hm_contains_key m k" "m \<noteq> []"
      by (auto simp: hm_wf_def hm_contains_key_def hm_get_def split: if_splits)
    with Cons.IH False show ?thesis by (simp add: hm_remove_def)
  qed
qed (simp add: hm_contains_key_def)

text \<open>A table in which one entry is the oldest: a digest of a new peer takes its place.\<close>

lemma oldest_replaced:
  fixes m :: "(socket_addr, pending_challenge) hash_map"
  assumes "hm_wf m" "length m = 10000" "hm_get m oldest = Some (c, ds, i)" "hm_get m sender = None"
    and youngest: "\<forall>k v. hm_get m k = Some v \<longrightarrow> k \<noteq> oldest \<longrightarrow> i < snd (snd v)"
  shows "admit_pending m (sender, p) = hm_insert sender p (hm_remove oldest m)"
    and "length (admit_pending m (sender, p)) = 10000"
proof -
  let ?f = "\<lambda>(_, _, issued_at). issued_at"
  obtain e where e: "hm_min_by_key ?f m = Some e" using assms(2) by (cases "hm_min_by_key ?f m") auto
  then have get: "hm_get m (fst e) = Some (snd e)"
    using hm_min_by_key_in [OF e] assms(1) by (simp add: hm_get_def hm_wf_def)
  have "(oldest, c, ds, i) \<in> set m" using assms(3) by (simp add: hm_get_def map_of_SomeD)
  from hm_min_by_key_least [OF e this] have "snd (snd (snd e)) \<le> i" by (simp add: case_prod_unfold)
  with youngest get have "fst e = oldest" by (metis not_less)
  with e assms(2,4) show admit: "admit_pending m (sender, p) = hm_insert sender p (hm_remove oldest m)"
    by (cases e) (simp add: admit_pending_def max_pending_challenges_def hm_contains_key_def)
  have "hm_get (hm_remove oldest m) sender = None" using assms(3,4) by auto
  moreover have "length (hm_remove oldest m) = 9999"
    using length_hm_remove_one [OF assms(1), of oldest] assms(2,3) by (simp add: hm_contains_key_def)
  ultimately show "length (admit_pending m (sender, p)) = 10000"
    by (simp add: admit length_hm_insert hm_contains_key_def)
qed

lemma hm_insert_new: "k \<notin> fst ` set m \<Longrightarrow> hm_insert k v m = m @ [(k, v)]"
  by (induction m) (auto simp: hm_insert_def)

lemma full_table_map:
  "full_table r = map (\<lambda>port. (local_port port, drawn_challenge (run_draws r port) (of_nat port), [], run_instant r port)) [1..<10001]"
proof -
  let ?e = "\<lambda>port. (drawn_challenge (run_draws r port) (of_nat port), [], run_instant r port) :: pending_challenge"
  have "foldl (\<lambda>pending port. hm_insert (local_port port) (?e port) pending) [] [1..<Suc n] =
      map (\<lambda>port. (local_port port, ?e port)) [1..<Suc n]" if "n < 65535" for n
    using that
  proof (induction n)
    case (Suc n)
    have "local_port (Suc n) \<notin> fst ` set (map (\<lambda>port. (local_port port, ?e port)) [1..<Suc n])"
      using Suc.prems by (auto simp: local_port_inj)
    then have "hm_insert (local_port (Suc n)) (?e (Suc n)) (map (\<lambda>port. (local_port port, ?e port)) [1..<Suc n]) =
        map (\<lambda>port. (local_port port, ?e port)) [1..<Suc n] @ [(local_port (Suc n), ?e (Suc n))]"
      by (rule hm_insert_new)
    with Suc show ?case by simp
  qed simp
  from this [of 10000] show ?thesis by (simp add: full_table_def max_pending_challenges_def)
qed

lemma full_table_facts:
  "hm_wf (full_table r)" "length (full_table r) = 10000"
  "hm_get (full_table r) k = Some v \<Longrightarrow> \<exists>port. 1 \<le> port \<and> port \<le> 10000 \<and> k = local_port port \<and>
    v = (drawn_challenge (run_draws r port) (of_nat port), [], run_instant r port)"
  "1 \<le> port \<Longrightarrow> port \<le> 10000 \<Longrightarrow> hm_get (full_table r) (local_port port) =
    Some (drawn_challenge (run_draws r port) (of_nat port), [], run_instant r port)"
proof -
  have "inj_on local_port (set [1..<10001])" by (rule inj_onI) (simp add: local_port_inj)
  then show wf: "hm_wf (full_table r)"
    by (simp add: hm_wf_def full_table_map o_def distinct_map)
  show "length (full_table r) = 10000" by (simp add: full_table_map)
  show "\<exists>port. 1 \<le> port \<and> port \<le> 10000 \<and> k = local_port port \<and>
    v = (drawn_challenge (run_draws r port) (of_nat port), [], run_instant r port)" if "hm_get (full_table r) k = Some v"
  proof -
    from that have "(k, v) \<in> set (full_table r)" by (simp add: hm_get_eq_Some [OF wf])
    then obtain port where "port \<in> set [1..<10001]"
      "(k, v) = (local_port port, drawn_challenge (run_draws r port) (of_nat port), [], run_instant r port)"
      unfolding full_table_map set_map by blast
    then show ?thesis by (intro exI [of _ port]) (simp del: upt_rec_numeral)
  qed
  show "hm_get (full_table r) (local_port port) = Some (drawn_challenge (run_draws r port) (of_nat port), [], run_instant r port)"
    if "1 \<le> port" "port \<le> 10000"
  proof -
    have "port \<in> set [1..<10001]" using that by (simp del: upt_rec_numeral)
    then show ?thesis unfolding hm_get_eq_Some [OF wf] unfolding full_table_map set_map by (rule imageI)
  qed
qed

lemma length_insert_known: "hm_get m k \<noteq> None \<Longrightarrow> length (hm_insert k v m) = length m"
  by (simp add: length_hm_insert hm_contains_key_def)

lemma capacity_passes:
  assumes "prompt r"
  shows "passes (pending_challenge_table_evicts_oldest_peer_at_capacity r)"
proof -
  let ?t = "full_table r" and ?one = "local_port 1" and ?two = "local_port 2" and ?in = "local_port 20000"
  let ?c = "\<lambda>port. drawn_challenge (run_draws r port) (of_nat port)"
  let ?ago = "run_instant r 10001 - 11000000000"
  let ?m = "hm_insert ?two (?c 2, [], run_instant r 10002) (hm_insert ?one (?c 1, [], ?ago) ?t)"
  have neq: "?one \<noteq> ?two" "?in \<noteq> ?one" "?in \<noteq> ?two" by (simp_all add: local_port_inj)
  note get = full_table_facts(4) [of 1 r] full_table_facts(4) [of 2 r]
  have wf: "hm_wf ?m" by (simp add: full_table_facts(1))
  have len: "length ?m = 10000"
    using get by (simp add: length_insert_known full_table_facts(2))
  have none: "hm_get ?t ?in = None"
    using full_table_facts(3) [of r ?in] by (cases "hm_get ?t ?in") (auto simp: local_port_inj)
  have young: "?ago < run_instant r i" for i
    using promptD(3) [OF assms, of 10001 i] promptD(2) [OF assms, of i] by arith
  have youngest: "?ago < snd (snd v)" if "hm_get ?m k = Some v" "k \<noteq> ?one" for k v
  proof (cases "k = ?two")
    case True
    with that(1) young [of 10002] show ?thesis by auto
  next
    case False
    with that have "hm_get ?t k = Some v" by simp
    with full_table_facts(3) [OF this] young show ?thesis by auto
  qed
  have one: "hm_get ?m ?one = Some (?c 1, [], ?ago)" using neq by simp
  have get_in: "hm_get ?m ?in = None" using neq none by simp
  have "\<forall>k v. hm_get ?m k = Some v \<longrightarrow> k \<noteq> ?one \<longrightarrow> ?ago < snd (snd v)" using youngest by blast
  note R = oldest_replaced [OF wf len one get_in this]
  have sets: "set_instant ?one ?ago ?t = Some (hm_insert ?one (?c 1, [], ?ago) ?t)"
    "set_instant ?two (run_instant r 10002) (hm_insert ?one (?c 1, [], ?ago) ?t) = Some ?m"
    using get neq by (simp_all add: set_instant_def)
  have "11000000000 \<le> run_instant r 10001" by (rule promptD(2) [OF assms])
  then have ago: "checked_sub (run_instant r 10001) (pending_challenge_timeout_nanos + 1000000000) = Some ?ago"
    by (simp add: checked_sub_def pending_challenge_timeout_nanos_def)
  show ?thesis
    using R neq sets ago
    by (simp add: pending_challenge_table_evicts_oldest_peer_at_capacity_def newest_digest_def Let_def missing_domains_def
        max_pending_challenges_def hm_contains_key_def)
qed

end
