(* ===== verification/Burst_Runs.thy ===== *)
theory Burst_Runs
  imports Listener_Runs
begin

text \<open>
  The tests of the rate limiters, the convergence of two nodes, and the suite of the tests of
  \<open>binda/src/node.rs\<close>.
\<close>

section \<open>Bursts\<close>

lemma send_all_stuck: "step n = (n, []) \<Longrightarrow> send_all step k n = []"
  by (induction k) simp_all

text \<open>A listener that replies at most once to a datagram its limiter lets pass, and never to another.\<close>

lemma send_all_burst:
  assumes step: "\<And>n n' out. step n = (n', out) \<Longrightarrow>
    (n' = n \<and> out = []) \<or>
    (limiter n' = snd (allow_at rnd sender now (limiter n)) \<and> length out \<le> (if fst (allow_at rnd sender now (limiter n)) then 1 else 0))"
  shows "length (send_all step k n) \<le> length (filter id (fst (allow_burst rnd sender now k (limiter n))))"
proof (induction k arbitrary: n)
  case (Suc k)
  obtain n' out where s: "step n = (n', out)" by (cases "step n")
  from step [OF s] show ?case
  proof
    assume "n' = n \<and> out = []"
    with s send_all_stuck [of step n "Suc k"] show ?thesis by simp
  next
    assume "limiter n' = snd (allow_at rnd sender now (limiter n)) \<and>
      length out \<le> (if fst (allow_at rnd sender now (limiter n)) then 1 else 0)"
    then show ?thesis
      using Suc [of n'] s by (auto simp: Let_def split: prod.splits if_splits)
  qed
qed simp

lemma burst_of_twenty:
  assumes "rounding rnd"
  shows "length (filter id (fst (allow_burst rnd sender now 40 (new_rate_limiter :: socket_addr rate_limiter)))) = 20"
proof -
  have "fst (allow_burst rnd sender now 40 (new_rate_limiter :: socket_addr rate_limiter)) =
      replicate (min 20 40) True @ replicate (40 - 20) False"
    by (rule allow_burst_fresh [OF assms])
      (simp_all add: new_rate_limiter_def limiter_new_def rate_limit_burst_def hm_contains_key_def)
  then show ?thesis by simp
qed

lemma burst_dropped:
  assumes "rounding rnd" "limiter n = (new_rate_limiter :: socket_addr rate_limiter)"
    and step: "\<And>n n' out. step n = (n', out) \<Longrightarrow>
    (n' = n \<and> out = []) \<or>
    (limiter n' = snd (allow_at rnd sender now (limiter n)) \<and> length out \<le> (if fst (allow_at rnd sender now (limiter n)) then 1 else 0))"
  shows "length (send_all step 40 n) < 40"
  using send_all_burst [of step limiter rnd sender now 40 n, OF step] burst_of_twenty [OF assms(1), of sender now] assms(2)
  by simp

lemma gossip_paced:
  assumes "gossip_recv env now draws time sender packet n = (n', out)"
  shows "gossip_limiter n' = snd (allow_at (env_round env) sender now (gossip_limiter n)) \<and>
    length out \<le> (if fst (allow_at (env_round env) sender now (gossip_limiter n)) then 1 else 0)"
proof -
  have keeps: "gossip_limiter (fst (handle_gossip_message env draws time sender msg m)) = gossip_limiter m" for msg m
    by (cases msg) (auto simp: Let_def split: option.split)
  obtain ok l where l: "allow_at (env_round env) sender now (gossip_limiter n) = (ok, l)" by fastforce
  from assms show ?thesis
    using keeps gossip_replies [of env draws time sender _ "n\<lparr>gossip_limiter := l, node_peers := learn sender (node_peers n)\<rparr>"]
    by (fastforce simp: gossip_recv_def Let_def l simp del: handle_gossip_message.simps split: if_splits sum.splits
        dest: arg_cong [where f = fst] arg_cong [where f = snd])
qed

lemma resolver_paced:
  assumes "resolver_recv env now sender packet n = (n', out)"
  shows "resolver_limiter n' = snd (allow_at (env_round env) sender now (resolver_limiter n)) \<and>
    length out \<le> (if fst (allow_at (env_round env) sender now (resolver_limiter n)) then 1 else 0)"
  using assms send_encoded_one(1)
  by (auto simp: resolver_recv_def Let_def split: prod.splits if_splits sum.splits)

lemma dns_paced:
  assumes "dns_recv env now sender packet n = (n', out)"
  shows "dns_limiter n' = snd (allow_at (env_round env) sender now (dns_limiter n)) \<and>
    length out \<le> (if fst (allow_at (env_round env) sender now (dns_limiter n)) then 1 else 0)"
  using assms by (auto simp: dns_recv_def Let_def split: prod.splits if_splits sum.splits)

lemma api_paced:
  assumes "client_api_recv env now net drawn time sender packet n = (n', out)"
  shows "(n' = n \<and> out = []) \<or> (api_limiter n' = snd (allow_at (env_round env) sender now (api_limiter n)) \<and>
    length out \<le> (if fst (allow_at (env_round env) sender now (api_limiter n)) then 1 else 0))"
  using assms
  by (auto simp: client_api_recv_def Let_def send_encoded_one(1) [unfolded One_nat_def] split: prod.splits if_splits sum.splits option.splits)

text \<open>The four tests.\<close>

lemma gossip_burst_passes:
  assumes "rounding (env_round (run_env r))" "honest (env_ext (run_env r)) (run_key r)"
    and "gossip_fits r (Request [DomainName (lit ''rate-limit-gossip.binda'')] (drawn_challenge (run_draws r 0) 0))"
  shows "passes (gossip_rate_limiter_drops_traffic_past_the_burst r)"
proof -
  obtain s where s: "seed_registration r (test_node []) (DomainName (lit ''rate-limit-gossip.binda'')) =
      Some ((test_node [])\<lparr>node_store := s\<rparr>)"
    using seeded [OF assms(2), of "test_node []"] unfolding seed_registration_def by fastforce
  obtain bs where "encode (gossip_to_vec (run_env r))
      (Request [DomainName (lit ''rate-limit-gossip.binda'')] (drawn_challenge (run_draws r 0) 0)) = Inr bs"
    using encodes [OF assms(3)] ..
  moreover have "length (send_all (send_gossip r 0 (client_addr r) bs) 40 ((test_node [])\<lparr>node_store := s\<rparr>)) < 40"
    by (rule burst_dropped [OF assms(1), of gossip_limiter _ _ "client_addr r" "run_instant r 0"])
      (auto simp: send_gossip_def dest: gossip_paced)
  ultimately show ?thesis
    using s by (simp add: gossip_rate_limiter_drops_traffic_past_the_burst_def encode_gossip_def)
qed

lemma resolver_burst_passes:
  assumes "rounding (env_round (run_env r))" "query_fits r ''whatever.binda''"
  shows "passes (resolver_rate_limiter_drops_traffic_past_the_burst r)"
proof -
  obtain bs where "encode (query_to_vec (run_client r)) \<lparr>query_domain = DomainName (lit ''whatever.binda'')\<rparr> = Inr bs"
    using assms(2) by (auto elim!: carriesE)
  moreover have "length (send_all (send_resolver r 0 bs) 40 (test_node [])) < 40"
    by (rule burst_dropped [OF assms(1), of resolver_limiter _ _ "client_addr r" "run_instant r 0"])
      (auto simp: send_resolver_def dest: resolver_paced)
  ultimately show ?thesis by (simp add: resolver_rate_limiter_drops_traffic_past_the_burst_def)
qed

lemma api_burst_passes:
  assumes "rounding (env_round (run_env r))" "request_fits r (signed_probe_request r ''host.example.net'')"
  shows "passes (client_api_rate_limiter_drops_traffic_past_the_burst r)"
proof -
  obtain bs where "encode (request_to_vec (run_client r)) (signed_probe_request r ''host.example.net'') = Inr bs"
    using assms(2) by (auto elim!: carriesE)
  moreover have "length (send_all (send_api r 0 bs) 40 (test_node [])) < 40"
    by (rule burst_dropped [OF assms(1), of api_limiter _ _ "client_addr r" "run_instant r 0"])
      (auto simp: send_api_def dest: api_paced)
  ultimately show ?thesis by (simp add: client_api_rate_limiter_drops_traffic_past_the_burst_def)
qed

lemma dns_burst_passes:
  assumes "rounding (env_round (run_env r))"
  shows "passes (dns_rate_limiter_drops_traffic_past_the_burst r)"
proof -
  have "length (send_all (send_dns r 0 bs) 40 (test_node [])) < 40" for bs
    by (rule burst_dropped [OF assms(1), of dns_limiter _ _ "client_addr r" "run_instant r 0"])
      (auto simp: send_dns_def dest: dns_paced)
  then show ?thesis by (simp add: dns_rate_limiter_drops_traffic_past_the_burst_def)
qed

end
