(* ===== verification/Converge_Runs.thy ===== *)
theory Converge_Runs
  imports Burst_Runs
begin

text \<open>
  The test of two nodes that converge: the deliveries of each interval of gossip, one after the other.
\<close>

section \<open>The messages\<close>

abbreviation "test_addr_a \<equiv> local_port 29530"
abbreviation "test_addr_b \<equiv> local_port 29531"
abbreviation "test_name \<equiv> DomainName (lit ''gossip-test-a.binda'')"

abbreviation shared_lease :: "node_run \<Rightarrow> registration_rumor" where
  "shared_lease r \<equiv> seed_lease r test_name []"

definition lease_digest :: "node_run \<Rightarrow> gossip_message" where
  "lease_digest r = Digest [\<lparr>entry_domain = test_name, entry_issued_at_millis = run_millis r\<rparr>]"

definition pair_traffic :: "node_run \<Rightarrow> gossip_message list" where
  "pair_traffic r = (let c = drawn_challenge (run_draws r 15) (run_millis r)
    in [lease_digest r, Digest [], Request [test_name] c, Rumors [shared_lease r] (expected_answer c)])"

lemma local_ports_differ [simp]: "test_addr_a \<noteq> test_addr_b" "test_addr_b \<noteq> test_addr_a"
  by (simp_all add: local_port_inj)

text \<open>A store that holds the lease, and nothing else.\<close>

definition holds_lease :: "node_run \<Rightarrow> registry_store \<Rightarrow> bool" where
  "holds_lease r s \<longleftrightarrow> registrations s =
    [(test_name, registration_from_rumor (shared_lease r) (quota_key (lit ''seed.example.net'')))]"

lemma lease_sel [simp]:
  "rumor_domain (shared_lease r) = test_name" "rumor_rdns (shared_lease r) = lit ''seed.example.net''"
  "rumor_token (shared_lease r) = token_issue (run_nonce r) (run_millis r)"
  by (simp_all add: seed_lease_def)

lemma token_issue_millis [simp]: "issued_at_millis (token_issue drawn t) = t"
  by (simp add: token_issue_def)

lemma holds_leaseD:
  assumes "holds_lease r s"
  shows "push_digest s = lease_digest r" "missing_domains s [\<lparr>entry_domain = test_name, entry_issued_at_millis = run_millis r\<rparr>] = []"
    "requested_rumors s [test_name] = [shared_lease r]" "lookup s test_name \<noteq> None"
proof -
  have "(shared_lease r)\<lparr>rumor_domain := test_name\<rparr> = shared_lease r" by (simp add: seed_lease_def client_lease_def)
  then show "push_digest s = lease_digest r" "missing_domains s [\<lparr>entry_domain = test_name, entry_issued_at_millis = run_millis r\<rparr>] = []"
    "requested_rumors s [test_name] = [shared_lease r]" "lookup s test_name \<noteq> None"
    using assms by (simp_all add: holds_lease_def push_digest_def all_rumors_def lease_digest_def missing_domains_def lookup_def
        requested_rumors_def List.map_filter_def registration_from_rumor_def)
qed

section \<open>The deliveries\<close>

text \<open>A digest that names nothing new.\<close>

lemma quiet_digest:
  assumes "rounding (env_round (run_env r))" "serves (gossip_limiter n) sender (Suc m)" "m < 20"
    and "gossip_fits r (Digest es)" "encode (gossip_to_vec (run_env r)) (Digest es) = Inr bs" "is_well_formed (Digest es)"
    and "missing_domains (node_store n) es = []"
  shows "\<exists>n'. send_gossip r i sender bs n = (n', []) \<and> node_store n' = node_store n \<and>
    node_peers n' = learn sender (node_peers n) \<and> pending_challenges n' = pending_challenges n \<and> serves (gossip_limiter n') sender m"
  using send_message [OF assms(1-6), of i] assms(7) by auto

text \<open>The request of the lease, answered.\<close>

lemma lease_sent:
  assumes "rounding (env_round (run_env r))" "serves (gossip_limiter n) sender (Suc m)" "m < 20"
    and fits: "gossip_fits r (Request [test_name] c)" "gossip_fits r (Rumors [shared_lease r] (expected_answer c))"
    and "encode (gossip_to_vec (run_env r)) (Request [test_name] c) = Inr bs" "holds_lease r (node_store n)"
  shows "\<exists>n' packet. send_gossip r i sender bs n = (n', [(sender, packet)]) \<and>
    encode (gossip_to_vec (run_env r)) (Rumors [shared_lease r] (expected_answer c)) = Inr packet \<and>
    node_store n' = node_store n \<and> node_peers n' = learn sender (node_peers n) \<and> serves (gossip_limiter n') sender m"
proof -
  obtain packet where packet: "encode (gossip_to_vec (run_env r)) (Rumors [shared_lease r] (expected_answer c)) = Inr packet"
    "send_encoded (gossip_to_vec (run_env r)) (Rumors [shared_lease r] (expected_answer c)) sender = [(sender, packet)]"
    by (rule carriesE [OF fits(2), where addr = sender]) (rule that)
  show ?thesis
    using send_message [OF assms(1-3) fits(1) assms(6), of i] packet holds_leaseD(3) [OF assms(7)]
    by (auto simp: max_request_entries_def)
qed

text \<open>The lease arrives at a node that asked for it.\<close>

lemma lease_adopted:
  assumes "rounding (env_round (run_env r))" "honest (env_ext (run_env r)) (run_key r)"
    and "serves (gossip_limiter n) sender (Suc m)" "m < 20"
    and "gossip_fits r (Rumors [shared_lease r] (expected_answer c))"
    and "encode (gossip_to_vec (run_env r)) (Rumors [shared_lease r] (expected_answer c)) = Inr bs"
    and "node_store n = store_new" "hm_get (pending_challenges n) sender = Some (c, [test_name], instant)"
  shows "\<exists>n'. send_gossip r i sender bs n = (n', []) \<and> holds_lease r (node_store n') \<and>
    node_peers n' = learn sender (node_peers n) \<and> serves (gossip_limiter n') sender m"
proof -
  have "adopt_rumor (env_ext (run_env r)) (shared_lease r) (frozen (run_millis r)) store_new = (True, one_lease (shared_lease r))"
    by (rule adopt_one_lease [OF seed_lease_live [OF assms(2)]])
  moreover have "holds_lease r (one_lease (shared_lease r))"
    by (simp add: holds_lease_def one_lease_def)
  ultimately show ?thesis
    using send_message [OF assms(1,3,4,5,6), of i] assms(7,8)
    by (auto simp: max_digest_entries_def is_valid_rumor_response_def)
qed

section \<open>The intervals\<close>

text \<open>Both nodes know only each other and have credit for \<open>m\<close> datagrams; the first holds the lease.\<close>

definition linked :: "node_run \<Rightarrow> nat \<Rightarrow> node \<Rightarrow> node \<Rightarrow> bool" where
  "linked r m na nb \<longleftrightarrow> node_peers na = peers_new [test_addr_b] \<and> node_peers nb = peers_new [test_addr_a] \<and>
    holds_lease r (node_store na) \<and> serves (gossip_limiter na) test_addr_b m \<and> serves (gossip_limiter nb) test_addr_a m"

lemma learn_known [simp]: "learn a (peers_new [a]) = peers_new [a]"
  by (simp add: learn_def peers_new_def)

lemma push_to_one:
  "node_peers n = peers_new [a] \<Longrightarrow> encode (gossip_to_vec env) (push_digest (node_store n)) = Inr bs \<Longrightarrow>
    gossip_push env pick n = [(a, bs)]"
  by (simp add: gossip_push_def random_peer_def peers_new_def Let_def send_encoded_def)

lemma two_nodes [simp]:
  "hm_get [(test_addr_a, na), (test_addr_b, nb)] test_addr_a = Some na" "hm_get [(test_addr_a, na), (test_addr_b, nb)] test_addr_b = Some nb"
  "hm_insert test_addr_a n [(test_addr_a, na), (test_addr_b, nb)] = [(test_addr_a, n), (test_addr_b, nb)]"
  "hm_insert test_addr_b n [(test_addr_a, na), (test_addr_b, nb)] = [(test_addr_a, na), (test_addr_b, n)]"
  by (simp_all add: hm_get_def hm_insert_def)

lemma deliver_numeral:
  "deliver r (numeral k) ((sender, dest, packet) # queue) nodes =
    (case hm_get nodes dest of
      None \<Rightarrow> deliver r (pred_numeral k) queue nodes
    | Some n \<Rightarrow>
        (let (n, out) = send_gossip r (pred_numeral k) sender packet n
         in deliver r (pred_numeral k) (queue @ map (\<lambda>(addr, reply). (dest, addr, reply)) out) (hm_insert dest n nodes)))"
  by (simp only: numeral_eq_Suc deliver.simps)

lemma first_interval:
  assumes rnd: "rounding (env_round (run_env r))" and honest: "honest (env_ext (run_env r)) (run_key r)"
    and fits: "list_all (gossip_fits r) (pair_traffic r)"
    and pair: "linked r (Suc (Suc m)) na nb" "node_store nb = store_new" and m: "Suc m < 20"
  shows "\<exists>na' nb'. deliver r 16 (all_pushes r [(test_addr_a, na), (test_addr_b, nb)]) [(test_addr_a, na), (test_addr_b, nb)] = [(test_addr_a, na'), (test_addr_b, nb')] \<and>
    linked r m na' nb' \<and> holds_lease r (node_store nb')"
proof -
  let ?c = "drawn_challenge (run_draws r 15) (run_millis r)"
  from fits have F: "gossip_fits r (lease_digest r)" "gossip_fits r (Digest [])" "gossip_fits r (Request [test_name] ?c)"
    "gossip_fits r (Rumors [shared_lease r] (expected_answer ?c))"
    by (simp_all add: pair_traffic_def Let_def)
  from pair(1) have P: "node_peers na = peers_new [test_addr_b]" "node_peers nb = peers_new [test_addr_a]" "holds_lease r (node_store na)"
    "serves (gossip_limiter na) test_addr_b (Suc (Suc m))" "serves (gossip_limiter nb) test_addr_a (Suc (Suc m))"
    by (simp_all add: linked_def)
  obtain b1 b2 where bs: "encode (gossip_to_vec (run_env r)) (lease_digest r) = Inr b1"
    "encode (gossip_to_vec (run_env r)) (Digest []) = Inr b2"
    using encodes [OF F(1)] encodes [OF F(2)] by blast
  have "push_digest store_new = Digest []" by (simp add: push_digest_def all_rumors_def)
  then have pushes: "all_pushes r [(test_addr_a, na), (test_addr_b, nb)] = [(test_addr_a, test_addr_b, b1), (test_addr_b, test_addr_a, b2)]"
    using push_to_one [OF P(1)] push_to_one [OF P(2)] bs holds_leaseD(1) [OF P(3)] pair(2) by (simp add: all_pushes_def)
  obtain nb1 b3 instant where s1: "send_gossip r 15 test_addr_a b1 nb = (nb1, [(test_addr_a, b3)])"
    "encode (gossip_to_vec (run_env r)) (Request [test_name] ?c) = Inr b3" "node_store nb1 = store_new"
    "serves (gossip_limiter nb1) test_addr_a (Suc m)" "node_peers nb1 = peers_new [test_addr_a]"
    "hm_get (pending_challenges nb1) test_addr_a = Some (?c, [test_name], instant)"
    using send_digest [OF rnd P(5) m bs(1) [unfolded lease_digest_def] F(1) [unfolded lease_digest_def] F(3)] pair(2) P(2) by auto
  obtain na1 where s2: "send_gossip r 14 test_addr_b b2 na = (na1, [])" "holds_lease r (node_store na1)"
    "node_peers na1 = peers_new [test_addr_b]" "serves (gossip_limiter na1) test_addr_b (Suc m)"
    using quiet_digest [OF rnd P(4) m F(2) bs(2), of 14] P(1,3) by (auto simp: missing_domains_def)
  have m': "m < 20" using m by simp
  obtain na2 b4 where s3: "send_gossip r 13 test_addr_b b3 na1 = (na2, [(test_addr_b, b4)])"
    "encode (gossip_to_vec (run_env r)) (Rumors [shared_lease r] (expected_answer ?c)) = Inr b4" "holds_lease r (node_store na2)"
    "node_peers na2 = peers_new [test_addr_b]" "serves (gossip_limiter na2) test_addr_b m"
    using lease_sent [OF rnd s2(4) m' F(3,4) s1(2) s2(2), of 13] s2(2,3) by auto
  obtain nb2 where s4: "send_gossip r 12 test_addr_a b4 nb1 = (nb2, [])" "holds_lease r (node_store nb2)"
    "node_peers nb2 = peers_new [test_addr_a]" "serves (gossip_limiter nb2) test_addr_a m"
    using lease_adopted [OF rnd honest s1(4) m' F(4) s3(2) s1(3,6), of 12] s1(5) by auto
  have "deliver r 16 (all_pushes r [(test_addr_a, na), (test_addr_b, nb)]) [(test_addr_a, na), (test_addr_b, nb)] =
      [(test_addr_a, na2), (test_addr_b, nb2)]"
    unfolding pushes by (simp add: deliver_numeral s1(1) s2(1) s3(1) s4(1))
  then show ?thesis using s3 s4 by (simp add: linked_def)
qed

lemma quiet_interval:
  assumes rnd: "rounding (env_round (run_env r))" and fits: "list_all (gossip_fits r) (pair_traffic r)"
    and pair: "linked r (Suc m) na nb" "holds_lease r (node_store nb)" and m: "m < 20"
  shows "\<exists>na' nb'. deliver r 16 (all_pushes r [(test_addr_a, na), (test_addr_b, nb)]) [(test_addr_a, na), (test_addr_b, nb)] = [(test_addr_a, na'), (test_addr_b, nb')] \<and>
    linked r m na' nb' \<and> holds_lease r (node_store nb')"
proof -
  from fits have F: "gossip_fits r (lease_digest r)" by (simp add: pair_traffic_def Let_def)
  from pair(1) have P: "node_peers na = peers_new [test_addr_b]" "node_peers nb = peers_new [test_addr_a]" "holds_lease r (node_store na)"
    "serves (gossip_limiter na) test_addr_b (Suc m)" "serves (gossip_limiter nb) test_addr_a (Suc m)"
    by (simp_all add: linked_def)
  obtain bs where bs: "encode (gossip_to_vec (run_env r)) (lease_digest r) = Inr bs" using encodes [OF F] ..
  have pushes: "all_pushes r [(test_addr_a, na), (test_addr_b, nb)] = [(test_addr_a, test_addr_b, bs), (test_addr_b, test_addr_a, bs)]"
    using push_to_one [OF P(1)] push_to_one [OF P(2)] bs holds_leaseD(1) [OF P(3)] holds_leaseD(1) [OF pair(2)]
    by (simp add: all_pushes_def)
  note D = quiet_digest [OF rnd _ m F [unfolded lease_digest_def] bs [unfolded lease_digest_def]]
  obtain nb1 where s1: "send_gossip r 15 test_addr_a bs nb = (nb1, [])" "holds_lease r (node_store nb1)"
    "node_peers nb1 = peers_new [test_addr_a]" "serves (gossip_limiter nb1) test_addr_a m"
    using D [OF P(5), of 15] holds_leaseD(2) [OF pair(2)] pair(2) P(2) by (auto simp: max_digest_entries_def)
  obtain na1 where s2: "send_gossip r 14 test_addr_b bs na = (na1, [])" "holds_lease r (node_store na1)"
    "node_peers na1 = peers_new [test_addr_b]" "serves (gossip_limiter na1) test_addr_b m"
    using D [OF P(4), of 14] holds_leaseD(2) [OF P(3)] P(1,3) by (auto simp: max_digest_entries_def)
  have "deliver r 16 (all_pushes r [(test_addr_a, na), (test_addr_b, nb)]) [(test_addr_a, na), (test_addr_b, nb)] =
      [(test_addr_a, na1), (test_addr_b, nb1)]"
    unfolding pushes by (simp add: deliver_numeral s1(1) s2(1))
  then show ?thesis using s1 s2 by (simp add: linked_def)
qed

lemma converge_passes:
  assumes rnd: "rounding (env_round (run_env r))" and honest: "honest (env_ext (run_env r)) (run_key r)"
    and fits: "list_all (gossip_fits r) (pair_traffic r)"
  shows "passes (two_nodes_converge_via_gossip r)"
proof -
  obtain s where s: "seed_registration r (test_node [test_addr_b]) test_name = Some ((test_node [test_addr_b])\<lparr>node_store := s\<rparr>)"
    "holds_lease r s"
    using seeded [OF honest, of "test_node [test_addr_b]" test_name "[]"] unfolding seed_registration_def holds_lease_def by auto
  let ?na = "(test_node [test_addr_b])\<lparr>node_store := s\<rparr>" and ?nb = "test_node [test_addr_a]"
  have start: "linked r (Suc (Suc (Suc (Suc 0)))) ?na ?nb" using s(2) by (simp add: linked_def)
  obtain na1 nb1 where i1: "deliver r 16 (all_pushes r [(test_addr_a, ?na), (test_addr_b, ?nb)]) [(test_addr_a, ?na), (test_addr_b, ?nb)] = [(test_addr_a, na1), (test_addr_b, nb1)]"
    "linked r (Suc (Suc 0)) na1 nb1" "holds_lease r (node_store nb1)"
    using first_interval [OF rnd honest fits start] by auto
  obtain na2 nb2 where i2: "deliver r 16 (all_pushes r [(test_addr_a, na1), (test_addr_b, nb1)]) [(test_addr_a, na1), (test_addr_b, nb1)] = [(test_addr_a, na2), (test_addr_b, nb2)]"
    "linked r (Suc 0) na2 nb2" "holds_lease r (node_store nb2)"
    using quiet_interval [OF rnd fits i1(2,3)] by auto
  obtain na3 nb3 where i3: "deliver r 16 (all_pushes r [(test_addr_a, na2), (test_addr_b, nb2)]) [(test_addr_a, na2), (test_addr_b, nb2)] = [(test_addr_a, na3), (test_addr_b, nb3)]"
    "holds_lease r (node_store nb3)"
    using quiet_interval [OF rnd fits i2(2,3)] by auto
  have "gossip_intervals r (Suc (Suc (Suc 0))) [(test_addr_a, ?na), (test_addr_b, ?nb)] = [(test_addr_a, na3), (test_addr_b, nb3)]"
    by (simp only: gossip_intervals.simps i1(1) i2(1) i3(1))
  then show ?thesis
    using s(1) holds_leaseD(4) [OF i3(2)] by (simp add: two_nodes_converge_via_gossip_def numeral_3_eq_3)
qed

end
