(* ===== verification/Node_Suite.thy ===== *)
theory Node_Suite
  imports Converge_Runs
begin

text \<open>
  The suite of the tests of \<open>binda/src/node.rs\<close>, with what a run of it relies on: the messages the tests
  and their nodes exchange fit a frame and are read back, the bytes called garbage are not read as a
  message, and the classic DNS does not confirm the made-up host.
\<close>

definition node_tests :: "node_run \<Rightarrow> unit_test list" where
  "node_tests r =
    [two_nodes_converge_via_gossip r, incorrect_challenge_answer_is_rejected r, correct_challenge_answer_is_accepted r,
     correctly_challenged_but_request_invalid_rumors_are_rejected r, resolver_returns_registered_owner_and_records r,
     resolver_returns_empty_answer_for_unknown_domain r, native_dns_loop_resolves_a_registered_a_record r,
     native_dns_loop_sends_formerr_for_unparseable_message r, probe_via_client_api_socket_returns_ack r,
     register_via_client_api_is_refused_without_real_fcrdns r,
     register_via_client_api_succeeds_with_rdns_verification_disabled r, new_allowing_any_rdns_constructs_a_working_node,
     rate_limiter_maintenance_prunes_stale_pending_challenges_but_keeps_fresh_ones r,
     pending_challenge_table_evicts_oldest_peer_at_capacity r, gossip_push_loop_idles_safely_with_no_known_peers r,
     gossip_recv_loop_ignores_garbage_bytes_and_keeps_working r, gossip_rate_limiter_drops_traffic_past_the_burst r,
     resolver_rate_limiter_drops_traffic_past_the_burst r, resolver_ignores_undecodable_bytes_and_keeps_working r,
     client_api_rate_limiter_drops_traffic_past_the_burst r, client_api_ignores_undecodable_bytes_and_keeps_working r,
     dns_rate_limiter_drops_traffic_past_the_burst r, native_dns_loop_returns_nxdomain_for_unknown_domain r]"

section \<open>The traffic of the tests\<close>

definition gossip_traffic :: "node_run \<Rightarrow> gossip_message list" where
  "gossip_traffic r = (let d = \<lambda>name. DomainName (lit name) in
     pair_traffic r @ rogue_traffic r (d ''evil.binda'') (d ''evil.binda'') ''rogue'' @
     rogue_traffic r (d ''honest.binda'') (d ''honest.binda'') ''honest'' @
     rogue_traffic r (d ''requested.binda'') (d ''unrequested.binda'') ''rogue'' @
     [Digest [\<lparr>entry_domain = d ''duplicate.binda'', entry_issued_at_millis = 1\<rparr>,
              \<lparr>entry_domain = d ''duplicate.binda'', entry_issued_at_millis = 2\<rparr>],
      Rumors [] (token_issue (run_nonce r) 0), newest_digest (d ''after-garbage.binda''),
      Request [d ''after-garbage.binda''] (drawn_challenge (run_draws r 3) (run_millis r)),
      Request [d ''rate-limit-gossip.binda''] (drawn_challenge (run_draws r 0) 0)])"

definition queried_names :: "string list" where
  "queried_names = [''resolver-test.binda'', ''nobody-has-this.binda'', ''after-garbage.binda'', ''whatever.binda'']"

definition answer_traffic :: "node_run \<Rightarrow> resolve_answer list" where
  "answer_traffic r =
    [\<lparr>owner_client_key = None, answer_records = []\<rparr>,
     \<lparr>owner_client_key = Some (client_key (client_new (public_key (run_key r)) (lit ''seed.example.net''))),
      answer_records = [address_record ''203.0.113.9'']\<rparr>]"

definition made_up_host :: string where "made_up_host = ''definitely-not-a-real-reverse-dns-name.invalid''"
definition unconfirmed_host :: string where "unconfirmed_host = ''this-would-never-forward-confirm.invalid''"

definition request_traffic :: "node_run \<Rightarrow> client_request list" where
  "request_traffic r =
    [signed_probe_request r ''client.example.net'', signed_probe_request r ''host.example.net'',
     signed_probe_request r made_up_host, signed_probe_request r unconfirmed_host,
     signed_register_request r made_up_host (DomainName (lit ''wont-register.binda'')),
     signed_register_request r unconfirmed_host (DomainName (lit ''demo-succeeds.binda''))]"

definition response_traffic :: "node_run \<Rightarrow> client_response list" where
  "response_traffic r = [ProbeAck, Registered (token_issue (run_nonce r) (run_millis r)),
     ErrorResponse (lit ''claimed rdns hostname does not forward-confirm against the request's source address'')]"

definition codecs_fit :: "node_run \<Rightarrow> bool" where
  "codecs_fit r \<longleftrightarrow> list_all (gossip_fits r) (gossip_traffic r) \<and> list_all (query_fits r) queried_names \<and>
    list_all (answer_fits r) (answer_traffic r) \<and> list_all (request_fits r) (request_traffic r) \<and>
    list_all (response_fits r) (response_traffic r) \<and>
    \<not> is_ok (gossip_from_slice (run_env r) (utf8 (lit ''not a gossip message''))) \<and>
    \<not> is_ok (query_from_slice (run_env r) (utf8 (lit ''garbage''))) \<and>
    \<not> is_ok (request_from_slice (run_env r) (utf8 (lit ''garbage'')))"

text \<open>What a run relies on.\<close>

definition node_run_ok :: "node_run \<Rightarrow> bool" where
  "node_run_ok r \<longleftrightarrow> rounding (env_round (run_env r)) \<and> honest (env_ext (run_env r)) (run_key r) \<and> prompt r \<and>
    codecs_fit r \<and> \<not> verify (run_net r) FcrdnsVerifier (sock_ip (client_addr r)) (lit made_up_host)"

section \<open>The suite passes\<close>

lemma node_suite:
  assumes "node_run_ok r"
  shows "list_all passes (node_tests r)"
proof -
  have rnd: "rounding (env_round (run_env r))" and honest: "honest (env_ext (run_env r)) (run_key r)" and prompt: "prompt r"
    and net: "\<not> verify (run_net r) FcrdnsVerifier (sock_ip (client_addr r)) (lit made_up_host)" and codecs: "codecs_fit r"
    using assms by (simp_all add: node_run_ok_def)
  from codecs have gossip: "list_all (gossip_fits r) (gossip_traffic r)" and queries: "list_all (query_fits r) queried_names"
    and answers: "list_all (answer_fits r) (answer_traffic r)" and requests: "list_all (request_fits r) (request_traffic r)"
    and responses: "list_all (response_fits r) (response_traffic r)"
    and garbage: "\<not> is_ok (gossip_from_slice (run_env r) (utf8 (lit ''not a gossip message'')))"
      "\<not> is_ok (query_from_slice (run_env r) (utf8 (lit ''garbage'')))" "\<not> is_ok (request_from_slice (run_env r) (utf8 (lit ''garbage'')))"
    unfolding codecs_fit_def by blast+
  note gossip = gossip [unfolded gossip_traffic_def Let_def list_all_append list.pred_inject]
  note queries = queries [unfolded queried_names_def list.pred_inject]
  note answers = answers [unfolded answer_traffic_def list.pred_inject]
  note requests = requests [unfolded request_traffic_def made_up_host_def unconfirmed_host_def list.pred_inject]
  note responses = responses [unfolded response_traffic_def list.pred_inject]
  show ?thesis
    unfolding node_tests_def list.pred_inject
    by (intro conjI list.pred_inject(1) converge_passes rogue_tests_pass resolver_registered_passes resolver_tests_pass native_record_passes
        formerr_passes probe_tests_pass register_tests_pass allowing_constructor_passes maintenance_passes capacity_passes
        idle_push_passes garbage_passes gossip_burst_passes resolver_burst_passes api_burst_passes dns_burst_passes nxdomain_passes
        rnd honest prompt garbage net [unfolded made_up_host_def])
      (use gossip queries answers requests responses in \<open>simp_all only: simp_thms\<close>)
qed

end
