(* ===== verification/Test_Claims.thy ===== *)
theory Test_Claims
  imports Store_Tests Request_Tests Data_Tests Zone_Tests Dns_Tests Host_Tests Service_Tests Node_Suite Samples
begin

text \<open>
  The source's own unit tests pass on the model, with whatever keys, nonces, coins, query identifiers
  and clock readings they draw. A run of the tests is one instance of these theorems.
\<close>

section \<open>A signature scheme and a JSON printer for the witnesses\<close>

definition toy_sign :: "nat \<Rightarrow> bytes \<Rightarrow> bytes" where
  "toy_sign i m = take 64 (of_nat i # m @ replicate 64 0)"

definition toy_key :: "nat \<Rightarrow> signing_key" where
  "toy_key i = \<lparr>public_key = replicate 32 (of_nat i), sign_with = toy_sign i\<rparr>"

definition toy_ext :: externals where
  "toy_ext = \<lparr>key_parses = (\<lambda>_. True), sig_parses = (\<lambda>s. length s = 64),
    sig_verifies = (\<lambda>pk m s. s = toy_sign (unat (hd pk)) m),
    records_json = (\<lambda>rs. Some (concat (map (\<lambda>r. utf8 (record_value r)) rs)))\<rparr>"

lemma toy_honest: "i < 256 \<Longrightarrow> honest toy_ext (toy_key i)"
  by (simp add: honest_def signs_def toy_ext_def toy_key_def toy_sign_def unat_u8_small, arith)

lemma toy_refuses: "i < 256 \<Longrightarrow> b \<noteq> of_nat i \<Longrightarrow> refuses toy_ext (toy_key i) m (b # s)"
  by (simp add: refuses_def toy_ext_def toy_key_def toy_sign_def unat_u8_small)

lemma toy_sign_first: "toy_sign i m = of_nat i # take 63 (m @ replicate 64 0)"
  by (simp add: toy_sign_def)







section \<open>The suites\<close>

text \<open>C38: the thirteen unit tests of the registry store pass, for all keys of the signature
  scheme (the first two different) and all nonces.\<close>

theorem store_tests_pass:
  assumes "\<forall>i. honest ext (key i)" "public_key (key 0) \<noteq> public_key (key 1)"
  shows "list_all passes (store_tests ext key drawn)"
  using assms by (intro store_suite) simp_all

theorem store_tests_pass_witness:
  "list_all passes (store_tests toy_ext (\<lambda>i. toy_key (i mod 2)) (\<lambda>i. replicate 8 (of_nat i)))"
  by (rule store_tests_pass) (simp_all add: toy_honest, simp add: toy_key_def)

text \<open>C39: the unit tests of client identities, of the authentication of signed requests and
  of the request handlers pass, for any two different keys whose scheme refuses the bad signatures of
  the tests, and a JSON printer that prints the value of a record.\<close>

theorem request_tests_pass:
  assumes "test_keys ext k k'"
  shows "list_all passes (request_tests ext k k' drawn drawn')"
  using assms by (rule request_suite)

theorem request_tests_pass_witness:
  "list_all passes (request_tests toy_ext (toy_key 1) (toy_key 2) (replicate 8 1) (replicate 8 2))"
proof (rule request_tests_pass)
  have "str_contains s s" for s :: rstring using contains_middle [of "[]" s "[]"] by simp
  then have "prints_value toy_ext (lit ''203.0.113.1'')"
    unfolding prints_value_def toy_ext_def test_a_record_def by (intro exI [of _ "lit ''203.0.113.1''"]) simp
  moreover have "replicate 64 (0 :: u8) = 0 # replicate 63 0" by (simp add: replicate_numeral)
  moreover have "refuses toy_ext (toy_key 1) (utf8 (lit ''register: evil.binda''))
      (sign_with (toy_key 1) (utf8 (lit ''register: example.binda'')))"
    by (simp add: refuses_def toy_ext_def toy_key_def toy_sign_def lit_def utf8_char_def)
  moreover have "refuses toy_ext (toy_key 1) (probe_message 1000) (sign_with (toy_key 2) (probe_message 1000))"
    using toy_refuses [of 1 2] by (simp add: toy_sign_first toy_key_def)
  moreover have "\<not> sig_parses toy_ext [1, 2, 3]" "public_key (toy_key 1) \<noteq> public_key (toy_key 2)"
    by (simp_all add: toy_ext_def toy_key_def)
  ultimately show "test_keys toy_ext (toy_key 1) (toy_key 2)"
    unfolding test_keys_def by (simp add: toy_honest toy_refuses)
qed




text \<open>A serializer that prints the place of a message in a list.\<close>

fun place :: "'m list \<Rightarrow> 'm \<Rightarrow> nat" where
  "place [] m = 0"
| "place (m' # ms) m = (if m = m' then 0 else Suc (place ms m))"

definition place_to_vec :: "'m list \<Rightarrow> 'm \<Rightarrow> rstring + bytes" where
  "place_to_vec ms m = Inr [of_nat (place ms m)]"

definition place_from_slice :: "'m list \<Rightarrow> bytes \<Rightarrow> rstring + 'm" where
  "place_from_slice ms bs = (case bs of [b] \<Rightarrow> if unat b < length ms then Inr (ms ! unat b) else Inl [] | _ \<Rightarrow> Inl [])"




definition quiet_env :: node_env where
  "quiet_env = \<lparr>env_ext = toy_ext, env_round = (\<lambda>x. x), gossip_to_vec = (\<lambda>_. Inl []), gossip_from_slice = (\<lambda>_. Inl []),
    query_from_slice = (\<lambda>_. Inl []), answer_to_vec = (\<lambda>_. Inl []), request_from_slice = (\<lambda>_. Inl []),
    response_to_vec = (\<lambda>_. Inl [])\<rparr>"

definition silent_run :: node_run where
  "silent_run = \<lparr>run_env = quiet_env,
    run_client = \<lparr>request_to_vec = (\<lambda>_. Inl []), response_from_slice = (\<lambda>_. Inl []), query_to_vec = (\<lambda>_. Inl []),
      answer_from_slice = (\<lambda>_. Inl [])\<rparr>,
    run_key = toy_key 1, run_nonce = replicate 8 7,
    run_draws = (\<lambda>i. \<lparr>draw_nonce_a = replicate 8 1, draw_nonce_b = replicate 8 2, draw_coin = even i, draw_instant = i\<rparr>),
    run_instant = (\<lambda>i. 11000000000 + min i 1000000), run_millis = 1800000000000,
    run_net = \<lparr>exchange = (\<lambda>_ _ _. None), drawn_id = (\<lambda>_. 7)\<rparr>, run_port = 40000, run_pick = (\<lambda>_. 0)\<rparr>"

definition toy_queries :: "resolve_query list" where
  "toy_queries = map (\<lambda>name. \<lparr>query_domain = DomainName (lit name)\<rparr>) queried_names"

definition toy_run :: node_run where
  "toy_run = silent_run\<lparr>
    run_env := quiet_env\<lparr>gossip_to_vec := place_to_vec (gossip_traffic silent_run),
      gossip_from_slice := place_from_slice (gossip_traffic silent_run),
      query_from_slice := place_from_slice toy_queries, answer_to_vec := place_to_vec (answer_traffic silent_run),
      request_from_slice := place_from_slice (request_traffic silent_run),
      response_to_vec := place_to_vec (response_traffic silent_run)\<rparr>,
    run_client := \<lparr>request_to_vec = place_to_vec (request_traffic silent_run),
      response_from_slice = place_from_slice (response_traffic silent_run), query_to_vec = place_to_vec toy_queries,
      answer_from_slice = place_from_slice (answer_traffic silent_run)\<rparr>\<rparr>"

lemma toy_run_sel [simp]:
  "run_key toy_run = run_key silent_run" "run_nonce toy_run = run_nonce silent_run" "run_draws toy_run = run_draws silent_run"
  "run_millis toy_run = run_millis silent_run" "env_ext (run_env toy_run) = env_ext (run_env silent_run)"
  "run_instant toy_run = run_instant silent_run" "run_port toy_run = run_port silent_run" "run_net toy_run = run_net silent_run"
  "env_round (run_env toy_run) = (\<lambda>x. x)"
  by (simp_all add: toy_run_def silent_run_def quiet_env_def)




end
