(* ===== verification/Spec2Isabelle.thy ===== *)
theory Spec2Isabelle
  imports Store_Claims Codec_Claims Network_Claims System_Claims Traffic_Claims Concurrency_Claims Test_Claims Node_Props
begin

text \<open>
  BINDA is a replicated registry of names. A client proves that it is alive (probe), claims a free
  name for the verified host it speaks from (register) and publishes records under it (set
  records), every request signed with its key. Nodes copy live leases to each other by gossip, and
  every node answers lookups from its own table. This development models the two crates
  \<open>crates/binda-core\<close> and \<open>crates/binda\<close> and proves what keeps the registry correct.

  Theories and sources (paths under \<open>src/crates/binda-core/src\<close>, and \<open>src/crates/binda/src\<close> for
  \<open>Peers\<close>, \<open>Node\<close> and \<open>Args\<close>):

    \<^item> \<open>Prelude\<close>: machine integers and their big-endian bytes, hash maps (association lists with
      distinct keys, \<open>hm_wf\<close>), the clock, and the locales of the interfaces (below). The clock, a
      \<open>TimeSource\<close>, is a function from the position of a reading in the run to a 64-bit number,
      so no two readings are assumed equal; \<open>frozen t\<close> is a clock that stands still.
    \<^item> \<open>Rust_String\<close>, \<open>Net\<close>: what the code uses of the standard library: strings as lists of scalar
      values, UTF-8, and the parsers of addresses and numbers.
    \<^item> \<open>Domain\<close> (\<open>domain.rs\<close>), \<open>Token\<close> (\<open>token.rs\<close>), \<open>Collision\<close> (\<open>collision.rs\<close>), \<open>Zone\<close> (\<open>zone.rs\<close>,
      \<open>resolver.rs\<close>), \<open>Client\<close> (\<open>client.rs\<close>), \<open>Client_Api\<close> (\<open>client_api.rs\<close>), \<open>Liveness\<close> (\<open>liveness.rs\<close>),
      \<open>Gossip\<close> (\<open>gossip.rs\<close>): the data of the registry, tokens and their arbitration, the signed
      requests, the liveness table, rumors and the gossip messages.
    \<^item> \<open>Store\<close> (\<open>store.rs\<close>): the record \<open>registry_store\<close> has the four tables of \<open>RegistryStore\<close>, and
      every method is a function from store to store. \<open>Store_Inv\<close> states the invariant \<open>store_inv\<close>
      and shows that every operation keeps it; \<open>Store_Props\<close> says what the operations compute:
      the first five claims of a host, convergence, adoption, reclaiming, record updates. \<open>Store_Spec\<close>
      is an abstract specification of the registry with maps for tables, \<open>registry_spec\<close>, and the
      proof that every run of the store is one of its runs. \<open>Contracts\<close> is the contract of conditions on
      what the store holds; \<open>Types\<close> uses it for the ranges of Rust's types.
    \<^item> \<open>Api\<close> (\<open>api.rs\<close>): the handlers of client requests. A handler that panics has the response \<open>None\<close>.
    \<^item> \<open>Wire\<close> (\<open>wire.rs\<close>), \<open>Dns\<close> (\<open>dns.rs\<close>), \<open>Fcrdns\<close> (\<open>fcrdns.rs\<close>), \<open>Ntp\<close> (\<open>ntp.rs\<close>), \<open>Rate_Limit\<close>
      (\<open>rate_limit.rs\<close>): frames, the lookup protocol, the verification of hosts by reverse and
      forward lookups, the clock offset, and the token buckets.
    \<^item> \<open>Peers\<close> (\<open>peers.rs\<close>), \<open>Node\<close> and \<open>Node_Props\<close> (\<open>node.rs\<close>), \<open>Args\<close> (\<open>main.rs\<close>): the peer list;
      the shared state of the listeners and one function per iteration of each loop; the steps as a
      relation \<open>node_step\<close>, the states \<open>reachable\<close> by it and their invariant \<open>node_inv\<close>; the command
      line. \<open>Signed\<close> shows that what a reachable node holds is signed, \<open>History\<close> that its
      store has only run the store's own operations, \<open>Bootstrap\<close> that one exchange brings an empty
      node up to date, \<open>Availability\<close> that a pausing sender is served and the name of a silent host
      is free again; the last two work on the specification of the store.
    \<^item> \<open>Interleaving\<close>: the tasks of a node as pieces of code between two locks (\<open>piece\<close>), with what each keeps in
      its local variables (\<open>node_tasks\<close>), and the runs of pieces in any order (\<open>interleaved\<close>) beside the runs of
      whole handlers (\<open>handled_run\<close>). \<open>Serial_Runs\<close> relates the two by a simulation in each direction: a
      handler takes effect at its access to the store.
    \<^item> \<open>Client_Flow\<close>: what the handlers answer a client that probes, registers and publishes, step by
      step. \<open>Demo\<close> (\<open>crates/binda/examples/client_demo.rs\<close>): the example client as a program over whatever
      answers its datagrams, and its run against a node.
    \<^item> \<open>Test_Kit\<close>, \<open>Store_Tests\<close>, \<open>Request_Tests\<close>, \<open>Data_Tests\<close>, \<open>Zone_Tests\<close>, \<open>Dns_Tests\<close>, \<open>Host_Tests\<close>,
      \<open>Service_Tests\<close>: the source's unit tests (its \<open>#[cfg(test)]\<close> modules) as programs over the model. A
      test is an optional unit, \<open>None\<close> a panic; the keys, nonces, coins, query identifiers and clock
      readings that a run draws are arguments, so that one theorem covers every run. Their agreement with
      the source's assertions is also a check of the model.
    \<^item> \<open>Node_Serving\<close>: what a sender with credit in its bucket can count on at each listener.
      \<open>Node_Tests\<close> translates the tests of \<open>node.rs\<close>, which talk to running listeners: a datagram is one step
      of the listener, and a run (\<open>node_run\<close>) holds the draws, instants, keys and serializers.
      \<open>Node_Runs\<close> (a seeded node, rogue peers), \<open>Listener_Runs\<close> (lookups, client API, the table of challenges),
      \<open>Burst_Runs\<close> (rate limits) and \<open>Converge_Runs\<close> (two nodes exchanging datagrams in the order they were sent)
      prove that they pass; \<open>Node_Suite\<close> collects them and what a run relies on, \<open>node_run_ok\<close>.
    \<^item> \<open>Samples\<close> holds the inputs of the witnesses. The properties are in \<open>Store_Claims\<close> (the store and
      its data), \<open>Codec_Claims\<close> (names and the lookup protocol), \<open>Network_Claims\<close> (host verification,
      clock, rate limiter, command line), \<open>System_Claims\<close> (whole nodes and the example client),
      \<open>Traffic_Claims\<close> (any packet at the lookup listener, replayed requests, leases that travel over
      several nodes), \<open>Concurrency_Claims\<close> (tasks side by side), \<open>Test_Claims\<close> (the unit tests) and, where
      they span other components, in this theory.

  Interfaces. \<open>arbiter\<close> and \<open>transitive_arbiter\<close> state what a rule that picks one of two tokens
  promises; the fixed condition is a transitive arbiter, the derived one only an arbiter, and that
  is the difference between three claims that converge and three that do not. \<open>prefix_codec\<close> is
  the contract of an encoder whose output is decoded from the front of a stream (UTF-8 characters,
  names, answers). \<open>bounded_table\<close> is the contract of an insertion that makes room first (rate
  limiters, pending challenges). \<open>state_machine\<close> gives invariants of runs (the store).
  \<open>store_contract\<close> says what conditions on registrations, claims and probe evidence must promise so that
  reconciling, reclaiming, registering and adopting keep them (signatures in \<open>Signed\<close>, types in
  \<open>Types\<close>). Each is interpreted on the code's functions in the theory of the component.

  How the components interact. Every listener charges its sender's bucket, decodes, and takes the
  lock of the store once; a step of \<open>node_step\<close> is one such iteration. Handlers do not hold two
  locks at once, but give way between them: \<open>interleaving_is_serial\<close> shows that they end where whole
  handlers in some order end, with the same replies, and \<open>interleaved_node_safe\<close> what holds at every moment.
  The pushes are not part of this: they change nothing, but a peer they pick may be one whose datagram is not
  handled yet. The maintenance task takes the locks one by one and is five steps. Host verification
  happens before the store is locked and depends on the network only, so it is an argument of the handler.

  Bounds and fuel. No definition of the program uses fuel; the network of the two converging nodes delivers
  at most sixteen datagrams in an interval, of which four are needed (\<open>deliver\<close>). The loops that follow input terminate by the bytes left
  (\<open>parse_labels\<close>), by the jumps left and then the bytes left (\<open>read_labels\<close>), or by the arguments
  left (\<open>parse_flags\<close>). \<open>Name_Loop\<close> has the loop of \<open>read_name\<close> as it is written, with the bound on its
  iterations. Words are kept at their width wherever the code computes with them; lengths
  written into 8-, 16- and 32-bit fields wrap as the code's casts do. The bounds in the properties
  (five claims, 100000 tracked addresses, 10000 challenges, 4096 digest entries, 65507 bytes) are
  the code's constants.

  Third-party code is a parameter: the signature scheme and the JSON printer (\<open>externals\<close>), the
  serializers of the frames (\<open>node_env\<close>), random draws, the network, and the rounding of
  floating-point arithmetic, of which the properties of the limiter assume only that it is
  monotone and keeps the integers it must (\<open>rounding\<close>). TOML is left to the parameters of
  \<open>from_toml\<close> and \<open>to_toml\<close>.

  Not modelled: sockets and logging; which task the scheduler lets run (any may); the derived serializers' formats (so the gap that a
  deserialized \<open>DomainName\<close> skips the check of its constructor is recorded as a finding and not
  proved). Of the tests: those that only check
  that a call returns.

  Planned next: gossip between many nodes with datagrams lost, repeated and overtaken, and the answers of
  the classic resolvers seen as untrusted.
\<close>

section \<open>The node\<close>


definition sample_env :: node_env where
  "sample_env = \<lparr>env_ext = sample_ext, env_round = (\<lambda>x. x), gossip_to_vec = (\<lambda>_. Inr []),
    gossip_from_slice = (\<lambda>_. Inl []), query_from_slice = (\<lambda>_. Inl []), answer_to_vec = (\<lambda>_. Inr []),
    request_from_slice = (\<lambda>_. Inl []), response_to_vec = (\<lambda>_. Inr [])\<rparr>"



section \<open>The client API\<close>

text \<open>A request that changes the store carries a timestamp within ten seconds of the
  node's clock and a signature of a 32-byte public key over the canonical message of exactly what it asks.\<close>

theorem requests_authenticated:
  assumes "snd (handle_client_request ext drawn s time request verified) \<noteq> s"
  shows "\<exists>identity. request_auth ext request (now_millis (call 0 time)) = Inr identity \<and>
    length (verifying_key identity) = 32 \<and>
    sig_verifies ext (verifying_key identity) (request_message ext request) (request_signature request) \<and>
    unat (now_millis (call 0 time)) \<le> unat (request_timestamp request) + 10000 \<and>
    unat (request_timestamp request) \<le> unat (now_millis (call 0 time)) + 10000"
proof (cases "request_auth ext request (now_millis (call 0 time))")
  case (Inl err)
  with assms show ?thesis using unauthenticated_unchanged [OF Inl] by simp
next
  case (Inr identity)
  then show ?thesis using request_auth_Inr [OF Inr] by (auto simp: is_fresh_iff)
qed

definition sample_probe :: "nat \<Rightarrow> probe_body signed_envelope" where
  "sample_probe k = \<lparr>env_verifying_key = sample_key k, env_rdns = sample_host, env_timestamp_millis = 100000,
    env_signature = probe_message 100000, env_body = ProbeBody\<rparr>"

definition sample_register :: "nat \<Rightarrow> register_body signed_envelope" where
  "sample_register k = \<lparr>env_verifying_key = sample_key k, env_rdns = sample_host, env_timestamp_millis = 100000,
    env_signature = register_message (sample_domain (Suc 0)) 100000, env_body = \<lparr>register_domain = sample_domain (Suc 0)\<rparr>\<rparr>"

lemma sample_probe_auth: "authenticate sample_ext (sample_probe k) (probe_message 100000) 100000 =
    Inr (client_new (sample_key k) sample_host)"
  by (simp add: authenticate_Inr sample_probe_def is_fresh_iff sample_ext_def sample_key_def)

lemma sample_register_auth: "authenticate sample_ext (sample_register k) (register_message (sample_domain (Suc 0)) 100000) 100000 =
    Inr (client_new (sample_key k) sample_host)"
  by (simp add: authenticate_Inr sample_register_def is_fresh_iff sample_ext_def sample_key_def)

definition sample_probed :: registry_store where
  "sample_probed = snd (handle_client_request sample_ext [] store_new (frozen 100000) (Probe (sample_probe (Suc 0))) True)"

lemma sample_probe_fields [simp]: "env_timestamp_millis (sample_probe k) = 100000"
    "env_signature (sample_probe k) = probe_message 100000" "env_rdns (sample_probe k) = sample_host"
  by (simp_all add: sample_probe_def)

lemma sample_register_fields [simp]: "env_timestamp_millis (sample_register k) = 100000"
    "register_domain (env_body (sample_register k)) = sample_domain (Suc 0)" "env_rdns (sample_register k) = sample_host"
  by (simp_all add: sample_register_def)

lemma sample_quota_host: "client_quota_key (client_new k sample_host) = sample_host"
  using sample_quota by (simp add: quota_key_client sample_rumor_def)

lemma sample_probed_eq:
  "sample_probed = store_new\<lparr>liveness := \<lparr>last_seen_millis = [(sample_host, 100000)], registration_counts = []\<rparr>,
    probe_evidence := [(client_key (client_new (sample_key (Suc 0)) sample_host), 100000, probe_message 100000)]\<rparr>"
  using probe_accepted [of sample_ext "sample_probe (Suc 0)" 100000 "client_new (sample_key (Suc 0)) sample_host" store_new "frozen 100000"]
  by (simp add: sample_probed_def handle_client_request_def Let_def sample_probe_auth probe_with_evidence_def
      probe_def record_probe_def tracker_new_def sample_quota_host refresh_probe_evidence_def hm_map_values_def
      store_new_def)

theorem requests_authenticated_witness:
  "sig_verifies sample_ext (sample_key (Suc 0)) (probe_message 100000) (probe_message 100000)"
proof -
  have "snd (handle_client_request sample_ext [] store_new (frozen 100000) (Probe (sample_probe (Suc 0))) True) \<noteq> store_new"
    using sample_probed_eq by (simp add: sample_probed_def store_new_def tracker_new_def)
  from requests_authenticated [OF this] show ?thesis by (auto simp: sample_probe_auth client_new_def)
qed

text \<open>C17: when the API answers a registration with a token, the host was verified, and
  the name resolves to the key and host of the signed request, under that token.\<close>

theorem registration_installs:
  assumes "store_inv s"
    and "handle_client_request ext drawn s time (Register e) verified = (Some (Registered token), s')"
  shows "verified \<and> (\<exists>reg. lookup s' (register_domain (env_body e)) = Some reg \<and>
    reg_client_key reg = client_key (client_new (env_verifying_key e) (env_rdns e)) \<and>
    reg_token reg = token \<and> reg_quota_key reg = client_quota_key (client_new (env_verifying_key e) (env_rdns e)))"
proof -
  have "handle_register ext drawn s (call 1 time) (now_millis (call 0 time)) e verified = (Some (Registered token), s')"
    using assms(2) by (simp add: handle_client_request_def)
  from registered_holds [OF assms(1) this] show ?thesis by (simp add: lookup_def quota_key_client)
qed

lemma sample_probed_inv: "store_inv sample_probed"
  unfolding sample_probed_def by (rule handle_client_request_inv [OF store_new_inv])

lemma sample_reclaim: "reclaim_stale sample_ext (frozen 100000) sample_probed = sample_probed"
  by (simp add: reclaim_stale_eq drop_hosts_def sample_probed_eq expired_clients_def hm_keys_def hm_retain_def
      saturating_sub_def liveness_window_millis_def store_new_def)

lemma sample_live: "is_live (liveness sample_probed) (client_new k sample_host) (frozen 100000)"
  by (simp add: sample_probed_eq is_live_iff sample_quota_host)

lemma sample_granted:
  "register sample_ext (replicate 8 0) (sample_domain (Suc 0)) (client_new k sample_host) (frozen 100000) sample_probed =
    (Inr (token_issue (replicate 8 0) 100000),
     add_registration (sample_domain (Suc 0)) (client_new k sample_host) (token_issue (replicate 8 0) 100000) sample_probed)"
proof -
  have "\<not> hm_contains_key (registrations sample_probed) (sample_domain (Suc 0))"
    "can_register (liveness sample_probed) (client_new k sample_host) (frozen 100000)"
    using sample_live [of k]
    by (simp_all add: can_register_def registration_count_eq count_of_def max_registrations_per_client_def
        sample_probed_eq hm_contains_key_def)
  then show ?thesis
    using sample_live [of k] by (simp add: register_def sample_reclaim Let_def add_registration_def)
qed

lemma sample_registered:
  "fst (handle_client_request sample_ext (replicate 8 0) sample_probed (frozen 100000) (Register (sample_register (Suc 0))) True) =
    Some (Registered (token_issue (replicate 8 0) 100000))"
  by (simp add: handle_client_request_def handle_register_def Let_def sample_register_auth sample_granted
      last_probe_evidence_def add_registration_def) (simp add: sample_probed_eq)

theorem registration_installs_witness:
  "\<exists>reg. lookup (snd (handle_client_request sample_ext (replicate 8 0) sample_probed (frozen 100000)
      (Register (sample_register (Suc 0))) True)) (sample_domain (Suc 0)) = Some reg \<and> reg_token reg = token_issue (replicate 8 0) 100000"
proof -
  have "handle_client_request sample_ext (replicate 8 0) sample_probed (frozen 100000) (Register (sample_register (Suc 0))) True
      = (Some (Registered (token_issue (replicate 8 0) 100000)), snd (handle_client_request sample_ext (replicate 8 0)
          sample_probed (frozen 100000) (Register (sample_register (Suc 0))) True))"
    using sample_registered by (metis prod.collapse)
  from registration_installs [OF sample_probed_inv this] show ?thesis by auto
qed


definition sample_ip :: ip_addr where "sample_ip = IpV4 [10, 0, 0, 7]"

text \<open>A network whose resolvers answer reverse queries with the sample host, forward queries with the
  sample address.\<close>

definition sample_net :: dns_network where
  "sample_net = \<lparr>exchange = (\<lambda>path _ _. case path of 0 # _ \<Rightarrow> Some (resolver_response 7 [lit ''x''] rr_ptr 60 [PtrName [sample_host]])
      | _ \<Rightarrow> Some (resolver_response 7 [sample_host] rr_a 60 [RawData rr_a [10, 0, 0, 7]])), drawn_id = (\<lambda>_. 7)\<rparr>"





text \<open>C20: records are set exactly for the holder of the name: the request's key and host
  are the registration's, its signature verifies over name, records and time, the name then
  resolves to these records, and no other name's registration changes.\<close>

theorem records_only_by_owner:
  assumes "handle_client_request ext drawn s time (SetRecords e) verified = (Some RecordsSet, s')"
  shows "map_option reg_client_key (lookup s (records_domain (env_body e))) =
      Some (client_key (client_new (env_verifying_key e) (env_rdns e))) \<and>
    sig_verifies ext (env_verifying_key e)
      (set_records_message ext (records_domain (env_body e)) (records_records (env_body e)) (env_timestamp_millis e))
      (env_signature e) \<and>
    map_option reg_records (lookup s' (records_domain (env_body e))) = Some (records_records (env_body e)) \<and>
    (d = records_domain (env_body e) \<or> lookup s' d = lookup s d)"
proof -
  have "handle_set_records ext s (now_millis (call 0 time)) e = (Some RecordsSet, s')"
    using assms by (simp add: handle_client_request_def)
  from set_records_owner [OF this] show ?thesis by (auto simp: lookup_def)
qed

definition sample_record :: zone_record where
  "sample_record = \<lparr>record_name = lit ''@'', record_type_of = RecA, ttl_secs = 60, record_value = lit ''1.2.3.4''\<rparr>"

definition sample_set_records :: "set_records_body signed_envelope" where
  "sample_set_records = \<lparr>env_verifying_key = sample_key (Suc 0), env_rdns = sample_host, env_timestamp_millis = 100000,
    env_signature = set_records_message sample_ext (sample_domain (Suc 0)) [sample_record] 100000,
    env_body = \<lparr>records_domain = sample_domain (Suc 0), records_records = [sample_record]\<rparr>\<rparr>"

lemma sample_set_records_fields [simp]: "records_domain (env_body sample_set_records) = sample_domain (Suc 0)"
    "records_records (env_body sample_set_records) = [sample_record]" "env_timestamp_millis sample_set_records = 100000"
    "env_signature sample_set_records = set_records_message sample_ext (sample_domain (Suc 0)) [sample_record] 100000"
  by (simp_all add: sample_set_records_def)

definition sample_updated :: registry_store where
  "sample_updated = snd (handle_client_request sample_ext [] sample_store (frozen 100000) (SetRecords sample_set_records) True)"

lemma sample_updated_by:
  "handle_client_request sample_ext [] sample_store (frozen 100000) (SetRecords sample_set_records) True =
    (Some RecordsSet, sample_updated)"
proof -
  have auth: "authenticate sample_ext sample_set_records
      (set_records_message sample_ext (sample_domain (Suc 0)) [sample_record] 100000) 100000 =
        Inr (client_new (sample_key (Suc 0)) sample_host)"
    by (simp add: authenticate_Inr sample_set_records_def is_fresh_iff sample_ext_def sample_key_def)
  have "fst (set_records (sample_domain (Suc 0)) (client_new (sample_key (Suc 0)) sample_host) [sample_record] sample_store)"
    using sample_store_lookup by (simp add: set_records_def registration_from_rumor_def sample_rumor_def)
  then have "fst (handle_client_request sample_ext [] sample_store (frozen 100000) (SetRecords sample_set_records) True) = Some RecordsSet"
    by (cases "set_records (sample_domain (Suc 0)) (client_new (sample_key (Suc 0)) sample_host) [sample_record] sample_store")
      (simp add: handle_client_request_def handle_set_records_def Let_def auth)
  then show ?thesis unfolding sample_updated_def by (metis prod.collapse)
qed

theorem records_only_by_owner_witness:
  "map_option reg_records (lookup sample_updated (sample_domain (Suc 0))) = Some [sample_record]"
  using records_only_by_owner [OF sample_updated_by] by simp

text \<open>C22: an owner's update of the records of a leased name is answered as done, and
  loses the name: the claim keeps the old records under the new signature, which does not verify for them,
  so the next reclaim, which any registration attempt runs, releases the name (when no other host claims it).\<close>

theorem record_update_loses_name:
  assumes "store_inv s" "lookup s d = Some reg" "reg_rumor reg \<noteq> None"
    and "hm_get (claims_of s (reg_quota_key reg)) d = Some c"
    and "\<And>q. q \<noteq> reg_quota_key reg \<Longrightarrow> hm_get (claims_of s q) d = None"
    and "handle_client_request ext drawn s time (SetRecords e) verified = (Some RecordsSet, s')"
    and "records_domain (env_body e) = d"
    and "\<not> sig_verifies ext (rumor_owner_key c)
      (set_records_message ext d (rumor_records c) (env_timestamp_millis e)) (env_signature e)"
  shows "map_option reg_records (lookup s' d) = Some (records_records (env_body e)) \<and>
    lookup (reclaim_stale ext time' s') d = None"
proof -
  have set: "handle_set_records ext s (now_millis (call 0 time)) e = (Some RecordsSet, s')"
    using assms(6) by (simp add: handle_client_request_def)
  from set_records_loses_name [OF assms(1) _ assms(3-5) set assms(7,8)] set_records_owner(3) [OF set] assms(2,7)
  show ?thesis by (simp add: lookup_def)
qed

theorem record_update_loses_name_witness:
  "lookup (reclaim_stale sample_ext (frozen 100000) sample_updated) (sample_domain (Suc 0)) = None"
proof -
  let ?reg = "registration_from_rumor (sample_rumor (Suc 0)) sample_host"
  have reg: "lookup sample_store (sample_domain (Suc 0)) = Some ?reg" "reg_rumor ?reg \<noteq> None"
    "reg_quota_key ?reg = sample_host"
    using sample_store_lookup by (simp_all add: lookup_def registration_from_rumor_def)
  have claims: "claims_of sample_store q = (if q = sample_host then [(sample_domain (Suc 0), sample_rumor (Suc 0))] else [])" for q
    by (simp add: sample_store_eq one_lease_def claims_of_def)
  have claim: "hm_get (claims_of sample_store (reg_quota_key ?reg)) (sample_domain (Suc 0)) = Some (sample_rumor (Suc 0))"
    by (simp add: claims reg(3))
  have only: "hm_get (claims_of sample_store q) (sample_domain (Suc 0)) = None" if "q \<noteq> reg_quota_key ?reg" for q
    using that by (simp add: claims reg(3) hm_get_def)
  have stale: "\<not> sig_verifies sample_ext (rumor_owner_key (sample_rumor (Suc 0))) (set_records_message sample_ext (sample_domain (Suc 0))
      (rumor_records (sample_rumor (Suc 0))) (env_timestamp_millis sample_set_records)) (env_signature sample_set_records)"
    by (simp add: sample_ext_def set_records_message_def sample_rumor_def)
  from record_update_loses_name [OF sample_store_inv reg(1,2) claim only sample_updated_by _ stale]
  show ?thesis by simp
qed

text \<open>C27: a probe's signature does not cover the host, and hosts of probes are
  not verified: whoever has one accepted probe has it accepted under any host name it likes, and that host
  then counts as live for every key.\<close>

theorem probe_signature_for_any_host:
  assumes "fst (handle_probe ext s time now envelope) = Some ProbeAck"
  shows "\<exists>s''. handle_probe ext s' time' now (envelope\<lparr>env_rdns := host\<rparr>) = (Some ProbeAck, s'') \<and>
    is_live (liveness s'') (client_new k host) time'"
proof -
  obtain s'' where s'': "handle_probe ext s' time' now (envelope\<lparr>env_rdns := host\<rparr>) = (Some ProbeAck, s'')"
    using probe_any_host [OF assms, of s' time' host] by (metis prod.collapse)
  from probe_makes_live [OF s'', of time' k] s'' show ?thesis by simp
qed

lemma sample_probe_acked: "fst (handle_probe sample_ext s time 100000 (sample_probe k)) = Some ProbeAck"
  by (simp add: handle_probe_def Let_def sample_probe_auth)

theorem probe_signature_for_any_host_witness:
  "\<exists>s''. handle_probe sample_ext store_new (frozen 100000) 100000 (sample_probe (Suc 0)\<lparr>env_rdns := lit ''bank''\<rparr>)
      = (Some ProbeAck, s'') \<and> is_live (liveness s'') (client_new (sample_key 2) (lit ''bank'')) (frozen 100000)"
  by (rule probe_signature_for_any_host [OF sample_probe_acked [of store_new "frozen 100000" "Suc 0"]])

text \<open>C23: a registration that the store grants to a key that has not probed itself
  (its host is live because another key of the host probed) panics the handler: no response is sent,
  the name stays registered, and the client API answers no datagram from then on.\<close>

theorem registration_panic_stops_api:
  assumes running: "api_running n" and allowed: "fst (allow_at (env_round env) sender now (api_limiter n))"
    and packet: "decode (request_from_slice env) (take max_datagram_bytes packet) = Inr (Register e)"
    and auth: "authenticate (env_ext env) e
      (register_message (register_domain (env_body e)) (env_timestamp_millis e)) (now_millis (call 0 time)) = Inr identity"
    and verified: "verify net (node_verifier n) (sock_ip sender) (env_rdns e)"
    and granted: "register (env_ext env) drawn (register_domain (env_body e)) identity (call 0 (call 1 time)) (node_store n)
      = (Inr token, s')"
    and no_probe: "hm_get (probe_evidence (node_store n)) (client_key identity) = None"
  shows "\<exists>n'. client_api_recv env now net drawn time sender packet n = (n', []) \<and> node_store n' = s' \<and>
    client_api_recv env now' net' drawn' time' sender' packet' n' = (n', [])"
proof -
  obtain l where l: "allow_at (env_round env) sender now (api_limiter n) = (True, l)"
    using allowed by (metis prod.collapse)
  have "handle_client_request (env_ext env) drawn (node_store n) time (Register e) True = (None, s')"
    using register_panics [OF auth TrueI granted no_probe] by (simp add: handle_client_request_def)
  then have "client_api_recv env now net drawn time sender packet n =
      (n\<lparr>api_limiter := l, node_store := s', api_running := False\<rparr>, [])"
    unfolding client_api_step [OF running l packet] by (simp add: verified)
  then show ?thesis by (simp add: api_stopped)
qed

definition sample_addr :: socket_addr where "sample_addr = socket_addr_new sample_ip 1"

lemma fresh_limiter_allows: "fst (allow_at (\<lambda>x. x) sender now new_rate_limiter)"
proof -
  have l: "buckets new_rate_limiter = []" "capacity new_rate_limiter = 20" "max_tracked_keys new_rate_limiter = 100000"
    using new_rate_limiter_standard by (simp_all add: standard_limiter_def) (simp add: new_rate_limiter_def limiter_new_def)
  have "refill (\<lambda>x. x) 20 per_sec now \<lparr>tokens = 20, last_refill = now\<rparr> = 20" for per_sec
    by (simp add: refill_def as_secs_f64_def)
  with l show ?thesis unfolding allow_at_def Let_def by (simp add: hm_get_def)
qed

lemma sample_keys_differ: "client_key (client_new (sample_key 2) sample_host) \<noteq> client_key (client_new (sample_key (Suc 0)) sample_host)"
  by (simp add: client_keys_distinct client_new_def sample_key_def)

theorem registration_panic_stops_api_witness:
  "\<exists>n'. client_api_recv (sample_env\<lparr>request_from_slice := \<lambda>_. Inr (Register (sample_register 2))\<rparr>) 0 sample_net
      (replicate 8 0) (frozen 100000) sample_addr [] ((new_allowing_any_rdns [])\<lparr>node_store := sample_probed\<rparr>) = (n', []) \<and>
    lookup (node_store n') (sample_domain (Suc 0)) \<noteq> None"
proof -
  let ?n = "(new_allowing_any_rdns [])\<lparr>node_store := sample_probed\<rparr>"
  let ?env = "sample_env\<lparr>request_from_slice := \<lambda>_. Inr (Register (sample_register 2))\<rparr>"
  have run: "api_running ?n" "fst (allow_at (env_round ?env) sample_addr 0 (api_limiter ?n))"
    using fresh_limiter_allows by (simp_all add: new_allowing_any_rdns_def new_with_verifier_def sample_env_def)
  have packet: "decode (request_from_slice ?env) (take max_datagram_bytes []) = Inr (Register (sample_register 2))"
    by (simp add: decode_def)
  have auth: "authenticate (env_ext ?env) (sample_register 2) (register_message (register_domain (env_body (sample_register 2)))
      (env_timestamp_millis (sample_register 2))) (now_millis (call 0 (frozen 100000))) = Inr (client_new (sample_key 2) sample_host)"
    by (simp add: sample_register_auth sample_env_def)
  have verified: "verify sample_net (node_verifier ?n) (sock_ip sample_addr) (env_rdns (sample_register 2))"
    by (simp add: new_allowing_any_rdns_def new_with_verifier_def)
  have granted: "register (env_ext ?env) (replicate 8 0) (register_domain (env_body (sample_register 2)))
      (client_new (sample_key 2) sample_host) (call 0 (call 1 (frozen 100000))) (node_store ?n) = (Inr (token_issue (replicate 8 0) 100000),
      add_registration (sample_domain (Suc 0)) (client_new (sample_key 2) sample_host) (token_issue (replicate 8 0) 100000) sample_probed)"
    by (simp add: sample_granted sample_env_def)
  have none: "hm_get (probe_evidence (node_store ?n)) (client_key (client_new (sample_key 2) sample_host)) = None"
    using sample_keys_differ by (simp add: sample_probed_eq)
  from registration_panic_stops_api [OF run packet auth verified granted none, of 0 sample_net "[]" "frozen 0" sample_addr "[]"]
  show ?thesis by (force simp: lookup_def add_registration_def)
qed

section \<open>Gossip\<close>

text \<open>A gossip datagram changes the registrations only when it is a response from a peer
  this node challenged: it answers the challenge, carries only names that were requested, each once, and the
  challenge is used up.\<close>

theorem gossip_needs_challenge:
  assumes "node_store (fst (gossip_recv env now draws time sender packet n)) \<noteq> node_store n"
  shows "\<exists>rumors challenge requested instant.
    decode (gossip_from_slice env) (take max_datagram_bytes packet) = Inr (Rumors rumors (expected_answer challenge)) \<and>
    hm_get (pending_challenges n) sender = Some (challenge, requested, instant) \<and>
    distinct (map rumor_domain rumors) \<and> set (map rumor_domain rumors) \<subseteq> set requested \<and>
    hm_get (pending_challenges (fst (gossip_recv env now draws time sender packet n))) sender = None"
  by (rule gossip_change [OF assms])

definition sample_challenge :: conformance_challenge where
  "sample_challenge = challenge_random (replicate 8 0) (replicate 8 1) True 100000"

definition sample_draws :: gossip_draws where
  "sample_draws = \<lparr>draw_nonce_a = replicate 8 0, draw_nonce_b = replicate 8 1, draw_coin = True, draw_instant = 0\<rparr>"

lemma sample_adopted: "lookup (snd (adopt_rumor sample_ext (sample_rumor (Suc 0)) (frozen 100000) store_new)) (sample_domain (Suc 0)) =
    Some (registration_from_rumor (sample_rumor (Suc 0)) sample_host)"
  using sample_store_lookup by (simp add: sample_store_def lookup_def)

definition sample_response_env :: node_env where
  "sample_response_env =
    sample_env\<lparr>gossip_from_slice := \<lambda>_. Inr (Rumors [sample_rumor (Suc 0)] (expected_answer sample_challenge))\<rparr>"

definition sample_challenger :: node where
  "sample_challenger =
    (node_new [])\<lparr>pending_challenges := [(sample_addr, sample_challenge, [sample_domain (Suc 0)], 0)]\<rparr>"

lemma sample_response_changes:
  "node_store (fst (gossip_recv sample_response_env 0 sample_draws (frozen 100000) sample_addr [] sample_challenger))
    \<noteq> node_store sample_challenger"
proof -
  obtain l where l: "allow_at (\<lambda>x. x) sample_addr 0 new_rate_limiter = (True, l)"
    using fresh_limiter_allows by (metis prod.collapse)
  have "node_store (fst (gossip_recv sample_response_env 0 sample_draws (frozen 100000) sample_addr [] sample_challenger)) =
      snd (adopt_rumor sample_ext (sample_rumor (Suc 0)) (frozen 100000) store_new)"
    by (simp add: gossip_recv_def Let_def sample_response_env_def sample_challenger_def sample_env_def node_new_def
        new_with_verifier_def l decode_def max_digest_entries_def is_valid_rumor_response_def)
  with sample_adopted show ?thesis by (force simp: sample_challenger_def node_new_def new_with_verifier_def lookup_def)
qed

theorem gossip_needs_challenge_witness:
  "hm_get (pending_challenges (fst (gossip_recv sample_response_env 0 sample_draws (frozen 100000) sample_addr []
    sample_challenger))) sample_addr = None"
  using gossip_needs_challenge [OF sample_response_changes] by blast



text \<open>One exchange copies a live lease. A node that lacks the one name of a peer's digest
  requests it with a fresh challenge; the peer answers with its lease and the token that settles the
  challenge; the requesting node, whose claims of the host leave room, then resolves the name to the
  lease's holder, token and records.\<close>

theorem exchange_replicates:
  assumes a: "store_inv (node_store a)" "lookup (node_store a) d = Some reg" "reg_rumor reg = Some r"
    and r: "live_at (env_ext env) t r" and b: "store_inv (node_store b)" "lookup (node_store b) d = None"
    and fresh: "d \<notin> fst ` set (claims_of (node_store b) (quota_key (rumor_rdns r)))"
    and room: "length (claims_of (node_store b) (quota_key (rumor_rdns r))) < 5"
    and asks: "handle_gossip_message env draws (\<lambda>_. t) addr_a
      (Digest [\<lparr>entry_domain = d, entry_issued_at_millis = issued_at_millis (reg_token reg)\<rparr>]) b = (b', request)"
  shows "\<exists>challenge. request = send_encoded (gossip_to_vec env) (Request [d] challenge) addr_a \<and>
    handle_gossip_message env draws' time' addr_b (Request [d] challenge) a =
      (a, send_encoded (gossip_to_vec env) (Rumors [r] (expected_answer challenge)) addr_b) \<and>
    lookup (node_store (fst (handle_gossip_message env draws'' (\<lambda>_. t) addr_a
      (Rumors [r] (expected_answer challenge)) b'))) d = Some (registration_from_rumor r (quota_key (rumor_rdns r)))"
proof -
  let ?c = "challenge_random (draw_nonce_a draws) (draw_nonce_b draws) (draw_coin draws) (now_millis (\<lambda>_. t))"
  from asks have b': "b' = b\<lparr>pending_challenges := admit_pending (pending_challenges b) (addr_a, ?c, [d], draw_instant draws)\<rparr>"
    and request: "request = send_encoded (gossip_to_vec env) (Request [d] ?c) addr_a"
    unfolding digest_requests [OF b(2)] by simp_all
  have pending: "hm_get (pending_challenges b') addr_a = Some (?c, [d], draw_instant draws)"
    using admit_pending_get [of "pending_challenges b" "(addr_a, ?c, [d], draw_instant draws)"] by (simp add: b')
  have rd: "rumor_domain r = d"
    using store_inv_exceptD(7) [OF a(1) [unfolded store_inv_def], of d reg r] a(2,3)
    by (simp add: leased_ok_def lookup_def)
  have "lookup (node_store (fst (handle_gossip_message env draws'' (\<lambda>_. t) addr_a
      (Rumors [r] (expected_answer ?c)) b'))) d = Some (registration_from_rumor r (quota_key (rumor_rdns r)))"
    by (rule exchange_installs [OF _ r rd refl _ _ _ pending]) (use b fresh room in \<open>simp_all add: b'\<close>)
  with request requested_rumors_one [OF a] show ?thesis by auto
qed

theorem exchange_replicates_witness:
  "\<exists>challenge. lookup (node_store (fst (handle_gossip_message sample_env sample_draws (\<lambda>_. 100000) sample_addr
    (Rumors [sample_rumor (Suc 0)] (expected_answer challenge)) (fst (handle_gossip_message sample_env sample_draws
      (\<lambda>_. 100000) sample_addr (Digest [\<lparr>entry_domain = sample_domain (Suc 0), entry_issued_at_millis = 1\<rparr>]) (node_new []))))))
    (sample_domain (Suc 0)) = Some (registration_from_rumor (sample_rumor (Suc 0)) sample_host)"
proof -
  let ?a = "(node_new [])\<lparr>node_store := sample_store\<rparr>"
  have b: "store_inv (node_store (node_new []))" "lookup (node_store (node_new [])) (sample_domain (Suc 0)) = None"
    "claims_of (node_store (node_new [])) q = []" for q
    by (simp_all add: node_new_def new_with_verifier_def store_new_inv lookup_def)
  have a: "store_inv (node_store ?a)"
    "lookup (node_store ?a) (sample_domain (Suc 0)) = Some (registration_from_rumor (sample_rumor (Suc 0)) sample_host)"
    using sample_store_inv sample_store_lookup by (simp_all add: lookup_def)
  have rumor: "reg_rumor (registration_from_rumor (sample_rumor (Suc 0)) sample_host) = Some (sample_rumor (Suc 0))"
    "issued_at_millis (reg_token (registration_from_rumor (sample_rumor (Suc 0)) sample_host)) = 1"
    by (simp_all add: registration_from_rumor_def) (simp add: sample_rumor_def sample_token_def)
  have live: "live_at (env_ext sample_env) 100000 (sample_rumor (Suc 0))"
    using sample_rumor_live by (simp add: sample_env_def)
  from exchange_replicates [OF a rumor(1) live b(1,2) _ _ prod.collapse [symmetric], of sample_draws sample_addr
      sample_draws "\<lambda>_. 0" sample_addr sample_draws] b(3) sample_quota rumor(2)
  show ?thesis by (auto simp del: handle_gossip_message.simps)
qed



section \<open>Lookups\<close>



end
